(* ===== verification/Prelude.thy ===== *)
theory Prelude
  imports Complex_Main "HOL-Library.Char_ord" "HOL-Library.List_Lexorder"
begin

text \<open>
  Shared vocabulary of the development.

  The theory fixes how Python is read in HOL:
  \<^item> \<open>py_exc\<close> names every exception class the modelled code raises, and the two
    predicates \<open>is_ValueError\<close> and \<open>is_RuntimeError\<close> state the part of the class
    hierarchy that the code's \<open>except\<close> clauses rely on;
  \<^item> a function with effects is an \<open>action\<close>: it takes a state and returns either an
    exception or a value, together with the state it leaves. \<open>bnd\<close> is the sequencing
    of two statements, \<open>raise\<close> a raise statement, \<open>try_except\<close> a try statement;
  \<^item> strings are \<open>char\<close> lists, and the string methods the code uses are defined on
    ASCII strings;
  \<^item> \<open>collect_reasons\<close> is the idiom \<open>if c: reasons.append(r)\<close> that every gate of the
    code is written in.
\<close>

named_theorems act_simps \<open>evaluation of actions\<close>
named_theorems frame_simps \<open>components an operation leaves unchanged\<close>

section \<open>Exceptions\<close>

datatype py_exc =
    ValueError string
  | KeyError string
  | AttributeError
  | TypeError
  | OverflowError
  | InvalidOperation
  | IntegrityError
  | RedisError
  | RuntimeError string
  | NotImplementedError string
  | EmergencyStopEnabledError string
  | InvalidOrderStateTransitionError string
  | TestnetOrderEventValidationError string
  | TestnetOrderRequestBlockedError string
  | TestnetOrderApiBlockedError "string list"
  | TestnetOrderWindowApprovalBlockedError "string list"
  | TestnetOrderWindowAuthorizationError "string list"
  | TestnetOrderIdempotencyConflictError string
  | TestnetOrderRiskRejectedError string
  | TestnetExchangeOrderRejectedError string
  | TestnetOrderReconciliationBlockedError string
  | TestnetAccountStateSyncError string
  | TestnetAdapterDisabledError string
  | TestnetAdapterCredentialsError string
  | TestnetAdapterNotImplementedError string
  | TestnetTradingNotSupportedError string
  | TestnetReadOnlyCheckBlockedError "string list"
  | TestnetReadOnlyAccountNotFoundError string
  | TestnetReadOnlyAuthenticationError string
  | RealReadOnlyCheckBlockedError "string list"
  | RealReadOnlyAccountNotFoundError string
  | RealReadOnlyAuthenticationError string "string option"
  | RealBalancesBlockedError "string list"
  | RealBalancesAuthenticationError string "string option"
  | RealOpenOrdersBlockedError "string list"
  | RealOpenOrdersAuthenticationError string "string option"
  | TestnetUserStreamActivationError string
  | TestnetUserStreamBlockedError string
  | TestnetUserStreamNotSupportedError string
  | TestnetWebSocketTransportError string
  | ExchangeHttpRequestError string "int option" "string option"
  | RateLimitExceededError string int
  | RateLimitStoreUnavailableError
  | ExternalNotificationChannelDisabledError string
  | SensitiveNotificationPayloadError string
  | ExternalNotificationPreferenceDisabledError string
  | DuplicateUserError string
  | PasswordChangeError string
  | ReauthenticationError string
  | MfaRequiredError string
  | MfaEnrollmentError string
  | MfaVerificationError string
  | SuperAdminAlreadyExistsError string
  | SuperAdminInputError string
  | SuperAdminBootstrapDisabledError string
  | Phase4SmallFundReviewBlockedError "string list"
  | Phase4SmallFundOrderWindowBlockedError "string list"
  | Phase4FinalReleaseCheckBlockedError "string list"
  | HTTPException int "string list"

text \<open>
  \<open>except ValueError\<close> also catches \<open>TestnetOrderEventValidationError\<close>, \<open>TestnetReadOnlyAccountNotFoundError\<close>,
  \<open>RealReadOnlyAccountNotFoundError\<close> and the exceptions of the user services, which derive from it. \<open>except RuntimeError\<close> catches the classes declared with that base, and
  \<open>NotImplementedError\<close>, which is a subclass of it in the language. \<open>HTTPException\<close>,
  \<open>IntegrityError\<close>, \<open>RedisError\<close>, \<open>InvalidOperation\<close>, \<open>OverflowError\<close>, \<open>KeyError\<close>, \<open>TypeError\<close> and
  \<open>AttributeError\<close> are caught by neither.
\<close>

fun is_ValueError :: "py_exc \<Rightarrow> bool" where
  "is_ValueError (ValueError _) = True"
| "is_ValueError (TestnetOrderEventValidationError _) = True"
| "is_ValueError (TestnetReadOnlyAccountNotFoundError _) = True"
| "is_ValueError (RealReadOnlyAccountNotFoundError _) = True"
| "is_ValueError (DuplicateUserError _) = True"
| "is_ValueError (PasswordChangeError _) = True"
| "is_ValueError (ReauthenticationError _) = True"
| "is_ValueError (MfaRequiredError _) = True"
| "is_ValueError (MfaEnrollmentError _) = True"
| "is_ValueError (MfaVerificationError _) = True"
| "is_ValueError (SuperAdminAlreadyExistsError _) = True"
| "is_ValueError (SuperAdminInputError _) = True"
| "is_ValueError _ = False"

fun is_RuntimeError :: "py_exc \<Rightarrow> bool" where
  "is_RuntimeError (ValueError _) = False"
| "is_RuntimeError (TestnetOrderEventValidationError _) = False"
| "is_RuntimeError (TestnetReadOnlyAccountNotFoundError _) = False"
| "is_RuntimeError (RealReadOnlyAccountNotFoundError _) = False"
| "is_RuntimeError (DuplicateUserError _) = False"
| "is_RuntimeError (PasswordChangeError _) = False"
| "is_RuntimeError (ReauthenticationError _) = False"
| "is_RuntimeError (MfaRequiredError _) = False"
| "is_RuntimeError (MfaEnrollmentError _) = False"
| "is_RuntimeError (MfaVerificationError _) = False"
| "is_RuntimeError (SuperAdminAlreadyExistsError _) = False"
| "is_RuntimeError (SuperAdminInputError _) = False"
| "is_RuntimeError (KeyError _) = False"
| "is_RuntimeError AttributeError = False"
| "is_RuntimeError TypeError = False"
| "is_RuntimeError OverflowError = False"
| "is_RuntimeError InvalidOperation = False"
| "is_RuntimeError IntegrityError = False"
| "is_RuntimeError RedisError = False"
| "is_RuntimeError (HTTPException _ _) = False"
| "is_RuntimeError _ = True"

lemma not_ValueError_and_RuntimeError: "\<not> (is_ValueError e \<and> is_RuntimeError e)"
  by (cases e) auto

section \<open>Actions: state, exceptions, sequencing\<close>

type_synonym 'a result = "py_exc + 'a"
type_synonym ('s, 'a) action = "'s \<Rightarrow> 'a result \<times> 's"

definition ret :: "'a \<Rightarrow> ('s, 'a) action" where
  "ret a s = (Inr a, s)"

definition raise :: "py_exc \<Rightarrow> ('s, 'a) action" where
  "raise e s = (Inl e, s)"

definition bnd :: "('s, 'a) action \<Rightarrow> ('a \<Rightarrow> ('s, 'b) action) \<Rightarrow> ('s, 'b) action" where
  "bnd m f s = (case m s of (Inl e, s') \<Rightarrow> (Inl e, s') | (Inr a, s') \<Rightarrow> f a s')"

definition reads :: "('s \<Rightarrow> 'a) \<Rightarrow> ('s, 'a) action" where
  "reads f s = (Inr (f s), s)"

definition modify :: "('s \<Rightarrow> 's) \<Rightarrow> ('s, unit) action" where
  "modify f s = (Inr (), f s)"

definition lift_result :: "'a result \<Rightarrow> ('s, 'a) action" where
  "lift_result r s = (r, s)"

text \<open>
  \<open>try_except m h\<close>: run \<open>m\<close>; an exception \<open>e\<close> with \<open>h e = Some k\<close> is caught and \<open>k\<close>
  runs in the state \<open>m\<close> left, any other exception passes through.
\<close>

definition try_except ::
    "('s, 'a) action \<Rightarrow> (py_exc \<Rightarrow> ('s, 'a) action option) \<Rightarrow> ('s, 'a) action" where
  "try_except m h s = (case m s of
      (Inr a, s') \<Rightarrow> (Inr a, s')
    | (Inl e, s') \<Rightarrow> (case h e of None \<Rightarrow> (Inl e, s') | Some k \<Rightarrow> k s'))"

text \<open>A \<open>for\<close> loop whose body is an action, collecting the results in order.\<close>

fun map_act :: "('a \<Rightarrow> ('s, 'b) action) \<Rightarrow> 'a list \<Rightarrow> ('s, 'b list) action" where
  "map_act f [] = ret []"
| "map_act f (x # xs) = bnd (f x) (\<lambda>y. bnd (map_act f xs) (\<lambda>ys. ret (y # ys)))"

text \<open>Sequencing of pure code that may raise.\<close>

definition bndr :: "'a result \<Rightarrow> ('a \<Rightarrow> 'b result) \<Rightarrow> 'b result" where
  "bndr r f = (case r of Inl e \<Rightarrow> Inl e | Inr a \<Rightarrow> f a)"

fun map_res :: "('a \<Rightarrow> 'b result) \<Rightarrow> 'a list \<Rightarrow> 'b list result" where
  "map_res f [] = Inr []"
| "map_res f (x # xs) = bndr (f x) (\<lambda>y. bndr (map_res f xs) (\<lambda>ys. Inr (y # ys)))"

lemma bnd_ret [simp]: "bnd (ret a) f = f a"
  by (rule ext) (simp add: bnd_def ret_def)

lemma bnd_raise [simp]: "bnd (raise e) f = raise e"
  by (rule ext) (simp add: bnd_def raise_def)

lemma bnd_Pair [simp]: "bnd (Pair (Inr a)) f = f a" "bnd (Pair (Inl e)) f = Pair (Inl e)"
  by (auto simp: bnd_def)

lemma bnd_assoc: "bnd (bnd m f) g = bnd m (\<lambda>a. bnd (f a) g)"
  by (rule ext) (auto simp: bnd_def split: prod.splits sum.splits)

lemma bndr_simps [simp]: "bndr (Inl e) f = Inl e" "bndr (Inr a) f = f a"
  by (simp_all add: bndr_def)

lemma bndr_eq_Inr [simp]: "bndr r f = Inr b \<longleftrightarrow> (\<exists>a. r = Inr a \<and> f a = Inr b)"
  by (cases r) auto

lemma bnd_eq_Inr:
  "bnd m f s = (Inr b, s'') \<longleftrightarrow> (\<exists>a s'. m s = (Inr a, s') \<and> f a s' = (Inr b, s''))"
  by (auto simp: bnd_def split: prod.splits sum.splits)

lemma bnd_InrE:
  assumes "bnd m f s = (Inr b, s'')"
  obtains a s' where "m s = (Inr a, s')" and "f a s' = (Inr b, s'')"
  using assms by (auto simp: bnd_eq_Inr)

lemma ret_apply [act_simps, simp]: "ret a s = (Inr a, s)"
  by (simp add: ret_def)

lemma raise_apply [act_simps, simp]: "raise e s = (Inl e, s)"
  by (simp add: raise_def)

lemma reads_apply [act_simps, simp]: "reads f s = (Inr (f s), s)"
  by (simp add: reads_def)

lemma modify_apply [act_simps, simp]: "modify f s = (Inr (), f s)"
  by (simp add: modify_def)

lemma lift_result_apply [act_simps, simp]: "lift_result r s = (r, s)"
  by (simp add: lift_result_def)

lemma bnd_Inr [act_simps]: "m s = (Inr a, s') \<Longrightarrow> bnd m f s = f a s'"
  by (simp add: bnd_def)

lemma bnd_Inl [act_simps]: "m s = (Inl e, s') \<Longrightarrow> bnd m f s = (Inl e, s')"
  by (simp add: bnd_def)

lemma bnd_reads [act_simps, simp]: "bnd (reads f) g s = g (f s) s"
  by (simp add: bnd_def)

lemma bnd_modify [act_simps, simp]: "bnd (modify f) g s = g () (f s)"
  by (simp add: bnd_def)

lemma bnd_lift_result [act_simps, simp]:
  "bnd (lift_result r) g s = (case r of Inl e \<Rightarrow> (Inl e, s) | Inr a \<Rightarrow> g a s)"
  by (simp add: bnd_def split: sum.splits)

lemma bnd_if [act_simps]:
  "bnd (if c then m else m') f s = (if c then bnd m f s else bnd m' f s)"
  by simp

text \<open>
  An invariant of the state that both parts of a sequence keep is kept by the sequence,
  on the normal and on the exceptional exit.
\<close>

definition keeps :: "('s \<Rightarrow> 's \<Rightarrow> bool) \<Rightarrow> ('s, 'a) action \<Rightarrow> bool" where
  "keeps R m \<longleftrightarrow> (\<forall>s. R s (snd (m s)))"

lemma keepsD: "keeps R m \<Longrightarrow> m s = (r, s') \<Longrightarrow> R s s'"
  unfolding keeps_def by (metis snd_conv)

lemma keeps_ret: "reflp R \<Longrightarrow> keeps R (ret a)"
  by (simp add: keeps_def reflpD)

lemma keeps_raise: "reflp R \<Longrightarrow> keeps R (raise e)"
  by (simp add: keeps_def reflpD)

lemma keeps_reads: "reflp R \<Longrightarrow> keeps R (reads f)"
  by (simp add: keeps_def reflpD)

lemma keeps_lift_result: "reflp R \<Longrightarrow> keeps R (lift_result r)"
  by (simp add: keeps_def reflpD)

lemma keeps_modify: "(\<And>s. R s (f s)) \<Longrightarrow> keeps R (modify f)"
  by (simp add: keeps_def)

lemma keeps_bnd:
  assumes "transp R" and "keeps R m" and "\<And>a. keeps R (f a)"
  shows "keeps R (bnd m f)"
  unfolding keeps_def
proof
  fix s
  obtain r s' where m: "m s = (r, s')" by fastforce
  from assms(2) m have "R s s'" by (rule keepsD)
  show "R s (snd (bnd m f s))"
  proof (cases r)
    case (Inl e)
    with m \<open>R s s'\<close> show ?thesis by (simp add: bnd_def)
  next
    case (Inr a)
    have "R s' (snd (f a s'))" using assms(3) by (simp add: keeps_def)
    with \<open>R s s'\<close> assms(1) have "R s (snd (f a s'))" by (blast dest: transpD)
    with m Inr show ?thesis by (simp add: bnd_def)
  qed
qed

lemma keeps_if: "(c \<Longrightarrow> keeps R m) \<Longrightarrow> (\<not> c \<Longrightarrow> keeps R m') \<Longrightarrow> keeps R (if c then m else m')"
  by simp

lemma keeps_case_option:
  "keeps R m \<Longrightarrow> (\<And>a. keeps R (f a)) \<Longrightarrow> keeps R (case x of None \<Rightarrow> m | Some a \<Rightarrow> f a)"
  by (simp split: option.split)

lemma keeps_map_act:
  "reflp R \<Longrightarrow> transp R \<Longrightarrow> (\<And>x. keeps R (f x)) \<Longrightarrow> keeps R (map_act f xs)"
  by (induction xs) (simp_all add: keeps_ret keeps_bnd)

lemma keeps_try_except:
  assumes "transp R" and "keeps R m" and "\<And>e k. h e = Some k \<Longrightarrow> keeps R k"
  shows "keeps R (try_except m h)"
  unfolding keeps_def
proof
  fix s
  obtain r s' where m: "m s = (r, s')" by fastforce
  from assms(2) m have "R s s'" by (rule keepsD)
  then show "R s (snd (try_except m h s))"
    using m assms(1) assms(3)
    by (cases r) (auto simp: try_except_def keeps_def split: option.split dest: transpD)
qed

section \<open>Reasons of a gate\<close>

text \<open>
  Python: \<^verbatim>\<open>reasons = []\<close>, then a sequence of \<^verbatim>\<open>if c: reasons.append(r)\<close>. The list holds
  the pairs \<open>(c, r)\<close> in the order of the code.
\<close>

fun collect_reasons :: "(bool \<times> string) list \<Rightarrow> string list" where
  "collect_reasons [] = []"
| "collect_reasons ((c, r) # rest) = (if c then r # collect_reasons rest else collect_reasons rest)"

lemma collect_reasons_empty:
  "collect_reasons cs = [] \<longleftrightarrow> (\<forall>(c, r) \<in> set cs. \<not> c)"
  by (induction cs rule: collect_reasons.induct) auto

lemma collect_reasons_append [simp]:
  "collect_reasons (xs @ ys) = collect_reasons xs @ collect_reasons ys"
  by (induction xs rule: collect_reasons.induct) auto

lemma collect_reasons_set:
  "set (collect_reasons cs) = {r. (True, r) \<in> set cs}"
  by (induction cs rule: collect_reasons.induct) auto

text \<open>
  The gates of the program share one contract: the reasons are those of the conditions that hold,
  in order, and the gate approves when there is none.
\<close>

locale reason_gate =
  fixes conds :: "'i \<Rightarrow> (bool \<times> string) list" and reasons :: "'i \<Rightarrow> string list"
    and approves :: "'i \<Rightarrow> bool"
  assumes reasons_collected: "reasons i = collect_reasons (conds i)"
    and approves_empty: "approves i \<longleftrightarrow> reasons i = []"
begin

lemma approves_iff: "approves i \<longleftrightarrow> (\<forall>(c, r) \<in> set (conds i). \<not> c)"
  by (simp add: approves_empty reasons_collected collect_reasons_empty)

lemma reason_given: "(True, r) \<in> set (conds i) \<Longrightarrow> r \<in> set (reasons i) \<and> \<not> approves i"
  by (auto simp: approves_empty reasons_collected collect_reasons_set collect_reasons_empty)

lemma reason_holds: "r \<in> set (reasons i) \<Longrightarrow> (True, r) \<in> set (conds i)"
  by (simp add: reasons_collected collect_reasons_set)

text \<open>An input that meets fewer of the blocking conditions is not refused for a new reason.\<close>

lemma reasons_mono:
  assumes "\<And>c r. (c, r) \<in> set (conds i) \<Longrightarrow> c \<Longrightarrow> (True, r) \<in> set (conds j)"
  shows "set (reasons i) \<subseteq> set (reasons j)"
  using assms by (auto simp: reasons_collected collect_reasons_set)

end

section \<open>ASCII strings\<close>

definition lower_letters :: string where "lower_letters = ''abcdefghijklmnopqrstuvwxyz''"
definition upper_letters :: string where "upper_letters = ''ABCDEFGHIJKLMNOPQRSTUVWXYZ''"
definition digit_chars :: string where "digit_chars = ''0123456789''"

definition upper_char :: "char \<Rightarrow> char" where
  "upper_char c = (case map_of (zip lower_letters upper_letters) c of None \<Rightarrow> c | Some d \<Rightarrow> d)"

definition lower_char :: "char \<Rightarrow> char" where
  "lower_char c = (case map_of (zip upper_letters lower_letters) c of None \<Rightarrow> c | Some d \<Rightarrow> d)"

definition upper :: "string \<Rightarrow> string" where "upper s = map upper_char s"
definition lower :: "string \<Rightarrow> string" where "lower s = map lower_char s"

definition is_space :: "char \<Rightarrow> bool" where
  "is_space c \<longleftrightarrow> c \<in> set [CHR '' '', CHR 0x09, CHR 0x0A, CHR 0x0B, CHR 0x0C, CHR 0x0D,
                          CHR 0x1C, CHR 0x1D, CHR 0x1E, CHR 0x1F]"

definition lstrip :: "string \<Rightarrow> string" where "lstrip s = dropWhile is_space s"
definition strip :: "string \<Rightarrow> string" where "strip s = rev (lstrip (rev (lstrip s)))"

definition startswith :: "string \<Rightarrow> string \<Rightarrow> bool" where
  "startswith s p \<longleftrightarrow> take (length p) s = p"

definition endswith :: "string \<Rightarrow> string \<Rightarrow> bool" where
  "endswith s p \<longleftrightarrow> startswith (rev s) (rev p)"

text \<open>\<open>p in s\<close> for strings.\<close>

fun contains :: "string \<Rightarrow> string \<Rightarrow> bool" where
  "contains [] p = (p = [])"
| "contains (c # s) p = (startswith (c # s) p \<or> contains s p)"

text \<open>\<open>s.replace(p, r)\<close> for non-empty \<open>p\<close>: non-overlapping occurrences from the left.\<close>

function replace :: "string \<Rightarrow> string \<Rightarrow> string \<Rightarrow> string" where
  "replace p r s = (case s of
      [] \<Rightarrow> []
    | c # cs \<Rightarrow> if p \<noteq> [] \<and> startswith s p then r @ replace p r (drop (length p) s)
              else c # replace p r cs)"
  by pat_completeness auto
termination
  by (relation "measure (\<lambda>(p, r, s). length s)") auto

declare replace.simps [simp del]

fun join :: "string \<Rightarrow> string list \<Rightarrow> string" where
  "join sep [] = []"
| "join sep [x] = x"
| "join sep (x # y # zs) = x @ sep @ join sep (y # zs)"

text \<open>\<open>s.split()\<close>: the maximal runs of characters that are not white space.\<close>

function split_ws :: "string \<Rightarrow> string list" where
  "split_ws s = (case lstrip s of
      [] \<Rightarrow> []
    | c # cs \<Rightarrow> (c # takeWhile (\<lambda>x. \<not> is_space x) cs)
              # split_ws (dropWhile (\<lambda>x. \<not> is_space x) cs))"
  by pat_completeness auto
termination
proof (relation "measure length", goal_cases)
  case 1
  show ?case by simp
next
  case (2 s c cs)
  have "length (dropWhile (\<lambda>x. \<not> is_space x) cs) \<le> length cs"
    by (rule length_dropWhile_le)
  also have "\<dots> < length (lstrip s)" using 2 by simp
  also have "\<dots> \<le> length s" by (simp add: lstrip_def length_dropWhile_le)
  finally show ?case by simp
qed

declare split_ws.simps [simp del]

lemma upper_char_idem [simp]: "upper_char (upper_char c) = upper_char c"
  by (simp add: upper_char_def lower_letters_def upper_letters_def)

lemma upper_idem [simp]: "upper (upper s) = upper s"
  by (simp add: upper_def)

lemma upper_Nil [simp]: "upper [] = []"
  by (simp add: upper_def)

lemma length_upper [simp]: "length (upper s) = length s"
  by (simp add: upper_def)

lemma upper_append [simp]: "upper (s @ t) = upper s @ upper t"
  by (simp add: upper_def)

lemma startswith_append [simp]: "startswith (p @ s) p"
  by (simp add: startswith_def)

lemma startswith_iff: "startswith s p \<longleftrightarrow> (\<exists>t. s = p @ t)"
  by (metis append_eq_conv_conj append_take_drop_id startswith_def)

lemma endswith_iff: "endswith s p \<longleftrightarrow> (\<exists>t. s = t @ p)"
  unfolding endswith_def startswith_iff
  by (metis rev_append rev_rev_ident)

lemma contains_iff: "contains s p \<longleftrightarrow> (\<exists>u v. s = u @ p @ v)"
proof (induction s)
  case Nil
  show ?case by auto
next
  case (Cons c s)
  show ?case
  proof
    assume "contains (c # s) p"
    then consider "startswith (c # s) p" | "contains s p" by auto
    then show "\<exists>u v. c # s = u @ p @ v"
    proof cases
      case 1
      then have "\<exists>v. c # s = [] @ p @ v" by (simp add: startswith_iff)
      then show ?thesis by blast
    next
      case 2
      with Cons.IH obtain u v where "s = u @ p @ v" by blast
      then have "c # s = (c # u) @ p @ v" by simp
      then show ?thesis by blast
    qed
  next
    assume "\<exists>u v. c # s = u @ p @ v"
    then obtain u v where uv: "c # s = u @ p @ v" by blast
    show "contains (c # s) p"
    proof (cases u)
      case Nil
      with uv have "startswith (c # s) p" by (auto simp: startswith_iff)
      then show ?thesis by simp
    next
      case (Cons d u')
      with uv have "s = u' @ p @ v" by simp
      with Cons.IH show ?thesis by auto
    qed
  qed
qed

lemma is_space_strip_free: "(\<forall>c \<in> set s. \<not> is_space c) \<Longrightarrow> strip s = s"
proof -
  assume a: "\<forall>c \<in> set s. \<not> is_space c"
  have "lstrip t = t" if "\<forall>c \<in> set t. \<not> is_space c" for t
    using that by (cases t) (simp_all add: lstrip_def)
  with a show ?thesis by (simp add: strip_def)
qed

section \<open>Lists\<close>

lemma find_append: "List.find P (xs @ ys) = (case List.find P xs of None \<Rightarrow> List.find P ys | Some x \<Rightarrow> Some x)"
  by (induction xs) auto

lemma find_SomeD: "List.find P xs = Some x \<Longrightarrow> x \<in> set xs \<and> P x"
  by (induction xs) (auto split: if_splits)

lemma find_None_filter: "List.find P xs = None \<longleftrightarrow> filter P xs = []"
  by (induction xs) auto

lemma find_map_same:
  assumes "\<And>x. x \<in> set xs \<Longrightarrow> P (f x) = P x"
  shows "List.find P (map f xs) = map_option f (List.find P xs)"
  using assms by (induction xs) auto

lemma distinct_map_find:
  "distinct (map k xs) \<Longrightarrow> x \<in> set xs \<Longrightarrow> List.find (\<lambda>y. k y = k x) xs = Some x"
  by (induction xs) auto

lemma map_cong_id: "(\<And>x. x \<in> set xs \<Longrightarrow> f x = x) \<Longrightarrow> map f xs = xs"
  by (induction xs) auto

end
