(* ===== verification/Py_Decimal.thy ===== *)
theory Py_Decimal
  imports Prelude
begin

text \<open>
  Python's \<open>decimal.Decimal\<close> as the program uses it, in the default context (28 significant
  digits, rounding half to even). A finite number is \<open>Dec sign coefficient exponent\<close>, exactly
  the triple of the language; \<open>decimal\<close> adds the special values that only the constructor
  \<open>Decimal(text)\<close> can produce.

  Operations: \<open>dadd\<close>, \<open>dsub\<close>, \<open>dmul\<close>, \<open>dminus\<close>, \<open>dabs\<close>, \<open>dnormalize\<close> (with the context's
  rounding \<open>fix28\<close>), the exact comparisons \<open>dlt\<close>, \<open>dle\<close>, \<open>deq\<close>, \<open>adjusted\<close>, the printers
  \<open>dec_str\<close> (\<open>str(d)\<close>) and \<open>format_f\<close> (\<open>format(d, "f")\<close>), the constructor \<open>dec_parse\<close> and
  \<open>py_int\<close> (\<open>int(text)\<close>). The limits on the exponent (\<open>Emin\<close>, \<open>Emax\<close>, about a million) are
  not modelled; a signalling NaN and a NaN payload are read as the quiet NaN.

  Lemmas: \<open>dval\<close> gives a decimal its rational value; comparisons agree with it, arithmetic
  agrees with it whenever the exact result has at most 28 digits, and printing followed by
  parsing gives the number back.
\<close>

section \<open>Numbers\<close>

datatype dec = Dec (dneg: bool) (dcoef: nat) (dexp: int)

datatype decimal = Finite dec | Infinity bool | NaN

fun show_nat :: "nat \<Rightarrow> string" where
  "show_nat n = (if n < 10 then [digit_chars ! n]
                 else show_nat (n div 10) @ [digit_chars ! (n mod 10)])"

declare show_nat.simps [simp del]

definition show_int :: "int \<Rightarrow> string" where
  "show_int i = (if i < 0 then CHR ''-'' # show_nat (nat (- i)) else show_nat (nat i))"

definition is_digit :: "char \<Rightarrow> bool" where
  "is_digit c \<longleftrightarrow> c \<in> set digit_chars"

definition digit_val :: "char \<Rightarrow> nat" where
  "digit_val c = (case map_of (zip digit_chars [0, 1, 2, 3, 4, 5, 6, 7, 8, 9]) c of
      None \<Rightarrow> 0 | Some d \<Rightarrow> d)"

definition read_nat :: "string \<Rightarrow> nat" where
  "read_nat s = foldl (\<lambda>acc c. acc * 10 + digit_val c) 0 s"

definition num_len :: "nat \<Rightarrow> nat" where
  "num_len n = length (show_nat n)"

definition div_half_even :: "nat \<Rightarrow> nat \<Rightarrow> nat" where
  "div_half_even n k = (let q = n div 10 ^ k; r = n mod 10 ^ k in
     if 2 * r > 10 ^ k \<or> (2 * r = 10 ^ k \<and> odd q) then q + 1 else q)"

definition prec :: nat where "prec = 28"

fun fix28 :: "dec \<Rightarrow> dec" where
  "fix28 (Dec s c e) =
     (let k = num_len c - prec in
      if k = 0 then Dec s c e
      else let c' = div_half_even c k in
           if num_len c' > prec then Dec s (c' div 10) (e + int k + 1)
           else Dec s c' (e + int k))"

declare fix28.simps [simp del]

definition signed_coef :: "dec \<Rightarrow> int" where
  "signed_coef d = (if dneg d then - int (dcoef d) else int (dcoef d))"

definition coef_at :: "dec \<Rightarrow> int \<Rightarrow> int" where
  "coef_at d m = signed_coef d * 10 ^ nat (dexp d - m)"

definition dzero :: dec where "dzero = Dec False 0 0"
definition done1 :: dec where "done1 = Dec False 1 0"

definition dadd_exact :: "dec \<Rightarrow> dec \<Rightarrow> dec" where
  "dadd_exact a b = (let m = min (dexp a) (dexp b); n = coef_at a m + coef_at b m in
     Dec (if n = 0 then dneg a \<and> dneg b else n < 0) (nat \<bar>n\<bar>) m)"

definition dadd :: "dec \<Rightarrow> dec \<Rightarrow> dec" where
  "dadd a b = fix28 (dadd_exact a b)"

definition copy_negate :: "dec \<Rightarrow> dec" where
  "copy_negate d = Dec (\<not> dneg d) (dcoef d) (dexp d)"

definition dsub :: "dec \<Rightarrow> dec \<Rightarrow> dec" where
  "dsub a b = dadd a (copy_negate b)"

definition dminus :: "dec \<Rightarrow> dec" where
  "dminus d = (if dcoef d = 0 then Dec False 0 (dexp d) else fix28 (copy_negate d))"

definition dabs :: "dec \<Rightarrow> dec" where
  "dabs d = fix28 (Dec False (dcoef d) (dexp d))"

definition dmul_exact :: "dec \<Rightarrow> dec \<Rightarrow> dec" where
  "dmul_exact a b = Dec (dneg a \<noteq> dneg b) (dcoef a * dcoef b) (dexp a + dexp b)"

definition dmul :: "dec \<Rightarrow> dec \<Rightarrow> dec" where
  "dmul a b = fix28 (dmul_exact a b)"

definition dlt :: "dec \<Rightarrow> dec \<Rightarrow> bool" where
  "dlt a b = (let m = min (dexp a) (dexp b) in coef_at a m < coef_at b m)"

definition dle :: "dec \<Rightarrow> dec \<Rightarrow> bool" where
  "dle a b \<longleftrightarrow> \<not> dlt b a"

definition deq :: "dec \<Rightarrow> dec \<Rightarrow> bool" where
  "deq a b \<longleftrightarrow> \<not> dlt a b \<and> \<not> dlt b a"

definition dtruthy :: "dec \<Rightarrow> bool" where
  "dtruthy d \<longleftrightarrow> dcoef d \<noteq> 0"

definition adjusted :: "dec \<Rightarrow> int" where
  "adjusted d = dexp d + int (num_len (dcoef d)) - 1"

fun strip_zeros :: "nat \<Rightarrow> int \<Rightarrow> nat \<times> int" where
  "strip_zeros c e = (if c > 0 \<and> c mod 10 = 0 then strip_zeros (c div 10) (e + 1) else (c, e))"

declare strip_zeros.simps [simp del]

definition dnormalize :: "dec \<Rightarrow> dec" where
  "dnormalize d = (let r = fix28 d in
     if dcoef r = 0 then Dec (dneg r) 0 0
     else case strip_zeros (dcoef r) (dexp r) of (c, e) \<Rightarrow> Dec (dneg r) c e)"

section \<open>Text\<close>

definition place_dot :: "string \<Rightarrow> int \<Rightarrow> string" where
  "place_dot ds k =
     (if k \<le> 0 then ''0.'' @ replicate (nat (- k)) (CHR ''0'') @ ds
      else if k \<ge> int (length ds) then ds @ replicate (nat k - length ds) (CHR ''0'')
      else take (nat k) ds @ ''.'' @ drop (nat k) ds)"

fun dec_str :: "dec \<Rightarrow> string" where
  "dec_str (Dec s c e) =
     (let ds = show_nat c; left = e + int (length ds);
          dotplace = (if e \<le> 0 \<and> left > -6 then left else 1)
      in (if s then ''-'' else '''') @ place_dot ds dotplace
         @ (if left = dotplace then ''''
            else ''E'' @ (if left - dotplace < 0 then ''-'' else ''+'')
                 @ show_nat (nat \<bar>left - dotplace\<bar>)))"

text \<open>\<open>format(d, "f")\<close>: a zero with a positive exponent is first rescaled to exponent 0.\<close>

fun format_f :: "dec \<Rightarrow> string" where
  "format_f (Dec s c e) =
     (let e' = (if c = 0 \<and> e > 0 then 0 else e); ds = show_nat c
      in (if s then ''-'' else '''') @ place_dot ds (e' + int (length ds)))"

definition split_sign :: "string \<Rightarrow> bool \<times> string" where
  "split_sign s = (case s of
      [] \<Rightarrow> (False, s)
    | c # t \<Rightarrow> if c = CHR ''-'' then (True, t) else if c = CHR ''+'' then (False, t) else (False, s))"

definition parse_exp :: "string \<Rightarrow> int option" where
  "parse_exp s = (case split_sign s of (neg, t) \<Rightarrow>
     if t \<noteq> [] \<and> list_all is_digit t
     then Some (if neg then - int (read_nat t) else int (read_nat t)) else None)"

definition parse_number :: "bool \<Rightarrow> string \<Rightarrow> dec option" where
  "parse_number neg r =
     (let ip = takeWhile is_digit r; r1 = dropWhile is_digit r;
          (fp, r2) = (case r1 of
              [] \<Rightarrow> ([], r1)
            | c # t \<Rightarrow> if c = CHR ''.'' then (takeWhile is_digit t, dropWhile is_digit t) else ([], r1))
      in if ip = [] \<and> fp = [] then None
         else case r2 of
             [] \<Rightarrow> Some (Dec neg (read_nat (ip @ fp)) (- int (length fp)))
           | c # t \<Rightarrow> if c = CHR ''E'' \<or> c = CHR ''e''
                     then map_option (\<lambda>x. Dec neg (read_nat (ip @ fp)) (x - int (length fp))) (parse_exp t)
                     else None)"

definition is_nan_text :: "string \<Rightarrow> bool" where
  "is_nan_text low \<longleftrightarrow>
     (startswith low ''nan'' \<and> list_all is_digit (drop 3 low))
   \<or> (startswith low ''snan'' \<and> list_all is_digit (drop 4 low))"

definition dec_parse :: "string \<Rightarrow> decimal option" where
  "dec_parse s0 =
     (let s = filter (\<lambda>c. c \<noteq> CHR ''_'') (strip s0) in
      case split_sign s of (neg, r) \<Rightarrow>
        let low = lower r in
        if low = ''inf'' \<or> low = ''infinity'' then Some (Infinity neg)
        else if is_nan_text low then Some NaN
        else map_option Finite (parse_number neg r))"

text \<open>\<open>int(text)\<close>: white space around, a sign, digits with single underscores between them.\<close>

fun digits_grouped :: "string \<Rightarrow> bool" where
  "digits_grouped [] = False"
| "digits_grouped [c] = is_digit c"
| "digits_grouped (c # d # s) =
     (is_digit c \<and> (if d = CHR ''_'' then digits_grouped s else digits_grouped (d # s)))"

definition py_int :: "string \<Rightarrow> int option" where
  "py_int s0 = (case split_sign (strip s0) of (neg, t) \<Rightarrow>
     if digits_grouped t
     then let n = int (read_nat (filter (\<lambda>c. c \<noteq> CHR ''_'') t)) in Some (if neg then - n else n)
     else None)"

text \<open>The values a column \<open>Numeric(28, 10)\<close> holds.\<close>

definition numeric_28_10 :: "dec \<Rightarrow> bool" where
  "numeric_28_10 d \<longleftrightarrow> dexp d \<ge> -10 \<and> \<bar>coef_at d (-10)\<bar> < 10 ^ 28"

section \<open>Value\<close>

definition dval :: "dec \<Rightarrow> rat" where
  "dval d = of_int (signed_coef d) * 10 powi dexp d"

lemma powi_split:
  assumes "m \<le> e"
  shows "(10::rat) powi e = 10 ^ nat (e - m) * 10 powi m"
proof -
  have "(10::rat) powi e = 10 powi (e - m + m)" by simp
  also have "\<dots> = 10 powi (e - m) * 10 powi m" by (rule power_int_add) simp
  also have "(10::rat) powi (e - m) = 10 ^ nat (e - m)"
    using assms by (simp add: power_int_def)
  finally show ?thesis .
qed

lemma dval_coef_at: "m \<le> dexp d \<Longrightarrow> dval d = of_int (coef_at d m) * 10 powi m"
  by (simp add: dval_def coef_at_def powi_split [of m "dexp d"] algebra_simps)

lemma dlt_dval: "dlt a b \<longleftrightarrow> dval a < dval b"
proof -
  let ?m = "min (dexp a) (dexp b)"
  have "dval a < dval b \<longleftrightarrow>
      (of_int (coef_at a ?m) :: rat) * 10 powi ?m < of_int (coef_at b ?m) * 10 powi ?m"
    by (simp add: dval_coef_at [of ?m a] dval_coef_at [of ?m b])
  also have "\<dots> \<longleftrightarrow> (of_int (coef_at a ?m) :: rat) < of_int (coef_at b ?m)"
    by (intro mult_less_cancel_right_pos) simp
  finally show ?thesis by (simp add: dlt_def Let_def)
qed

lemma dle_dval: "dle a b \<longleftrightarrow> dval a \<le> dval b"
  by (auto simp: dle_def dlt_dval)

lemma deq_dval: "deq a b \<longleftrightarrow> dval a = dval b"
  by (auto simp: deq_def dlt_dval)

lemmas dcmp_dval = dlt_dval dle_dval deq_dval

lemma dval_dzero [simp]: "dval dzero = 0"
  by (simp add: dval_def dzero_def signed_coef_def)

lemma dval_done1 [simp]: "dval done1 = 1"
  by (simp add: dval_def done1_def signed_coef_def)

lemma dval_eq_0 [simp]: "dval d = 0 \<longleftrightarrow> dcoef d = 0"
  by (auto simp: dval_def signed_coef_def)

lemma dval_copy_negate [simp]: "dval (copy_negate d) = - dval d"
  by (simp add: dval_def copy_negate_def signed_coef_def)

lemma dval_Dec_False: "dval (Dec False c e) = of_nat c * 10 powi e"
  by (simp add: dval_def signed_coef_def)

lemma dval_abs_Dec: "dval (Dec False (dcoef d) (dexp d)) = \<bar>dval d\<bar>"
  by (simp add: dval_def signed_coef_def abs_mult)

lemma dval_dadd_exact: "dval (dadd_exact a b) = dval a + dval b"
proof -
  let ?m = "min (dexp a) (dexp b)"
  let ?n = "coef_at a ?m + coef_at b ?m"
  have s: "signed_coef (dadd_exact a b) = ?n"
    by (simp add: dadd_exact_def Let_def signed_coef_def)
  have "dval (dadd_exact a b) = of_int ?n * 10 powi ?m"
    unfolding dval_def s by (simp add: dadd_exact_def Let_def)
  also have "\<dots> = dval a + dval b"
    by (simp add: dval_coef_at [of ?m a] dval_coef_at [of ?m b] algebra_simps)
  finally show ?thesis .
qed

lemma dval_dmul_exact: "dval (dmul_exact a b) = dval a * dval b"
  by (auto simp: dval_def dmul_exact_def signed_coef_def power_int_add)

section \<open>Digits\<close>

lemma show_nat_ne [simp]: "show_nat n \<noteq> []"
  by (subst show_nat.simps) simp

lemma length_show_nat_pos [simp]: "0 < length (show_nat n)"
  by simp

lemma digit_chars_nth:
  assumes "n < 10"
  shows "is_digit (digit_chars ! n)" "digit_val (digit_chars ! n) = n"
proof -
  from assms have "n \<in> {0, 1, 2, 3, 4, 5, 6, 7, 8, 9}" by auto
  then show "is_digit (digit_chars ! n)" "digit_val (digit_chars ! n) = n"
    by (auto simp: is_digit_def digit_val_def digit_chars_def)
qed

lemma show_nat_digits: "list_all is_digit (show_nat n)"
proof (induction n rule: show_nat.induct)
  case (1 n)
  show ?case
  proof (cases "n < 10")
    case True
    then show ?thesis by (subst show_nat.simps) (simp add: digit_chars_nth)
  next
    case False
    with 1 show ?thesis by (subst show_nat.simps) (simp add: digit_chars_nth)
  qed
qed

lemma read_nat_snoc: "read_nat (s @ [c]) = read_nat s * 10 + digit_val c"
  by (simp add: read_nat_def)

lemma read_nat_append: "read_nat (s @ t) = read_nat s * 10 ^ length t + read_nat t"
proof (induction t rule: rev_induct)
  case Nil
  show ?case by (simp add: read_nat_def)
next
  case (snoc c t)
  have "read_nat (s @ t @ [c]) = read_nat (s @ t) * 10 + digit_val c"
    using read_nat_snoc [of "s @ t" c] by simp
  with snoc show ?case by (simp add: read_nat_snoc algebra_simps)
qed

lemma read_show_nat [simp]: "read_nat (show_nat n) = n"
proof (induction n rule: show_nat.induct)
  case (1 n)
  show ?case
  proof (cases "n < 10")
    case True
    then show ?thesis by (subst show_nat.simps) (simp add: digit_chars_nth read_nat_def)
  next
    case False
    with 1 show ?thesis by (subst show_nat.simps) (simp add: digit_chars_nth read_nat_snoc)
  qed
qed

lemma read_nat_zeros [simp]: "read_nat (replicate k (CHR ''0'')) = 0"
proof (induction k)
  case 0
  show ?case by (simp add: read_nat_def)
next
  case (Suc k)
  have "replicate (Suc k) (CHR ''0'') = replicate k (CHR ''0'') @ [CHR ''0'']"
    by (simp add: replicate_append_same)
  with Suc show ?case by (simp add: read_nat_snoc digit_val_def digit_chars_def del: replicate_Suc)
qed

lemma num_len_bound: "n < 10 ^ num_len n"
proof (induction n rule: show_nat.induct)
  case (1 n)
  show ?case
  proof (cases "n < 10")
    case True
    then show ?thesis by (simp add: num_len_def show_nat.simps [of n])
  next
    case False
    with 1 have "n div 10 < 10 ^ num_len (n div 10)" by simp
    then have "n < 10 * 10 ^ num_len (n div 10)" by linarith
    with False show ?thesis by (simp add: num_len_def show_nat.simps [of n])
  qed
qed

lemma num_len_least: "n < 10 ^ Suc k \<Longrightarrow> num_len n \<le> Suc k"
proof (induction n arbitrary: k rule: show_nat.induct)
  case (1 n)
  show ?case
  proof (cases "n < 10")
    case True
    then show ?thesis by (simp add: num_len_def show_nat.simps [of n])
  next
    case False
    with "1.prems" obtain j where k: "k = Suc j" by (cases k) auto
    with "1.prems" have "n div 10 < 10 ^ Suc j" by simp
    with "1.IH" False have "num_len (n div 10) \<le> Suc j" by blast
    with False k show ?thesis by (simp add: num_len_def show_nat.simps [of n])
  qed
qed

lemma num_len_le_iff: "0 < k \<Longrightarrow> num_len n \<le> k \<longleftrightarrow> n < 10 ^ k"
proof
  assume "0 < k" "num_len n \<le> k"
  then have "(10::nat) ^ num_len n \<le> 10 ^ k" by (intro power_increasing) auto
  with num_len_bound [of n] show "n < 10 ^ k" by (rule less_le_trans)
next
  assume "0 < k" "n < 10 ^ k"
  then show "num_len n \<le> k" using num_len_least [of n "k - 1"] by simp
qed

section \<open>Exactness of the rounded operations\<close>

lemma fix28_id: "dcoef d < 10 ^ 28 \<Longrightarrow> fix28 d = d"
  using num_len_le_iff [of 28 "dcoef d"] by (cases d) (simp add: fix28.simps prec_def)

lemma dval_dadd: "dcoef (dadd_exact a b) < 10 ^ 28 \<Longrightarrow> dval (dadd a b) = dval a + dval b"
  by (simp add: dadd_def fix28_id dval_dadd_exact)

lemma dval_dmul: "dcoef a * dcoef b < 10 ^ 28 \<Longrightarrow> dval (dmul a b) = dval a * dval b"
  using dval_dmul_exact [of a b] by (simp add: dmul_def fix28_id dmul_exact_def)

lemma dval_dabs: "dcoef d < 10 ^ 28 \<Longrightarrow> dval (dabs d) = \<bar>dval d\<bar>"
  by (simp add: dabs_def fix28_id dval_abs_Dec)

lemma numeric_28_10_iff: "numeric_28_10 d \<longleftrightarrow> dexp d \<ge> -10 \<and> \<bar>dval d\<bar> < 10 ^ 18"
proof (cases "dexp d \<ge> -10")
  case True
  then have "\<bar>dval d\<bar> = \<bar>of_int (coef_at d (-10))\<bar> * 10 powi (-10)"
    by (simp add: dval_coef_at [of "-10" d] abs_mult)
  also have "\<dots> = of_int \<bar>coef_at d (-10)\<bar> / 10 ^ 10"
    by (simp add: power_int_minus field_simps)
  finally have v: "\<bar>dval d\<bar> = of_int \<bar>coef_at d (-10)\<bar> / 10 ^ 10" .
  have "\<bar>dval d\<bar> < 10 ^ 18 \<longleftrightarrow> (of_int \<bar>coef_at d (-10)\<bar> :: rat) < of_int (10 ^ 28)"
    unfolding v by (simp add: field_simps)
  also have "\<dots> \<longleftrightarrow> \<bar>coef_at d (-10)\<bar> < 10 ^ 28" by (rule of_int_less_iff)
  finally show ?thesis using True by (simp add: numeric_28_10_def)
next
  case False
  then show ?thesis by (simp add: numeric_28_10_def)
qed

lemma coef_le_scaled:
  assumes "m \<le> dexp d"
  shows "int (dcoef d) \<le> \<bar>coef_at d m\<bar>"
proof -
  have "int (dcoef d) * 1 \<le> int (dcoef d) * 10 ^ nat (dexp d - m)"
    by (intro mult_left_mono) simp_all
  then show ?thesis by (simp add: coef_at_def signed_coef_def abs_mult)
qed

lemma numeric_28_10_coef: "numeric_28_10 d \<Longrightarrow> dcoef d < 10 ^ 28"
proof -
  assume "numeric_28_10 d"
  then have "int (dcoef d) < 10 ^ 28"
    using coef_le_scaled [of "-10" d] by (auto simp: numeric_28_10_def)
  then have "int (dcoef d) < int (10 ^ 28)" by simp
  then show ?thesis by (simp only: of_nat_less_iff)
qed

text \<open>
  Two stored numbers whose sum is again in the range of the column are added without
  rounding, and the sum is a stored number.
\<close>

lemma dadd_numeric:
  assumes "dexp a \<ge> -10" and "dexp b \<ge> -10" and "\<bar>dval a + dval b\<bar> < 10 ^ 18"
  shows "numeric_28_10 (dadd a b)" and "dval (dadd a b) = dval a + dval b"
proof -
  have "dexp (dadd_exact a b) \<ge> -10"
    using assms(1,2) by (simp add: dadd_exact_def Let_def)
  moreover have "\<bar>dval (dadd_exact a b)\<bar> < 10 ^ 18"
    using assms(3) by (simp add: dval_dadd_exact)
  ultimately have n: "numeric_28_10 (dadd_exact a b)" by (simp add: numeric_28_10_iff)
  then have "fix28 (dadd_exact a b) = dadd_exact a b"
    by (intro fix28_id numeric_28_10_coef)
  with n show "numeric_28_10 (dadd a b)" "dval (dadd a b) = dval a + dval b"
    by (simp_all add: dadd_def dval_dadd_exact)
qed

lemma dsub_numeric:
  assumes "dexp a \<ge> -10" and "dexp b \<ge> -10" and "\<bar>dval a - dval b\<bar> < 10 ^ 18"
  shows "numeric_28_10 (dsub a b)" and "dval (dsub a b) = dval a - dval b"
  using dadd_numeric [of a "copy_negate b"] assms
  by (simp_all add: dsub_def copy_negate_def dval_copy_negate [unfolded copy_negate_def])

section \<open>Printing and parsing\<close>

lemma lower_not_letter: "c \<notin> set upper_letters \<Longrightarrow> lower_char c = c"
  by (simp add: lower_char_def upper_letters_def lower_letters_def)

lemma is_digit_simps [simp]:
  "is_digit (CHR ''0'')" "\<not> is_digit (CHR ''.'')" "\<not> is_digit (CHR ''E'')"
  "\<not> is_digit (CHR ''-'')" "\<not> is_digit (CHR ''+'')" "\<not> is_digit (CHR ''_'')"
  by (simp_all add: is_digit_def digit_chars_def)

lemma is_digit_neq:
  assumes "is_digit c"
  shows "c \<noteq> CHR ''-''" "c \<noteq> CHR ''+''" "c \<noteq> CHR ''i''" "c \<noteq> CHR ''n''" "c \<noteq> CHR ''s''"
  using assms by (auto simp: is_digit_def digit_chars_def)

definition clean_char :: "char \<Rightarrow> bool" where
  "clean_char c \<longleftrightarrow> \<not> is_space c \<and> c \<noteq> CHR ''_''"

lemma clean_char_simps [simp]:
  "clean_char (CHR ''.'')" "clean_char (CHR ''E'')" "clean_char (CHR ''-'')" "clean_char (CHR ''+'')"
  by (simp_all add: clean_char_def is_space_def)

lemma clean_digit: "is_digit c \<Longrightarrow> clean_char c"
  by (auto simp: is_digit_def digit_chars_def clean_char_def is_space_def)

lemma clean_digits: "list_all is_digit ds \<Longrightarrow> list_all clean_char ds"
  by (auto simp: list_all_iff clean_digit)

lemma lower_digit: "is_digit c \<Longrightarrow> lower_char c = c"
  by (rule lower_not_letter) (auto simp: is_digit_def digit_chars_def upper_letters_def)

lemma takeWhile_digits:
  assumes "list_all is_digit ds" and "r = [] \<or> \<not> is_digit (hd r)"
  shows "takeWhile is_digit (ds @ r) = ds" and "dropWhile is_digit (ds @ r) = r"
proof -
  have "takeWhile is_digit r = []" "dropWhile is_digit r = r"
    using assms(2) by (cases r; simp)+
  with assms(1) show "takeWhile is_digit (ds @ r) = ds" "dropWhile is_digit (ds @ r) = r"
    by (simp_all add: list_all_iff takeWhile_append dropWhile_append)
qed

text \<open>The text after the sign: digits, optionally a point and digits, optionally an exponent.\<close>

lemma parse_number_parts:
  assumes "list_all is_digit ip" and "ip \<noteq> []" and "list_all is_digit fp"
    and "r = [] \<or> (\<exists>t. r = CHR ''E'' # t)"
  shows "parse_number neg (ip @ (if dot then CHR ''.'' # fp else []) @ r) =
    (let fp' = (if dot then fp else []) in
     case r of [] \<Rightarrow> Some (Dec neg (read_nat (ip @ fp')) (- int (length fp')))
     | c # t \<Rightarrow> map_option (\<lambda>x. Dec neg (read_nat (ip @ fp')) (x - int (length fp'))) (parse_exp t))"
proof -
  have r: "r = [] \<or> \<not> is_digit (hd r)" using assms(4) by auto
  show ?thesis
  proof (cases dot)
    case True
    have "takeWhile is_digit (ip @ CHR ''.'' # fp @ r) = ip"
         "dropWhile is_digit (ip @ CHR ''.'' # fp @ r) = CHR ''.'' # fp @ r"
      using takeWhile_digits [of ip "CHR ''.'' # fp @ r"] assms(1) by simp_all
    with True takeWhile_digits [of fp r] r assms show ?thesis
      by (auto simp: parse_number_def Let_def split: list.splits)
  next
    case False
    with takeWhile_digits [of ip r] r assms show ?thesis
      by (auto simp: parse_number_def Let_def split: list.splits)
  qed
qed

lemma parse_exp_show:
  "parse_exp ((if x < 0 then ''-'' else ''+'') @ show_nat (nat \<bar>x\<bar>)) = Some x"
  by (simp add: parse_exp_def split_sign_def show_nat_digits)

text \<open>
  \<open>place_dot ds k\<close> is a digit string with the point after \<open>k\<close> digits: its parts read
  back as the digits with exponent \<open>k - length ds\<close>.
\<close>

lemma place_dot_parts:
  assumes "list_all is_digit ds" and "ds \<noteq> []"
  obtains ip dot fp where
    "place_dot ds k = ip @ (if dot then CHR ''.'' # fp else [])"
    "list_all is_digit ip" "ip \<noteq> []" "list_all is_digit fp"
    "k \<le> int (length ds) \<Longrightarrow> read_nat (ip @ (if dot then fp else [])) = read_nat ds"
    "k \<le> int (length ds) \<Longrightarrow> int (length (if dot then fp else [])) = int (length ds) - k"
    "k > int (length ds) \<Longrightarrow> \<not> dot \<and> read_nat ip = read_nat ds * 10 ^ (nat k - length ds)"
proof (cases "k \<le> 0")
  case True
  have "read_nat (''0'' @ replicate (nat (- k)) (CHR ''0'') @ ds)
      = read_nat (replicate (Suc (nat (- k))) (CHR ''0'') @ ds)" by simp
  also have "\<dots> = read_nat ds" by (simp only: read_nat_append read_nat_zeros)
  finally have z: "read_nat (''0'' @ replicate (nat (- k)) (CHR ''0'') @ ds) = read_nat ds" .
  have "place_dot ds k = ''0'' @ (if True then CHR ''.'' # replicate (nat (- k)) (CHR ''0'') @ ds else [])"
    using True by (simp add: place_dot_def)
  then show ?thesis
    by (rule that) (use True assms z in \<open>auto simp: list_all_iff\<close>)
next
  case False
  show ?thesis
  proof (cases "k \<ge> int (length ds)")
    case True
    have p: "place_dot ds k = (ds @ replicate (nat k - length ds) (CHR ''0''))
        @ (if False then CHR ''.'' # [] else [])"
      using True False by (simp add: place_dot_def)
    show ?thesis
      by (rule that [OF p]) (use True assms in \<open>auto simp: list_all_iff read_nat_append\<close>)
  next
    case lt: False
    have p: "place_dot ds k = take (nat k) ds @ (if True then CHR ''.'' # drop (nat k) ds else [])"
      using lt False by (simp add: place_dot_def)
    show ?thesis
      by (rule that [OF p])
        (use lt False assms in \<open>auto simp: list_all_iff dest: in_set_takeD in_set_dropD\<close>)
  qed
qed

lemma dec_parse_signed:
  assumes "ip \<noteq> []" and "list_all is_digit ip" and "list_all clean_char t"
  shows "dec_parse ((if s then ''-'' else '''') @ ip @ t) = map_option Finite (parse_number s (ip @ t))"
proof -
  obtain d ds where ip: "ip = d # ds" using assms(1) by (cases ip) auto
  with assms(2) have d: "is_digit d" by simp
  let ?s = "(if s then ''-'' else '''') @ ip @ t"
  have "list_all clean_char ?s" using assms clean_digits [of ip] by simp
  then have all: "\<forall>c \<in> set ?s. \<not> is_space c" "\<forall>c \<in> set ?s. c \<noteq> CHR ''_''"
    unfolding list_all_iff clean_char_def by blast+
  have strip: "strip ?s = ?s" using all(1) by (rule is_space_strip_free)
  have filter: "filter (\<lambda>c. c \<noteq> CHR ''_'') ?s = ?s" using all(2) by (rule filter_True)
  have sign: "split_sign ?s = (s, ip @ t)"
    using is_digit_neq(1,2) [OF d] by (simp add: split_sign_def ip)
  have low: "lower (ip @ t) = d # lower (ds @ t)"
    using lower_digit [OF d] by (simp add: lower_def ip)
  show ?thesis
    unfolding dec_parse_def strip filter sign Let_def prod.case low
    using is_digit_neq(3,4,5) [OF d] by (simp add: is_nan_text_def startswith_def)
qed

theorem dec_parse_dec_str: "dec_parse (dec_str d) = Some (Finite d)"
proof (cases d)
  case (Dec s c e)
  define ds where "ds = show_nat c"
  define left where "left = e + int (length ds)"
  define k where "k = (if e \<le> 0 \<and> left > -6 then left else 1)"
  define r where "r = (if left = k then [] else CHR ''E'' #
      (if left - k < 0 then ''-'' else ''+'') @ show_nat (nat \<bar>left - k\<bar>))"
  have ds: "list_all is_digit ds" "ds \<noteq> []" by (simp_all add: ds_def show_nat_digits)
  then have "1 \<le> int (length ds)" by (cases ds) auto
  then have kle: "k \<le> int (length ds)" by (simp add: k_def left_def)
  obtain ip dot fp where p:
    "place_dot ds k = ip @ (if dot then CHR ''.'' # fp else [])"
    "list_all is_digit ip" "ip \<noteq> []" "list_all is_digit fp"
    "read_nat (ip @ (if dot then fp else [])) = read_nat ds"
    "int (length (if dot then fp else [])) = int (length ds) - k"
    using place_dot_parts [OF ds, of k] kle by metis
  have str: "dec_str d = (if s then ''-'' else '''') @ ip @ ((if dot then CHR ''.'' # fp else []) @ r)"
    using p(1) by (auto simp: Dec Let_def ds_def left_def k_def r_def)
  have clean: "list_all clean_char ((if dot then CHR ''.'' # fp else []) @ r)"
    using clean_digits [OF show_nat_digits, of "nat \<bar>left - k\<bar>"] clean_digits [OF p(4)]
    by (simp add: r_def)
  have rE: "r = [] \<or> (\<exists>t. r = CHR ''E'' # t)" by (simp add: r_def)
  have "dec_parse (dec_str d) = map_option Finite
      (parse_number s (ip @ (if dot then CHR ''.'' # fp else []) @ r))"
    unfolding str by (rule dec_parse_signed [OF p(3,2) clean])
  also have "parse_number s (ip @ (if dot then CHR ''.'' # fp else []) @ r) = Some (Dec s c e)"
  proof (cases "left = k")
    case True
    then have "r = []" by (simp add: r_def)
    with p True parse_number_parts [OF p(2,3,4) rE, of s dot] show ?thesis
      by (simp add: Let_def left_def ds_def split: if_splits)
  next
    case False
    then obtain t where t: "r = CHR ''E'' # t" "parse_exp t = Some (left - k)"
      using parse_exp_show [of "left - k"] by (simp add: r_def)
    with p parse_number_parts [OF p(2,3,4) rE, of s dot] show ?thesis
      by (simp add: Let_def left_def ds_def split: if_splits)
  qed
  finally show ?thesis by (simp add: Dec)
qed

text \<open>
  The fixed-point text of a number denotes its value, and \<open>normalize\<close> keeps the value of a
  number of at most 28 digits.
\<close>

lemma dec_parse_format_f: "\<exists>d'. dec_parse (format_f d) = Some (Finite d') \<and> dval d' = dval d"
proof (cases d)
  case (Dec s c e)
  define e' where "e' = (if c = 0 \<and> e > 0 then 0 else e)"
  define ds where "ds = show_nat c"
  define k where "k = e' + int (length ds)"
  have ds: "list_all is_digit ds" "ds \<noteq> []" by (simp_all add: ds_def show_nat_digits)
  obtain ip dot fp where p:
    "place_dot ds k = ip @ (if dot then CHR ''.'' # fp else [])"
    "list_all is_digit ip" "ip \<noteq> []" "list_all is_digit fp"
    "k \<le> int (length ds) \<Longrightarrow> read_nat (ip @ (if dot then fp else [])) = read_nat ds"
    "k \<le> int (length ds) \<Longrightarrow> int (length (if dot then fp else [])) = int (length ds) - k"
    "k > int (length ds) \<Longrightarrow> \<not> dot \<and> read_nat ip = read_nat ds * 10 ^ (nat k - length ds)"
    using place_dot_parts [OF ds, of k] by metis
  let ?fp = "if dot then fp else []"
  have str: "format_f d = (if s then ''-'' else '''') @ ip @ (if dot then CHR ''.'' # fp else [])"
    using p(1) by (simp add: Dec Let_def ds_def k_def e'_def)
  have clean: "list_all clean_char (if dot then CHR ''.'' # fp else [])"
    using clean_digits [OF p(4)] by simp
  have parsed: "dec_parse (format_f d) = Some (Finite (Dec s (read_nat (ip @ ?fp)) (- int (length ?fp))))"
    unfolding str dec_parse_signed [OF p(3,2) clean]
    using parse_number_parts [OF p(2,3,4), of "[]" s dot] by (simp add: Let_def)
  have "dval (Dec s (read_nat (ip @ ?fp)) (- int (length ?fp))) = dval (Dec s c e)"
  proof (cases "k \<le> int (length ds)")
    case True
    then have "- int (length ?fp) = e'" using p(6) by (simp add: k_def)
    with p(5) True show ?thesis by (simp add: ds_def dval_def signed_coef_def e'_def)
  next
    case False
    then have e: "\<not> dot" "read_nat ip = c * 10 ^ nat e'" "e' > 0" "e' = e"
      using p(7) by (auto simp: k_def ds_def e'_def split: if_splits)
    then show ?thesis by (simp add: dval_def signed_coef_def power_int_def)
  qed
  with parsed show ?thesis by (simp add: Dec)
qed

lemma dval_strip_zeros:
  "strip_zeros c e = (c', e') \<Longrightarrow> (of_nat c' :: rat) * 10 powi e' = of_nat c * 10 powi e"
proof (induction c e arbitrary: c' e' rule: strip_zeros.induct)
  case (1 c e)
  show ?case
  proof (cases "c > 0 \<and> c mod 10 = 0")
    case True
    then obtain q where q: "c = 10 * q" by (auto elim: dvdE)
    from True "1.prems" have "strip_zeros (c div 10) (e + 1) = (c', e')"
      by (simp add: strip_zeros.simps [of c e])
    then have "(of_nat c' :: rat) * 10 powi e' = of_nat (c div 10) * 10 powi (e + 1)"
      by (rule "1.IH" [OF True])
    also have "\<dots> = of_nat c * 10 powi e" by (simp add: q power_int_add)
    finally show ?thesis .
  next
    case False
    with "1.prems" show ?thesis by (subst (asm) strip_zeros.simps) auto
  qed
qed

lemma dval_dnormalize: "dcoef d < 10 ^ 28 \<Longrightarrow> dval (dnormalize d) = dval d"
  using dval_strip_zeros [of "dcoef d" "dexp d"]
  by (auto simp: dnormalize_def fix28_id dval_def signed_coef_def split: prod.split)

end
