(* ===== verification/Py_Value.thy ===== *)
theory Py_Value
  imports Py_Decimal
begin

text \<open>
  Dynamically typed Python values, as they come out of \<open>json.loads\<close> and go into JSON columns.
  A float is carried by its \<open>repr\<close>, which is all the program reads of it; a dictionary is an
  association list with string keys. \<open>py_str\<close> is \<open>str(value)\<close>, \<open>py_repr\<close> is \<open>repr(value)\<close>,
  \<open>truthy\<close> the truth value, \<open>dict_get\<close> is \<open>d.get(k)\<close>.
\<close>

datatype pyval =
    PNone
  | PBool bool
  | PInt int
  | PFloat string
  | PDec dec
  | PStr string
  | PList "pyval list"
  | PDict "(string \<times> pyval) list"

type_synonym pydict = "(string \<times> pyval) list"

definition dict_get :: "pydict \<Rightarrow> string \<Rightarrow> pyval" where
  "dict_get d k = (case map_of d k of None \<Rightarrow> PNone | Some v \<Rightarrow> v)"

definition dict_get_or :: "pydict \<Rightarrow> string \<Rightarrow> pyval \<Rightarrow> pyval" where
  "dict_get_or d k v0 = (case map_of d k of None \<Rightarrow> v0 | Some v \<Rightarrow> v)"

text \<open>Attribute access \<open>v.get(k)\<close> on a value that need not be a dictionary.\<close>

fun val_get :: "pyval \<Rightarrow> string \<Rightarrow> pyval result" where
  "val_get (PDict d) k = Inr (dict_get d k)"
| "val_get _ k = Inl AttributeError"

fun val_get_or :: "pyval \<Rightarrow> string \<Rightarrow> pyval \<Rightarrow> pyval result" where
  "val_get_or (PDict d) k v0 = Inr (dict_get_or d k v0)"
| "val_get_or _ k v0 = Inl AttributeError"

definition float_zero :: "string \<Rightarrow> bool" where
  "float_zero r \<longleftrightarrow> r = ''0.0'' \<or> r = ''-0.0''"

fun truthy :: "pyval \<Rightarrow> bool" where
  "truthy PNone = False"
| "truthy (PBool b) = b"
| "truthy (PInt i) = (i \<noteq> 0)"
| "truthy (PFloat r) = (\<not> float_zero r)"
| "truthy (PDec d) = dtruthy d"
| "truthy (PStr s) = (s \<noteq> [])"
| "truthy (PList xs) = (xs \<noteq> [])"
| "truthy (PDict d) = (d \<noteq> [])"

text \<open>\<open>a or b\<close>\<close>

definition py_or :: "pyval \<Rightarrow> pyval \<Rightarrow> pyval" where
  "py_or a b = (if truthy a then a else b)"

text \<open>\<open>v == 0\<close> and the test \<open>v in (None, 0, "0")\<close>.\<close>

fun eq_zero :: "pyval \<Rightarrow> bool" where
  "eq_zero (PBool b) = (\<not> b)"
| "eq_zero (PInt i) = (i = 0)"
| "eq_zero (PFloat r) = float_zero r"
| "eq_zero (PDec d) = (dcoef d = 0)"
| "eq_zero _ = False"

definition ok_code :: "pyval \<Rightarrow> bool" where
  "ok_code v \<longleftrightarrow> v = PNone \<or> eq_zero v \<or> v = PStr ''0''"

definition hex_digit :: "nat \<Rightarrow> char" where
  "hex_digit n = ''0123456789abcdef'' ! n"

definition repr_char :: "char \<Rightarrow> char \<Rightarrow> string" where
  "repr_char q c =
     (if c = q \<or> c = CHR 0x5C then [CHR 0x5C, c]
      else if c = CHR 0x0A then [CHR 0x5C, CHR ''n'']
      else if c = CHR 0x0D then [CHR 0x5C, CHR ''r'']
      else if c = CHR 0x09 then [CHR 0x5C, CHR ''t'']
      else let n = of_char c :: nat in
        if n < 32 \<or> n = 127 then [CHR 0x5C, CHR ''x'', hex_digit (n div 16), hex_digit (n mod 16)]
        else [c])"

definition repr_str :: "string \<Rightarrow> string" where
  "repr_str s =
     (let q = (if CHR 0x27 \<in> set s \<and> CHR 0x22 \<notin> set s then CHR 0x22 else CHR 0x27)
      in q # concat (map (repr_char q) s) @ [q])"

function py_repr :: "pyval \<Rightarrow> string" where
  "py_repr PNone = ''None''"
| "py_repr (PBool b) = (if b then ''True'' else ''False'')"
| "py_repr (PInt i) = show_int i"
| "py_repr (PFloat r) = r"
| "py_repr (PDec d) = ''Decimal('' @ repr_str (dec_str d) @ '')''"
| "py_repr (PStr s) = repr_str s"
| "py_repr (PList xs) = ''['' @ join '', '' (map py_repr xs) @ '']''"
| "py_repr (PDict d) = ''{'' @ join '', '' (map (\<lambda>kv. repr_str (fst kv) @ '': '' @ py_repr (snd kv)) d) @ ''}''"
  by pat_completeness auto
termination
proof (relation "measure size", goal_cases)
  case 1
  show ?case by simp
next
  case (2 xs x)
  then show ?case by (induction xs) auto
next
  case (3 d kv)
  then show ?case by (induction d) auto
qed

fun py_str :: "pyval \<Rightarrow> string" where
  "py_str (PStr s) = s"
| "py_str (PDec d) = dec_str d"
| "py_str v = py_repr v"

text \<open>\<open>_optional_text\<close> of several modules: \<open>None\<close> and blank text become \<open>None\<close>.\<close>

definition optional_text :: "pyval \<Rightarrow> string option" where
  "optional_text v = (if v = PNone then None
     else let text = strip (py_str v) in if text = [] then None else Some text)"

definition mapping_or_empty :: "pyval \<Rightarrow> pydict" where
  "mapping_or_empty v = (case v of PDict d \<Rightarrow> d | _ \<Rightarrow> [])"

lemma dict_get_simps [simp]:
  "dict_get [] k = PNone"
  "dict_get ((k', v) # d) k = (if k = k' then v else dict_get d k)"
  by (simp_all add: dict_get_def)

lemma optional_text_Some: "optional_text v = Some t \<Longrightarrow> t \<noteq> [] \<and> strip (py_str v) = t"
  by (auto simp: optional_text_def Let_def split: if_splits)

lemma ok_code_simps [simp]:
  "ok_code PNone" "ok_code (PInt i) \<longleftrightarrow> i = 0" "ok_code (PStr s) \<longleftrightarrow> s = ''0''"
  by (simp_all add: ok_code_def)

end
