(* ===== verification/Db.thy ===== *)
theory Db
  imports Py_Value
begin

text \<open>
  The data model (\<open>backend/app/db/models\<close>) and the SQLAlchemy session that every service works
  on.

  A table holds the rows of the current transaction and the objects added but not yet flushed:
  the session factory sets \<open>autoflush=False\<close> (\<open>db/session.py\<close>), so a query sees flushed rows
  only, and \<open>db.new\<close> is the pending part. \<open>flush\<close> checks the declared unique constraints and
  raises \<open>IntegrityError\<close> when one fails, which undoes the transaction; \<open>commit\<close> flushes and
  makes the work durable; \<open>close\<close> (the end of a request) drops what was not committed.

  Each SQLAlchemy class is a record with the class's columns (\<open>updated_at\<close> is never read and
  left out). An attribute assignment on a loaded object is an update of its row. Primary keys
  are drawn from a supply of uuids kept in the session; a JSON column assigned \<open>None\<close> holds the
  JSON value \<open>null\<close>, which is read back as \<open>None\<close> even where the column is declared not null; \<open>clock\<close> is the server's time in
  microseconds, \<open>outbox\<close> the calls made on the alert runtime, \<open>wire\<close> the HTTP requests sent,
  \<open>sockets\<close> the use of web sockets.
\<close>

section \<open>Tables\<close>

record 'r table =
  rows :: "'r list"
  pend :: "'r list"

definition t_empty :: "'r table" where
  "t_empty = \<lparr>rows = [], pend = []\<rparr>"

definition t_all :: "'r table \<Rightarrow> 'r list" where
  "t_all t = rows t @ pend t"

definition t_find :: "('r \<Rightarrow> bool) \<Rightarrow> 'r table \<Rightarrow> 'r option" where
  "t_find P t = List.find P (rows t)"

definition t_select :: "('r \<Rightarrow> bool) \<Rightarrow> 'r table \<Rightarrow> 'r list" where
  "t_select P t = filter P (rows t)"

definition t_add :: "'r \<Rightarrow> 'r table \<Rightarrow> 'r table" where
  "t_add r t = t\<lparr>pend := pend t @ [r]\<rparr>"

definition t_flush :: "'r table \<Rightarrow> 'r table" where
  "t_flush t = t\<lparr>rows := rows t @ pend t, pend := []\<rparr>"

definition t_map :: "('r \<Rightarrow> 'r) \<Rightarrow> 'r table \<Rightarrow> 'r table" where
  "t_map f t = t\<lparr>rows := map f (rows t), pend := map f (pend t)\<rparr>"

text \<open>The state of the object with the key of \<open>r\<close> becomes \<open>r\<close>.\<close>

definition t_put :: "('r \<Rightarrow> 'k) \<Rightarrow> 'r \<Rightarrow> 'r table \<Rightarrow> 'r table" where
  "t_put key r t = t_map (\<lambda>x. if key x = key r then r else x) t"

definition t_delete :: "('r \<Rightarrow> 'k) \<Rightarrow> 'r \<Rightarrow> 'r table \<Rightarrow> 'r table" where
  "t_delete key r t = t\<lparr>rows := filter (\<lambda>x. key x \<noteq> key r) (rows t)\<rparr>"

section \<open>Enumerations\<close>

datatype signal_source = MANUAL | COPY_TRADE | AI | STRATEGY | WEBHOOK
datatype order_side = BUY | SELL
datatype order_type = MARKET | LIMIT
datatype risk_decision = PASSED | RISK_REJECTED
datatype order_status =
    CREATED | RISK_PASSED | SUBMITTED | ACCEPTED | PARTIALLY_FILLED
  | FILLED | CANCELLED | REJECTED | FAILED | TIMEOUT
datatype exchange_name = BINANCE | OKX | BYBIT | MOCK
datatype account_mode = SIMULATION | TESTNET | REAL
datatype user_role = SUPER_ADMIN | ADMIN | NORMAL_USER | TEAM_ADMIN
datatype notification_channel = INTERNAL | TELEGRAM | EMAIL | WEBHOOK_CHANNEL

fun signal_source_value :: "signal_source \<Rightarrow> string" where
  "signal_source_value MANUAL = ''manual''"
| "signal_source_value COPY_TRADE = ''copy_trade''"
| "signal_source_value AI = ''ai''"
| "signal_source_value STRATEGY = ''strategy''"
| "signal_source_value WEBHOOK = ''webhook''"

fun side_value :: "order_side \<Rightarrow> string" where
  "side_value BUY = ''BUY''"
| "side_value SELL = ''SELL''"

fun order_type_value :: "order_type \<Rightarrow> string" where
  "order_type_value MARKET = ''MARKET''"
| "order_type_value LIMIT = ''LIMIT''"

fun risk_decision_value :: "risk_decision \<Rightarrow> string" where
  "risk_decision_value PASSED = ''PASSED''"
| "risk_decision_value RISK_REJECTED = ''REJECTED''"

fun status_value :: "order_status \<Rightarrow> string" where
  "status_value CREATED = ''CREATED''"
| "status_value RISK_PASSED = ''RISK_PASSED''"
| "status_value SUBMITTED = ''SUBMITTED''"
| "status_value ACCEPTED = ''ACCEPTED''"
| "status_value PARTIALLY_FILLED = ''PARTIALLY_FILLED''"
| "status_value FILLED = ''FILLED''"
| "status_value CANCELLED = ''CANCELLED''"
| "status_value REJECTED = ''REJECTED''"
| "status_value FAILED = ''FAILED''"
| "status_value TIMEOUT = ''TIMEOUT''"

fun exchange_value :: "exchange_name \<Rightarrow> string" where
  "exchange_value BINANCE = ''binance''"
| "exchange_value OKX = ''okx''"
| "exchange_value BYBIT = ''bybit''"
| "exchange_value MOCK = ''mock''"

fun mode_value :: "account_mode \<Rightarrow> string" where
  "mode_value SIMULATION = ''SIMULATION''"
| "mode_value TESTNET = ''TESTNET''"
| "mode_value REAL = ''REAL''"

fun channel_value :: "notification_channel \<Rightarrow> string" where
  "channel_value INTERNAL = ''INTERNAL''"
| "channel_value TELEGRAM = ''TELEGRAM''"
| "channel_value EMAIL = ''EMAIL''"
| "channel_value WEBHOOK_CHANNEL = ''WEBHOOK''"

lemma status_value_inj [simp]: "status_value a = status_value b \<longleftrightarrow> a = b"
  by (cases a; cases b) simp_all

lemma exchange_value_inj [simp]: "exchange_value a = exchange_value b \<longleftrightarrow> a = b"
  by (cases a; cases b) simp_all

lemma side_value_inj [simp]: "side_value a = side_value b \<longleftrightarrow> a = b"
  by (cases a; cases b) simp_all

section \<open>Times\<close>

text \<open>
  A \<open>datetime\<close> is its wall-clock reading in microseconds since the first day of year 1 and, when it is aware, its offset
  from UTC in microseconds.
\<close>

record datetime =
  dt_wall :: int
  dt_offset :: "int option"

definition dt_max :: int where "dt_max = 315537897600000000"

definition minute :: int where "minute = 60000000"

text \<open>\<open>value.replace(tzinfo=UTC)\<close> of a naive value, else \<open>value.astimezone(UTC)\<close>.\<close>

definition as_utc :: "datetime \<Rightarrow> datetime result" where
  "as_utc v = (case dt_offset v of
      None \<Rightarrow> Inr (v\<lparr>dt_offset := Some 0\<rparr>)
    | Some off \<Rightarrow> let w = dt_wall v - off in
        if 0 \<le> w \<and> w < dt_max then Inr \<lparr>dt_wall = w, dt_offset = Some 0\<rparr> else Inl OverflowError)"

definition add_minutes :: "datetime \<Rightarrow> int \<Rightarrow> datetime result" where
  "add_minutes v n = (let w = dt_wall v + n * minute in
     if 0 \<le> w \<and> w < dt_max then Inr (v\<lparr>dt_wall := w\<rparr>) else Inl OverflowError)"

text \<open>The instant an aware value denotes.\<close>

definition dt_instant :: "datetime \<Rightarrow> int" where
  "dt_instant v = dt_wall v - (case dt_offset v of None \<Rightarrow> 0 | Some off \<Rightarrow> off)"

section \<open>Rows\<close>

record user =
  u_id :: string
  u_email :: string
  u_username :: string
  u_password_hash :: string
  u_auth_version :: int
  u_mfa_enabled :: bool
  u_mfa_secret_encrypted :: "string option"
  u_mfa_pending_secret_encrypted :: "string option"
  u_mfa_last_used_step :: "int option"
  u_mfa_recovery_code_hashes :: "string list"
  u_role :: user_role
  u_is_active :: bool

record user_permission =
  up_id :: string
  up_owner_user_id :: string
  up_grantee_user_id :: string
  up_view_only :: bool
  up_copy_follow :: bool
  up_pause_follow :: bool
  up_edit_copy_rule :: bool
  up_trade_manual :: bool

record exchange_account =
  ea_id :: string
  ea_user_id :: string
  ea_exchange_name :: exchange_name
  ea_account_mode :: account_mode
  ea_account_label :: string
  ea_trading_enabled :: bool
  ea_is_active :: bool

record api_key_secret =
  ks_id :: string
  ks_user_id :: string
  ks_exchange_account_id :: string
  ks_encrypted_api_key :: string
  ks_encrypted_api_secret :: string
  ks_encrypted_passphrase :: "string option"

record trading_signal =
  sg_id :: string
  sg_user_id :: string
  sg_source :: signal_source
  sg_symbol :: string
  sg_side :: order_side
  sg_order_type :: order_type
  sg_price :: "dec option"
  sg_quantity :: "dec option"
  sg_target_position_quantity :: "dec option"
  sg_raw_payload :: "pydict option"

record risk_setting =
  rs_id :: string
  rs_user_id :: string
  rs_exchange_account_id :: string
  rs_trading_enabled :: bool
  rs_max_single_order_notional :: "dec option"
  rs_max_position_notional :: "dec option"
  rs_max_leverage :: "dec option"
  rs_min_order_quantity :: "dec option"
  rs_max_order_quantity :: "dec option"
  rs_blocked_symbols :: "string list option"

record balance =
  ba_id :: string
  ba_user_id :: string
  ba_exchange_account_id :: string
  ba_asset :: string
  ba_available_quantity :: dec
  ba_locked_quantity :: dec
  ba_total_quantity :: dec

record position =
  po_id :: string
  po_user_id :: string
  po_exchange_account_id :: string
  po_symbol :: string
  po_quantity :: dec

record order_execution =
  oe_id :: string
  oe_user_id :: string
  oe_signal_id :: string
  oe_execution_id :: string
  oe_exchange_account_id :: string
  oe_exchange_name :: string
  oe_client_order_id :: string
  oe_exchange_order_id :: "string option"
  oe_symbol :: string
  oe_side :: order_side
  oe_order_type :: order_type
  oe_price :: "dec option"
  oe_quantity :: dec
  oe_status :: order_status
  oe_risk_result :: "pydict option"
  oe_exchange_response :: "pydict option"
  oe_error_message :: "string option"

record order_transition =
  tr_id :: string
  tr_user_id :: string
  tr_order_execution_id :: string
  tr_sequence_number :: int
  tr_from_status :: "string option"
  tr_to_status :: string
  tr_reason :: string
  tr_details :: "pydict option"

record audit_log =
  al_id :: string
  al_user_id :: string
  al_exchange_account_id :: "string option"
  al_action :: string
  al_severity :: string
  al_payload :: pydict
  al_created_at :: datetime

record system_event =
  se_id :: string
  se_user_id :: "string option"
  se_exchange_account_id :: "string option"
  se_event_type :: string
  se_severity :: string
  se_payload :: pydict

record internal_notification =
  nt_id :: string
  nt_user_id :: string
  nt_exchange_account_id :: "string option"
  nt_channel :: string
  nt_severity :: string
  nt_title :: string
  nt_message :: string
  nt_payload :: pydict
  nt_is_read :: bool
  nt_created_at :: datetime
  nt_read_at :: "datetime option"

record notification_preference =
  np_id :: string
  np_user_id :: string
  np_internal_enabled :: bool
  np_telegram_enabled :: bool
  np_email_enabled :: bool
  np_webhook_enabled :: bool
  np_position_drift_enabled :: bool
  np_risk_rejection_enabled :: bool
  np_order_failure_enabled :: bool

record system_control =
  sc_id :: string
  sc_emergency_stop_enabled :: bool
  sc_reason :: "string option"
  sc_changed_by_user_id :: "string option"
  sc_changed_at :: datetime

definition GLOBAL_SYSTEM_CONTROL_ID :: string where
  "GLOBAL_SYSTEM_CONTROL_ID = ''global''"

section \<open>Database and session\<close>

record db =
  users :: "user table"
  permissions :: "user_permission table"
  accounts :: "exchange_account table"
  secrets :: "api_key_secret table"
  signals :: "trading_signal table"
  risks :: "risk_setting table"
  balances :: "balance table"
  positions :: "position table"
  executions :: "order_execution table"
  transitions :: "order_transition table"
  audits :: "audit_log table"
  events :: "system_event table"
  notifications :: "internal_notification table"
  preferences :: "notification_preference table"
  controls :: "system_control table"

datatype alert =
    OrderFailureAlert string string
  | EmergencyStopAlert string
  | ReconciliationDriftAlert string string int
  | RateLimitAlert string string string int

text \<open>A request as it is handed to \<open>urlopen\<close>.\<close>

record http_request =
  hq_method :: string
  hq_url :: string
  hq_headers :: "(string \<times> string) list"
  hq_data :: "string option"

text \<open>What the program does with websockets.\<close>

datatype socket_event = Dialed string | SentJson pydict | ClosedSocket | Slept rat

record session =
  work :: db
  saved :: db
  uuid_src :: "nat \<Rightarrow> string"
  uuid_next :: nat
  clock :: int
  outbox :: "alert list"
  wire :: "http_request list"
  sockets :: "socket_event list"

type_synonym 'a op = "(session, 'a) action"

definition empty_db :: db where
  "empty_db = \<lparr>users = t_empty, permissions = t_empty, accounts = t_empty, secrets = t_empty,
     signals = t_empty, risks = t_empty, balances = t_empty, positions = t_empty,
     executions = t_empty, transitions = t_empty, audits = t_empty, events = t_empty,
     notifications = t_empty, preferences = t_empty, controls = t_empty\<rparr>"

definition now_utc :: "session \<Rightarrow> datetime" where
  "now_utc s = \<lparr>dt_wall = clock s, dt_offset = Some 0\<rparr>"

text \<open>The unique constraints of the models, over flushed and pending rows.\<close>

definition db_unique :: "db \<Rightarrow> bool" where
  "db_unique d \<longleftrightarrow>
     distinct (map u_email (t_all (users d))) \<and>
     distinct (map u_username (t_all (users d))) \<and>
     distinct (map (\<lambda>r. (up_owner_user_id r, up_grantee_user_id r)) (t_all (permissions d))) \<and>
     distinct (map ks_exchange_account_id (t_all (secrets d))) \<and>
     distinct (map rs_exchange_account_id (t_all (risks d))) \<and>
     distinct (map (\<lambda>r. (ba_exchange_account_id r, ba_asset r)) (t_all (balances d))) \<and>
     distinct (map (\<lambda>r. (po_exchange_account_id r, po_symbol r)) (t_all (positions d))) \<and>
     distinct (map (\<lambda>r. (oe_signal_id r, oe_exchange_account_id r)) (t_all (executions d))) \<and>
     distinct (map oe_client_order_id (t_all (executions d))) \<and>
     distinct (map (\<lambda>r. (tr_order_execution_id r, tr_sequence_number r)) (t_all (transitions d))) \<and>
     distinct (map np_user_id (t_all (preferences d))) \<and>
     distinct (map sc_id (t_all (controls d)))"

definition db_flush :: "db \<Rightarrow> db" where
  "db_flush d = \<lparr>users = t_flush (users d), permissions = t_flush (permissions d),
     accounts = t_flush (accounts d), secrets = t_flush (secrets d), signals = t_flush (signals d),
     risks = t_flush (risks d), balances = t_flush (balances d), positions = t_flush (positions d),
     executions = t_flush (executions d), transitions = t_flush (transitions d),
     audits = t_flush (audits d), events = t_flush (events d),
     notifications = t_flush (notifications d), preferences = t_flush (preferences d),
     controls = t_flush (controls d)\<rparr>"

definition flush :: "unit op" where
  "flush s = (if db_unique (work s) then (Inr (), s\<lparr>work := db_flush (work s)\<rparr>)
              else (Inl IntegrityError, s\<lparr>work := saved s\<rparr>))"

definition commit :: "unit op" where
  "commit = bnd flush (\<lambda>_. modify (\<lambda>s. s\<lparr>saved := work s\<rparr>))"

definition rollback :: "unit op" where
  "rollback = modify (\<lambda>s. s\<lparr>work := saved s\<rparr>)"

definition close :: "session \<Rightarrow> session" where
  "close s = s\<lparr>work := saved s\<rparr>"

definition upd :: "(db \<Rightarrow> db) \<Rightarrow> unit op" where
  "upd f = modify (\<lambda>s. s\<lparr>work := f (work s)\<rparr>)"

definition query :: "(db \<Rightarrow> 'a) \<Rightarrow> 'a op" where
  "query f = reads (\<lambda>s. f (work s))"

definition new_uuid :: "string op" where
  "new_uuid s = (Inr (uuid_src s (uuid_next s)), s\<lparr>uuid_next := Suc (uuid_next s)\<rparr>)"

definition send_alert :: "alert \<Rightarrow> unit op" where
  "send_alert a = modify (\<lambda>s. s\<lparr>outbox := outbox s @ [a]\<rparr>)"

text \<open>\<open>db.add\<close> of an audit log and of a system event, stamped with the server's time.\<close>

definition add_audit ::
    "string \<Rightarrow> string option \<Rightarrow> string \<Rightarrow> string \<Rightarrow> pydict \<Rightarrow> audit_log op" where
  "add_audit user_id account_id action severity payload =
     bnd new_uuid (\<lambda>i. bnd (reads now_utc) (\<lambda>t.
       let r = \<lparr>al_id = i, al_user_id = user_id, al_exchange_account_id = account_id,
                al_action = action, al_severity = severity, al_payload = payload,
                al_created_at = t\<rparr>
       in bnd (upd (\<lambda>d. d\<lparr>audits := t_add r (audits d)\<rparr>)) (\<lambda>_. ret r)))"

definition add_system_event ::
    "string option \<Rightarrow> string option \<Rightarrow> string \<Rightarrow> string \<Rightarrow> pydict \<Rightarrow> system_event op" where
  "add_system_event user_id account_id event_type severity payload =
     bnd new_uuid (\<lambda>i.
       let r = \<lparr>se_id = i, se_user_id = user_id, se_exchange_account_id = account_id,
                se_event_type = event_type, se_severity = severity, se_payload = payload\<rparr>
       in bnd (upd (\<lambda>d. d\<lparr>events := t_add r (events d)\<rparr>)) (\<lambda>_. ret r))"

section \<open>Laws of tables\<close>

lemma t_find_flush_add:
  "t_find P (t_flush (t_add r t)) =
     (case List.find P (t_all t) of Some x \<Rightarrow> Some x | None \<Rightarrow> if P r then Some r else None)"
  by (simp add: t_find_def t_flush_def t_add_def t_all_def find_append split: option.splits)

lemma t_all_simps [simp]:
  "t_all (t_add r t) = t_all t @ [r]" "t_all (t_flush t) = t_all t" "t_all (t_map f t) = map f (t_all t)"
  "t_all t_empty = []"
  by (simp_all add: t_all_def t_add_def t_flush_def t_map_def t_empty_def)

lemma rows_simps [simp]:
  "rows (t_flush t) = t_all t" "pend (t_flush t) = []"
  "rows (t_add r t) = rows t" "pend (t_add r t) = pend t @ [r]"
  "rows (t_map f t) = map f (rows t)" "pend (t_map f t) = map f (pend t)"
  "rows t_empty = []" "pend t_empty = []"
  by (simp_all add: t_all_def t_add_def t_flush_def t_map_def t_empty_def)

lemma t_find_SomeD: "t_find P t = Some r \<Longrightarrow> r \<in> set (rows t) \<and> P r"
  unfolding t_find_def by (rule find_SomeD)

lemma t_find_unique:
  assumes "r \<in> set (rows t)" and "P r" and "\<And>x. x \<in> set (rows t) \<Longrightarrow> P x \<Longrightarrow> x = r"
  shows "t_find P t = Some r"
proof (cases "t_find P t")
  case None
  with assms(1,2) show ?thesis by (auto simp: t_find_def find_None_iff)
next
  case (Some y)
  then have "y = r" using t_find_SomeD [OF Some] assms(3) by blast
  with Some show ?thesis by simp
qed

lemma t_find_flush_present: "t_find P t = Some r \<Longrightarrow> t_find P (t_flush t) = Some r"
  by (simp add: t_find_def t_all_def find_append)

text \<open>
  A query whose condition the update does not affect finds the same row, in its new state.
\<close>

lemma t_find_put:
  assumes "\<And>x. x \<in> set (rows t) \<Longrightarrow> key x = key r \<Longrightarrow> P x = P r"
  shows "t_find P (t_put key r t) = map_option (\<lambda>x. if key x = key r then r else x) (t_find P t)"
  unfolding t_find_def t_put_def by (simp, rule find_map_same) (use assms in auto)

lemma t_all_put: "t_all (t_put key r t) = map (\<lambda>x. if key x = key r then r else x) (t_all t)"
  by (simp add: t_put_def)

lemma map_t_all_put:
  assumes "\<And>x. x \<in> set (t_all t) \<Longrightarrow> key x = key r \<Longrightarrow> f x = f r"
  shows "map f (t_all (t_put key r t)) = map f (t_all t)"
  unfolding t_all_put using assms by auto

text \<open>Adding a row that a query did not find, and updating the row that it found.\<close>

lemma t_find_added:
  "pend t = [] \<Longrightarrow> t_find P t = None \<Longrightarrow> P r \<Longrightarrow> t_find P (t_flush (t_add r t)) = Some r"
  by (simp add: t_find_def t_all_def find_append)

lemma t_find_None_weaken: "t_find P t = None \<Longrightarrow> (\<And>x. Q x \<Longrightarrow> P x) \<Longrightarrow> t_find Q t = None"
  by (auto simp: t_find_def find_None_iff)

lemma distinct_added:
  "pend t = [] \<Longrightarrow> t_find (\<lambda>x. f x = f r) t = None \<Longrightarrow> distinct (map f (t_all t)) \<Longrightarrow>
     distinct (map f (t_all (t_add r t)))"
  by (auto simp: t_find_def find_None_iff t_all_def)

lemma t_find_unique_key:
  "distinct (map key (rows t)) \<Longrightarrow> r \<in> set (rows t) \<Longrightarrow> t_find (\<lambda>x. key x = key r) t = Some r"
  unfolding t_find_def by (rule distinct_map_find)

lemma t_find_stored:
  assumes "pend t = []" and "t_find P t = Some r" and "key r' = key r" and "P r'"
    and "\<And>x. x \<in> set (rows t) \<Longrightarrow> key x = key r' \<Longrightarrow> P x"
  shows "t_find P (t_flush (t_put key r' t)) = Some r'"
proof -
  have "t_find P (t_put key r' t) = Some r'"
    using assms by (subst t_find_put) auto
  then show ?thesis by (rule t_find_flush_present)
qed

section \<open>Laws of the session\<close>

lemma db_flush_sel [simp]:
  "users (db_flush d) = t_flush (users d)" "permissions (db_flush d) = t_flush (permissions d)"
  "accounts (db_flush d) = t_flush (accounts d)" "secrets (db_flush d) = t_flush (secrets d)"
  "signals (db_flush d) = t_flush (signals d)" "risks (db_flush d) = t_flush (risks d)"
  "balances (db_flush d) = t_flush (balances d)" "positions (db_flush d) = t_flush (positions d)"
  "executions (db_flush d) = t_flush (executions d)"
  "transitions (db_flush d) = t_flush (transitions d)"
  "audits (db_flush d) = t_flush (audits d)" "events (db_flush d) = t_flush (events d)"
  "notifications (db_flush d) = t_flush (notifications d)"
  "preferences (db_flush d) = t_flush (preferences d)" "controls (db_flush d) = t_flush (controls d)"
  by (simp_all add: db_flush_def)

lemma t_flush_flush [simp]: "t_flush (t_flush t) = t_flush t"
  by (simp add: t_flush_def)

lemma db_flush_flush [simp]: "db_flush (db_flush d) = db_flush d"
  by (simp add: db_flush_def)

lemma db_unique_flush [simp]: "db_unique (db_flush d) = db_unique d"
  by (simp add: db_unique_def)

lemma flush_ok: "db_unique (work s) \<Longrightarrow> flush s = (Inr (), s\<lparr>work := db_flush (work s)\<rparr>)"
  by (simp add: flush_def)

text \<open>
  A transaction with nothing pending, as every request starts, whose rows satisfy the
  constraints of the schema.
\<close>

definition settled :: "db \<Rightarrow> bool" where
  "settled d \<longleftrightarrow> db_flush d = d \<and> db_unique d"

lemma db_flush_update:
  "db_flush (d\<lparr>users := t0\<rparr>) = (db_flush d)\<lparr>users := t_flush t0\<rparr>"
  "db_flush (d\<lparr>permissions := t1\<rparr>) = (db_flush d)\<lparr>permissions := t_flush t1\<rparr>"
  "db_flush (d\<lparr>accounts := t2\<rparr>) = (db_flush d)\<lparr>accounts := t_flush t2\<rparr>"
  "db_flush (d\<lparr>secrets := t3\<rparr>) = (db_flush d)\<lparr>secrets := t_flush t3\<rparr>"
  "db_flush (d\<lparr>signals := t4\<rparr>) = (db_flush d)\<lparr>signals := t_flush t4\<rparr>"
  "db_flush (d\<lparr>risks := t5\<rparr>) = (db_flush d)\<lparr>risks := t_flush t5\<rparr>"
  "db_flush (d\<lparr>balances := t6\<rparr>) = (db_flush d)\<lparr>balances := t_flush t6\<rparr>"
  "db_flush (d\<lparr>positions := t7\<rparr>) = (db_flush d)\<lparr>positions := t_flush t7\<rparr>"
  "db_flush (d\<lparr>executions := t8\<rparr>) = (db_flush d)\<lparr>executions := t_flush t8\<rparr>"
  "db_flush (d\<lparr>transitions := t9\<rparr>) = (db_flush d)\<lparr>transitions := t_flush t9\<rparr>"
  "db_flush (d\<lparr>audits := t10\<rparr>) = (db_flush d)\<lparr>audits := t_flush t10\<rparr>"
  "db_flush (d\<lparr>events := t11\<rparr>) = (db_flush d)\<lparr>events := t_flush t11\<rparr>"
  "db_flush (d\<lparr>notifications := t12\<rparr>) = (db_flush d)\<lparr>notifications := t_flush t12\<rparr>"
  "db_flush (d\<lparr>preferences := t13\<rparr>) = (db_flush d)\<lparr>preferences := t_flush t13\<rparr>"
  "db_flush (d\<lparr>controls := t14\<rparr>) = (db_flush d)\<lparr>controls := t_flush t14\<rparr>"
  by (simp_all add: db_flush_def)

lemma settled_flush:
  assumes "settled d"
  shows
    "t_flush (users d) = users d"
    "t_flush (permissions d) = permissions d"
    "t_flush (accounts d) = accounts d"
    "t_flush (secrets d) = secrets d"
    "t_flush (signals d) = signals d"
    "t_flush (risks d) = risks d"
    "t_flush (balances d) = balances d"
    "t_flush (positions d) = positions d"
    "t_flush (executions d) = executions d"
    "t_flush (transitions d) = transitions d"
    "t_flush (audits d) = audits d"
    "t_flush (events d) = events d"
    "t_flush (notifications d) = notifications d"
    "t_flush (preferences d) = preferences d"
    "t_flush (controls d) = controls d"
  using assms unfolding settled_def by (metis db_flush_sel)+

lemma settled_pend:
  assumes "settled d"
  shows
    "pend (users d) = []"
    "pend (permissions d) = []"
    "pend (accounts d) = []"
    "pend (secrets d) = []"
    "pend (signals d) = []"
    "pend (risks d) = []"
    "pend (balances d) = []"
    "pend (positions d) = []"
    "pend (executions d) = []"
    "pend (transitions d) = []"
    "pend (audits d) = []"
    "pend (events d) = []"
    "pend (notifications d) = []"
    "pend (preferences d) = []"
    "pend (controls d) = []"
  using settled_flush [OF assms] by (metis rows_simps(2))+

lemma settled_db_flush: "db_unique d \<Longrightarrow> settled (db_flush d)"
  by (simp add: settled_def)

lemma settledD: "settled d \<Longrightarrow> db_flush d = d" "settled d \<Longrightarrow> db_unique d"
  by (simp_all add: settled_def)

lemma t_all_settled: "pend t = [] \<Longrightarrow> t_all t = rows t"
  by (simp add: t_all_def)

text \<open>Uniqueness after a change of one table: the constraints of the other tables are untouched.\<close>

lemma db_unique_free [simp]:
  "db_unique (d\<lparr>accounts := ta\<rparr>) = db_unique d" "db_unique (d\<lparr>signals := tb\<rparr>) = db_unique d"
  "db_unique (d\<lparr>audits := tc\<rparr>) = db_unique d" "db_unique (d\<lparr>events := td\<rparr>) = db_unique d"
  "db_unique (d\<lparr>notifications := te\<rparr>) = db_unique d"
  by (simp_all add: db_unique_def)

lemma db_unique_update:
  "db_unique d \<Longrightarrow> db_unique (d\<lparr>secrets := t1\<rparr>) \<longleftrightarrow> distinct (map ks_exchange_account_id (t_all t1))"
  "db_unique d \<Longrightarrow> db_unique (d\<lparr>risks := t2\<rparr>) \<longleftrightarrow> distinct (map rs_exchange_account_id (t_all t2))"
  "db_unique d \<Longrightarrow> db_unique (d\<lparr>balances := t3\<rparr>) \<longleftrightarrow>
     distinct (map (\<lambda>r. (ba_exchange_account_id r, ba_asset r)) (t_all t3))"
  "db_unique d \<Longrightarrow> db_unique (d\<lparr>positions := t4\<rparr>) \<longleftrightarrow>
     distinct (map (\<lambda>r. (po_exchange_account_id r, po_symbol r)) (t_all t4))"
  "db_unique d \<Longrightarrow> db_unique (d\<lparr>executions := t5\<rparr>) \<longleftrightarrow>
     distinct (map (\<lambda>r. (oe_signal_id r, oe_exchange_account_id r)) (t_all t5)) \<and>
     distinct (map oe_client_order_id (t_all t5))"
  "db_unique d \<Longrightarrow> db_unique (d\<lparr>transitions := t6\<rparr>) \<longleftrightarrow>
     distinct (map (\<lambda>r. (tr_order_execution_id r, tr_sequence_number r)) (t_all t6))"
  "db_unique d \<Longrightarrow> db_unique (d\<lparr>preferences := t7\<rparr>) \<longleftrightarrow> distinct (map np_user_id (t_all t7))"
  "db_unique d \<Longrightarrow> db_unique (d\<lparr>controls := t8\<rparr>) \<longleftrightarrow> distinct (map sc_id (t_all t8))"
  by (simp_all add: db_unique_def)

lemma flush_cases:
  "flush s = (Inr (), s\<lparr>work := db_flush (work s)\<rparr>) \<and> db_unique (work s)
   \<or> flush s = (Inl IntegrityError, s\<lparr>work := saved s\<rparr>) \<and> \<not> db_unique (work s)"
  by (simp add: flush_def)

lemma commit_ok:
  "db_unique (work s) \<Longrightarrow>
     commit s = (Inr (), s\<lparr>work := db_flush (work s), saved := db_flush (work s)\<rparr>)"
  by (simp add: commit_def bnd_def flush_ok)

lemma commit_apply:
  "commit s = (if db_unique (work s)
     then (Inr (), s\<lparr>work := db_flush (work s), saved := db_flush (work s)\<rparr>)
     else (Inl IntegrityError, s\<lparr>work := saved s\<rparr>))"
  by (simp add: commit_def bnd_def flush_def)

lemma bnd_flush [act_simps]:
  "bnd flush g s = (if db_unique (work s) then g () (s\<lparr>work := db_flush (work s)\<rparr>)
                    else (Inl IntegrityError, s\<lparr>work := saved s\<rparr>))"
  by (simp add: bnd_def flush_def)

lemma bnd_commit [act_simps]:
  "bnd commit g s = (if db_unique (work s)
     then g () (s\<lparr>work := db_flush (work s), saved := db_flush (work s)\<rparr>)
     else (Inl IntegrityError, s\<lparr>work := saved s\<rparr>))"
  by (simp add: bnd_def commit_apply)

lemma upd_apply [act_simps, simp]: "upd f s = (Inr (), s\<lparr>work := f (work s)\<rparr>)"
  by (simp add: upd_def)

lemma bnd_upd [act_simps, simp]: "bnd (upd f) g s = g () (s\<lparr>work := f (work s)\<rparr>)"
  by (simp add: bnd_def)

lemma query_apply [act_simps, simp]: "query f s = (Inr (f (work s)), s)"
  by (simp add: query_def)

lemma bnd_query [act_simps, simp]: "bnd (query f) g s = g (f (work s)) s"
  by (simp add: bnd_def)

lemma bnd_new_uuid [act_simps, simp]:
  "bnd new_uuid g s = g (uuid_src s (uuid_next s)) (s\<lparr>uuid_next := Suc (uuid_next s)\<rparr>)"
  by (simp add: bnd_def new_uuid_def)

lemma bnd_send_alert [act_simps, simp]:
  "bnd (send_alert a) g s = g () (s\<lparr>outbox := outbox s @ [a]\<rparr>)"
  by (simp add: bnd_def send_alert_def)

lemma add_audit_apply [act_simps]:
  "bnd (add_audit user_id account_id action severity payload) g s =
     (let r = \<lparr>al_id = uuid_src s (uuid_next s), al_user_id = user_id,
               al_exchange_account_id = account_id, al_action = action, al_severity = severity,
               al_payload = payload, al_created_at = now_utc s\<rparr>
      in g r (s\<lparr>uuid_next := Suc (uuid_next s),
                work := (work s)\<lparr>audits := t_add r (audits (work s))\<rparr>\<rparr>))"
  by (simp add: add_audit_def Let_def bnd_assoc now_utc_def)

lemma add_system_event_apply [act_simps]:
  "bnd (add_system_event user_id account_id event_type severity payload) g s =
     (let r = \<lparr>se_id = uuid_src s (uuid_next s), se_user_id = user_id,
               se_exchange_account_id = account_id, se_event_type = event_type,
               se_severity = severity, se_payload = payload\<rparr>
      in g r (s\<lparr>uuid_next := Suc (uuid_next s),
                work := (work s)\<lparr>events := t_add r (events (work s))\<rparr>\<rparr>))"
  by (simp add: add_system_event_def Let_def bnd_assoc)

section \<open>Invariants of the database\<close>

text \<open>
  \<open>J u n d\<close> is a property of a database \<open>d\<close> under the uuid supply \<open>u\<close> of which \<open>n\<close> have been
  drawn. \<open>preserves J m\<close>: if \<open>J\<close> holds of the durable state and of the current transaction
  before \<open>m\<close>, it holds of both afterwards, whether \<open>m\<close> returns or raises.
\<close>

type_synonym db_pred = "(nat \<Rightarrow> string) \<Rightarrow> nat \<Rightarrow> db \<Rightarrow> bool"

definition both :: "db_pred \<Rightarrow> session \<Rightarrow> bool" where
  "both J s \<longleftrightarrow> J (uuid_src s) (uuid_next s) (work s) \<and> J (uuid_src s) (uuid_next s) (saved s)"

definition preserves :: "db_pred \<Rightarrow> 'a op \<Rightarrow> bool" where
  "preserves J m \<longleftrightarrow> keeps (\<lambda>s s'. both J s \<longrightarrow> both J s') m"

lemma preserves_refl_trans:
  "reflp (\<lambda>s s'. both J s \<longrightarrow> both J s')" "transp (\<lambda>s s'. both J s \<longrightarrow> both J s')"
  by (auto intro: reflpI transpI)

lemma preservesD: "preserves J m \<Longrightarrow> m s = (r, s') \<Longrightarrow> both J s \<Longrightarrow> both J s'"
  unfolding preserves_def by (drule keepsD) auto

lemma preservesI: "(\<And>s r s'. m s = (r, s') \<Longrightarrow> both J s \<Longrightarrow> both J s') \<Longrightarrow> preserves J m"
  unfolding preserves_def keeps_def by (metis prod.collapse)

named_theorems preserves_rules \<open>composition rules for invariants of the database\<close>

lemma preserves_ret [preserves_rules]: "preserves J (ret a)"
  unfolding preserves_def by (rule keeps_ret) (rule preserves_refl_trans)

lemma preserves_raise [preserves_rules]: "preserves J (raise e)"
  unfolding preserves_def by (rule keeps_raise) (rule preserves_refl_trans)

lemma preserves_reads [preserves_rules]: "preserves J (reads f)"
  unfolding preserves_def by (rule keeps_reads) (rule preserves_refl_trans)

lemma preserves_query [preserves_rules]: "preserves J (query f)"
  unfolding query_def by (rule preserves_reads)

lemma preserves_lift_result [preserves_rules]: "preserves J (lift_result r)"
  unfolding preserves_def by (rule keeps_lift_result) (rule preserves_refl_trans)

lemma preserves_bnd [preserves_rules]:
  "preserves J m \<Longrightarrow> (\<And>a. preserves J (f a)) \<Longrightarrow> preserves J (bnd m f)"
  unfolding preserves_def by (rule keeps_bnd) (rule preserves_refl_trans)

text \<open>The second part may rely on what the first one returned.\<close>

lemma preserves_bnd_dep:
  assumes "preserves J m" and "\<And>s a s'. m s = (Inr a, s') \<Longrightarrow> both J s' \<Longrightarrow> preserves J (f a)"
  shows "preserves J (bnd m f)"
proof (rule preservesI)
  fix s r s'
  assume run: "bnd m f s = (r, s')" and J: "both J s"
  obtain r1 s1 where 1: "m s = (r1, s1)" by fastforce
  have J1: "both J s1" by (rule preservesD [OF assms(1) 1 J])
  show "both J s'"
  proof (cases r1)
    case (Inl e)
    with 1 run J1 show ?thesis by (simp add: bnd_def)
  next
    case (Inr a)
    with 1 run have "f a s1 = (r, s')" by (simp add: bnd_def)
    with assms(2) [OF 1 [unfolded Inr] J1] J1 show ?thesis by (blast dest: preservesD)
  qed
qed

lemma preserves_if [preserves_rules]:
  "(c \<Longrightarrow> preserves J m) \<Longrightarrow> (\<not> c \<Longrightarrow> preserves J m') \<Longrightarrow> preserves J (if c then m else m')"
  by simp

lemma preserves_case_option [preserves_rules]:
  "preserves J m \<Longrightarrow> (\<And>a. preserves J (f a)) \<Longrightarrow> preserves J (case x of None \<Rightarrow> m | Some a \<Rightarrow> f a)"
  by (simp split: option.split)

lemma preserves_case_sum [preserves_rules]:
  "(\<And>a. preserves J (f a)) \<Longrightarrow> (\<And>a. preserves J (g a)) \<Longrightarrow>
    preserves J (case x of Inl a \<Rightarrow> f a | Inr a \<Rightarrow> g a)"
  by (simp split: sum.split)

lemma preserves_case_prod [preserves_rules]:
  "(\<And>a b. preserves J (f a b)) \<Longrightarrow> preserves J (case x of (a, b) \<Rightarrow> f a b)"
  by (simp split: prod.split)

lemma preserves_Let [preserves_rules]: "preserves J (f x) \<Longrightarrow> preserves J (let y = x in f y)"
  by simp

lemma preserves_map_act [preserves_rules]:
  "(\<And>x. preserves J (f x)) \<Longrightarrow> preserves J (map_act f xs)"
  unfolding preserves_def by (rule keeps_map_act) (auto intro: preserves_refl_trans)

lemma preserves_try_except:
  "preserves J m \<Longrightarrow> (\<And>e k. h e = Some k \<Longrightarrow> preserves J k) \<Longrightarrow> preserves J (try_except m h)"
  unfolding preserves_def by (rule keeps_try_except) (rule preserves_refl_trans)

lemma preserves_send_alert [preserves_rules]: "preserves J (send_alert a)"
  by (rule preservesI) (auto simp: send_alert_def both_def)

lemma preserves_rollback [preserves_rules]: "preserves J rollback"
  by (rule preservesI) (auto simp: rollback_def both_def)

lemma preserves_upd:
  "(\<And>u n d. J u n d \<Longrightarrow> J u n (f d)) \<Longrightarrow> preserves J (upd f)"
  by (rule preservesI) (auto simp: both_def)

text \<open>
  What a property must satisfy for the session to keep it: drawing a uuid and flushing do
  not break it.
\<close>

locale db_invariant =
  fixes J :: db_pred
  assumes inv_more: "J u n d \<Longrightarrow> J u (Suc n) d"
    and inv_flush: "J u n d \<Longrightarrow> J u n (db_flush d)"
begin

lemma preserves_new_uuid [preserves_rules]: "preserves J new_uuid"
  by (rule preservesI) (auto simp: new_uuid_def both_def inv_more)

lemma preserves_flush [preserves_rules]: "preserves J flush"
  by (rule preservesI) (auto simp: flush_def both_def inv_flush split: if_splits)

lemma preserves_commit [preserves_rules]: "preserves J commit"
  by (rule preservesI) (auto simp: commit_apply both_def inv_flush split: if_splits)

lemma inv_close: "both J s \<Longrightarrow> both J (close s)"
  by (simp add: both_def close_def)

end

section \<open>Get-or-create\<close>

text \<open>
  The contract of the code's \<open>get_or_create_...\<close> functions: an existing row is returned and
  nothing changes, a missing one is created, and what was created is what the next lookup
  finds.
\<close>

locale get_or_create =
  fixes lookup :: "'k \<Rightarrow> session \<Rightarrow> 'r option"
    and goc :: "'k \<Rightarrow> 'r op"
  assumes goc_found: "lookup k s = Some r \<Longrightarrow> goc k s = (Inr r, s)"
    and goc_created: "lookup k s = None \<Longrightarrow> goc k s = (Inr r, s') \<Longrightarrow> lookup k s' = Some r"
begin

lemma goc_lookup: "goc k s = (Inr r, s') \<Longrightarrow> lookup k s' = Some r"
  by (cases "lookup k s") (auto simp: goc_found goc_created)

lemma goc_again:
  assumes "goc k s = (Inr r, s')"
  shows "goc k s' = (Inr r, s')"
  by (rule goc_found) (rule goc_lookup [OF assms])

end

section \<open>Owned rows\<close>

text \<open>
  Tenancy: a row is looked up by its id together with the id of the user it belongs to. Whoever
  asks for a row of somebody else finds nothing.
\<close>

locale owned_rows =
  fixes tbl :: "db \<Rightarrow> 'r table" and owner :: "'r \<Rightarrow> string" and rid :: "'r \<Rightarrow> string"
    and lookup :: "string \<Rightarrow> string \<Rightarrow> db \<Rightarrow> 'r option"
  assumes lookup_select: "lookup u i d = t_find (\<lambda>r. rid r = i \<and> owner r = u) (tbl d)"
begin

lemma lookup_owner:
  assumes "lookup u i d = Some r"
  shows "owner r = u" and "rid r = i" and "r \<in> set (rows (tbl d))"
proof -
  have "r \<in> set (rows (tbl d)) \<and> rid r = i \<and> owner r = u"
    using assms unfolding lookup_select by (rule t_find_SomeD)
  then show "owner r = u" and "rid r = i" and "r \<in> set (rows (tbl d))" by simp_all
qed

lemma lookup_isolated:
  assumes "distinct (map rid (rows (tbl d)))" and "lookup u i d = Some r" and "v \<noteq> u"
  shows "lookup v i d = None"
proof (rule ccontr)
  assume "lookup v i d \<noteq> None"
  then obtain r' where r': "lookup v i d = Some r'" by blast
  have "r' = r"
    using lookup_owner(2,3) [OF r'] lookup_owner(2,3) [OF assms(2)] assms(1)
    by (auto simp: distinct_map dest: inj_onD)
  then show False using lookup_owner(1) [OF r'] lookup_owner(1) [OF assms(2)] assms(3) by simp
qed

lemma lookup_complete:
  assumes "distinct (map rid (rows (tbl d)))" and "r \<in> set (rows (tbl d))"
  shows "lookup (owner r) (rid r) d = Some r"
proof -
  have "lookup (owner r) (rid r) d \<noteq> None"
    using assms(2) by (auto simp: lookup_select t_find_def find_None_iff)
  then obtain x where x: "lookup (owner r) (rid r) d = Some x" by blast
  have "x = r"
    using lookup_owner(2,3) [OF x] assms by (auto simp: distinct_map dest: inj_onD)
  with x show ?thesis by simp
qed

end

end
