(* ===== verification/Samples.thy ===== *)
theory Samples
  imports Db
begin

text \<open>
  Concrete rows and a concrete session. The witnesses of the properties run the operations of the
  components on them.
\<close>

definition sample_uuid :: "nat \<Rightarrow> string" where
  "sample_uuid n = replicate (Suc n) (CHR ''u'')"

definition sample_user :: user where
  "sample_user = \<lparr>u_id = ''alice'', u_email = ''a@x.io'', u_username = ''alice'',
     u_password_hash = ''h'', u_auth_version = 0, u_mfa_enabled = False,
     u_mfa_secret_encrypted = None, u_mfa_pending_secret_encrypted = None,
     u_mfa_last_used_step = None, u_mfa_recovery_code_hashes = [], u_role = SUPER_ADMIN,
     u_is_active = True\<rparr>"

definition sample_account :: exchange_account where
  "sample_account = \<lparr>ea_id = ''acct-1'', ea_user_id = ''alice'', ea_exchange_name = MOCK,
     ea_account_mode = SIMULATION, ea_account_label = ''paper'', ea_trading_enabled = True,
     ea_is_active = True\<rparr>"

definition testnet_account :: exchange_account where
  "testnet_account = \<lparr>ea_id = ''acct-2'', ea_user_id = ''alice'', ea_exchange_name = BINANCE,
     ea_account_mode = TESTNET, ea_account_label = ''testnet'', ea_trading_enabled = True,
     ea_is_active = True\<rparr>"

definition sample_risk :: risk_setting where
  "sample_risk = \<lparr>rs_id = ''risk-1'', rs_user_id = ''alice'', rs_exchange_account_id = ''acct-1'',
     rs_trading_enabled = True, rs_max_single_order_notional = None, rs_max_position_notional = None,
     rs_max_leverage = None, rs_min_order_quantity = None, rs_max_order_quantity = Some (Dec False 100 0),
     rs_blocked_symbols = Some []\<rparr>"

definition testnet_risk :: risk_setting where
  "testnet_risk = sample_risk\<lparr>rs_id := ''risk-2'', rs_exchange_account_id := ''acct-2''\<rparr>"

definition sample_secret :: api_key_secret where
  "sample_secret = \<lparr>ks_id = ''key-2'', ks_user_id = ''alice'', ks_exchange_account_id = ''acct-2'',
     ks_encrypted_api_key = ''k'', ks_encrypted_api_secret = ''s'', ks_encrypted_passphrase = None\<rparr>"

definition sample_signal :: trading_signal where
  "sample_signal = \<lparr>sg_id = ''sig-1'', sg_user_id = ''alice'', sg_source = MANUAL,
     sg_symbol = ''BTCUSDT'', sg_side = BUY, sg_order_type = MARKET, sg_price = None,
     sg_quantity = None, sg_target_position_quantity = Some (Dec False 5 0), sg_raw_payload = None\<rparr>"

definition sample_db :: db where
  "sample_db = empty_db\<lparr>users := \<lparr>rows = [sample_user], pend = []\<rparr>,
     accounts := \<lparr>rows = [sample_account, testnet_account], pend = []\<rparr>,
     secrets := \<lparr>rows = [sample_secret], pend = []\<rparr>,
     signals := \<lparr>rows = [sample_signal], pend = []\<rparr>,
     risks := \<lparr>rows = [sample_risk, testnet_risk], pend = []\<rparr>\<rparr>"

definition sample_session :: session where
  "sample_session = \<lparr>work = sample_db, saved = sample_db, uuid_src = sample_uuid, uuid_next = 0,
     clock = 0, outbox = [], wire = [], sockets = []\<rparr>"

lemma sample_uuid_inj: "inj sample_uuid"
  by (rule injI) (metis length_replicate nat.inject sample_uuid_def)

lemma sample_uuid_ne: "sample_uuid n \<noteq> []"
  by (simp add: sample_uuid_def)

lemma sample_settled: "settled sample_db"
  by (simp add: settled_def db_flush_def db_unique_def sample_db_def empty_db_def t_flush_def t_empty_def
      t_all_def sample_user_def sample_risk_def testnet_risk_def sample_secret_def)

lemma sample_session_sel [simp]:
  "work sample_session = sample_db" "saved sample_session = sample_db"
  "uuid_src sample_session = sample_uuid" "uuid_next sample_session = 0" "clock sample_session = 0"
  "outbox sample_session = []"
  by (simp_all add: sample_session_def)

lemma sample_db_empty [simp]:
  "permissions sample_db = t_empty" "balances sample_db = t_empty" "positions sample_db = t_empty"
  "executions sample_db = t_empty" "transitions sample_db = t_empty" "audits sample_db = t_empty"
  "events sample_db = t_empty" "notifications sample_db = t_empty" "preferences sample_db = t_empty"
  "controls sample_db = t_empty"
  by (simp_all add: sample_db_def empty_db_def)

end
