(* ===== verification/Order_State_Machine.thy ===== *)
theory Order_State_Machine
  imports Samples
begin

text \<open>
  The order state machine (\<open>services/order_state_machine.py\<close>): the table of allowed status
  changes, and the two operations through which every service changes the status of an order
  execution and records the change in the transition trail.

  An \<open>OrderExecution\<close> object is referred to by the id of its row; \<open>get_execution\<close> and
  \<open>put_execution\<close> are the reading and writing of its attributes.
\<close>

section \<open>The table\<close>

definition TERMINAL_ORDER_STATUSES :: "order_status list" where
  "TERMINAL_ORDER_STATUSES = [FILLED, CANCELLED, REJECTED, FAILED, TIMEOUT]"

definition ALLOWED_ORDER_TRANSITIONS :: "(order_status \<times> order_status list) list" where
  "ALLOWED_ORDER_TRANSITIONS =
     [(CREATED, [RISK_PASSED, REJECTED, FAILED]),
      (RISK_PASSED, [SUBMITTED, FAILED]),
      (SUBMITTED, [ACCEPTED, PARTIALLY_FILLED, FILLED, CANCELLED, REJECTED, FAILED, TIMEOUT]),
      (ACCEPTED, [PARTIALLY_FILLED, FILLED, CANCELLED, REJECTED, FAILED, TIMEOUT]),
      (PARTIALLY_FILLED, [PARTIALLY_FILLED, FILLED, CANCELLED, FAILED, TIMEOUT])]"

definition allowed :: "order_status \<Rightarrow> order_status list" where
  "allowed from_status =
     (case map_of ALLOWED_ORDER_TRANSITIONS from_status of None \<Rightarrow> [] | Some ts \<Rightarrow> ts)"

section \<open>Operations\<close>

definition find_execution :: "string \<Rightarrow> db \<Rightarrow> order_execution option" where
  "find_execution eid d = t_find (\<lambda>e. oe_id e = eid) (executions d)"

definition get_execution :: "string \<Rightarrow> order_execution op" where
  "get_execution eid = bnd (query (find_execution eid)) (\<lambda>r.
     case r of None \<Rightarrow> raise (InvalidOrderStateTransitionError ''order execution must be persisted first'')
     | Some e \<Rightarrow> ret e)"

definition put_execution :: "order_execution \<Rightarrow> unit op" where
  "put_execution e = upd (\<lambda>d. d\<lparr>executions := t_put oe_id e (executions d)\<rparr>)"

text \<open>\<open>max(xs, default=0)\<close>, and \<open>SELECT max(...)\<close> followed by \<open>or 0\<close>.\<close>

fun max_or_zero :: "int list \<Rightarrow> int" where
  "max_or_zero [] = 0"
| "max_or_zero [x] = x"
| "max_or_zero (x # y # zs) = max x (max_or_zero (y # zs))"

definition sequence_numbers :: "string \<Rightarrow> order_transition list \<Rightarrow> int list" where
  "sequence_numbers eid ts = map tr_sequence_number (filter (\<lambda>t. tr_order_execution_id t = eid) ts)"

definition next_sequence_number :: "db \<Rightarrow> string \<Rightarrow> int" where
  "next_sequence_number d eid =
     (let persisted_max = max_or_zero (sequence_numbers eid (rows (transitions d)));
          pending_max = max_or_zero (sequence_numbers eid (pend (transitions d)))
      in max persisted_max pending_max + 1)"

definition add_transition ::
    "order_execution \<Rightarrow> order_status option \<Rightarrow> order_status \<Rightarrow> string \<Rightarrow> pydict option
     \<Rightarrow> order_transition op" where
  "add_transition ex from_status to_status reason details =
     (if oe_id ex = []
      then raise (InvalidOrderStateTransitionError ''order execution must be persisted first'')
      else bnd new_uuid (\<lambda>i. bnd (query (\<lambda>d. next_sequence_number d (oe_id ex))) (\<lambda>k.
        let t = \<lparr>tr_id = i, tr_user_id = oe_user_id ex, tr_order_execution_id = oe_id ex,
                 tr_sequence_number = k, tr_from_status = map_option status_value from_status,
                 tr_to_status = status_value to_status, tr_reason = reason, tr_details = details\<rparr>
        in bnd (upd (\<lambda>d. d\<lparr>transitions := t_add t (transitions d)\<rparr>)) (\<lambda>_. ret t))))"

definition record_initial_order_state :: "string \<Rightarrow> string \<Rightarrow> order_transition op" where
  "record_initial_order_state eid reason = bnd (get_execution eid) (\<lambda>ex.
     if oe_status ex \<noteq> CREATED
     then raise (InvalidOrderStateTransitionError ''initial order state must be CREATED'')
     else add_transition ex None CREATED reason None)"

definition transition_order_execution ::
    "string \<Rightarrow> order_status \<Rightarrow> string \<Rightarrow> pydict option \<Rightarrow> order_transition op" where
  "transition_order_execution eid to_status reason details = bnd (get_execution eid) (\<lambda>ex.
     let from_status = oe_status ex in
     if to_status \<notin> set (allowed from_status)
     then raise (InvalidOrderStateTransitionError
       (''order status transition '' @ status_value from_status @ '' -> ''
        @ status_value to_status @ '' is not allowed''))
     else let ex' = ex\<lparr>oe_status := to_status\<rparr> in
       bnd (put_execution ex') (\<lambda>_.
         add_transition ex' (Some from_status) to_status reason details))"

text \<open>Assignments to attributes of a loaded execution.\<close>

definition modify_execution :: "string \<Rightarrow> (order_execution \<Rightarrow> order_execution) \<Rightarrow> unit op" where
  "modify_execution eid f = bnd (get_execution eid) (\<lambda>ex. put_execution (f ex))"

text \<open>\<open>db.add(execution)\<close> followed by \<open>db.flush()\<close>: the row gets its id and its execution id.\<close>

definition add_execution :: "order_execution \<Rightarrow> order_execution op" where
  "add_execution ex0 = bnd new_uuid (\<lambda>i. bnd new_uuid (\<lambda>x.
     let e = ex0\<lparr>oe_id := i, oe_execution_id := x\<rparr> in
     bnd (upd (\<lambda>d. d\<lparr>executions := t_add e (executions d)\<rparr>)) (\<lambda>_.
       bnd flush (\<lambda>_. ret e))))"

text \<open>The statements \<open>db.add(execution)\<close>, \<open>db.flush()\<close>, \<open>record_initial_order_state(...)\<close>.\<close>

definition create_execution :: "order_execution \<Rightarrow> string \<Rightarrow> order_execution op" where
  "create_execution ex0 reason = bnd (add_execution ex0) (\<lambda>e.
     bnd (record_initial_order_state (oe_id e) reason) (\<lambda>_. ret e))"

section \<open>The machine\<close>

inductive order_step :: "order_status \<Rightarrow> order_status \<Rightarrow> bool" where
  step: "b \<in> set (allowed a) \<Longrightarrow> order_step a b"

inductive_cases order_stepE: "order_step a b"

inductive order_path :: "order_status \<Rightarrow> order_status list \<Rightarrow> order_status \<Rightarrow> bool" where
  path_refl: "order_path a [a] a"
| path_step: "order_path a p b \<Longrightarrow> order_step b c \<Longrightarrow> order_path a (p @ [c]) c"

lemma allowed_simps [simp]:
  "allowed CREATED = [RISK_PASSED, REJECTED, FAILED]"
  "allowed RISK_PASSED = [SUBMITTED, FAILED]"
  "allowed SUBMITTED = [ACCEPTED, PARTIALLY_FILLED, FILLED, CANCELLED, REJECTED, FAILED, TIMEOUT]"
  "allowed ACCEPTED = [PARTIALLY_FILLED, FILLED, CANCELLED, REJECTED, FAILED, TIMEOUT]"
  "allowed PARTIALLY_FILLED = [PARTIALLY_FILLED, FILLED, CANCELLED, FAILED, TIMEOUT]"
  "allowed FILLED = []" "allowed CANCELLED = []" "allowed REJECTED = []"
  "allowed FAILED = []" "allowed TIMEOUT = []"
  by (simp_all add: allowed_def ALLOWED_ORDER_TRANSITIONS_def)

lemma order_step_iff [simp]: "order_step a b \<longleftrightarrow> b \<in> set (allowed a)"
  by (auto intro: order_step.intros elim: order_stepE)

text \<open>
  How far an order has come. No step goes back, and only a repeated partial fill stays.
\<close>

fun progress :: "order_status \<Rightarrow> nat" where
  "progress CREATED = 0"
| "progress RISK_PASSED = 1"
| "progress SUBMITTED = 2"
| "progress ACCEPTED = 3"
| "progress PARTIALLY_FILLED = 4"
| "progress _ = 5"

lemma order_step_progress:
  "order_step a b \<Longrightarrow> progress a < progress b \<or> (a = PARTIALLY_FILLED \<and> b = PARTIALLY_FILLED)"
  by (cases a) auto

text \<open>
  Every run of the machine from the initial status that ends in a status an exchange can
  report has gone through the risk check and the submission.
\<close>

definition exchange_side :: "order_status \<Rightarrow> bool" where
  "exchange_side st \<longleftrightarrow> st \<in> set [ACCEPTED, PARTIALLY_FILLED, FILLED, CANCELLED, TIMEOUT]"

lemma path_visits:
  assumes "order_path a p b" and "a = CREATED"
  shows "(b = SUBMITTED \<or> exchange_side b \<longrightarrow> RISK_PASSED \<in> set p \<and> SUBMITTED \<in> set p)
       \<and> (b = RISK_PASSED \<longrightarrow> RISK_PASSED \<in> set p)"
  using assms
proof (induction rule: order_path.induct)
  case (path_refl a)
  then show ?case by (simp add: exchange_side_def)
next
  case (path_step a p b c)
  then show ?case by (cases b) (auto simp: exchange_side_def)
qed

section \<open>The transition trail\<close>

text \<open>
  The trail of an execution whose status is \<open>st\<close>: it starts with the creation, each entry
  takes up the status the previous one left, every change is allowed, and the sequence
  numbers count from 1 without a gap.
\<close>

inductive valid_trail :: "order_status \<Rightarrow> order_transition list \<Rightarrow> bool" where
  trail_start: "tr_sequence_number t = 1 \<Longrightarrow> tr_from_status t = None \<Longrightarrow>
     tr_to_status t = status_value CREATED \<Longrightarrow> valid_trail CREATED [t]"
| trail_step: "valid_trail a ts \<Longrightarrow> b \<in> set (allowed a) \<Longrightarrow>
     tr_sequence_number t = int (length ts) + 1 \<Longrightarrow>
     tr_from_status t = Some (status_value a) \<Longrightarrow> tr_to_status t = status_value b \<Longrightarrow>
     valid_trail b (ts @ [t])"

inductive_cases valid_trail_NilE: "valid_trail st []"

definition trail_of :: "db \<Rightarrow> string \<Rightarrow> order_transition list" where
  "trail_of d eid = filter (\<lambda>t. tr_order_execution_id t = eid) (t_all (transitions d))"

definition trails_inv :: db_pred where
  "trails_inv u n d \<longleftrightarrow> inj u \<and> (\<forall>k. u k \<noteq> [])
     \<and> distinct (map oe_id (t_all (executions d)))
     \<and> (\<forall>e \<in> set (t_all (executions d)). oe_id e \<in> u ` {..<n}
          \<and> valid_trail (oe_status e) (trail_of d (oe_id e)))
     \<and> (\<forall>t \<in> set (t_all (transitions d)). tr_order_execution_id t \<in> u ` {..<n})"

lemma valid_trail_ne: "valid_trail st ts \<Longrightarrow> ts \<noteq> []"
  by (auto elim: valid_trail.cases)

lemma valid_trail_seq:
  "valid_trail st ts \<Longrightarrow> map tr_sequence_number ts = map (\<lambda>i. int i + 1) [0..<length ts]"
  by (induction rule: valid_trail.induct) auto

lemma max_or_zero_foldr: "\<forall>x \<in> set xs. 0 \<le> x \<Longrightarrow> max_or_zero xs = foldr max xs 0"
  by (induction xs rule: max_or_zero.induct) auto

lemma foldr_max_acc: "0 \<le> a \<Longrightarrow> foldr max xs (a::int) = max (foldr max xs 0) a"
  by (induction xs) auto

lemma foldr_max_nonneg: "0 \<le> foldr max xs (0::int)"
  by (induction xs) auto

lemma foldr_max_upto: "foldr max (map (\<lambda>i. int i + 1) [0..<n]) 0 = int n"
proof (induction n)
  case 0
  show ?case by simp
next
  case (Suc n)
  then show ?case
    using foldr_max_acc [of "int n + 1" "map (\<lambda>i. int i + 1) [0..<n]"] by simp
qed

text \<open>The number a new entry gets is one more than the length of the trail.\<close>

lemma next_sequence_number_trail:
  assumes "trail_of d eid = [] \<or> valid_trail st (trail_of d eid)"
  shows "next_sequence_number d eid = int (length (trail_of d eid)) + 1"
proof -
  let ?r = "sequence_numbers eid (rows (transitions d))"
  let ?p = "sequence_numbers eid (pend (transitions d))"
  have all: "?r @ ?p = map tr_sequence_number (trail_of d eid)"
    by (simp add: sequence_numbers_def trail_of_def t_all_def)
  have seq: "?r @ ?p = map (\<lambda>i. int i + 1) [0..<length (trail_of d eid)]"
    using assms valid_trail_seq unfolding all by fastforce
  then have "\<forall>x \<in> set (?r @ ?p). 0 \<le> x" by auto
  then have "next_sequence_number d eid = foldr max (?r @ ?p) 0 + 1"
    by (simp add: next_sequence_number_def Let_def max_or_zero_foldr
        foldr_max_acc [OF foldr_max_nonneg])
  then show ?thesis unfolding seq by (simp add: foldr_max_upto)
qed

section \<open>Every operation keeps the trails\<close>

interpretation trails: db_invariant trails_inv
proof
  fix u n d
  assume "trails_inv u n d"
  then show "trails_inv u (Suc n) d" by (auto simp: trails_inv_def lessThan_Suc)
next
  fix u n d
  assume "trails_inv u n d"
  then show "trails_inv u n (db_flush d)" by (simp add: trails_inv_def trail_of_def)
qed

lemma trails_inv_frame:
  "executions d' = executions d \<Longrightarrow> transitions d' = transitions d \<Longrightarrow>
     trails_inv u n d' = trails_inv u n d"
  by (simp add: trails_inv_def trail_of_def)

lemma preserves_trails_frame:
  "(\<And>d. executions (f d) = executions d) \<Longrightarrow> (\<And>d. transitions (f d) = transitions d) \<Longrightarrow>
     preserves trails_inv (upd f)"
  by (rule preserves_upd) (rule trails_inv_frame [THEN iffD2])

text \<open>An update of one row that leaves its id and its status.\<close>

lemma trails_inv_put_same:
  assumes J: "trails_inv u n d" and f: "find_execution eid d = Some ex"
    and same: "oe_id ex' = oe_id ex" "oe_status ex' = oe_status ex"
  shows "trails_inv u n (d\<lparr>executions := t_put oe_id ex' (executions d)\<rparr>)"
proof -
  let ?d = "d\<lparr>executions := t_put oe_id ex' (executions d)\<rparr>"
  have ex: "ex \<in> set (t_all (executions d))"
    using f by (auto simp: find_execution_def t_all_def dest: t_find_SomeD)
  have ids: "map oe_id (t_all (executions ?d)) = map oe_id (t_all (executions d))"
    by (simp add: map_t_all_put)
  have trail: "trail_of ?d = trail_of d" by (simp add: trail_of_def fun_eq_iff)
  have "oe_id e \<in> u ` {..<n} \<and> valid_trail (oe_status e) (trail_of ?d (oe_id e))"
    if "e \<in> set (t_all (executions ?d))" for e
    using that J ex same unfolding trail trails_inv_def by (auto simp: t_all_put split: if_splits)
  with J ids show ?thesis by (simp add: trails_inv_def)
qed

lemma preserves_trails_modify [preserves_rules]:
  assumes "\<And>e. oe_id (f e) = oe_id e" and "\<And>e. oe_status (f e) = oe_status e"
  shows "preserves trails_inv (modify_execution eid f)"
proof (rule preservesI)
  fix s r s'
  assume m: "modify_execution eid f s = (r, s')" and J: "both trails_inv s"
  show "both trails_inv s'"
  proof (cases "find_execution eid (work s)")
    case None
    with m J show ?thesis by (simp add: modify_execution_def get_execution_def bnd_def)
  next
    case (Some ex)
    with m have "s' = s\<lparr>work := (work s)\<lparr>executions := t_put oe_id (f ex) (executions (work s))\<rparr>\<rparr>"
      by (simp add: modify_execution_def get_execution_def put_execution_def bnd_def)
    moreover have "trails_inv (uuid_src s) (uuid_next s)
        ((work s)\<lparr>executions := t_put oe_id (f ex) (executions (work s))\<rparr>)"
      using J Some assms by (intro trails_inv_put_same) (auto simp: both_def)
    ultimately show ?thesis using J by (simp add: both_def)
  qed
qed

text \<open>A status change with its entry: the one row moves along an allowed edge.\<close>

lemma trails_inv_transition:
  assumes J: "trails_inv u n d" and f: "find_execution eid d = Some ex"
    and to: "b \<in> set (allowed (oe_status ex))"
    and t: "tr_order_execution_id t = oe_id ex" "tr_from_status t = Some (status_value (oe_status ex))"
      "tr_to_status t = status_value b" "tr_sequence_number t = next_sequence_number d (oe_id ex)"
  shows "trails_inv u n (d\<lparr>executions := t_put oe_id (ex\<lparr>oe_status := b\<rparr>) (executions d),
                           transitions := t_add t (transitions d)\<rparr>)"
    (is "trails_inv u n ?d")
proof -
  have ex: "ex \<in> set (t_all (executions d))"
    using f by (auto simp: find_execution_def t_all_def dest: t_find_SomeD)
  have ids: "map oe_id (t_all (executions ?d)) = map oe_id (t_all (executions d))"
    by (simp add: map_t_all_put)
  have vt: "valid_trail (oe_status ex) (trail_of d (oe_id ex))"
    using J ex by (simp add: trails_inv_def)
  have new: "valid_trail b (trail_of d (oe_id ex) @ [t])"
    by (rule trail_step [OF vt to])
      (simp_all add: t next_sequence_number_trail [OF disjI2 [OF vt]])
  have trail: "trail_of ?d i = (if i = oe_id ex then trail_of d i @ [t] else trail_of d i)" for i
    using t(1) by (simp add: trail_of_def)
  have "oe_id e \<in> u ` {..<n} \<and> valid_trail (oe_status e) (trail_of ?d (oe_id e))"
    if "e \<in> set (t_all (executions ?d))" for e
    using that J ex new unfolding trail trails_inv_def by (auto simp: t_all_put split: if_splits)
  with J ids ex t(1) show ?thesis by (auto simp: trails_inv_def)
qed

lemma get_execution_apply:
  "get_execution eid s = (case find_execution eid (work s) of
      None \<Rightarrow> (Inl (InvalidOrderStateTransitionError ''order execution must be persisted first''), s)
    | Some e \<Rightarrow> (Inr e, s))"
  by (simp add: get_execution_def split: option.split)

lemma preserves_get_execution [preserves_rules]: "preserves J (get_execution eid)"
  unfolding get_execution_def by (intro preserves_rules)

lemma transition_apply:
  assumes "find_execution eid (work s) = Some ex" and "oe_id ex \<noteq> []"
  shows "transition_order_execution eid b reason details s =
    (if b \<in> set (allowed (oe_status ex))
     then let t = \<lparr>tr_id = uuid_src s (uuid_next s), tr_user_id = oe_user_id ex,
                   tr_order_execution_id = oe_id ex,
                   tr_sequence_number = next_sequence_number (work s) (oe_id ex),
                   tr_from_status = Some (status_value (oe_status ex)),
                   tr_to_status = status_value b, tr_reason = reason, tr_details = details\<rparr>
          in (Inr t, s\<lparr>uuid_next := Suc (uuid_next s),
               work := (work s)\<lparr>executions := t_put oe_id (ex\<lparr>oe_status := b\<rparr>) (executions (work s)),
                                transitions := t_add t (transitions (work s))\<rparr>\<rparr>)
     else (Inl (InvalidOrderStateTransitionError
       (''order status transition '' @ status_value (oe_status ex) @ '' -> ''
        @ status_value b @ '' is not allowed'')), s))"
  using assms
  by (simp add: transition_order_execution_def bnd_def get_execution_apply put_execution_def
      add_transition_def new_uuid_def Let_def next_sequence_number_def)

lemma trails_inv_id_ne:
  assumes "trails_inv u n d" and "find_execution eid d = Some ex"
  shows "oe_id ex \<noteq> []" and "oe_id ex = eid" and "ex \<in> set (t_all (executions d))"
proof -
  from assms(2) show ex: "ex \<in> set (t_all (executions d))" and "oe_id ex = eid"
    by (auto simp: find_execution_def t_all_def dest: t_find_SomeD)
  with assms(1) have "oe_id ex \<in> u ` {..<n}" "\<forall>k. u k \<noteq> []" by (auto simp: trails_inv_def)
  then show "oe_id ex \<noteq> []" by (metis imageE)
qed

lemma preserves_trails_transition [preserves_rules]:
  "preserves trails_inv (transition_order_execution eid b reason details)"
proof (rule preservesI)
  fix s r s'
  assume m: "transition_order_execution eid b reason details s = (r, s')" and J: "both trails_inv s"
  show "both trails_inv s'"
  proof (cases "find_execution eid (work s)")
    case None
    with m J show ?thesis by (simp add: transition_order_execution_def bnd_def get_execution_apply)
  next
    case (Some ex)
    then have ne: "oe_id ex \<noteq> []" using J trails_inv_id_ne(1) by (auto simp: both_def)
    show ?thesis
    proof (cases "b \<in> set (allowed (oe_status ex))")
      case False
      with m J transition_apply [OF Some ne] show ?thesis by simp
    next
      case True
      with m transition_apply [OF Some ne, of b reason details] J
        trails_inv_transition [OF _ Some True] trails.inv_more
      show ?thesis by (auto simp: both_def Let_def)
    qed
  qed
qed

text \<open>
  Adding an execution and recording its initial state. Between the two statements the new row
  has no trail yet, so the invariant is shown for the pair.
\<close>

lemma trails_inv_fresh:
  assumes "trails_inv u n d"
  shows "u n \<notin> u ` {..<n}" and "e \<in> set (t_all (executions d)) \<Longrightarrow> oe_id e \<noteq> u n"
    and "trail_of d (u n) = []"
proof -
  show f: "u n \<notin> u ` {..<n}" using assms by (auto simp: trails_inv_def dest: injD)
  show "e \<in> set (t_all (executions d)) \<Longrightarrow> oe_id e \<noteq> u n"
    using assms f unfolding trails_inv_def by metis
  have "\<forall>t \<in> set (t_all (transitions d)). tr_order_execution_id t \<noteq> u n"
    using assms f unfolding trails_inv_def by metis
  then show "trail_of d (u n) = []" by (simp add: trail_of_def filter_empty_conv)
qed

lemma trails_inv_create:
  assumes J: "trails_inv u n d" and e: "oe_id e = u n" "oe_status e = CREATED"
    and t: "tr_order_execution_id t = u n" "tr_from_status t = None"
      "tr_to_status t = status_value CREATED" "tr_sequence_number t = 1"
  shows "trails_inv u (Suc n) (d\<lparr>executions := t_flush (t_add e (executions d)),
                                  transitions := t_add t (transitions d)\<rparr>)"
    (is "trails_inv u _ ?d")
proof -
  note fresh = trails_inv_fresh(2) [OF J] and empty = trails_inv_fresh(3) [OF J]
  have trail: "trail_of ?d i = (if i = u n then [t] else trail_of d i)" for i
    using t(1) empty by (simp add: trail_of_def)
  have "valid_trail CREATED [t]" using t by (intro trail_start) simp_all
  with J fresh e t(1) show ?thesis
    unfolding trails_inv_def trail by (fastforce simp: lessThan_Suc)
qed

lemma find_execution_added:
  assumes "trails_inv u n d" and "oe_id e = u n"
  shows "find_execution (u n) (d\<lparr>executions := t_flush (t_add e (executions d))\<rparr>) = Some e"
proof -
  have "List.find (\<lambda>x. oe_id x = u n) (t_all (executions d)) = None"
    using trails_inv_fresh(2) [OF assms(1)] by (auto simp: find_None_iff)
  with assms(2) show ?thesis by (simp add: find_execution_def t_find_flush_add)
qed

lemma add_execution_apply:
  "add_execution ex0 s =
    (let e = ex0\<lparr>oe_id := uuid_src s (uuid_next s), oe_execution_id := uuid_src s (Suc (uuid_next s))\<rparr>;
         d = (work s)\<lparr>executions := t_add e (executions (work s))\<rparr>;
         s1 = s\<lparr>uuid_next := Suc (Suc (uuid_next s))\<rparr>
     in if db_unique d then (Inr e, s1\<lparr>work := db_flush d\<rparr>)
        else (Inl IntegrityError, s1\<lparr>work := saved s\<rparr>))"
  by (simp add: add_execution_def Let_def bnd_flush)

lemma create_execution_apply:
  assumes J: "trails_inv (uuid_src s) (uuid_next s) (work s)" and st: "oe_status ex0 = CREATED"
  shows "create_execution ex0 reason s =
    (let e = ex0\<lparr>oe_id := uuid_src s (uuid_next s), oe_execution_id := uuid_src s (Suc (uuid_next s))\<rparr>;
         d = (work s)\<lparr>executions := t_add e (executions (work s))\<rparr>;
         t = \<lparr>tr_id = uuid_src s (Suc (Suc (uuid_next s))), tr_user_id = oe_user_id ex0,
              tr_order_execution_id = oe_id e, tr_sequence_number = 1, tr_from_status = None,
              tr_to_status = ''CREATED'', tr_reason = reason, tr_details = None\<rparr>
     in if db_unique d
        then (Inr e, s\<lparr>uuid_next := Suc (Suc (Suc (uuid_next s))),
               work := (db_flush d)\<lparr>transitions := t_add t (transitions (db_flush d))\<rparr>\<rparr>)
        else (Inl IntegrityError, s\<lparr>uuid_next := Suc (Suc (uuid_next s)), work := saved s\<rparr>))"
proof -
  let ?u = "uuid_src s" and ?n = "uuid_next s"
  let ?e = "ex0\<lparr>oe_id := ?u ?n, oe_execution_id := ?u (Suc ?n)\<rparr>"
  let ?d = "(work s)\<lparr>executions := t_add ?e (executions (work s))\<rparr>"
  have found: "find_execution (?u ?n) (db_flush ?d) = Some ?e"
    using find_execution_added [OF J, of ?e] by (simp add: find_execution_def)
  have ne: "?u ?n \<noteq> []" using J by (simp add: trails_inv_def)
  have "trail_of (db_flush ?d) (?u ?n) = []"
    using trails_inv_fresh(3) [OF J] by (simp add: trail_of_def)
  then have seq: "next_sequence_number (db_flush ?d) (?u ?n) = 1"
    by (simp add: next_sequence_number_trail)
  show ?thesis
    using st found ne seq
    by (simp add: create_execution_def add_execution_apply Let_def bnd_def
        record_initial_order_state_def get_execution_apply add_transition_def new_uuid_def)
qed

lemma preserves_trails_create [preserves_rules]:
  assumes "oe_status ex0 = CREATED"
  shows "preserves trails_inv (create_execution ex0 reason)"
proof (rule preservesI)
  fix s r s'
  assume m: "create_execution ex0 reason s = (r, s')" and J: "both trails_inv s"
  let ?u = "uuid_src s" and ?n = "uuid_next s"
  from J have w: "trails_inv ?u ?n (work s)" and v: "trails_inv ?u ?n (saved s)"
    by (simp_all add: both_def)
  note more = trails.inv_more
  let ?e = "ex0\<lparr>oe_id := ?u ?n, oe_execution_id := ?u (Suc ?n)\<rparr>"
  let ?d = "(work s)\<lparr>executions := t_add ?e (executions (work s))\<rparr>"
  show "both trails_inv s'"
  proof (cases "db_unique ?d")
    case False
    with m create_execution_apply [OF w assms, of reason] v show ?thesis
      by (auto simp: both_def Let_def intro!: more)
  next
    case True
    let ?t = "\<lparr>tr_id = ?u (Suc (Suc ?n)), tr_user_id = oe_user_id ex0,
              tr_order_execution_id = ?u ?n, tr_sequence_number = 1, tr_from_status = None,
              tr_to_status = ''CREATED'', tr_reason = reason, tr_details = None\<rparr>"
    have "trails_inv ?u (Suc ?n) ((work s)\<lparr>executions := t_flush (t_add ?e (executions (work s))),
        transitions := t_add ?t (transitions (work s))\<rparr>)"
      by (rule trails_inv_create [OF w]) (simp_all add: assms)
    then have "trails_inv ?u (Suc ?n)
        ((db_flush ?d)\<lparr>transitions := t_add ?t (transitions (db_flush ?d))\<rparr>)"
      by (simp add: trails_inv_def trail_of_def)
    with m True create_execution_apply [OF w assms, of reason] v show ?thesis
      by (auto simp: both_def Let_def intro!: more)
  qed
qed

section \<open>Running the operations\<close>

text \<open>
  A session is sound when its transaction satisfies the unique constraints and its trails are
  valid. From a sound session every operation of this theory returns, in a sound session;
  \<open>others\<close> is the part of the database they do not touch.
\<close>

definition sound :: "session \<Rightarrow> bool" where
  "sound s \<longleftrightarrow> db_unique (work s) \<and> both trails_inv s"

definition others :: "db \<Rightarrow> db" where
  "others d = d\<lparr>executions := t_empty, transitions := t_empty\<rparr>"

lemma others_sel [simp]:
  "users (others d) = users d" "permissions (others d) = permissions d"
  "accounts (others d) = accounts d" "secrets (others d) = secrets d" "signals (others d) = signals d"
  "risks (others d) = risks d" "balances (others d) = balances d" "positions (others d) = positions d"
  "audits (others d) = audits d" "events (others d) = events d"
  "notifications (others d) = notifications d" "preferences (others d) = preferences d"
  "controls (others d) = controls d"
  by (simp_all add: others_def)

lemma others_update [simp]:
  "others (d\<lparr>executions := x\<rparr>) = others d" "others (d\<lparr>transitions := y\<rparr>) = others d"
  "others (others d) = others d"
  by (simp_all add: others_def)

lemma others_flush: "others (db_flush d) = db_flush (others d)"
  by (simp add: others_def db_flush_update)

lemma settled_others: "settled d \<Longrightarrow> db_flush (others d) = others d"
  by (metis others_flush settledD(1))

lemma commit_run:
  assumes "sound s"
  obtains s' where "commit s = (Inr (), s')" "sound s'" "work s' = db_flush (work s)"
    "saved s' = work s'" "uuid_src s' = uuid_src s" "uuid_next s' = uuid_next s"
    "clock s' = clock s" "outbox s' = outbox s"
proof
  let ?s = "s\<lparr>work := db_flush (work s), saved := db_flush (work s)\<rparr>"
  show "commit s = (Inr (), ?s)"
    using assms by (simp add: sound_def commit_apply)
  show "sound ?s"
    using assms trails.inv_flush by (simp add: sound_def both_def)
qed simp_all

lemmas bnd_commit_Inr = bnd_Inr [where m = commit]

lemma find_execution_flush:
  "find_execution eid d = Some e \<Longrightarrow> find_execution eid (db_flush d) = Some e"
  by (simp add: find_execution_def t_find_flush_present)

lemma put_execution_unique:
  assumes un: "db_unique d" and J: "trails_inv u n d" and f: "find_execution eid d = Some ex"
    and same: "oe_id ex' = oe_id ex" "oe_signal_id ex' = oe_signal_id ex"
      "oe_exchange_account_id ex' = oe_exchange_account_id ex"
      "oe_client_order_id ex' = oe_client_order_id ex"
  shows "db_unique (d\<lparr>executions := t_put oe_id ex' (executions d)\<rparr>)"
    and "find_execution eid (d\<lparr>executions := t_put oe_id ex' (executions d)\<rparr>) = Some ex'"
proof -
  note ex = trails_inv_id_ne [OF J f]
  have only: "x = ex" if "x \<in> set (t_all (executions d))" "oe_id x = oe_id ex'" for x
    using J ex(3) that same(1) by (auto simp: trails_inv_def distinct_map dest: inj_onD)
  have keys: "map g (t_all (t_put oe_id ex' (executions d))) = map g (t_all (executions d))"
    if "g ex' = g ex" for g :: "order_execution \<Rightarrow> 'k"
    by (rule map_t_all_put) (use only that in metis)
  show "db_unique (d\<lparr>executions := t_put oe_id ex' (executions d)\<rparr>)"
    using un same by (simp add: db_unique_update keys) (simp add: db_unique_def)
  show "find_execution eid (d\<lparr>executions := t_put oe_id ex' (executions d)\<rparr>) = Some ex'"
    using f same(1) ex(2) by (simp add: find_execution_def t_find_put)
qed

lemma modify_run:
  assumes S: "sound s" and f: "find_execution eid (work s) = Some ex"
    and same: "oe_id (g ex) = oe_id ex" "oe_status (g ex) = oe_status ex"
      "oe_signal_id (g ex) = oe_signal_id ex" "oe_exchange_account_id (g ex) = oe_exchange_account_id ex"
      "oe_client_order_id (g ex) = oe_client_order_id ex"
  obtains s' where "modify_execution eid g s = (Inr (), s')" "sound s'"
    "find_execution eid (work s') = Some (g ex)" "others (work s') = others (work s)"
    "saved s' = saved s" "clock s' = clock s" "outbox s' = outbox s"
    "uuid_src s' = uuid_src s" "uuid_next s' = uuid_next s"
proof
  let ?d = "(work s)\<lparr>executions := t_put oe_id (g ex) (executions (work s))\<rparr>"
  let ?s = "s\<lparr>work := ?d\<rparr>"
  have J: "trails_inv (uuid_src s) (uuid_next s) (work s)" and u: "db_unique (work s)"
    using S by (simp_all add: sound_def both_def)
  show "modify_execution eid g s = (Inr (), ?s)"
    using f by (simp add: modify_execution_def get_execution_def put_execution_def bnd_assoc)
  show "find_execution eid (work ?s) = Some (g ex)"
    using put_execution_unique(2) [OF u J f] same by simp
  show "sound ?s"
    using S put_execution_unique(1) [OF u J f] same trails_inv_put_same [OF J f]
    by (simp add: sound_def both_def)
qed simp_all

lemma max_or_zero_ge: "x \<in> set xs \<Longrightarrow> x \<le> max_or_zero xs"
  by (induction xs rule: max_or_zero.induct) auto

lemma next_sequence_number_fresh:
  assumes "t \<in> set (t_all (transitions d))" and "tr_order_execution_id t = eid"
  shows "tr_sequence_number t < next_sequence_number d eid"
proof -
  have "tr_sequence_number t \<in> set (sequence_numbers eid (rows (transitions d)))
      \<or> tr_sequence_number t \<in> set (sequence_numbers eid (pend (transitions d)))"
    using assms by (auto simp: sequence_numbers_def t_all_def)
  then show ?thesis
    by (auto simp: next_sequence_number_def Let_def dest: max_or_zero_ge)
qed

lemma transition_run:
  assumes S: "sound s" and f: "find_execution eid (work s) = Some ex"
    and b: "b \<in> set (allowed (oe_status ex))"
  obtains t s' where "transition_order_execution eid b reason details s = (Inr t, s')"
    "sound s'" "find_execution eid (work s') = Some (ex\<lparr>oe_status := b\<rparr>)"
    "others (work s') = others (work s)" "saved s' = saved s" "clock s' = clock s"
    "outbox s' = outbox s" "uuid_src s' = uuid_src s"
proof
  let ?u = "uuid_src s" and ?n = "uuid_next s"
  have J: "trails_inv ?u ?n (work s)" and u: "db_unique (work s)"
    using S by (simp_all add: sound_def both_def)
  note ne = trails_inv_id_ne(1) [OF J f]
  let ?t = "\<lparr>tr_id = ?u ?n, tr_user_id = oe_user_id ex, tr_order_execution_id = oe_id ex,
     tr_sequence_number = next_sequence_number (work s) (oe_id ex),
     tr_from_status = Some (status_value (oe_status ex)), tr_to_status = status_value b,
     tr_reason = reason, tr_details = details\<rparr>"
  let ?d = "(work s)\<lparr>executions := t_put oe_id (ex\<lparr>oe_status := b\<rparr>) (executions (work s)),
     transitions := t_add ?t (transitions (work s))\<rparr>"
  let ?s = "s\<lparr>uuid_next := Suc ?n, work := ?d\<rparr>"
  show "transition_order_execution eid b reason details s = (Inr ?t, ?s)"
    using transition_apply [OF f ne, of b reason details] b by (simp add: Let_def)
  note put = put_execution_unique [OF u J f, of "ex\<lparr>oe_status := b\<rparr>"]
  show "find_execution eid (work ?s) = Some (ex\<lparr>oe_status := b\<rparr>)"
    using put(2) by (simp add: find_execution_def)
  have "distinct (map (\<lambda>r. (tr_order_execution_id r, tr_sequence_number r)) (t_all (transitions (work s))))"
    using u by (simp add: db_unique_def)
  then have "distinct (map (\<lambda>r. (tr_order_execution_id r, tr_sequence_number r))
      (t_all (t_add ?t (transitions (work s)))))"
    using next_sequence_number_fresh [of _ "work s"] by fastforce
  with put(1) have "db_unique ?d" by (simp add: db_unique_update)
  moreover have "trails_inv ?u ?n ?d"
    by (rule trails_inv_transition [OF J f b]) simp_all
  ultimately show "sound ?s"
    using S trails.inv_more by (simp add: sound_def both_def)
qed simp_all

lemma create_run:
  assumes S: "sound s" and st: "oe_status ex0 = CREATED"
    and fresh: "\<forall>e \<in> set (t_all (executions (work s))). oe_client_order_id e \<noteq> oe_client_order_id ex0
      \<and> (oe_signal_id e, oe_exchange_account_id e) \<noteq> (oe_signal_id ex0, oe_exchange_account_id ex0)"
  obtains e s' where "create_execution ex0 reason s = (Inr e, s')" "sound s'"
    "e = ex0\<lparr>oe_id := oe_id e, oe_execution_id := oe_execution_id e\<rparr>"
    "find_execution (oe_id e) (work s') = Some e" "others (work s') = db_flush (others (work s))"
    "saved s' = saved s" "clock s' = clock s" "outbox s' = outbox s" "uuid_src s' = uuid_src s"
    "oe_id e \<in> range (uuid_src s)"
proof -
  let ?u = "uuid_src s" and ?n = "uuid_next s"
  have J: "trails_inv ?u ?n (work s)" and u: "db_unique (work s)"
    using S by (simp_all add: sound_def both_def)
  define e where "e = ex0\<lparr>oe_id := ?u ?n, oe_execution_id := ?u (Suc ?n)\<rparr>"
  define d where "d = (work s)\<lparr>executions := t_add e (executions (work s))\<rparr>"
  define t where "t = \<lparr>tr_id = ?u (Suc (Suc ?n)), tr_user_id = oe_user_id ex0,
     tr_order_execution_id = oe_id e, tr_sequence_number = 1, tr_from_status = None,
     tr_to_status = ''CREATED'', tr_reason = reason, tr_details = None\<rparr>"
  define s' where "s' = s\<lparr>uuid_next := Suc (Suc (Suc ?n)),
     work := (db_flush d)\<lparr>transitions := t_add t (transitions (db_flush d))\<rparr>\<rparr>"
  have "distinct (map oe_client_order_id (t_all (executions (work s))))"
    "distinct (map (\<lambda>r. (oe_signal_id r, oe_exchange_account_id r)) (t_all (executions (work s))))"
    using u by (simp_all add: db_unique_def)
  moreover have "oe_client_order_id e \<notin> oe_client_order_id ` set (t_all (executions (work s)))"
    "(oe_signal_id e, oe_exchange_account_id e) \<notin>
       (\<lambda>r. (oe_signal_id r, oe_exchange_account_id r)) ` set (t_all (executions (work s)))"
    using fresh by (force simp: e_def)+
  ultimately have ud: "db_unique d"
    using u by (simp add: d_def db_unique_update)
  have run: "create_execution ex0 reason s = (Inr e, s')"
    using create_execution_apply [OF J st, of reason] ud
    by (simp add: Let_def e_def d_def t_def s'_def)
  have "distinct (map (\<lambda>r. (tr_order_execution_id r, tr_sequence_number r)) (t_all (transitions (work s))))"
    using u by (simp add: db_unique_def)
  moreover have "\<forall>x \<in> set (t_all (transitions (work s))). tr_order_execution_id x \<noteq> ?u ?n"
    using trails_inv_fresh(3) [OF J] by (auto simp: trail_of_def filter_empty_conv)
  ultimately have "db_unique (work s')"
    using ud by (auto simp: s'_def db_unique_update t_def e_def d_def)
  moreover have "both trails_inv s'"
    using preservesD [OF preserves_trails_create [OF st] run] S by (simp add: sound_def)
  ultimately have sound: "sound s'" by (simp add: sound_def)
  have found: "find_execution (oe_id e) (work s') = Some e"
    using find_execution_added [OF J, of e] by (simp add: e_def s'_def d_def find_execution_def)
  show thesis
    by (rule that [OF run sound _ found])
      (simp_all add: s'_def d_def e_def others_flush)
qed

section \<open>Runs of status changes\<close>

text \<open>
  A run of requests to change the status of one order, in the order they are made; the answer is
  the list of the changes that were not refused.
\<close>

fun run_transitions ::
    "string \<Rightarrow> (order_status \<times> string \<times> pydict option) list \<Rightarrow> session
     \<Rightarrow> order_status list \<times> session" where
  "run_transitions eid [] s = ([], s)"
| "run_transitions eid ((b, reason, details) # reqs) s =
     (case transition_order_execution eid b reason details s of
        (Inl e, s1) \<Rightarrow> run_transitions eid reqs s1
      | (Inr t, s1) \<Rightarrow> (case run_transitions eid reqs s1 of (bs, s2) \<Rightarrow> (b # bs, s2)))"

definition advances :: "order_status \<Rightarrow> order_status \<Rightarrow> bool" where
  "advances a b \<longleftrightarrow> progress a < progress b \<or> a = PARTIALLY_FILLED \<and> b = PARTIALLY_FILLED"

lemma advances_trans: "advances a b \<Longrightarrow> advances b c \<Longrightarrow> advances a c"
  by (auto simp: advances_def)

lemma progress_le: "progress a \<le> 5"
  by (cases a) simp_all

lemma advances_count:
  "sorted_wrt advances (a # bs) \<Longrightarrow>
     progress a + length (filter (\<lambda>b. b \<noteq> PARTIALLY_FILLED) bs) \<le> progress (last (a # bs))"
proof (induction bs arbitrary: a)
  case (Cons b bs)
  then have "progress a + (if b = PARTIALLY_FILLED then 0 else 1) \<le> progress b"
    and "progress b + length (filter (\<lambda>b. b \<noteq> PARTIALLY_FILLED) bs) \<le> progress (last (b # bs))"
    by (auto simp: advances_def)
  moreover have "last (a # b # bs) = last (b # bs)" by simp
  ultimately show ?case by (simp del: last.simps split: if_splits)
qed simp

lemma transition_stored:
  assumes f: "find_execution eid (work s) = Some ex" and ne: "oe_id ex \<noteq> []"
    and run: "transition_order_execution eid b reason details s = (Inr t, s')"
  shows "find_execution eid (work s') = Some (ex\<lparr>oe_status := b\<rparr>)" and "advances (oe_status ex) b"
    and "trail_of (work s') eid = trail_of (work s) eid @ [t]" and "tr_to_status t = status_value b"
proof -
  have eid: "oe_id ex = eid" using f by (auto simp: find_execution_def dest: t_find_SomeD)
  have b: "b \<in> set (allowed (oe_status ex))"
    using run transition_apply [OF f ne, of b reason details] by (auto split: if_splits)
  then show "advances (oe_status ex) b" using order_step_progress by (simp add: advances_def)
  from run transition_apply [OF f ne, of b reason details] b eid f
  show "find_execution eid (work s') = Some (ex\<lparr>oe_status := b\<rparr>)"
    and "trail_of (work s') eid = trail_of (work s) eid @ [t]" and "tr_to_status t = status_value b"
    by (auto simp: Let_def find_execution_def t_find_put trail_of_def)
qed

lemma transition_refused:
  assumes f: "find_execution eid (work s) = Some ex" and ne: "oe_id ex \<noteq> []"
    and run: "transition_order_execution eid b reason details s = (Inl e, s')"
  shows "s' = s"
  using run transition_apply [OF f ne, of b reason details] by (auto simp: Let_def split: if_splits)

section \<open>Properties\<close>

lemma sample_trails: "both trails_inv sample_session"
  by (simp add: both_def trails_inv_def sample_uuid_inj sample_uuid_ne sample_db_def empty_db_def)

lemma sample_sound: "sound sample_session"
  using sample_trails sample_settled by (simp add: sound_def settled_def)

lemma exchange_side_allowed:
  assumes "b \<in> set (allowed a)"
  shows "b = SUBMITTED \<Longrightarrow> a = RISK_PASSED" and "b = RISK_PASSED \<Longrightarrow> a = CREATED"
    and "exchange_side b \<Longrightarrow> a = SUBMITTED \<or> exchange_side a"
  using assms by (cases a; auto simp: exchange_side_def)+

lemma valid_trail_visits:
  assumes "valid_trail st ts"
  shows "(st = SUBMITTED \<or> exchange_side st \<longrightarrow>
            status_value RISK_PASSED \<in> tr_to_status ` set ts \<and> status_value SUBMITTED \<in> tr_to_status ` set ts)
       \<and> (st = RISK_PASSED \<longrightarrow> status_value RISK_PASSED \<in> tr_to_status ` set ts)"
  using assms
proof (induction rule: valid_trail.induct)
  case (trail_start t)
  then show ?case by (simp add: exchange_side_def)
next
  case (trail_step a ts b t)
  have new: "tr_to_status ` set (ts @ [t]) = insert (status_value b) (tr_to_status ` set ts)"
    using trail_step.hyps by simp
  show ?case
    unfolding new using trail_step.IH exchange_side_allowed [OF trail_step.hyps(2)] by blast
qed

definition filled_sample :: "db \<times> order_execution" where
  "filled_sample =
     (let tr = (\<lambda>n from to. \<lparr>tr_id = sample_uuid n, tr_user_id = ''alice'', tr_order_execution_id = sample_uuid 0,
                  tr_sequence_number = int n, tr_from_status = from, tr_to_status = to,
                  tr_reason = '''', tr_details = None\<rparr>);
          e = \<lparr>oe_id = sample_uuid 0, oe_user_id = ''alice'', oe_signal_id = ''sig-1'',
               oe_execution_id = ''x'', oe_exchange_account_id = ''acct-1'', oe_exchange_name = ''mock'',
               oe_client_order_id = ''c'', oe_exchange_order_id = None, oe_symbol = ''BTCUSDT'',
               oe_side = BUY, oe_order_type = MARKET, oe_price = None, oe_quantity = done1,
               oe_status = FILLED, oe_risk_result = None, oe_exchange_response = None,
               oe_error_message = None\<rparr>
      in (empty_db\<lparr>executions := \<lparr>rows = [e], pend = []\<rparr>,
            transitions := \<lparr>rows = [tr 1 None ''CREATED'', tr 2 (Some ''CREATED'') ''RISK_PASSED'',
              tr 3 (Some ''RISK_PASSED'') ''SUBMITTED'', tr 4 (Some ''SUBMITTED'') ''FILLED''],
              pend = []\<rparr>\<rparr>, e))"

text \<open>C14: An order in a terminal status never changes again: every request to change it is refused
  with \<open>InvalidOrderStateTransitionError\<close> and leaves the session as it was.\<close>

theorem terminal_orders_are_final:
  assumes "find_execution eid (work s) = Some ex" and "oe_id ex \<noteq> []"
    and "oe_status ex \<in> set TERMINAL_ORDER_STATUSES"
  shows "\<exists>m. transition_order_execution eid b reason details s =
     (Inl (InvalidOrderStateTransitionError m), s)"
proof -
  have "b \<notin> set (allowed (oe_status ex))"
    using assms(3) by (auto simp: TERMINAL_ORDER_STATUSES_def)
  then show ?thesis using transition_apply [OF assms(1,2)] by simp
qed

theorem terminal_orders_are_final_witness:
  "\<exists>m. transition_order_execution (sample_uuid 0) CANCELLED ''late'' None
        (sample_session\<lparr>work := fst filled_sample\<rparr>) =
     (Inl (InvalidOrderStateTransitionError m), sample_session\<lparr>work := fst filled_sample\<rparr>)"
  by (rule terminal_orders_are_final [of _ _ "snd filled_sample"])
    (simp_all add: find_execution_def t_find_def filled_sample_def Let_def TERMINAL_ORDER_STATUSES_def
      sample_uuid_ne)

text \<open>C25: In any run of requests to change the status of one order, the changes that are made
  bring the order strictly closer to its end, but for the repetition of a partial fill; so at most
  five minus the progress of its first status of them go to another status than partially filled.
  The stored order ends in the last of them and is otherwise unchanged, and its trail has grown by
  exactly one entry for each, in their order.\<close>

theorem transitions_make_progress:
  assumes "find_execution eid (work s) = Some ex" and "oe_id ex \<noteq> []"
    and "run_transitions eid reqs s = (bs, s')"
  shows "sorted_wrt advances (oe_status ex # bs)
    \<and> progress (oe_status ex) + length (filter (\<lambda>b. b \<noteq> PARTIALLY_FILLED) bs) \<le> 5
    \<and> find_execution eid (work s') = Some (ex\<lparr>oe_status := last (oe_status ex # bs)\<rparr>)
    \<and> map tr_to_status (trail_of (work s') eid) =
        map tr_to_status (trail_of (work s) eid) @ map status_value bs"
proof -
  have "sorted_wrt advances (oe_status ex # bs)
    \<and> find_execution eid (work s') = Some (ex\<lparr>oe_status := last (oe_status ex # bs)\<rparr>)
    \<and> map tr_to_status (trail_of (work s') eid) =
        map tr_to_status (trail_of (work s) eid) @ map status_value bs"
    using assms
  proof (induction reqs arbitrary: s ex bs)
    case (Cons r reqs)
    obtain b reason details where r: "r = (b, reason, details)" by (cases r)
    obtain res s1 where run: "transition_order_execution eid b reason details s = (res, s1)" by fastforce
    show ?case
    proof (cases res)
      case (Inl e)
      with run transition_refused Cons.prems have "s1 = s" by blast
      with Cons.IH [OF Cons.prems(1,2)] Cons.prems(3) Inl run show ?thesis by (simp add: r)
    next
      case (Inr t)
      obtain cs where cs: "run_transitions eid reqs s1 = (cs, s')" "bs = b # cs"
        using Cons.prems(3) run Inr by (auto simp: r split: prod.splits)
      note st = transition_stored [OF Cons.prems(1,2) run [unfolded Inr]]
      have IH: "sorted_wrt advances (b # cs)
        \<and> find_execution eid (work s') = Some (ex\<lparr>oe_status := last (b # cs)\<rparr>)
        \<and> map tr_to_status (trail_of (work s') eid) =
            map tr_to_status (trail_of (work s1) eid) @ map status_value cs"
        using Cons.IH [OF st(1) _ cs(1)] Cons.prems(2) by simp
      have "\<forall>c \<in> set cs. advances (oe_status ex) c"
        using IH st(2) advances_trans by auto
      with IH st cs(2) show ?thesis by simp
    qed
  qed simp
  with advances_count progress_le le_trans show ?thesis by blast
qed

definition created_sample :: session where
  "created_sample = sample_session\<lparr>work := (fst filled_sample)\<lparr>
     executions := \<lparr>rows = [(snd filled_sample)\<lparr>oe_status := CREATED\<rparr>], pend = []\<rparr>,
     transitions := \<lparr>rows = take 1 (rows (transitions (fst filled_sample))), pend = []\<rparr>\<rparr>\<rparr>"

lemma created_sample_run:
  "fst (run_transitions (sample_uuid 0)
     [(FILLED, ''early'', None), (RISK_PASSED, ''ok'', None), (CREATED, ''back'', None),
      (SUBMITTED, ''sent'', None)] created_sample) = [RISK_PASSED, SUBMITTED]"
  by (simp add: created_sample_def filled_sample_def Let_def transition_order_execution_def bnd_def
      get_execution_apply find_execution_def t_find_def put_execution_def t_put_def t_map_def
      add_transition_def new_uuid_def sample_uuid_ne)

theorem transitions_make_progress_witness:
  "\<exists>s' :: session. find_execution (sample_uuid 0) (work s') =
       Some ((snd filled_sample)\<lparr>oe_status := SUBMITTED\<rparr>)
     \<and> map tr_to_status (trail_of (work s') (sample_uuid 0)) =
         [''CREATED'', ''RISK_PASSED'', ''SUBMITTED'']"
proof -
  obtain s' where r: "run_transitions (sample_uuid 0)
     [(FILLED, ''early'', None), (RISK_PASSED, ''ok'', None), (CREATED, ''back'', None),
      (SUBMITTED, ''sent'', None)] created_sample = ([RISK_PASSED, SUBMITTED], s')"
    using created_sample_run by (metis prod.collapse)
  have f: "find_execution (sample_uuid 0) (work created_sample) =
      Some ((snd filled_sample)\<lparr>oe_status := CREATED\<rparr>)"
    and ne: "oe_id ((snd filled_sample)\<lparr>oe_status := CREATED\<rparr>) \<noteq> []"
    and tr: "map tr_to_status (trail_of (work created_sample) (sample_uuid 0)) = [''CREATED'']"
    by (simp_all add: created_sample_def find_execution_def t_find_def filled_sample_def Let_def
        sample_uuid_ne trail_of_def t_all_def)
  show ?thesis
    by (rule exI [of _ s']) (use transitions_make_progress [OF f ne r] tr in simp)
qed

end
