(* ===== verification/Emergency_Stop.thy ===== *)
theory Emergency_Stop
  imports Samples
begin

text \<open>
  The global emergency stop (\<open>services/emergency_stop.py\<close>) and its routes
  (\<open>api/v1/admin_system_control.py\<close>): one control row, read before every new order, and the
  operation that switches it and, on activation, forces every trading flag off.
\<close>

section \<open>Operations\<close>

record emergency_stop_state =
  es_enabled :: bool
  es_reason :: "string option"
  es_changed_by_user_id :: "string option"
  es_changed_at :: datetime

definition get_control :: "db \<Rightarrow> system_control option" where
  "get_control d = t_find (\<lambda>c. sc_id c = GLOBAL_SYSTEM_CONTROL_ID) (controls d)"

definition to_state :: "system_control \<Rightarrow> emergency_stop_state" where
  "to_state control = \<lparr>es_enabled = sc_emergency_stop_enabled control, es_reason = sc_reason control,
     es_changed_by_user_id = sc_changed_by_user_id control, es_changed_at = sc_changed_at control\<rparr>"

definition get_emergency_stop_state :: "emergency_stop_state op" where
  "get_emergency_stop_state = bnd (query get_control) (\<lambda>control. bnd (reads now_utc) (\<lambda>t.
     case control of
       None \<Rightarrow> ret \<lparr>es_enabled = False, es_reason = None, es_changed_by_user_id = None, es_changed_at = t\<rparr>
     | Some c \<Rightarrow> ret (to_state c)))"

definition stop_enabled :: "db \<Rightarrow> bool" where
  "stop_enabled d = (case get_control d of None \<Rightarrow> False | Some c \<Rightarrow> sc_emergency_stop_enabled c)"

definition assert_new_orders_allowed :: "unit op" where
  "assert_new_orders_allowed = bnd (query get_control) (\<lambda>control.
     if (case control of None \<Rightarrow> False | Some c \<Rightarrow> sc_emergency_stop_enabled c)
     then raise (EmergencyStopEnabledError ''global emergency stop is enabled'')
     else ret ())"

definition clean_reason :: "string \<Rightarrow> string" where
  "clean_reason reason = take 500 (join '' '' (split_ws reason))"

text \<open>The control row, created with its column defaults when it does not exist yet.\<close>

definition get_or_create_control :: "system_control op" where
  "get_or_create_control = bnd (query get_control) (\<lambda>control. bnd (reads now_utc) (\<lambda>t.
     case control of
       Some c \<Rightarrow> ret c
     | None \<Rightarrow> let c = \<lparr>sc_id = GLOBAL_SYSTEM_CONTROL_ID, sc_emergency_stop_enabled = False,
                         sc_reason = None, sc_changed_by_user_id = None, sc_changed_at = t\<rparr> in
         bnd (upd (\<lambda>d. d\<lparr>controls := t_add c (controls d)\<rparr>)) (\<lambda>_. bnd flush (\<lambda>_. ret c))))"

text \<open>\<open>UPDATE exchange_accounts\<close> and \<open>UPDATE risk_settings\<close>: every row of the table.\<close>

definition force_trading_off :: "unit op" where
  "force_trading_off = upd (\<lambda>d. d\<lparr>
     accounts := (accounts d)\<lparr>rows := map (ea_trading_enabled_update (\<lambda>_. False)) (rows (accounts d))\<rparr>,
     risks := (risks d)\<lparr>rows := map (rs_trading_enabled_update (\<lambda>_. False)) (rows (risks d))\<rparr>\<rparr>)"

text \<open>
  The three assignments to the row. \<open>changed_at\<close> has \<open>onupdate=func.now()\<close>: the server sets it
  when the row is written, which it is when one of the three values differs.
\<close>

definition set_control :: "bool \<Rightarrow> string \<Rightarrow> string \<Rightarrow> datetime \<Rightarrow> system_control \<Rightarrow> system_control" where
  "set_control enabled reason actor_id t c =
     (let c' = c\<lparr>sc_emergency_stop_enabled := enabled, sc_reason := Some reason,
                 sc_changed_by_user_id := Some actor_id\<rparr>
      in if c' = c then c else c'\<lparr>sc_changed_at := t\<rparr>)"

definition set_emergency_stop :: "bool \<Rightarrow> user \<Rightarrow> string \<Rightarrow> emergency_stop_state op" where
  "set_emergency_stop enabled actor reason =
     bnd get_or_create_control (\<lambda>control. bnd (reads now_utc) (\<lambda>t.
       let changed = (sc_emergency_stop_enabled control \<noteq> enabled);
           control' = set_control enabled (clean_reason reason) (u_id actor) t control;
           action = (if enabled then ''system.emergency_stop.activated''
                     else ''system.emergency_stop.deactivated'');
           severity = (if enabled then ''CRITICAL'' else ''WARNING'');
           payload = [(''scope'', PStr ''global''), (''enabled'', PBool enabled),
                      (''reason'', PStr (clean_reason reason)), (''state_changed'', PBool changed),
                      (''trading_flags_forced_off'', PBool enabled)]
       in bnd (upd (\<lambda>d. d\<lparr>controls := t_put sc_id control' (controls d)\<rparr>)) (\<lambda>_.
          bnd (if enabled then force_trading_off else ret ()) (\<lambda>_.
          bnd (add_audit (u_id actor) None action severity payload) (\<lambda>_.
          bnd (add_system_event (Some (u_id actor)) None action severity payload) (\<lambda>_.
          bnd commit (\<lambda>_. ret (to_state control'))))))))"

section \<open>Routes\<close>

text \<open>
  The user arguments are what the dependencies \<open>get_current_super_admin_user\<close> and
  \<open>get_reauthenticated_user\<close> deliver.
\<close>

definition activate_emergency_stop :: "user \<Rightarrow> string \<Rightarrow> emergency_stop_state op" where
  "activate_emergency_stop current_user reason =
     bnd (set_emergency_stop True current_user reason) (\<lambda>state.
       bnd (send_alert (EmergencyStopAlert ''global'')) (\<lambda>_. ret state))"

definition deactivate_emergency_stop :: "user \<Rightarrow> string \<Rightarrow> emergency_stop_state op" where
  "deactivate_emergency_stop current_user reason =
     (if u_role current_user \<noteq> SUPER_ADMIN
      then raise (HTTPException 403 [''super admin privileges required''])
      else set_emergency_stop False current_user reason)"

section \<open>Behaviour\<close>

lemma assert_new_orders_allowed_apply:
  "assert_new_orders_allowed s =
     (if stop_enabled (work s)
      then (Inl (EmergencyStopEnabledError ''global emergency stop is enabled''), s) else (Inr (), s))"
  by (simp add: assert_new_orders_allowed_def stop_enabled_def)

lemma bnd_assert_new_orders_allowed [act_simps]:
  "bnd assert_new_orders_allowed g s =
     (if stop_enabled (work s)
      then (Inl (EmergencyStopEnabledError ''global emergency stop is enabled''), s) else g () s)"
  by (simp add: bnd_def assert_new_orders_allowed_apply)

lemma set_control_fields [simp]:
  "sc_id (set_control e r a t c) = sc_id c"
  "sc_emergency_stop_enabled (set_control e r a t c) = e"
  "sc_reason (set_control e r a t c) = Some r"
  "sc_changed_by_user_id (set_control e r a t c) = Some a"
  by (auto simp: set_control_def Let_def) (metis system_control.ext_inject system_control.surjective
      system_control.update_convs)+

text \<open>The control row after \<open>get_or_create_control\<close>: it is the row the next lookup finds.\<close>

lemma get_or_create_control_ok:
  assumes "settled (work s)"
  obtains c d where "get_or_create_control s = (Inr c, s\<lparr>work := d\<rparr>)"
    "d = (work s)\<lparr>controls := controls d\<rparr>" "settled d" "get_control d = Some c"
    "sc_id c = GLOBAL_SYSTEM_CONTROL_ID"
    "get_control (work s) = None \<Longrightarrow> \<not> sc_emergency_stop_enabled c"
    "\<And>x. get_control (work s) = Some x \<Longrightarrow> c = x \<and> d = work s"
proof (cases "get_control (work s)")
  case (Some c)
  have "sc_id c = GLOBAL_SYSTEM_CONTROL_ID"
    using Some by (auto simp: get_control_def dest: t_find_SomeD)
  with Some assms show ?thesis by (intro that [of c "work s"]) (simp_all add: get_or_create_control_def)
next
  case None
  define c where "c = \<lparr>sc_id = GLOBAL_SYSTEM_CONTROL_ID, sc_emergency_stop_enabled = False,
     sc_reason = None, sc_changed_by_user_id = None, sc_changed_at = now_utc s\<rparr>"
  define d where "d = (work s)\<lparr>controls := t_add c (controls (work s))\<rparr>"
  have fl: "db_flush (work s) = work s" and un: "db_unique (work s)"
    using assms by (simp_all add: settled_def)
  have t: "t_all (controls (work s)) = rows (controls (work s))"
    using settled_pend [OF assms] by (simp add: t_all_settled)
  have no: "\<forall>x \<in> set (rows (controls (work s))). sc_id x \<noteq> GLOBAL_SYSTEM_CONTROL_ID"
    using None by (auto simp: get_control_def t_find_def find_None_iff)
  have u: "db_unique d"
    using un no t by (auto simp: d_def db_unique_def c_def)
  have dd: "db_flush d = (work s)\<lparr>controls := controls (db_flush d)\<rparr>"
    using fl by (simp add: d_def db_flush_update)
  have "get_control (db_flush d) = Some c"
    using no t by (simp add: get_control_def d_def t_find_def find_append c_def
        find_None_iff [THEN iffD2])
  moreover have "get_or_create_control s = (Inr c, s\<lparr>work := db_flush d\<rparr>)"
    using None u by (simp add: get_or_create_control_def Let_def bnd_flush c_def d_def)
  ultimately show ?thesis
    using None dd settled_db_flush [OF u] by (intro that [of c "db_flush d"]) (simp_all add: c_def)
qed

lemma get_control_put:
  assumes "get_control d = Some c" and "sc_id c' = sc_id c"
  shows "get_control (d\<lparr>controls := t_put sc_id c' (controls d)\<rparr>) = Some c'"
proof -
  have "sc_id c = GLOBAL_SYSTEM_CONTROL_ID"
    using assms(1) by (auto simp: get_control_def dest: t_find_SomeD)
  with assms show ?thesis
    by (simp add: get_control_def t_find_put)
qed

text \<open>The state after a successful switch, as one equation.\<close>

lemma set_emergency_stop_ok:
  assumes "settled (work s)"
  shows "\<exists>st s'. set_emergency_stop enabled actor reason s = (Inr st, s')
     \<and> es_enabled st = enabled
     \<and> work s' = saved s' \<and> settled (saved s')
     \<and> stop_enabled (saved s') = enabled
     \<and> accounts (saved s') = (if enabled then t_map (ea_trading_enabled_update (\<lambda>_. False)) (accounts (work s))
                              else accounts (work s))
     \<and> risks (saved s') = (if enabled then t_map (rs_trading_enabled_update (\<lambda>_. False)) (risks (work s))
                           else risks (work s))
     \<and> (\<exists>a. rows (audits (saved s')) = rows (audits (work s)) @ [a] \<and> al_user_id a = u_id actor
           \<and> al_action a = (if enabled then ''system.emergency_stop.activated''
                            else ''system.emergency_stop.deactivated''))"
proof -
  obtain c d where g: "get_or_create_control s = (Inr c, s\<lparr>work := d\<rparr>)"
    and d: "d = (work s)\<lparr>controls := controls d\<rparr>" and sd: "settled d"
    and gc: "get_control d = Some c" and id: "sc_id c = GLOBAL_SYSTEM_CONTROL_ID"
    using get_or_create_control_ok [OF assms] by metis
  define c' where "c' = set_control enabled (clean_reason reason) (u_id actor) (now_utc s) c"
  have c': "sc_id c' = sc_id c" "sc_emergency_stop_enabled c' = enabled" by (simp_all add: c'_def)
  define D1 where "D1 = d\<lparr>controls := t_put sc_id c' (controls d)\<rparr>"
  define D2 where "D2 = (if enabled then D1\<lparr>
       accounts := (accounts D1)\<lparr>rows := map (ea_trading_enabled_update (\<lambda>_. False)) (rows (accounts D1))\<rparr>,
       risks := (risks D1)\<lparr>rows := map (rs_trading_enabled_update (\<lambda>_. False)) (rows (risks D1))\<rparr>\<rparr>
     else D1)"
  have un: "db_unique d" and fl: "db_flush d = d" using sd by (simp_all add: settled_def)
  note pend = settled_pend [OF sd]
  have same: "accounts d = accounts (work s)" "risks d = risks (work s)" "audits d = audits (work s)"
    by (subst d, simp)+
  have "distinct (map sc_id (t_all (controls d)))" using un by (simp add: db_unique_def)
  then have "db_unique D1"
    using un map_t_all_put [of "controls d" sc_id c' sc_id] by (simp add: D1_def db_unique_update)
  moreover have "distinct (map rs_exchange_account_id (t_all (risks d)))"
    using un by (simp add: db_unique_def)
  ultimately have u2: "db_unique D2"
    using pend by (simp add: D2_def D1_def db_unique_update t_all_def comp_def)
  have aud: "audits D2 = audits (work s)" using same by (simp add: D2_def D1_def)
  obtain a e st n where run: "set_emergency_stop enabled actor reason s = (Inr st,
      s\<lparr>uuid_next := n, work := db_flush (D2\<lparr>audits := t_add a (audits D2), events := t_add e (events D2)\<rparr>),
        saved := db_flush (D2\<lparr>audits := t_add a (audits D2), events := t_add e (events D2)\<rparr>)\<rparr>)"
    and st: "st = to_state c'" and a: "al_user_id a = u_id actor"
      "al_action a = (if enabled then ''system.emergency_stop.activated''
                      else ''system.emergency_stop.deactivated'')"
    using u2 by (cases enabled)
      (simp_all add: set_emergency_stop_def bnd_Inr [of get_or_create_control, OF g] Let_def
        force_trading_off_def add_audit_apply add_system_event_apply bnd_commit D2_def D1_def c'_def
        now_utc_def)
  have find: "get_control (db_flush (D2\<lparr>audits := t_add a (audits D2), events := t_add e (events D2)\<rparr>)) = Some c'"
    using get_control_put [OF gc c'(1)]
    by (simp add: get_control_def D2_def D1_def t_find_flush_present)
  have "accounts (saved (s\<lparr>saved := db_flush D2\<rparr>)) = (if enabled then t_map (ea_trading_enabled_update (\<lambda>_. False)) (accounts (work s))
                              else accounts (work s))"
    using pend same by (simp add: D2_def D1_def t_flush_def t_map_def)
  then show ?thesis
    using run find st a u2 pend same aud c' 
    by (simp add: settled_db_flush stop_enabled_def to_state_def D2_def D1_def t_flush_def t_map_def t_all_def)
qed

section \<open>Properties\<close>

text \<open>C5: Activating the emergency stop commits: the stop is on, every account and every risk
  setting in the database has trading switched off, an audit row names the actor, the alert
  goes out, and from then on no new order is admitted.\<close>

theorem activation_stops_trading:
  assumes "settled (work s)"
  shows "\<exists>st s'. activate_emergency_stop actor reason s = (Inr st, s')
     \<and> es_enabled st \<and> saved s' = work s' \<and> settled (work s') \<and> stop_enabled (work s')
     \<and> (\<forall>a \<in> set (rows (accounts (work s'))). \<not> ea_trading_enabled a)
     \<and> (\<forall>r \<in> set (rows (risks (work s'))). \<not> rs_trading_enabled r)
     \<and> (\<exists>l \<in> set (rows (audits (work s'))). al_user_id l = u_id actor
          \<and> al_action l = ''system.emergency_stop.activated'')
     \<and> last (outbox s') = EmergencyStopAlert ''global''
     \<and> (\<exists>m. assert_new_orders_allowed s' = (Inl (EmergencyStopEnabledError m), s'))"
proof -
  obtain st s1 where r: "set_emergency_stop True actor reason s = (Inr st, s1)"
    and s1: "es_enabled st" "work s1 = saved s1" "settled (saved s1)" "stop_enabled (saved s1)"
      "accounts (saved s1) = t_map (ea_trading_enabled_update (\<lambda>_. False)) (accounts (work s))"
      "risks (saved s1) = t_map (rs_trading_enabled_update (\<lambda>_. False)) (risks (work s))"
      "\<exists>a. rows (audits (saved s1)) = rows (audits (work s)) @ [a] \<and> al_user_id a = u_id actor
         \<and> al_action a = ''system.emergency_stop.activated''"
    using set_emergency_stop_ok [OF assms, of True actor reason] by auto
  have "activate_emergency_stop actor reason s =
      (Inr st, s1\<lparr>outbox := outbox s1 @ [EmergencyStopAlert ''global'']\<rparr>)"
    by (simp add: activate_emergency_stop_def bnd_Inr [where m = "set_emergency_stop True actor reason", OF r])
  with s1 show ?thesis
    by (auto simp: assert_new_orders_allowed_apply)
qed

theorem activation_stops_trading_witness:
  "\<exists>st s'. activate_emergency_stop sample_user ''drill'' sample_session = (Inr st, s')
     \<and> stop_enabled (work s') \<and> last (outbox s') = EmergencyStopAlert ''global''"
  using activation_stops_trading [of sample_session sample_user "''drill''"] sample_settled by auto

text \<open>Deactivation by a super administrator commits, switches the stop off and gives trading
  back to nobody: accounts and risk settings stay exactly as they were. Anybody else is
  refused with 403 and nothing changes.\<close>

theorem deactivation_enables_nothing:
  assumes "settled (work s)"
  shows "if u_role actor = SUPER_ADMIN
     then \<exists>st s'. deactivate_emergency_stop actor reason s = (Inr st, s')
       \<and> \<not> es_enabled st \<and> saved s' = work s' \<and> \<not> stop_enabled (work s')
       \<and> accounts (work s') = accounts (work s) \<and> risks (work s') = risks (work s)
       \<and> assert_new_orders_allowed s' = (Inr (), s')
     else \<exists>m. deactivate_emergency_stop actor reason s = (Inl (HTTPException 403 m), s)"
proof (cases "u_role actor = SUPER_ADMIN")
  case True
  obtain st s' where "set_emergency_stop False actor reason s = (Inr st, s')" "\<not> es_enabled st"
    "work s' = saved s'" "\<not> stop_enabled (saved s')" "accounts (saved s') = accounts (work s)"
    "risks (saved s') = risks (work s)"
    using set_emergency_stop_ok [OF assms, of False actor reason] by auto
  with True show ?thesis
    by (simp add: deactivate_emergency_stop_def assert_new_orders_allowed_apply)
next
  case False
  then show ?thesis by (simp add: deactivate_emergency_stop_def)
qed

theorem deactivation_enables_nothing_witness:
  "\<exists>st s'. deactivate_emergency_stop sample_user ''over'' sample_session = (Inr st, s')
     \<and> \<not> stop_enabled (work s') \<and> accounts (work s') = accounts sample_db"
  using deactivation_enables_nothing [of sample_session sample_user "''over''"] sample_settled
  by (auto simp: sample_user_def)

end
