(* ===== verification/Exchange_Accounts.thy ===== *)
theory Exchange_Accounts
  imports Samples
begin

text \<open>
  Exchange accounts, their encrypted API keys (\<open>services/exchange_accounts.py\<close>) and the sharing
  permissions (\<open>services/permissions.py\<close>), with the routes over them
  (\<open>api/v1/exchange_accounts.py\<close>, \<open>api/v1/permissions.py\<close>).

  The Fernet cipher of \<open>core/encryption.py\<close> is third-party code: it is a parameter \<open>cipher\<close>.
  Its encryption is randomised, so it takes a nonce, which the session supplies.
\<close>

section \<open>Accounts\<close>

text \<open>The validated request bodies \<open>ExchangeAccountCreate\<close> and \<open>ExchangeAccountUpdate\<close>.\<close>

record account_create =
  ac_exchange_name :: exchange_name
  ac_account_label :: string
  ac_account_mode :: account_mode
  ac_trading_enabled :: bool

record account_update =
  au_account_label :: "string option"
  au_account_mode :: "account_mode option"
  au_trading_enabled :: "bool option"
  au_is_active :: "bool option"

definition list_accounts :: "string \<Rightarrow> exchange_account list op" where
  "list_accounts user_id =
     query (\<lambda>d. t_select (\<lambda>a. ea_user_id a = user_id \<and> ea_is_active a) (accounts d))"

definition create_account :: "string \<Rightarrow> account_create \<Rightarrow> exchange_account op" where
  "create_account user_id data = bnd new_uuid (\<lambda>i.
     let account = \<lparr>ea_id = i, ea_user_id = user_id, ea_exchange_name = ac_exchange_name data,
                    ea_account_mode = ac_account_mode data, ea_account_label = ac_account_label data,
                    ea_trading_enabled = ac_trading_enabled data, ea_is_active = True\<rparr>
     in bnd (upd (\<lambda>d. d\<lparr>accounts := t_add account (accounts d)\<rparr>)) (\<lambda>_.
        bnd commit (\<lambda>_. ret account)))"

definition find_owned_account :: "string \<Rightarrow> string \<Rightarrow> db \<Rightarrow> exchange_account option" where
  "find_owned_account user_id account_id d =
     t_find (\<lambda>a. ea_id a = account_id \<and> ea_user_id a = user_id) (accounts d)"

definition get_owned_account :: "string \<Rightarrow> string \<Rightarrow> exchange_account option op" where
  "get_owned_account user_id account_id = query (find_owned_account user_id account_id)"

definition put_account :: "exchange_account \<Rightarrow> unit op" where
  "put_account a = upd (\<lambda>d. d\<lparr>accounts := t_put ea_id a (accounts d)\<rparr>)"

text \<open>\<open>if value is not None: setattr(account, key, value)\<close>, for the four keys.\<close>

definition set_given :: "'v option \<Rightarrow> (('v \<Rightarrow> 'v) \<Rightarrow> 'r \<Rightarrow> 'r) \<Rightarrow> 'r \<Rightarrow> 'r" where
  "set_given v update r = (case v of None \<Rightarrow> r | Some x \<Rightarrow> update (\<lambda>_. x) r)"

definition update_account :: "exchange_account \<Rightarrow> account_update \<Rightarrow> exchange_account op" where
  "update_account account data =
     (let account' = set_given (au_is_active data) ea_is_active_update
                    (set_given (au_trading_enabled data) ea_trading_enabled_update
                    (set_given (au_account_mode data) ea_account_mode_update
                    (set_given (au_account_label data) ea_account_label_update account)))
      in bnd (put_account account') (\<lambda>_. bnd commit (\<lambda>_. ret account')))"

definition delete_account :: "exchange_account \<Rightarrow> unit op" where
  "delete_account account =
     bnd (put_account (account\<lparr>ea_is_active := False, ea_trading_enabled := False\<rparr>)) (\<lambda>_. commit)"

section \<open>API keys\<close>

record cipher =
  encrypt_secret :: "string \<Rightarrow> string \<Rightarrow> string"
  decrypt_secret :: "string \<Rightarrow> string result"

record exchange_credentials =
  ec_api_key :: string
  ec_api_secret :: string
  ec_passphrase :: "string option"

definition encrypt :: "cipher \<Rightarrow> string \<Rightarrow> string op" where
  "encrypt c secret = bnd new_uuid (\<lambda>nonce. ret (encrypt_secret c nonce secret))"

definition find_secret :: "string \<Rightarrow> db \<Rightarrow> api_key_secret option" where
  "find_secret account_id d = t_find (\<lambda>k. ks_exchange_account_id k = account_id) (secrets d)"

definition upsert_api_key_secret ::
    "cipher \<Rightarrow> string \<Rightarrow> string \<Rightarrow> string \<Rightarrow> string \<Rightarrow> string option \<Rightarrow> api_key_secret op" where
  "upsert_api_key_secret c user_id account_id api_key api_secret passphrase =
     bnd (query (find_secret account_id)) (\<lambda>secret.
     bnd (case passphrase of
            None \<Rightarrow> ret None
          | Some p \<Rightarrow> if p = [] then ret None else bnd (encrypt c p) (\<lambda>e. ret (Some e))) (\<lambda>ep.
     bnd (encrypt c api_key) (\<lambda>ek. bnd (encrypt c api_secret) (\<lambda>es.
     bnd (case secret of
            None \<Rightarrow> bnd new_uuid (\<lambda>i.
              let k = \<lparr>ks_id = i, ks_user_id = user_id, ks_exchange_account_id = account_id,
                       ks_encrypted_api_key = ek, ks_encrypted_api_secret = es,
                       ks_encrypted_passphrase = ep\<rparr>
              in bnd (upd (\<lambda>d. d\<lparr>secrets := t_add k (secrets d)\<rparr>)) (\<lambda>_. ret k))
          | Some old \<Rightarrow>
              let k = old\<lparr>ks_encrypted_api_key := ek, ks_encrypted_api_secret := es,
                          ks_encrypted_passphrase := ep\<rparr>
              in bnd (upd (\<lambda>d. d\<lparr>secrets := t_put ks_exchange_account_id k (secrets d)\<rparr>)) (\<lambda>_. ret k)) (\<lambda>k.
     bnd commit (\<lambda>_. ret k))))))"

definition find_secret_metadata :: "string \<Rightarrow> string \<Rightarrow> db \<Rightarrow> api_key_secret option" where
  "find_secret_metadata user_id account_id d =
     t_find (\<lambda>k. ks_user_id k = user_id \<and> ks_exchange_account_id k = account_id) (secrets d)"

definition get_api_key_secret_metadata :: "string \<Rightarrow> string \<Rightarrow> api_key_secret option op" where
  "get_api_key_secret_metadata user_id account_id = query (find_secret_metadata user_id account_id)"

definition get_exchange_credentials ::
    "cipher \<Rightarrow> string \<Rightarrow> string \<Rightarrow> exchange_credentials option op" where
  "get_exchange_credentials c user_id account_id =
     bnd (get_api_key_secret_metadata user_id account_id) (\<lambda>secret.
       case secret of
         None \<Rightarrow> ret None
       | Some k \<Rightarrow>
           bnd (case ks_encrypted_passphrase k of
                  None \<Rightarrow> ret None
                | Some e \<Rightarrow> bnd (lift_result (decrypt_secret c e)) (\<lambda>p. ret (Some p))) (\<lambda>passphrase.
           bnd (lift_result (decrypt_secret c (ks_encrypted_api_key k))) (\<lambda>api_key.
           bnd (lift_result (decrypt_secret c (ks_encrypted_api_secret k))) (\<lambda>api_secret.
             ret (Some \<lparr>ec_api_key = api_key, ec_api_secret = api_secret,
                        ec_passphrase = passphrase\<rparr>)))))"

definition delete_api_key_secret :: "api_key_secret \<Rightarrow> unit op" where
  "delete_api_key_secret secret =
     bnd (upd (\<lambda>d. d\<lparr>secrets := t_delete ks_id secret (secrets d)\<rparr>)) (\<lambda>_. commit)"

section \<open>Permissions\<close>

record permission_create =
  pc_grantee_user_id :: string
  pc_view_only :: bool
  pc_copy_follow :: bool
  pc_pause_follow :: bool
  pc_edit_copy_rule :: bool
  pc_trade_manual :: bool

record permission_update =
  pu_view_only :: "bool option"
  pu_copy_follow :: "bool option"
  pu_pause_follow :: "bool option"
  pu_edit_copy_rule :: "bool option"
  pu_trade_manual :: "bool option"

definition list_permissions_for_owner :: "string \<Rightarrow> user_permission list op" where
  "list_permissions_for_owner owner_user_id =
     query (\<lambda>d. t_select (\<lambda>p. up_owner_user_id p = owner_user_id) (permissions d))"

definition create_permission :: "string \<Rightarrow> permission_create \<Rightarrow> user_permission op" where
  "create_permission owner_user_id data = bnd new_uuid (\<lambda>i.
     let p = \<lparr>up_id = i, up_owner_user_id = owner_user_id,
              up_grantee_user_id = pc_grantee_user_id data, up_view_only = pc_view_only data,
              up_copy_follow = pc_copy_follow data, up_pause_follow = pc_pause_follow data,
              up_edit_copy_rule = pc_edit_copy_rule data, up_trade_manual = pc_trade_manual data\<rparr>
     in bnd (upd (\<lambda>d. d\<lparr>permissions := t_add p (permissions d)\<rparr>)) (\<lambda>_.
        bnd commit (\<lambda>_. ret p)))"

definition find_owned_permission :: "string \<Rightarrow> string \<Rightarrow> db \<Rightarrow> user_permission option" where
  "find_owned_permission owner_user_id permission_id d =
     t_find (\<lambda>p. up_id p = permission_id \<and> up_owner_user_id p = owner_user_id) (permissions d)"

definition get_owned_permission :: "string \<Rightarrow> string \<Rightarrow> user_permission option op" where
  "get_owned_permission owner_user_id permission_id =
     query (find_owned_permission owner_user_id permission_id)"

definition update_permission :: "user_permission \<Rightarrow> permission_update \<Rightarrow> user_permission op" where
  "update_permission permission data =
     (let p = set_given (pu_trade_manual data) up_trade_manual_update
             (set_given (pu_edit_copy_rule data) up_edit_copy_rule_update
             (set_given (pu_pause_follow data) up_pause_follow_update
             (set_given (pu_copy_follow data) up_copy_follow_update
             (set_given (pu_view_only data) up_view_only_update permission))))
      in bnd (upd (\<lambda>d. d\<lparr>permissions := t_put up_id p (permissions d)\<rparr>)) (\<lambda>_.
         bnd commit (\<lambda>_. ret p)))"

definition delete_permission :: "user_permission \<Rightarrow> unit op" where
  "delete_permission permission =
     bnd (upd (\<lambda>d. d\<lparr>permissions := t_delete up_id permission (permissions d)\<rparr>)) (\<lambda>_. commit)"

section \<open>Routes\<close>

definition http_404 :: "string \<Rightarrow> py_exc" where
  "http_404 detail = HTTPException 404 [detail]"

text \<open>The preamble of every account route: the account of the caller, or 404.\<close>

definition require_account :: "user \<Rightarrow> string \<Rightarrow> exchange_account op" where
  "require_account current_user account_id =
     bnd (get_owned_account (u_id current_user) account_id) (\<lambda>account.
       case account of None \<Rightarrow> raise (http_404 ''account not found'') | Some a \<Rightarrow> ret a)"

record api_key_metadata =
  am_exchange_account_id :: string
  am_configured :: bool
  am_has_passphrase :: bool

definition read_accounts :: "user \<Rightarrow> exchange_account list op" where
  "read_accounts current_user = list_accounts (u_id current_user)"

definition add_account :: "account_create \<Rightarrow> user \<Rightarrow> exchange_account op" where
  "add_account payload current_user = create_account (u_id current_user) payload"

definition read_account :: "string \<Rightarrow> user \<Rightarrow> exchange_account op" where
  "read_account account_id current_user = require_account current_user account_id"

definition patch_account :: "string \<Rightarrow> account_update \<Rightarrow> user \<Rightarrow> exchange_account op" where
  "patch_account account_id payload current_user =
     bnd (require_account current_user account_id) (\<lambda>account. update_account account payload)"

definition remove_account :: "string \<Rightarrow> user \<Rightarrow> unit op" where
  "remove_account account_id current_user =
     bnd (require_account current_user account_id) delete_account"

definition set_api_key ::
    "cipher \<Rightarrow> string \<Rightarrow> string \<Rightarrow> string \<Rightarrow> string option \<Rightarrow> user \<Rightarrow> api_key_metadata op" where
  "set_api_key c account_id api_key api_secret passphrase current_user =
     bnd (require_account current_user account_id) (\<lambda>account.
     bnd (upsert_api_key_secret c (u_id current_user) (ea_id account) api_key api_secret passphrase) (\<lambda>secret.
       ret \<lparr>am_exchange_account_id = ea_id account, am_configured = True,
            am_has_passphrase = ks_encrypted_passphrase secret \<noteq> None\<rparr>))"

definition read_api_key_metadata :: "string \<Rightarrow> user \<Rightarrow> api_key_metadata op" where
  "read_api_key_metadata account_id current_user =
     bnd (require_account current_user account_id) (\<lambda>account.
     bnd (get_api_key_secret_metadata (u_id current_user) (ea_id account)) (\<lambda>secret.
       ret \<lparr>am_exchange_account_id = ea_id account, am_configured = (secret \<noteq> None),
            am_has_passphrase = (case secret of None \<Rightarrow> False
              | Some k \<Rightarrow> ks_encrypted_passphrase k \<noteq> None)\<rparr>))"

definition remove_api_key :: "string \<Rightarrow> user \<Rightarrow> unit op" where
  "remove_api_key account_id current_user =
     bnd (require_account current_user account_id) (\<lambda>account.
     bnd (get_api_key_secret_metadata (u_id current_user) (ea_id account)) (\<lambda>secret.
       case secret of None \<Rightarrow> raise (http_404 ''api key not found'')
       | Some k \<Rightarrow> delete_api_key_secret k))"

definition list_permissions :: "user \<Rightarrow> user_permission list op" where
  "list_permissions current_user = list_permissions_for_owner (u_id current_user)"

definition add_permission :: "permission_create \<Rightarrow> user \<Rightarrow> user_permission op" where
  "add_permission payload current_user =
     (if pc_grantee_user_id payload = u_id current_user
      then raise (HTTPException 400 [''cannot share with self''])
      else create_permission (u_id current_user) payload)"

definition require_permission :: "user \<Rightarrow> string \<Rightarrow> user_permission op" where
  "require_permission current_user permission_id =
     bnd (get_owned_permission (u_id current_user) permission_id) (\<lambda>permission.
       case permission of None \<Rightarrow> raise (http_404 ''permission not found'') | Some p \<Rightarrow> ret p)"

definition patch_permission :: "string \<Rightarrow> permission_update \<Rightarrow> user \<Rightarrow> user_permission op" where
  "patch_permission permission_id payload current_user =
     bnd (require_permission current_user permission_id) (\<lambda>p. update_permission p payload)"

definition remove_permission :: "string \<Rightarrow> user \<Rightarrow> unit op" where
  "remove_permission permission_id current_user =
     bnd (require_permission current_user permission_id) delete_permission"

section \<open>Behaviour\<close>

interpretation owned_account: owned_rows accounts ea_user_id ea_id find_owned_account
  by unfold_locales (simp add: find_owned_account_def)

interpretation owned_permission: owned_rows permissions up_owner_user_id up_id find_owned_permission
  by unfold_locales (simp add: find_owned_permission_def)

lemma bnd_encrypt [act_simps]:
  "bnd (encrypt c x) g s =
     g (encrypt_secret c (uuid_src s (uuid_next s)) x) (s\<lparr>uuid_next := Suc (uuid_next s)\<rparr>)"
  by (simp add: encrypt_def bnd_assoc)

lemma require_account_apply [act_simps]:
  "bnd (require_account u i) g s = (case find_owned_account (u_id u) i (work s) of
      None \<Rightarrow> (Inl (http_404 ''account not found''), s) | Some a \<Rightarrow> g a s)"
  by (simp add: require_account_def get_owned_account_def bnd_assoc split: option.split)

text \<open>
  Under a cipher that decrypts what it encrypted, the credentials read back after an upsert are
  those that were given; an empty passphrase is read back as none.
\<close>

definition cipher_ok :: "cipher \<Rightarrow> bool" where
  "cipher_ok c \<longleftrightarrow> (\<forall>n x. decrypt_secret c (encrypt_secret c n x) = Inr x)"

definition given_credentials :: "string \<Rightarrow> string \<Rightarrow> string option \<Rightarrow> exchange_credentials" where
  "given_credentials api_key api_secret passphrase =
     \<lparr>ec_api_key = api_key, ec_api_secret = api_secret,
      ec_passphrase = (if passphrase = Some [] then None else passphrase)\<rparr>"

lemma credentials_of_secret:
  assumes "cipher_ok c" and "find_secret_metadata user_id account_id (work s) = Some k"
    and "ks_encrypted_api_key k = encrypt_secret c n1 api_key"
    and "ks_encrypted_api_secret k = encrypt_secret c n2 api_secret"
    and "ks_encrypted_passphrase k = map_option (encrypt_secret c n3) passphrase"
  shows "get_exchange_credentials c user_id account_id s =
    (Inr (Some \<lparr>ec_api_key = api_key, ec_api_secret = api_secret, ec_passphrase = passphrase\<rparr>), s)"
  using assms
  by (cases passphrase)
    (simp_all add: get_exchange_credentials_def get_api_key_secret_metadata_def cipher_ok_def
      bnd_assoc)

lemma new_secret_found:
  assumes "settled d" and "find_secret account_id d = None" and "ks_exchange_account_id k = account_id"
    and "ks_user_id k = user_id"
  shows "db_unique (d\<lparr>secrets := t_add k (secrets d)\<rparr>)"
    and "find_secret_metadata user_id account_id (db_flush (d\<lparr>secrets := t_add k (secrets d)\<rparr>)) = Some k"
proof -
  note pend = settled_pend [OF assms(1)] and un = settledD(2) [OF assms(1)]
  have "distinct (map ks_exchange_account_id (t_all (secrets d)))" using un by (simp add: db_unique_def)
  then show "db_unique (d\<lparr>secrets := t_add k (secrets d)\<rparr>)"
    using un pend assms(2,3) distinct_added [of "secrets d" ks_exchange_account_id k]
    by (simp add: db_unique_update find_secret_def)
  have "t_find (\<lambda>k. ks_user_id k = user_id \<and> ks_exchange_account_id k = account_id) (secrets d) = None"
    by (rule t_find_None_weaken [OF assms(2) [unfolded find_secret_def]]) simp
  then show "find_secret_metadata user_id account_id (db_flush (d\<lparr>secrets := t_add k (secrets d)\<rparr>)) = Some k"
    using pend assms(3,4) by (simp add: find_secret_metadata_def t_find_added)
qed

lemma old_secret_found:
  assumes "settled d" and "find_secret account_id d = Some old" and "ks_user_id old = user_id"
    and "ks_exchange_account_id k = ks_exchange_account_id old" and "ks_user_id k = ks_user_id old"
  shows "db_unique (d\<lparr>secrets := t_put ks_exchange_account_id k (secrets d)\<rparr>)"
    and "find_secret_metadata user_id account_id
           (db_flush (d\<lparr>secrets := t_put ks_exchange_account_id k (secrets d)\<rparr>)) = Some k"
proof -
  note pend = settled_pend [OF assms(1)] and un = settledD(2) [OF assms(1)]
  have dist: "distinct (map ks_exchange_account_id (t_all (secrets d)))"
    using un by (simp add: db_unique_def)
  then show "db_unique (d\<lparr>secrets := t_put ks_exchange_account_id k (secrets d)\<rparr>)"
    using un map_t_all_put [of "secrets d" ks_exchange_account_id k ks_exchange_account_id]
    by (simp add: db_unique_update)
  have old: "old \<in> set (rows (secrets d))" "ks_exchange_account_id old = account_id"
    using assms(2) by (auto simp: find_secret_def dest: t_find_SomeD)
  have same: "x = old" if "x \<in> set (rows (secrets d))" "ks_exchange_account_id x = account_id" for x
    using that old dist pend by (auto simp: t_all_def distinct_map dest: inj_onD)
  have "t_find (\<lambda>k. ks_user_id k = user_id \<and> ks_exchange_account_id k = account_id) (secrets d) = Some old"
    by (rule t_find_unique [OF old(1)]) (simp add: assms(3) old(2), erule same, erule conjunct2)
  then have "t_find (\<lambda>k. ks_user_id k = user_id \<and> ks_exchange_account_id k = account_id)
      (t_flush (t_put ks_exchange_account_id k (secrets d))) = Some k"
  proof (rule t_find_stored [rotated])
    show "ks_exchange_account_id k = ks_exchange_account_id old" by (rule assms)
    show "ks_user_id k = user_id \<and> ks_exchange_account_id k = account_id" using assms old by simp
    show "ks_user_id x = user_id \<and> ks_exchange_account_id x = account_id"
      if "x \<in> set (rows (secrets d))" "ks_exchange_account_id x = ks_exchange_account_id k" for x
      using same [OF that(1)] that(2) assms(3,4) old(2) by simp
  qed (rule pend)
  then show "find_secret_metadata user_id account_id
      (db_flush (d\<lparr>secrets := t_put ks_exchange_account_id k (secrets d)\<rparr>)) = Some k"
    by (simp add: find_secret_metadata_def)
qed

lemma upsert_credentials:
  assumes c: "cipher_ok c" and st: "settled (work s)"
    and own: "\<And>k. find_secret account_id (work s) = Some k \<Longrightarrow> ks_user_id k = user_id"
  shows "\<exists>k s'. upsert_api_key_secret c user_id account_id api_key api_secret passphrase s = (Inr k, s')
     \<and> work s' = saved s'
     \<and> get_exchange_credentials c user_id account_id s' =
         (Inr (Some (given_credentials api_key api_secret passphrase)), s')"
proof -
  define p where "p = (if passphrase = Some [] then None else passphrase)"
  define u where "u = uuid_src s"
  define n where "n = uuid_next s + (if p = None then 0 else 1)"
  define ep where "ep = map_option (encrypt_secret c (u (uuid_next s))) p"
  define k where "k = (case find_secret account_id (work s) of
      None \<Rightarrow> \<lparr>ks_id = u (Suc (Suc n)), ks_user_id = user_id, ks_exchange_account_id = account_id,
               ks_encrypted_api_key = encrypt_secret c (u n) api_key,
               ks_encrypted_api_secret = encrypt_secret c (u (Suc n)) api_secret,
               ks_encrypted_passphrase = ep\<rparr>
    | Some old \<Rightarrow> old\<lparr>ks_encrypted_api_key := encrypt_secret c (u n) api_key,
               ks_encrypted_api_secret := encrypt_secret c (u (Suc n)) api_secret,
               ks_encrypted_passphrase := ep\<rparr>)"
  define d where "d = (work s)\<lparr>secrets := (case find_secret account_id (work s) of
      None \<Rightarrow> t_add k (secrets (work s))
    | Some old \<Rightarrow> t_put ks_exchange_account_id k (secrets (work s)))\<rparr>"
  have d: "db_unique d" "find_secret_metadata user_id account_id (db_flush d) = Some k"
  proof (atomize(full), cases "find_secret account_id (work s)")
    case None
    then have "d = (work s)\<lparr>secrets := t_add k (secrets (work s))\<rparr>"
      and "ks_exchange_account_id k = account_id" "ks_user_id k = user_id"
      by (simp_all add: d_def k_def)
    with new_secret_found [OF st None] show "db_unique d \<and>
        find_secret_metadata user_id account_id (db_flush d) = Some k" by simp
  next
    case (Some old)
    then have "d = (work s)\<lparr>secrets := t_put ks_exchange_account_id k (secrets (work s))\<rparr>"
      and "ks_exchange_account_id k = ks_exchange_account_id old" "ks_user_id k = ks_user_id old"
      by (simp_all add: d_def k_def)
    with old_secret_found [OF st Some own [OF Some]] show "db_unique d \<and>
        find_secret_metadata user_id account_id (db_flush d) = Some k" by simp
  qed
  have k: "ks_encrypted_api_key k = encrypt_secret c (u n) api_key"
    "ks_encrypted_api_secret k = encrypt_secret c (u (Suc n)) api_secret"
    "ks_encrypted_passphrase k = map_option (encrypt_secret c (u (uuid_next s))) p"
    by (simp_all add: k_def ep_def split: option.split)
  obtain m where run: "upsert_api_key_secret c user_id account_id api_key api_secret passphrase s =
      (Inr k, s\<lparr>uuid_next := m, work := db_flush d, saved := db_flush d\<rparr>)"
    using d(1)
    by (cases passphrase; cases "passphrase = Some []"; cases "find_secret account_id (work s)")
      (simp_all add: upsert_api_key_secret_def bnd_encrypt Let_def bnd_assoc bnd_commit p_def u_def n_def
        ep_def k_def d_def)
  have "get_exchange_credentials c user_id account_id
      (s\<lparr>uuid_next := m, work := db_flush d, saved := db_flush d\<rparr>) =
    (Inr (Some \<lparr>ec_api_key = api_key, ec_api_secret = api_secret, ec_passphrase = p\<rparr>),
      s\<lparr>uuid_next := m, work := db_flush d, saved := db_flush d\<rparr>)"
    by (rule credentials_of_secret [OF c _ k]) (use d(2) in simp)
  with run show ?thesis by (simp add: given_credentials_def p_def)
qed

text \<open>A removed account is inactive, cannot trade, and no longer listed.\<close>

lemma remove_account_ok:
  assumes "settled (work s)" and "find_owned_account (u_id u) i (work s) = Some a"
  shows "remove_account i u s = (Inr (), s\<lparr>
     work := (work s)\<lparr>accounts := t_put ea_id (a\<lparr>ea_is_active := False, ea_trading_enabled := False\<rparr>) (accounts (work s))\<rparr>,
     saved := (work s)\<lparr>accounts := t_put ea_id (a\<lparr>ea_is_active := False, ea_trading_enabled := False\<rparr>) (accounts (work s))\<rparr>\<rparr>)"
proof -
  have "t_flush (t_put ea_id r (accounts (work s))) = t_put ea_id r (accounts (work s))" for r
    using settled_pend [OF assms(1)] by (simp add: t_flush_def t_put_def t_map_def)
  with assms show ?thesis
    by (simp add: remove_account_def require_account_apply delete_account_def put_account_def
        commit_apply db_flush_update settledD)
qed

section \<open>Properties\<close>

definition demo_cipher :: cipher where
  "demo_cipher = \<lparr>encrypt_secret = (\<lambda>nonce x. ''enc:'' @ x), decrypt_secret = (\<lambda>e. Inr (drop 4 e))\<rparr>"

lemma demo_cipher_ok: "cipher_ok demo_cipher"
  by (simp add: cipher_ok_def demo_cipher_def)

text \<open>C23: Storing an API key through the route and reading the credentials back gives the key, the
  secret and the passphrase that were stored (an empty passphrase reads back as none), provided
  the cipher decrypts what it encrypted; the stored key is durable.\<close>

theorem stored_key_reads_back:
  assumes "cipher_ok c" and "settled (work s)"
    and "find_owned_account (u_id user) account_id (work s) = Some a"
    and "\<And>k. find_secret (ea_id a) (work s) = Some k \<Longrightarrow> ks_user_id k = u_id user"
  shows "\<exists>r s'. set_api_key c account_id api_key api_secret passphrase user s = (Inr r, s')
     \<and> saved s' = work s'
     \<and> get_exchange_credentials c (u_id user) (ea_id a) s' =
         (Inr (Some (given_credentials api_key api_secret passphrase)), s')"
proof -
  obtain k s' where r: "upsert_api_key_secret c (u_id user) (ea_id a) api_key api_secret passphrase s = (Inr k, s')"
    "work s' = saved s'" "get_exchange_credentials c (u_id user) (ea_id a) s' =
         (Inr (Some (given_credentials api_key api_secret passphrase)), s')"
    using upsert_credentials [OF assms(1,2,4), where api_key = api_key and api_secret = api_secret
        and passphrase = passphrase] by blast
  then show ?thesis
    using assms(3) by (simp add: set_api_key_def require_account_apply
        bnd_Inr [where m = "upsert_api_key_secret c (u_id user) (ea_id a) api_key api_secret passphrase", OF r(1)])
qed

theorem stored_key_reads_back_witness:
  "\<exists>r s'. set_api_key demo_cipher ''acct-2'' ''K'' ''S'' (Some '''') sample_user sample_session = (Inr r, s')
     \<and> get_exchange_credentials demo_cipher ''alice'' ''acct-2'' s' =
         (Inr (Some \<lparr>ec_api_key = ''K'', ec_api_secret = ''S'', ec_passphrase = None\<rparr>), s')"
proof -
  have a: "find_owned_account (u_id sample_user) ''acct-2'' (work sample_session) = Some testnet_account"
    by (simp add: find_owned_account_def t_find_def sample_db_def sample_user_def sample_account_def
        testnet_account_def)
  have "\<exists>r s'. set_api_key demo_cipher ''acct-2'' ''K'' ''S'' (Some '''') sample_user sample_session = (Inr r, s')
     \<and> saved s' = work s'
     \<and> get_exchange_credentials demo_cipher (u_id sample_user) (ea_id testnet_account) s' =
         (Inr (Some (given_credentials ''K'' ''S'' (Some ''''))), s')"
  proof (rule stored_key_reads_back [OF demo_cipher_ok _ a])
    show "settled (work sample_session)" using sample_settled by simp
    show "ks_user_id k = u_id sample_user"
      if "find_secret (ea_id testnet_account) (work sample_session) = Some k" for k
      using that by (auto simp: find_secret_def t_find_def sample_db_def sample_secret_def
          sample_user_def testnet_account_def split: if_splits)
  qed
  then show ?thesis
    by (auto simp: given_credentials_def sample_user_def testnet_account_def)
qed

text \<open>C24: Tenancy of accounts: an account is delivered to its owner only; whoever else asks for its
  id through any account route is answered 404 and nothing changes.\<close>

theorem accounts_are_private:
  assumes "distinct (map ea_id (rows (accounts (work s))))"
    and "a \<in> set (rows (accounts (work s)))" and "u_id user \<noteq> ea_user_id a"
  shows "read_account (ea_id a) user s = (Inl (http_404 ''account not found''), s)
    \<and> patch_account (ea_id a) payload user s = (Inl (http_404 ''account not found''), s)
    \<and> remove_account (ea_id a) user s = (Inl (http_404 ''account not found''), s)
    \<and> set_api_key c (ea_id a) key secret passphrase user s = (Inl (http_404 ''account not found''), s)
    \<and> read_api_key_metadata (ea_id a) user s = (Inl (http_404 ''account not found''), s)
    \<and> remove_api_key (ea_id a) user s = (Inl (http_404 ''account not found''), s)"
proof -
  have "find_owned_account (ea_user_id a) (ea_id a) (work s) = Some a"
    by (rule owned_account.lookup_complete [OF assms(1,2)])
  from owned_account.lookup_isolated [OF assms(1) this] assms(3)
  have none: "find_owned_account (u_id user) (ea_id a) (work s) = None" by blast
  then have "require_account user (ea_id a) s = (Inl (http_404 ''account not found''), s)"
    by (simp add: require_account_def get_owned_account_def)
  with none show ?thesis
    by (simp add: read_account_def patch_account_def remove_account_def set_api_key_def
        read_api_key_metadata_def remove_api_key_def require_account_apply)
qed

theorem accounts_are_private_witness:
  "read_account ''acct-1'' (sample_user\<lparr>u_id := ''mallory''\<rparr>) sample_session =
     (Inl (http_404 ''account not found''), sample_session)"
  using accounts_are_private [of sample_session sample_account "sample_user\<lparr>u_id := ''mallory''\<rparr>"]
  by (simp add: sample_db_def sample_account_def testnet_account_def)

text \<open>Removing an account succeeds for its owner, keeps the row but leaves it inactive and
  unable to trade, and the account is no longer listed.\<close>

theorem removed_account_cannot_trade:
  assumes "settled (work s)" and "find_owned_account (u_id user) account_id (work s) = Some a"
    and "distinct (map ea_id (rows (accounts (work s))))"
  shows "\<exists>s'. remove_account account_id user s = (Inr (), s') \<and> saved s' = work s'
     \<and> (\<exists>b. find_owned_account (u_id user) account_id (work s') = Some b
          \<and> \<not> ea_is_active b \<and> \<not> ea_trading_enabled b)
     \<and> (\<forall>b \<in> set (rows (accounts (work s'))). ea_id b = account_id \<longrightarrow>
          b \<notin> set (case list_accounts (u_id user) s' of (Inr bs, _) \<Rightarrow> bs | _ \<Rightarrow> []))"
proof -
  let ?b = "a\<lparr>ea_is_active := False, ea_trading_enabled := False\<rparr>"
  let ?d = "(work s)\<lparr>accounts := t_put ea_id ?b (accounts (work s))\<rparr>"
  note a = owned_account.lookup_owner [OF assms(2)]
  have find: "find_owned_account (u_id user) account_id ?d = Some ?b"
  proof -
    have same: "x = a" if "x \<in> set (rows (accounts (work s)))" "ea_id x = ea_id a" for x
      using that a assms(3) by (auto simp: distinct_map dest: inj_onD)
    have "t_find (\<lambda>x. ea_id x = account_id \<and> ea_user_id x = u_id user) (t_put ea_id ?b (accounts (work s))) =
        map_option (\<lambda>x. if ea_id x = ea_id ?b then ?b else x)
          (t_find (\<lambda>x. ea_id x = account_id \<and> ea_user_id x = u_id user) (accounts (work s)))"
      by (rule t_find_put) (drule same, use a in simp_all)
    then show ?thesis using assms(2) by (simp add: find_owned_account_def)
  qed
  have off: "\<not> ea_is_active b" if "b \<in> set (rows (accounts ?d))" "ea_id b = account_id" for b
    using that a by (auto simp: t_put_def split: if_splits)
  show ?thesis
    using remove_account_ok [OF assms(1,2)] find off
    by (simp add: list_accounts_def t_select_def)
qed

theorem removed_account_cannot_trade_witness:
  "\<exists>s'. remove_account ''acct-1'' sample_user sample_session = (Inr (), s')
     \<and> (\<exists>b. find_owned_account ''alice'' ''acct-1'' (work s') = Some b \<and> \<not> ea_trading_enabled b)"
proof -
  have "settled (work sample_session)"
    "find_owned_account (u_id sample_user) ''acct-1'' (work sample_session) = Some sample_account"
    "distinct (map ea_id (rows (accounts (work sample_session))))"
    using sample_settled
    by (simp_all add: find_owned_account_def t_find_def sample_db_def sample_user_def sample_account_def
        testnet_account_def)
  from removed_account_cannot_trade [OF this] show ?thesis by (auto simp: sample_user_def)
qed

end
