(* ===== verification/Risk_Engine.thy ===== *)
theory Risk_Engine
  imports Exchange_Accounts
begin

text \<open>
  Risk settings and the risk check of an order (\<open>services/risk_engine.py\<close>), and the routes that
  read and patch the settings (\<open>api/v1/risk_settings.py\<close>).
\<close>

section \<open>Operations\<close>

record risk_check_result =
  rc_decision :: risk_decision
  rc_reasons :: "string list"

definition risk_to_dict :: "risk_check_result \<Rightarrow> pydict" where
  "risk_to_dict r = [(''decision'', PStr (risk_decision_value (rc_decision r))),
                     (''reasons'', PList (map PStr (rc_reasons r)))]"

record risk_order_input =
  ro_symbol :: string
  ro_side :: order_side
  ro_quantity :: dec
  ro_price :: "dec option"

definition find_risk_settings :: "string \<Rightarrow> string \<Rightarrow> db \<Rightarrow> risk_setting option" where
  "find_risk_settings user_id account_id d =
     t_find (\<lambda>r. rs_user_id r = user_id \<and> rs_exchange_account_id r = account_id) (risks d)"

definition get_or_create_risk_settings :: "string \<Rightarrow> string \<Rightarrow> risk_setting op" where
  "get_or_create_risk_settings user_id account_id =
     bnd (query (find_risk_settings user_id account_id)) (\<lambda>found. case found of
       Some settings \<Rightarrow> ret settings
     | None \<Rightarrow> bnd new_uuid (\<lambda>i.
         let settings = \<lparr>rs_id = i, rs_user_id = user_id, rs_exchange_account_id = account_id,
               rs_trading_enabled = False, rs_max_single_order_notional = None,
               rs_max_position_notional = None, rs_max_leverage = None,
               rs_min_order_quantity = None, rs_max_order_quantity = None,
               rs_blocked_symbols = Some []\<rparr>
         in bnd (upd (\<lambda>d. d\<lparr>risks := t_add settings (risks d)\<rparr>)) (\<lambda>_.
            bnd commit (\<lambda>_. ret settings))))"

text \<open>
  The body \<open>RiskSettingUpdate\<close>, dumped with \<open>exclude_unset=True\<close>: a key that was not sent is
  \<open>None\<close>, a key sent as \<open>null\<close> is \<open>Some None\<close>.
\<close>

record risk_setting_update =
  ru_trading_enabled :: "bool option option"
  ru_max_single_order_notional :: "dec option option"
  ru_max_position_notional :: "dec option option"
  ru_max_leverage :: "dec option option"
  ru_min_order_quantity :: "dec option option"
  ru_max_order_quantity :: "dec option option"
  ru_blocked_symbols :: "string list option option"

text \<open>\<open>sorted({str(symbol).upper() for symbol in value})\<close>\<close>

definition normal_symbols :: "string list \<Rightarrow> string list" where
  "normal_symbols value = sort (remdups (map upper value))"

definition risk_trading_was_disabled :: "bool \<Rightarrow> risk_setting_update \<Rightarrow> bool" where
  "risk_trading_was_disabled was_trading_enabled data \<longleftrightarrow>
     was_trading_enabled \<and> ru_trading_enabled data = Some (Some False)"

definition notify_emergency_stop_enabled :: "bool \<Rightarrow> unit op" where
  "notify_emergency_stop_enabled alert_runtime =
     (if alert_runtime then send_alert (EmergencyStopAlert ''account'') else ret ())"

text \<open>
  The assignments of the loop. \<open>trading_enabled\<close> is a column that may not be null, so assigning
  \<open>None\<close> to it makes the commit fail.
\<close>

definition set_risk_fields :: "risk_setting_update \<Rightarrow> risk_setting \<Rightarrow> risk_setting" where
  "set_risk_fields data settings =
     set_given (map_option (map_option normal_symbols) (ru_blocked_symbols data)) rs_blocked_symbols_update
    (set_given (ru_max_order_quantity data) rs_max_order_quantity_update
    (set_given (ru_min_order_quantity data) rs_min_order_quantity_update
    (set_given (ru_max_leverage data) rs_max_leverage_update
    (set_given (ru_max_position_notional data) rs_max_position_notional_update
    (set_given (ru_max_single_order_notional data) rs_max_single_order_notional_update
    (set_given (case ru_trading_enabled data of Some (Some b) \<Rightarrow> Some b | _ \<Rightarrow> None)
       rs_trading_enabled_update settings))))))"

definition update_risk_settings ::
    "risk_setting \<Rightarrow> risk_setting_update \<Rightarrow> bool \<Rightarrow> risk_setting op" where
  "update_risk_settings settings data alert_runtime =
     (let was_trading_enabled = rs_trading_enabled settings;
          settings' = set_risk_fields data settings
      in if ru_trading_enabled data = Some None then bnd rollback (\<lambda>_. raise IntegrityError)
         else bnd (upd (\<lambda>d. d\<lparr>risks := t_put rs_exchange_account_id settings' (risks d)\<rparr>)) (\<lambda>_.
              bnd commit (\<lambda>_.
              bnd (if risk_trading_was_disabled was_trading_enabled data
                   then notify_emergency_stop_enabled alert_runtime else ret ()) (\<lambda>_.
                ret settings'))))"

text \<open>
  \<open>order.price or Decimal("1")\<close>: no price, or the price zero, is taken as one.
  \<open>symbol in None\<close> raises \<open>TypeError\<close>.
\<close>

definition notional_price :: "dec option \<Rightarrow> dec" where
  "notional_price price = (case price of None \<Rightarrow> done1 | Some p \<Rightarrow> if dtruthy p then p else done1)"

definition check_order_risk ::
    "exchange_account \<Rightarrow> risk_setting \<Rightarrow> risk_order_input \<Rightarrow> bool \<Rightarrow> risk_check_result result" where
  "check_order_risk account settings order allow_non_simulation =
     (case rs_blocked_symbols settings of
        None \<Rightarrow> Inl TypeError
      | Some blocked \<Rightarrow>
          let reasons = collect_reasons
            [(ea_account_mode account \<noteq> SIMULATION \<and> \<not> allow_non_simulation,
              ''only SIMULATION mode is enabled in V1''),
             (\<not> ea_trading_enabled account, ''exchange account trading is disabled''),
             (\<not> rs_trading_enabled settings, ''risk settings trading is disabled''),
             (ro_symbol order \<in> set blocked, ''symbol is blocked''),
             (case rs_min_order_quantity settings of None \<Rightarrow> False
              | Some m \<Rightarrow> dlt (ro_quantity order) m, ''quantity is below minimum''),
             (case rs_max_order_quantity settings of None \<Rightarrow> False
              | Some m \<Rightarrow> dlt m (ro_quantity order), ''quantity is above maximum''),
             (case rs_max_single_order_notional settings of None \<Rightarrow> False
              | Some m \<Rightarrow> dlt m (dmul (ro_quantity order) (notional_price (ro_price order))),
              ''single order notional exceeds limit'')]
          in Inr \<lparr>rc_decision = (if reasons \<noteq> [] then RISK_REJECTED else PASSED),
                  rc_reasons = reasons\<rparr>)"

section \<open>Routes\<close>

definition read_risk_settings :: "string \<Rightarrow> user \<Rightarrow> risk_setting op" where
  "read_risk_settings account_id current_user =
     bnd (require_account current_user account_id) (\<lambda>account.
       get_or_create_risk_settings (u_id current_user) (ea_id account))"

definition patch_risk_settings :: "string \<Rightarrow> risk_setting_update \<Rightarrow> user \<Rightarrow> risk_setting op" where
  "patch_risk_settings account_id payload current_user =
     bnd (require_account current_user account_id) (\<lambda>account.
       if ea_account_mode account \<noteq> SIMULATION
       then raise (HTTPException 400
         [''risk settings can only be modified for SIMULATION accounts in V1''])
       else bnd (get_or_create_risk_settings (u_id current_user) (ea_id account)) (\<lambda>settings_obj.
         update_risk_settings settings_obj payload True))"

section \<open>Behaviour\<close>

interpretation risk_goc: get_or_create
  "\<lambda>k s. find_risk_settings (fst k) (snd k) (work s)"
  "\<lambda>k. get_or_create_risk_settings (fst k) (snd k)"
proof
  fix k and s :: session and r
  assume "find_risk_settings (fst k) (snd k) (work s) = Some r"
  then show "get_or_create_risk_settings (fst k) (snd k) s = (Inr r, s)"
    by (simp add: get_or_create_risk_settings_def)
next
  fix k :: "string \<times> string" and s r s'
  assume none: "find_risk_settings (fst k) (snd k) (work s) = None"
    and run: "get_or_create_risk_settings (fst k) (snd k) s = (Inr r, s')"
  from none run have r: "rs_user_id r = fst k" "rs_exchange_account_id r = snd k"
    and u: "db_unique ((work s)\<lparr>risks := t_add r (risks (work s))\<rparr>)"
    and s': "work s' = db_flush ((work s)\<lparr>risks := t_add r (risks (work s))\<rparr>)"
    by (auto simp: get_or_create_risk_settings_def bnd_commit Let_def split: if_splits)
  from u r have "snd k \<notin> rs_exchange_account_id ` set (t_all (risks (work s)))"
    by (simp add: db_unique_def)
  then have "\<forall>x \<in> set (t_all (risks (work s))). rs_exchange_account_id x \<noteq> snd k"
    by (metis imageI)
  with s' r show "find_risk_settings (fst k) (snd k) (work s') = Some r"
    by (simp add: find_risk_settings_def t_find_flush_add find_None_iff [THEN iffD2])
qed

text \<open>What an order must satisfy to pass, as a specification over the rationals.\<close>

definition in_range :: "dec option \<Rightarrow> dec option \<Rightarrow> dec \<Rightarrow> bool" where
  "in_range lo hi q \<longleftrightarrow> (\<forall>m. lo = Some m \<longrightarrow> dval m \<le> dval q) \<and> (\<forall>m. hi = Some m \<longrightarrow> dval q \<le> dval m)"

lemma check_order_risk_passed:
  "(\<exists>r. check_order_risk a st order allow = Inr r \<and> rc_decision r = PASSED) \<longleftrightarrow>
     (ea_account_mode a = SIMULATION \<or> allow) \<and> ea_trading_enabled a \<and> rs_trading_enabled st
     \<and> (\<exists>blocked. rs_blocked_symbols st = Some blocked \<and> ro_symbol order \<notin> set blocked)
     \<and> in_range (rs_min_order_quantity st) (rs_max_order_quantity st) (ro_quantity order)
     \<and> in_range None (rs_max_single_order_notional st)
         (dmul (ro_quantity order) (notional_price (ro_price order)))"
proof (cases "rs_blocked_symbols st")
  case None
  then show ?thesis by (simp add: check_order_risk_def)
next
  case (Some blocked)
  have lo: "(case x of None \<Rightarrow> False | Some m \<Rightarrow> dlt q m) \<longleftrightarrow> \<not> in_range x None q" for x q
    by (cases x) (auto simp: in_range_def dcmp_dval)
  have hi: "(case x of None \<Rightarrow> False | Some m \<Rightarrow> dlt m q) \<longleftrightarrow> \<not> in_range None x q" for x q
    by (cases x) (auto simp: in_range_def dcmp_dval)
  have both: "in_range x y q \<longleftrightarrow> in_range x None q \<and> in_range None y q" for x y q
    by (auto simp: in_range_def)
  have iff: "(if rs \<noteq> [] then RISK_REJECTED else PASSED) = PASSED \<longleftrightarrow> rs = []" for rs :: "string list"
    by simp
  show ?thesis
    unfolding both [of "rs_min_order_quantity st" "rs_max_order_quantity st"]
    by (simp add: check_order_risk_def Some Let_def lo hi iff collect_reasons_empty del: collect_reasons.simps)
qed

lemma check_order_risk_reasons:
  "check_order_risk a st order allow = Inr r \<Longrightarrow> rc_decision r = PASSED \<longleftrightarrow> rc_reasons r = []"
  by (cases "rs_blocked_symbols st")
    (auto simp: check_order_risk_def Let_def simp del: collect_reasons.simps split: if_splits)

lemma normal_symbols_props:
  "sorted (normal_symbols xs)" "distinct (normal_symbols xs)"
  "set (normal_symbols xs) = upper ` set xs"
  by (simp_all add: normal_symbols_def)

text \<open>A fresh account is locked: its settings allow no order.\<close>

lemma fresh_settings_locked:
  assumes "find_risk_settings u i (work s) = None" and "get_or_create_risk_settings u i s = (Inr st, s')"
  shows "\<not> rs_trading_enabled st \<and> rs_blocked_symbols st = Some []"
  using assms by (auto simp: get_or_create_risk_settings_def bnd_commit Let_def split: if_splits)

section \<open>Properties\<close>

text \<open>C10: The risk check passes an order exactly when the account may trade in its mode, the settings
  have trading on, the symbol is not blocked, the quantity is within its bounds and the
  notional (price one for an order without a price) does not exceed its limit, all compared as
  rational numbers.\<close>

theorem risk_check_passes_iff:
  "(\<exists>r. check_order_risk a st order allow = Inr r \<and> rc_decision r = PASSED \<and> rc_reasons r = []) \<longleftrightarrow>
     (ea_account_mode a = SIMULATION \<or> allow) \<and> ea_trading_enabled a \<and> rs_trading_enabled st
     \<and> (\<exists>blocked. rs_blocked_symbols st = Some blocked \<and> ro_symbol order \<notin> set blocked)
     \<and> in_range (rs_min_order_quantity st) (rs_max_order_quantity st) (ro_quantity order)
     \<and> in_range None (rs_max_single_order_notional st)
         (dmul (ro_quantity order) (notional_price (ro_price order)))"
  using check_order_risk_passed [of a st order allow] check_order_risk_reasons by blast

lemma update_risk_settings_apply:
  assumes "ru_trading_enabled data \<noteq> Some None"
  shows "update_risk_settings st data alerts s =
    (let d = (work s)\<lparr>risks := t_put rs_exchange_account_id (set_risk_fields data st) (risks (work s))\<rparr>
     in if db_unique d
        then (Inr (set_risk_fields data st), s\<lparr>work := db_flush d, saved := db_flush d,
          outbox := outbox s @ (if alerts \<and> risk_trading_was_disabled (rs_trading_enabled st) data
            then [EmergencyStopAlert ''account''] else [])\<rparr>)
        else (Inl IntegrityError, s\<lparr>work := saved s\<rparr>))"
  using assms
  by (simp add: update_risk_settings_def Let_def bnd_commit notify_emergency_stop_enabled_def)

text \<open>A patch of the risk settings of a simulation account that switches trading off takes effect
  durably and raises the account-scope emergency alert when trading was on; a patch that sends
  \<open>null\<close> for \<open>trading_enabled\<close> fails with an integrity error and changes nothing durable; an
  account in any other mode is refused with 400.\<close>

theorem risk_patch_outcomes:
  assumes "settled (work s)" and "saved s = work s"
    and "find_owned_account (u_id user) account_id (work s) = Some a"
    and "find_risk_settings (u_id user) (ea_id a) (work s) = Some st"
  shows "(ea_account_mode a \<noteq> SIMULATION \<longrightarrow>
      (\<exists>m. patch_risk_settings account_id payload user s = (Inl (HTTPException 400 m), s)))
    \<and> (ea_account_mode a = SIMULATION \<longrightarrow> ru_trading_enabled payload = Some None \<longrightarrow>
      patch_risk_settings account_id payload user s = (Inl IntegrityError, s))
    \<and> (ea_account_mode a = SIMULATION \<longrightarrow> ru_trading_enabled payload = Some (Some False) \<longrightarrow>
      (\<exists>st' s'. patch_risk_settings account_id payload user s = (Inr st', s') \<and> saved s' = work s'
        \<and> \<not> rs_trading_enabled st' \<and> st' \<in> set (rows (risks (work s')))
        \<and> (rs_trading_enabled st \<longrightarrow> EmergencyStopAlert ''account'' \<in> set (outbox s'))))"
proof -
  have goc: "get_or_create_risk_settings (u_id user) (ea_id a) s = (Inr st, s)"
    using risk_goc.goc_found [of "(u_id user, ea_id a)" s st] assms(4) by simp
  note step = bnd_Inr [where m = "get_or_create_risk_settings (u_id user) (ea_id a)", OF goc]
  have bad: "ea_account_mode a \<noteq> SIMULATION \<Longrightarrow>
      \<exists>m. patch_risk_settings account_id payload user s = (Inl (HTTPException 400 m), s)"
    using assms(3) by (simp add: patch_risk_settings_def require_account_apply)
  have null: "ea_account_mode a = SIMULATION \<Longrightarrow> ru_trading_enabled payload = Some None \<Longrightarrow>
      patch_risk_settings account_id payload user s = (Inl IntegrityError, s)"
    using assms(2,3) by (simp add: patch_risk_settings_def require_account_apply step update_risk_settings_def
        rollback_def Let_def)
  have off: "\<exists>st' s'. patch_risk_settings account_id payload user s = (Inr st', s') \<and> saved s' = work s'
        \<and> \<not> rs_trading_enabled st' \<and> st' \<in> set (rows (risks (work s')))
        \<and> (rs_trading_enabled st \<longrightarrow> EmergencyStopAlert ''account'' \<in> set (outbox s'))"
    if m: "ea_account_mode a = SIMULATION" and off: "ru_trading_enabled payload = Some (Some False)"
  proof -
  let ?st = "set_risk_fields payload st"
  let ?d = "(work s)\<lparr>risks := t_put rs_exchange_account_id ?st (risks (work s))\<rparr>"
  have key: "rs_exchange_account_id ?st = rs_exchange_account_id st" "\<not> rs_trading_enabled ?st"
    using off by (simp_all add: set_risk_fields_def set_given_def split: option.split)
  have un: "db_unique (work s)" using settledD(2) [OF assms(1)] .
  then have "distinct (map rs_exchange_account_id (t_all (risks (work s))))" by (simp add: db_unique_def)
  then have ud: "db_unique ?d"
    using un map_t_all_put [of "risks (work s)" rs_exchange_account_id ?st rs_exchange_account_id]
    by (simp add: db_unique_update)
  have "st \<in> set (rows (risks (work s)))"
    using assms(4) by (auto simp: find_risk_settings_def dest: t_find_SomeD)
  then have "?st \<in> set (rows (risks (db_flush ?d)))"
    using key(1) by (simp add: t_all_put) (rule image_eqI [of _ _ st], simp_all add: t_all_def)
  moreover have "patch_risk_settings account_id payload user s = (Inr ?st,
      s\<lparr>work := db_flush ?d, saved := db_flush ?d,
        outbox := outbox s @ (if risk_trading_was_disabled (rs_trading_enabled st) payload
          then [EmergencyStopAlert ''account''] else [])\<rparr>)"
    using assms(3) m off ud
    by (simp add: patch_risk_settings_def require_account_apply step update_risk_settings_apply Let_def)
  ultimately show ?thesis
    using key(2) off by (simp add: risk_trading_was_disabled_def)
  qed
  show ?thesis using bad null off by blast
qed

definition off_patch :: risk_setting_update where
  "off_patch = \<lparr>ru_trading_enabled = Some (Some False), ru_max_single_order_notional = None,
     ru_max_position_notional = None, ru_max_leverage = None, ru_min_order_quantity = None,
     ru_max_order_quantity = None, ru_blocked_symbols = None\<rparr>"

theorem risk_patch_outcomes_witness:
  "\<exists>st' s'. patch_risk_settings ''acct-1'' off_patch sample_user sample_session = (Inr st', s')
     \<and> \<not> rs_trading_enabled st' \<and> EmergencyStopAlert ''account'' \<in> set (outbox s')"
proof -
  have "settled (work sample_session)" "saved sample_session = work sample_session"
    "find_owned_account (u_id sample_user) ''acct-1'' (work sample_session) = Some sample_account"
    "find_risk_settings (u_id sample_user) (ea_id sample_account) (work sample_session) = Some sample_risk"
    using sample_settled
    by (simp_all add: find_owned_account_def find_risk_settings_def t_find_def sample_db_def
        sample_user_def sample_account_def sample_risk_def)
  from risk_patch_outcomes [OF this, of off_patch] show ?thesis
    by (auto simp: sample_account_def off_patch_def sample_risk_def)
qed

end
