(* ===== verification/Position_Engine.thy ===== *)
theory Position_Engine
  imports Exchange_Accounts
begin

text \<open>
  Positions (\<open>services/position_engine.py\<close>) and the preview route (\<open>api/v1/positions.py\<close>). A
  quantity is a \<open>Decimal\<close> in a \<open>Numeric(28, 10)\<close> column; the arithmetic is that of the default
  decimal context (28 digits), and a stored value is one the column can hold, \<open>numeric_28_10\<close>.
\<close>

section \<open>Operations\<close>

record position_delta =
  pd_symbol :: string
  pd_current_quantity :: dec
  pd_target_quantity :: dec
  pd_delta_quantity :: dec
  pd_side :: "order_side option"

definition position_key :: "position \<Rightarrow> string \<times> string" where
  "position_key p = (po_exchange_account_id p, po_symbol p)"

definition find_position :: "string \<Rightarrow> string \<Rightarrow> string \<Rightarrow> db \<Rightarrow> position option" where
  "find_position user_id account_id symbol d =
     t_find (\<lambda>p. po_user_id p = user_id \<and> po_exchange_account_id p = account_id \<and> po_symbol p = symbol)
       (positions d)"

definition get_or_create_position :: "string \<Rightarrow> string \<Rightarrow> string \<Rightarrow> position op" where
  "get_or_create_position user_id account_id symbol =
     bnd (query (find_position user_id account_id symbol)) (\<lambda>found. case found of
       Some p \<Rightarrow> ret p
     | None \<Rightarrow> bnd new_uuid (\<lambda>i.
         let p = \<lparr>po_id = i, po_user_id = user_id, po_exchange_account_id = account_id,
                  po_symbol = symbol, po_quantity = dzero\<rparr>
         in bnd (upd (\<lambda>d. d\<lparr>positions := t_add p (positions d)\<rparr>)) (\<lambda>_.
            bnd commit (\<lambda>_. ret p))))"

definition calculate_delta :: "string \<Rightarrow> dec \<Rightarrow> dec \<Rightarrow> position_delta" where
  "calculate_delta symbol current_quantity target_quantity =
     (let delta = dsub target_quantity current_quantity;
          side = (if dlt dzero delta then Some BUY else if dlt delta dzero then Some SELL else None)
      in \<lparr>pd_symbol = symbol, pd_current_quantity = current_quantity,
          pd_target_quantity = target_quantity, pd_delta_quantity = dabs delta, pd_side = side\<rparr>)"

definition apply_side :: "order_side \<Rightarrow> dec \<Rightarrow> dec \<Rightarrow> dec" where
  "apply_side side current quantity =
     (case side of BUY \<Rightarrow> dadd current quantity | SELL \<Rightarrow> dsub current quantity)"

definition apply_fill ::
    "string \<Rightarrow> string \<Rightarrow> string \<Rightarrow> order_side \<Rightarrow> dec \<Rightarrow> position op" where
  "apply_fill user_id account_id symbol side quantity =
     bnd (get_or_create_position user_id account_id symbol) (\<lambda>p.
       let p' = p\<lparr>po_quantity := apply_side side (po_quantity p) quantity\<rparr>
       in bnd (upd (\<lambda>d. d\<lparr>positions := t_put position_key p' (positions d)\<rparr>)) (\<lambda>_.
          bnd commit (\<lambda>_. ret p')))"

section \<open>Route\<close>

definition preview_position_target :: "string \<Rightarrow> string \<Rightarrow> dec \<Rightarrow> user \<Rightarrow> position_delta op" where
  "preview_position_target account_id symbol target_quantity current_user =
     bnd (require_account current_user account_id) (\<lambda>account.
     bnd (get_or_create_position (u_id current_user) (ea_id account) (upper symbol)) (\<lambda>p.
       ret (calculate_delta (po_symbol p) (po_quantity p) target_quantity)))"

section \<open>Behaviour\<close>

interpretation position_goc: get_or_create
  "\<lambda>(u, a, y) s. find_position u a y (work s)" "\<lambda>(u, a, y). get_or_create_position u a y"
proof
  fix k :: "string \<times> string \<times> string" and s :: session and r
  assume "(case k of (u, a, y) \<Rightarrow> \<lambda>s. find_position u a y (work s)) s = Some r"
  then show "(case k of (u, a, y) \<Rightarrow> get_or_create_position u a y) s = (Inr r, s)"
    by (auto simp: get_or_create_position_def split: prod.splits)
next
  fix k :: "string \<times> string \<times> string" and s r s'
  obtain u a y where k: "k = (u, a, y)" by (cases k)
  assume "(case k of (u, a, y) \<Rightarrow> \<lambda>s. find_position u a y (work s)) s = None"
    and "(case k of (u, a, y) \<Rightarrow> get_or_create_position u a y) s = (Inr r, s')"
  then have r: "po_user_id r = u" "po_exchange_account_id r = a" "po_symbol r = y"
    and un: "db_unique ((work s)\<lparr>positions := t_add r (positions (work s))\<rparr>)"
    and s': "work s' = db_flush ((work s)\<lparr>positions := t_add r (positions (work s))\<rparr>)"
    by (auto simp: k get_or_create_position_def bnd_commit Let_def split: if_splits)
  from un r have "(a, y) \<notin> (\<lambda>r. (po_exchange_account_id r, po_symbol r)) ` set (t_all (positions (work s)))"
    by (simp add: db_unique_def)
  then have "\<forall>x \<in> set (t_all (positions (work s))). \<not> (po_exchange_account_id x = a \<and> po_symbol x = y)"
    by auto
  with s' r show "(case k of (u, a, y) \<Rightarrow> \<lambda>s. find_position u a y (work s)) s' = Some r"
    by (auto simp: k find_position_def t_find_flush_add find_None_iff [THEN iffD2])
qed

text \<open>The delta has the size of the gap and the side that closes it.\<close>

lemma dabs_numeric:
  assumes "numeric_28_10 d"
  shows "dval (dabs d) = \<bar>dval d\<bar>" and "numeric_28_10 (dabs d)"
proof -
  show v: "dval (dabs d) = \<bar>dval d\<bar>"
    by (rule dval_dabs) (rule numeric_28_10_coef [OF assms])
  have "dabs d = Dec False (dcoef d) (dexp d)"
    using numeric_28_10_coef [OF assms] by (simp add: dabs_def fix28_id)
  then show "numeric_28_10 (dabs d)"
    using assms v by (simp add: numeric_28_10_iff)
qed

lemma calculate_delta_closes:
  assumes "numeric_28_10 c" and "numeric_28_10 t" and "\<bar>dval t - dval c\<bar> < 10 ^ 18"
  shows "dval (pd_delta_quantity (calculate_delta y c t)) = \<bar>dval t - dval c\<bar>"
    and "numeric_28_10 (pd_delta_quantity (calculate_delta y c t))"
    and "pd_side (calculate_delta y c t) =
      (if dval c < dval t then Some BUY else if dval t < dval c then Some SELL else None)"
    and "pd_side (calculate_delta y c t) = Some sd \<Longrightarrow>
      dval (apply_side sd c (pd_delta_quantity (calculate_delta y c t))) = dval t"
proof -
  have e: "dexp t \<ge> -10" "dexp c \<ge> -10" using assms(1,2) by (simp_all add: numeric_28_10_def)
  note sub = dsub_numeric [OF e assms(3)]
  note abs = dabs_numeric [OF sub(1)]
  show q: "dval (pd_delta_quantity (calculate_delta y c t)) = \<bar>dval t - dval c\<bar>"
    and n: "numeric_28_10 (pd_delta_quantity (calculate_delta y c t))"
    using sub abs by (simp_all add: calculate_delta_def Let_def)
  show s: "pd_side (calculate_delta y c t) =
      (if dval c < dval t then Some BUY else if dval t < dval c then Some SELL else None)"
    using sub by (simp add: calculate_delta_def Let_def dcmp_dval)
  let ?q = "pd_delta_quantity (calculate_delta y c t)"
  have eq: "dexp ?q \<ge> -10" using n by (simp add: numeric_28_10_def)
  have t: "\<bar>dval t\<bar> < 10 ^ 18" using assms(2) by (simp add: numeric_28_10_iff)
  show "pd_side (calculate_delta y c t) = Some sd \<Longrightarrow> dval (apply_side sd c ?q) = dval t"
    using dadd_numeric(2) [OF e(2) eq] dsub_numeric(2) [OF e(2) eq] t
    unfolding s q by (auto simp: apply_side_def q split: if_splits)
qed

text \<open>A fill changes exactly the one position, by exactly the quantity.\<close>

definition position_quantity :: "string \<Rightarrow> string \<Rightarrow> string \<Rightarrow> db \<Rightarrow> dec" where
  "position_quantity user_id account_id symbol d =
     (case find_position user_id account_id symbol d of None \<Rightarrow> dzero | Some p \<Rightarrow> po_quantity p)"

lemma find_position_stored:
  assumes "db_unique d" and "find_position u a y d = Some p"
    and "position_key p' = position_key p" and "po_user_id p' = po_user_id p"
  shows "db_unique (d\<lparr>positions := t_put position_key p' (positions d)\<rparr>)"
    and "find_position u a y (db_flush (d\<lparr>positions := t_put position_key p' (positions d)\<rparr>)) = Some p'"
    and "(a', y') \<noteq> (a, y) \<Longrightarrow> pend (positions d) = [] \<Longrightarrow>
      find_position u' a' y' (db_flush (d\<lparr>positions := t_put position_key p' (positions d)\<rparr>))
        = find_position u' a' y' d"
proof -
  have keys: "map (\<lambda>r. (po_exchange_account_id r, po_symbol r)) (t_all (t_put position_key p' (positions d)))
      = map (\<lambda>r. (po_exchange_account_id r, po_symbol r)) (t_all (positions d))"
    by (rule map_t_all_put) (simp add: position_key_def)
  have dist: "distinct (map (\<lambda>r. (po_exchange_account_id r, po_symbol r)) (t_all (positions d)))"
    using assms(1) by (simp add: db_unique_def)
  with keys show "db_unique (d\<lparr>positions := t_put position_key p' (positions d)\<rparr>)"
    using assms(1) by (simp add: db_unique_update)
  have p: "p \<in> set (rows (positions d))" "po_user_id p = u" "po_exchange_account_id p = a" "po_symbol p = y"
    using assms(2) by (auto simp: find_position_def dest: t_find_SomeD)
  have same: "x = p" if "x \<in> set (rows (positions d))" "position_key x = position_key p" for x
    using dist that p(1) by (auto simp: t_all_def distinct_map position_key_def dest: inj_onD)
  have "t_find (\<lambda>q. po_user_id q = u \<and> po_exchange_account_id q = a \<and> po_symbol q = y)
      (t_flush (t_put position_key p' (positions d))) = Some p'"
  proof (rule t_find_flush_present, subst t_find_put)
    fix x
    assume "x \<in> set (rows (positions d))" "position_key x = position_key p'"
    then have "x = p" using same assms(3) by simp
    then show "(po_user_id x = u \<and> po_exchange_account_id x = a \<and> po_symbol x = y) =
      (po_user_id p' = u \<and> po_exchange_account_id p' = a \<and> po_symbol p' = y)"
      using assms(3,4) by (simp add: position_key_def)
  qed (use assms(2,3) in \<open>simp add: find_position_def\<close>)
  then show "find_position u a y (db_flush (d\<lparr>positions := t_put position_key p' (positions d)\<rparr>)) = Some p'"
    by (simp add: find_position_def)
  assume ne: "(a', y') \<noteq> (a, y)" and pend: "pend (positions d) = []"
  have "t_find (\<lambda>q. po_user_id q = u' \<and> po_exchange_account_id q = a' \<and> po_symbol q = y')
      (t_put position_key p' (positions d)) = map_option (\<lambda>x. if position_key x = position_key p' then p' else x)
      (t_find (\<lambda>q. po_user_id q = u' \<and> po_exchange_account_id q = a' \<and> po_symbol q = y') (positions d))"
    by (rule t_find_put) (use ne p assms(3) in \<open>auto simp: position_key_def\<close>)
  moreover have "t_flush (t_put position_key p' (positions d)) = t_put position_key p' (positions d)"
    using pend by (simp add: t_flush_def t_put_def t_map_def)
  moreover have "position_key x \<noteq> position_key p'"
    if "t_find (\<lambda>q. po_user_id q = u' \<and> po_exchange_account_id q = a' \<and> po_symbol q = y') (positions d) = Some x" for x
    using t_find_SomeD [OF that] ne p assms(3) by (auto simp: position_key_def)
  ultimately show "find_position u' a' y' (db_flush (d\<lparr>positions := t_put position_key p' (positions d)\<rparr>))
      = find_position u' a' y' d"
    by (cases "find_position u' a' y' d") (simp_all add: find_position_def)
qed

section \<open>Properties\<close>

text \<open>The delta between the current and a target quantity is exact and closes the gap: an order
  with the side and the quantity of the delta, applied to the current quantity, gives the
  target, and there is no side exactly when there is no gap (values the column can hold, with a
  difference it can hold).\<close>

theorem delta_closes_gap:
  assumes "numeric_28_10 c" and "numeric_28_10 t" and "\<bar>dval t - dval c\<bar> < 10 ^ 18"
  shows "dval (pd_delta_quantity (calculate_delta y c t)) = \<bar>dval t - dval c\<bar>
     \<and> (case pd_side (calculate_delta y c t) of
          None \<Rightarrow> dval c = dval t
        | Some sd \<Rightarrow> dval (apply_side sd c (pd_delta_quantity (calculate_delta y c t))) = dval t)"
  using calculate_delta_closes [OF assms, of y]
  by (auto split: option.split if_splits)

theorem delta_closes_gap_witness:
  "dval (pd_delta_quantity (calculate_delta ''BTCUSDT'' (Dec False 75 (-1)) (Dec False 5 0))) =
     \<bar>dval (Dec False 5 0) - dval (Dec False 75 (-1))\<bar>"
proof -
  have n: "numeric_28_10 (Dec False 75 (-1))" "numeric_28_10 (Dec False 5 0)"
    by (simp_all add: numeric_28_10_def coef_at_def signed_coef_def)
  have "\<bar>dval (Dec False 5 0) - dval (Dec False 75 (-1))\<bar> < 10 ^ 18"
    by (simp add: dval_Dec_False power_int_minus)
  from delta_closes_gap [OF n this, of "''BTCUSDT''"] show ?thesis by simp
qed

text \<open>Asking for a position is idempotent: what the first call returns, created or found, the
  second call returns again without changing anything.\<close>

theorem position_request_idempotent:
  assumes "get_or_create_position u a y s = (Inr p, s')"
  shows "get_or_create_position u a y s' = (Inr p, s') \<and> find_position u a y (work s') = Some p"
  using position_goc.goc_again [of "(u, a, y)"] position_goc.goc_lookup [of "(u, a, y)"] assms by auto

theorem position_request_idempotent_witness:
  "\<exists>p s'. get_or_create_position ''alice'' ''acct-1'' ''BTCUSDT'' sample_session = (Inr p, s')
     \<and> get_or_create_position ''alice'' ''acct-1'' ''BTCUSDT'' s' = (Inr p, s')"
proof -
  have "\<exists>p s'. get_or_create_position ''alice'' ''acct-1'' ''BTCUSDT'' sample_session = (Inr p, s')"
    using settledD(2) [OF sample_settled]
    by (simp add: get_or_create_position_def find_position_def t_find_def bnd_commit Let_def
        db_unique_update)
  then obtain p s' where r: "get_or_create_position ''alice'' ''acct-1'' ''BTCUSDT'' sample_session = (Inr p, s')"
    by blast
  from position_request_idempotent [OF r] r show ?thesis by blast
qed

end
