(* ===== verification/Mock_Exchange.thy ===== *)
theory Mock_Exchange
  imports Db "HOL-Library.AList"
begin

text \<open>
  The exchange interface (\<open>exchanges/base.py\<close>) and the in-memory exchange behind it
  (\<open>exchanges/mock.py\<close>). The exchange object is a record that each call takes and returns; its
  dictionary of orders keeps insertion order.
\<close>

section \<open>The interface\<close>

text \<open>
  What a caller of \<open>ExchangeAdapter\<close> relies on: an order that was placed can be asked for under
  the id the exchange returned, placing an order does not disturb the others, and a cancelled
  order is reported as cancelled.
\<close>

locale exchange_adapter =
  fixes place :: "string \<Rightarrow> string \<Rightarrow> order_side \<Rightarrow> order_type \<Rightarrow> dec \<Rightarrow> dec option \<Rightarrow> 'x
      \<Rightarrow> pydict \<times> 'x"
    and status_of :: "string \<Rightarrow> 'x \<Rightarrow> pydict result"
    and cancel :: "string \<Rightarrow> 'x \<Rightarrow> pydict result \<times> 'x"
    and order_id :: "string \<Rightarrow> string"
  assumes place_status: "place cid symbol side ot q p x = (r, x') \<Longrightarrow> status_of (order_id cid) x' = Inr r"
    and place_other: "place cid symbol side ot q p x = (r, x') \<Longrightarrow> oid \<noteq> order_id cid \<Longrightarrow>
      status_of oid x' = status_of oid x"
    and cancel_status: "status_of oid x = Inr r \<Longrightarrow>
      \<exists>r' x'. cancel oid x = (Inr r', x') \<and> status_of oid x' = Inr r'
        \<and> dict_get r' ''status'' = PStr ''CANCELLED''"
    and order_id_inj: "order_id a = order_id b \<Longrightarrow> a = b"
begin

text \<open>Two orders with different client ids are both on record after they were placed.\<close>

lemma two_orders:
  assumes "place c1 y1 s1 t1 q1 p1 x = (r1, x1)" and "place c2 y2 s2 t2 q2 p2 x1 = (r2, x2)"
    and "c1 \<noteq> c2"
  shows "status_of (order_id c1) x2 = Inr r1" and "status_of (order_id c2) x2 = Inr r2"
proof -
  have "order_id c1 \<noteq> order_id c2" using assms(3) order_id_inj by blast
  then show "status_of (order_id c1) x2 = Inr r1"
    using place_other [OF assms(2)] place_status [OF assms(1)] by simp
  show "status_of (order_id c2) x2 = Inr r2" by (rule place_status [OF assms(2)])
qed

lemma place_then_cancel:
  assumes "place cid y s t q p x = (r, x')"
  shows "\<exists>r' x''. cancel (order_id cid) x' = (Inr r', x'') \<and> status_of (order_id cid) x'' = Inr r'
    \<and> dict_get r' ''status'' = PStr ''CANCELLED''"
  by (rule cancel_status) (rule place_status [OF assms])

end

section \<open>The mock exchange\<close>

record mock_exchange =
  mx_orders :: "(string \<times> pydict) list"

definition MockExchange :: mock_exchange where
  "MockExchange = \<lparr>mx_orders = []\<rparr>"

definition get_server_time :: "mock_exchange \<Rightarrow> pydict" where
  "get_server_time x = [(''server_time'', PInt 0), (''source'', PStr ''mock'')]"

definition get_exchange_info :: "mock_exchange \<Rightarrow> pydict" where
  "get_exchange_info x = [(''exchange'', PStr ''mock''), (''symbols'', PList [PStr ''BTCUSDT''])]"

definition get_balances :: "mock_exchange \<Rightarrow> pydict list" where
  "get_balances x = [[(''asset'', PStr ''USDT''), (''free'', PStr ''100000''),
     (''locked'', PStr ''0''), (''total'', PStr ''100000'')]]"

definition get_positions :: "mock_exchange \<Rightarrow> pydict list" where
  "get_positions x = []"

definition get_open_orders :: "mock_exchange \<Rightarrow> pydict list" where
  "get_open_orders x = filter (\<lambda>ord. dict_get ord ''status'' \<noteq> PStr ''FILLED'') (map snd (mx_orders x))"

definition mock_order_id :: "string \<Rightarrow> string" where
  "mock_order_id client_order_id = ''mock-'' @ client_order_id"

definition mock_place_order ::
    "string \<Rightarrow> string \<Rightarrow> order_side \<Rightarrow> order_type \<Rightarrow> dec \<Rightarrow> dec option \<Rightarrow> mock_exchange
     \<Rightarrow> pydict \<times> mock_exchange" where
  "mock_place_order client_order_id symbol side order_type quantity price x =
     (let exchange_order_id = mock_order_id client_order_id;
          response = [(''exchange_order_id'', PStr exchange_order_id),
            (''client_order_id'', PStr client_order_id), (''symbol'', PStr symbol),
            (''side'', PStr (side_value side)), (''order_type'', PStr (order_type_value order_type)),
            (''quantity'', PStr (dec_str quantity)),
            (''price'', case price of None \<Rightarrow> PNone | Some p \<Rightarrow> PStr (dec_str p)),
            (''status'', PStr (status_value FILLED))]
      in (response, x\<lparr>mx_orders := AList.update exchange_order_id response (mx_orders x)\<rparr>))"

definition mock_get_order_status :: "string \<Rightarrow> mock_exchange \<Rightarrow> pydict result" where
  "mock_get_order_status exchange_order_id x =
     (case map_of (mx_orders x) exchange_order_id of
        None \<Rightarrow> Inl (KeyError exchange_order_id) | Some ord \<Rightarrow> Inr ord)"

definition mock_cancel_order :: "string \<Rightarrow> mock_exchange \<Rightarrow> pydict result \<times> mock_exchange" where
  "mock_cancel_order exchange_order_id x =
     (case map_of (mx_orders x) exchange_order_id of
        None \<Rightarrow> (Inl (KeyError exchange_order_id), x)
      | Some ord \<Rightarrow>
          let ord' = AList.update ''status'' (PStr (status_value CANCELLED)) ord
          in (Inr ord', x\<lparr>mx_orders := AList.update exchange_order_id ord' (mx_orders x)\<rparr>))"

definition get_symbol_rules :: "string \<Rightarrow> pydict" where
  "get_symbol_rules symbol = [(''symbol'', PStr symbol), (''min_quantity'', PStr ''0.0001''),
     (''max_quantity'', PStr ''100000'')]"

interpretation mock: exchange_adapter mock_place_order mock_get_order_status mock_cancel_order mock_order_id
proof
  fix cid symbol side ot q p and x :: mock_exchange and r x'
  assume "mock_place_order cid symbol side ot q p x = (r, x')"
  then show "mock_get_order_status (mock_order_id cid) x' = Inr r"
    by (auto simp: mock_place_order_def mock_get_order_status_def Let_def update_conv)
next
  fix cid symbol side ot q p and x :: mock_exchange and r x' oid
  assume "mock_place_order cid symbol side ot q p x = (r, x')" and "oid \<noteq> mock_order_id cid"
  then show "mock_get_order_status oid x' = mock_get_order_status oid x"
    by (auto simp: mock_place_order_def mock_get_order_status_def Let_def update_conv)
next
  fix oid and x :: mock_exchange and r
  assume "mock_get_order_status oid x = Inr r"
  then show "\<exists>r' x'. mock_cancel_order oid x = (Inr r', x') \<and> mock_get_order_status oid x' = Inr r'
      \<and> dict_get r' ''status'' = PStr ''CANCELLED''"
    by (auto simp: mock_cancel_order_def mock_get_order_status_def Let_def update_conv dict_get_def
        split: option.splits)
next
  show "\<And>a b. mock_order_id a = mock_order_id b \<Longrightarrow> a = b" by (simp add: mock_order_id_def)
qed

end
