(* ===== verification/Order_Engine.thy ===== *)
theory Order_Engine
  imports Order_State_Machine Emergency_Stop Risk_Engine Position_Engine Mock_Exchange
begin

text \<open>
  Signals (\<open>services/signal_engine.py\<close>), the simulated order engine
  (\<open>services/order_engine.py\<close>) and their routes (\<open>api/v1/signals.py\<close>, the first route of
  \<open>api/v1/orders.py\<close>).
\<close>

section \<open>Signals\<close>

record manual_signal =
  ms_symbol :: string
  ms_side :: order_side
  ms_order_type :: order_type
  ms_price :: "dec option"
  ms_quantity :: "dec option"
  ms_target_position_quantity :: "dec option"

text \<open>The field constraints and the validator of \<open>ManualSignalCreate\<close>.\<close>

definition valid_manual_signal :: "manual_signal \<Rightarrow> bool" where
  "valid_manual_signal p \<longleftrightarrow>
     1 \<le> length (ms_symbol p) \<and> length (ms_symbol p) \<le> 40
     \<and> (case ms_quantity p of None \<Rightarrow> True | Some q \<Rightarrow> dlt dzero q)
     \<and> (case ms_target_position_quantity p of None \<Rightarrow> True | Some q \<Rightarrow> dle dzero q)
     \<and> \<not> (ms_quantity p = None \<and> ms_target_position_quantity p = None)"

definition create_manual_signal :: "string \<Rightarrow> manual_signal \<Rightarrow> trading_signal op" where
  "create_manual_signal user_id p = bnd new_uuid (\<lambda>i.
     let signal = \<lparr>sg_id = i, sg_user_id = user_id, sg_source = MANUAL, sg_symbol = upper (ms_symbol p),
           sg_side = ms_side p, sg_order_type = ms_order_type p, sg_price = ms_price p,
           sg_quantity = ms_quantity p, sg_target_position_quantity = ms_target_position_quantity p,
           sg_raw_payload = Some [(''source'', PStr (signal_source_value MANUAL))]\<rparr>
     in bnd (upd (\<lambda>d. d\<lparr>signals := t_add signal (signals d)\<rparr>)) (\<lambda>_.
        bnd commit (\<lambda>_. ret signal)))"

text \<open>The route; a body the schema refuses is answered with 422.\<close>

definition create_manual_trading_signal :: "manual_signal \<Rightarrow> user \<Rightarrow> trading_signal op" where
  "create_manual_trading_signal payload current_user =
     (if \<not> valid_manual_signal payload then raise (HTTPException 422 [])
      else try_except (create_manual_signal (u_id current_user) payload)
        (\<lambda>e. case e of ValueError m \<Rightarrow> Some (raise (HTTPException 400 [m])) | _ \<Rightarrow> None))"

section \<open>The engine\<close>

definition find_owned_signal :: "string \<Rightarrow> string \<Rightarrow> db \<Rightarrow> trading_signal option" where
  "find_owned_signal user_id signal_id d =
     t_find (\<lambda>g. sg_id g = signal_id \<and> sg_user_id g = user_id) (signals d)"

definition get_owned_signal :: "string \<Rightarrow> string \<Rightarrow> trading_signal op" where
  "get_owned_signal user_id signal_id =
     bnd (query (find_owned_signal user_id signal_id)) (\<lambda>signal.
       case signal of None \<Rightarrow> raise (ValueError ''signal not found'') | Some g \<Rightarrow> ret g)"

definition get_owned_account_or_raise :: "string \<Rightarrow> string \<Rightarrow> exchange_account op" where
  "get_owned_account_or_raise user_id account_id =
     bnd (query (find_owned_account user_id account_id)) (\<lambda>account.
       case account of None \<Rightarrow> raise (ValueError ''exchange account not found'') | Some a \<Rightarrow> ret a)"

definition resolve_side_and_quantity ::
    "trading_signal \<Rightarrow> exchange_account \<Rightarrow> (order_side \<times> dec) op" where
  "resolve_side_and_quantity signal account =
     (case sg_target_position_quantity signal of
        None \<Rightarrow> (case sg_quantity signal of
            None \<Rightarrow> raise (ValueError ''signal quantity is required'')
          | Some q \<Rightarrow> ret (sg_side signal, q))
      | Some target \<Rightarrow>
          bnd (get_or_create_position (sg_user_id signal) (ea_id account) (sg_symbol signal)) (\<lambda>p.
            let delta = calculate_delta (sg_symbol signal) (po_quantity p) target
            in ret (case pd_side delta of None \<Rightarrow> sg_side signal | Some sd \<Rightarrow> sd,
                    pd_delta_quantity delta)))"

definition notify_order_failure :: "bool \<Rightarrow> order_status \<Rightarrow> string \<Rightarrow> unit op" where
  "notify_order_failure alert_runtime st failure_type =
     (if alert_runtime then send_alert (OrderFailureAlert (status_value st) failure_type) else ret ())"

definition find_by_signal :: "string \<Rightarrow> string \<Rightarrow> db \<Rightarrow> order_execution option" where
  "find_by_signal signal_id account_id d =
     t_find (\<lambda>e. oe_signal_id e = signal_id \<and> oe_exchange_account_id e = account_id) (executions d)"

definition signal_client_order_id :: "string \<Rightarrow> string \<Rightarrow> string" where
  "signal_client_order_id signal_id account_id =
     ''sig-'' @ take 8 signal_id @ ''-acct-'' @ take 8 account_id"

definition new_execution ::
    "string \<Rightarrow> trading_signal \<Rightarrow> exchange_account \<Rightarrow> order_side \<Rightarrow> dec \<Rightarrow> order_execution" where
  "new_execution user_id signal account side quantity =
     \<lparr>oe_id = [], oe_user_id = user_id, oe_signal_id = sg_id signal, oe_execution_id = [],
      oe_exchange_account_id = ea_id account,
      oe_exchange_name = exchange_value (ea_exchange_name account),
      oe_client_order_id = signal_client_order_id (sg_id signal) (ea_id account),
      oe_exchange_order_id = None, oe_symbol = sg_symbol signal, oe_side = side,
      oe_order_type = sg_order_type signal, oe_price = sg_price signal, oe_quantity = quantity,
      oe_status = CREATED, oe_risk_result = None, oe_exchange_response = None,
      oe_error_message = None\<rparr>"

text \<open>The branch of a refused order.\<close>

definition fail_order ::
    "string \<Rightarrow> risk_check_result \<Rightarrow> bool \<Rightarrow> order_execution op" where
  "fail_order eid risk_result alert_runtime =
     (let rejected = (rc_decision risk_result \<noteq> PASSED);
          text = join ''; '' (rc_reasons risk_result)
      in bnd (modify_execution eid (\<lambda>e. e\<lparr>oe_error_message :=
                Some (if text = [] then ''zero quantity order'' else text)\<rparr>)) (\<lambda>_.
         bnd (transition_order_execution eid FAILED
                (if rejected then ''risk_rejected'' else ''zero_quantity'') None) (\<lambda>_.
         bnd commit (\<lambda>_.
         bnd (get_execution eid) (\<lambda>e.
         bnd (notify_order_failure alert_runtime (oe_status e)
                (if rejected then ''risk_rejected'' else ''unknown'')) (\<lambda>_. ret e))))))"

text \<open>The branch of an order that passed: submission to the exchange, fill and position.\<close>

definition fill_order ::
    "string \<Rightarrow> string \<Rightarrow> trading_signal \<Rightarrow> exchange_account \<Rightarrow> order_side \<Rightarrow> dec \<Rightarrow> mock_exchange
     \<Rightarrow> (order_execution \<times> mock_exchange) op" where
  "fill_order eid user_id signal account side quantity exchange =
     bnd (transition_order_execution eid RISK_PASSED ''risk_passed'' None) (\<lambda>_.
     bnd commit (\<lambda>_.
     bnd (transition_order_execution eid SUBMITTED ''mock_order_submitted'' None) (\<lambda>_.
     bnd commit (\<lambda>_.
       let (response, exchange') = mock_place_order
             (signal_client_order_id (sg_id signal) (ea_id account)) (sg_symbol signal) side
             (sg_order_type signal) quantity (sg_price signal) exchange
       in bnd (modify_execution eid (\<lambda>e. e\<lparr>
                 oe_exchange_order_id := Some (py_str (dict_get response ''exchange_order_id'')),
                 oe_exchange_response := Some response\<rparr>)) (\<lambda>_.
          bnd (transition_order_execution eid FILLED ''mock_order_filled'' None) (\<lambda>_.
          bnd (apply_fill user_id (ea_id account) (sg_symbol signal) side quantity) (\<lambda>_.
          bnd commit (\<lambda>_.
          bnd (get_execution eid) (\<lambda>e. ret (e, exchange'))))))))))"

definition execute_signal_for_account ::
    "string \<Rightarrow> string \<Rightarrow> string \<Rightarrow> mock_exchange \<Rightarrow> bool \<Rightarrow> (order_execution \<times> mock_exchange) op" where
  "execute_signal_for_account user_id signal_id account_id exchange alert_runtime =
     bnd assert_new_orders_allowed (\<lambda>_.
     bnd (get_owned_signal user_id signal_id) (\<lambda>signal.
     bnd (get_owned_account_or_raise user_id account_id) (\<lambda>account.
     bnd (query (find_by_signal (sg_id signal) (ea_id account))) (\<lambda>existing.
       case existing of
         Some e \<Rightarrow> ret (e, exchange)
       | None \<Rightarrow>
           bnd (resolve_side_and_quantity signal account) (\<lambda>(side, quantity).
           bnd (create_execution (new_execution user_id signal account side quantity)
                  ''execution_created'') (\<lambda>e.
           bnd commit (\<lambda>_.
           bnd (get_or_create_risk_settings user_id account_id) (\<lambda>risk_settings.
           bnd (lift_result (check_order_risk account risk_settings
                  \<lparr>ro_symbol = sg_symbol signal, ro_side = side, ro_quantity = quantity,
                   ro_price = sg_price signal\<rparr> False)) (\<lambda>risk_result.
           bnd (modify_execution (oe_id e) (\<lambda>e. e\<lparr>oe_risk_result := Some (risk_to_dict risk_result)\<rparr>)) (\<lambda>_.
             if rc_decision risk_result \<noteq> PASSED \<or> dle quantity dzero
             then bnd (fail_order (oe_id e) risk_result alert_runtime) (\<lambda>e'. ret (e', exchange))
             else fill_order (oe_id e) user_id signal account side quantity exchange))))))))))"

section \<open>Route\<close>

definition execute_signal :: "string \<Rightarrow> string \<Rightarrow> user \<Rightarrow> order_execution op" where
  "execute_signal signal_id account_id current_user =
     try_except
       (bnd (execute_signal_for_account (u_id current_user) signal_id account_id MockExchange True)
          (\<lambda>(e, _). ret e))
       (\<lambda>e. case e of
          EmergencyStopEnabledError m \<Rightarrow> Some (raise (HTTPException 423 [m]))
        | ValueError m \<Rightarrow> Some (raise (HTTPException 404 [m]))
        | TestnetOrderEventValidationError m \<Rightarrow> Some (raise (HTTPException 404 [m]))
        | _ \<Rightarrow> None)"

section \<open>Behaviour\<close>

interpretation owned_signal: owned_rows signals sg_user_id sg_id find_owned_signal
  by unfold_locales (simp add: find_owned_signal_def)

text \<open>
  From a sound session each step of the engine returns, in a sound session. The settings and
  the position of an account belong to the owner of the account; this is what
  \<open>risks_owned\<close> and \<open>positions_owned\<close> say of the rows.
\<close>

definition risks_owned :: "string \<Rightarrow> string \<Rightarrow> db \<Rightarrow> bool" where
  "risks_owned user_id account_id d \<longleftrightarrow>
     (\<forall>r \<in> set (rows (risks d)). rs_exchange_account_id r = account_id \<longrightarrow>
        rs_user_id r = user_id \<and> rs_blocked_symbols r \<noteq> None)"

definition positions_owned :: "string \<Rightarrow> string \<Rightarrow> db \<Rightarrow> bool" where
  "positions_owned user_id account_id d \<longleftrightarrow>
     (\<forall>p \<in> set (rows (positions d)). po_exchange_account_id p = account_id \<longrightarrow> po_user_id p = user_id)"

lemma sound_frame:
  assumes "sound s" and "db_unique d"
    and "executions d = executions (work s)" and "transitions d = transitions (work s)"
  shows "sound (s\<lparr>uuid_next := Suc (uuid_next s), work := d\<rparr>)"
proof -
  have "trails_inv (uuid_src s) (uuid_next s) d"
    using assms by (simp add: sound_def both_def trails_inv_frame [of d "work s"])
  then show ?thesis
    using assms trails.inv_more by (simp add: sound_def both_def)
qed

text \<open>The rows that decide whether a request is admitted.\<close>

definition admission :: "db \<Rightarrow> trading_signal table \<times> exchange_account table \<times> system_control table" where
  "admission d = (signals d, accounts d, controls d)"

lemma admission_others:
  "others d' = others d \<Longrightarrow> admission d' = admission d"
  "others d' = (others d)\<lparr>positions := p\<rparr> \<Longrightarrow> admission d' = admission d"
proof -
  have o: "admission (others x) = admission x" for x by (simp add: admission_def)
  show "others d' = others d \<Longrightarrow> admission d' = admission d" by (metis o)
  show "others d' = (others d)\<lparr>positions := p\<rparr> \<Longrightarrow> admission d' = admission d"
    using o [of d'] o [of d] by (simp add: admission_def)
qed

lemma risk_run:
  assumes S: "sound s" and fl: "db_flush (others (work s)) = others (work s)"
    and own: "risks_owned u a (work s)"
  obtains st s' where "get_or_create_risk_settings u a s = (Inr st, s')" "sound s'"
    "db_flush (others (work s')) = others (work s')"
    "positions (work s') = positions (work s)" "rs_blocked_symbols st \<noteq> None"
    "admission (work s') = admission (work s)"
    "\<And>x. find_risk_settings u a (work s) = Some x \<Longrightarrow> st = x"
    "find_risk_settings u a (work s) = None \<Longrightarrow> \<not> rs_trading_enabled st"
    "\<And>eid e. find_execution eid (work s) = Some e \<Longrightarrow> find_execution eid (work s') = Some e"
    "uuid_src s' = uuid_src s" "outbox s' = outbox s"
proof (cases "find_risk_settings u a (work s)")
  case (Some st)
  then have "st \<in> set (rows (risks (work s)))" "rs_exchange_account_id st = a"
    by (auto simp: find_risk_settings_def dest: t_find_SomeD)
  with own have "rs_blocked_symbols st \<noteq> None" by (auto simp: risks_owned_def)
  with S fl Some show thesis
    by (intro that [of st s]) (simp_all add: get_or_create_risk_settings_def bnd_assoc)
next
  case None
  define st where "st = \<lparr>rs_id = uuid_src s (uuid_next s), rs_user_id = u, rs_exchange_account_id = a,
     rs_trading_enabled = False, rs_max_single_order_notional = None,
     rs_max_position_notional = None, rs_max_leverage = None, rs_min_order_quantity = None,
     rs_max_order_quantity = None, rs_blocked_symbols = Some []\<rparr>"
  define d where "d = (work s)\<lparr>risks := t_add st (risks (work s))\<rparr>"
  have un: "db_unique (work s)" using S by (simp add: sound_def)
  have "t_flush (risks (work s)) = risks (work s)"
    using fl by (metis db_flush_sel(6) others_sel(6))
  then have pend: "pend (risks (work s)) = []" by (metis rows_simps(2))
  have "t_find (\<lambda>x. rs_exchange_account_id x = a) (risks (work s)) = None"
    using None own by (auto simp: find_risk_settings_def t_find_def find_None_iff risks_owned_def)
  then have "distinct (map rs_exchange_account_id (t_all (t_add st (risks (work s)))))"
    using un pend by (intro distinct_added) (simp_all add: st_def db_unique_def)
  then have ud: "db_unique d" using un by (simp add: d_def db_unique_update)
  define s1 where "s1 = s\<lparr>uuid_next := Suc (uuid_next s), work := d\<rparr>"
  have s1: "sound s1"
    unfolding s1_def by (rule sound_frame [OF S ud]) (simp_all add: d_def)
  obtain s' where c: "commit s1 = (Inr (), s')" and s': "sound s'" "work s' = db_flush d"
    "uuid_src s' = uuid_src s1" "outbox s' = outbox s1"
    using commit_run [OF s1] by (auto simp: s1_def)
  have run: "get_or_create_risk_settings u a s = (Inr st, s')"
    by (simp add: get_or_create_risk_settings_def None Let_def
        bnd_commit_Inr [OF c [unfolded s1_def d_def st_def]] st_def)
  have o: "others (work s') = db_flush (others d)" by (simp add: s' others_flush)
  then have "db_flush (others (work s')) = others (work s')" by simp
  moreover have "positions (work s') = positions (work s)"
    using fl s' by (simp add: d_def) (metis db_flush_sel(8) others_sel(8))
  moreover have "admission (work s') = admission (work s)"
    using fl s' by (simp add: d_def admission_def)
      (metis db_flush_sel(3,5,15) others_sel(3,5,13))
  ultimately show thesis
    using run s' None
    by (intro that [of st s'])
      (auto simp: st_def s1_def d_def find_execution_def t_find_flush_present)
qed

lemma position_run:
  assumes S: "sound s" and fl: "db_flush (others (work s)) = others (work s)"
    and own: "positions_owned u a (work s)"
  obtains p s' where "get_or_create_position u a y s = (Inr p, s')" "sound s'"
    "db_flush (others (work s')) = others (work s')" "find_position u a y (work s') = Some p"
    "po_quantity p = position_quantity u a y (work s)" "positions_owned u a (work s')"
    "\<And>u' a' y'. (a', y') \<noteq> (a, y) \<Longrightarrow> find_position u' a' y' (work s') = find_position u' a' y' (work s)"
    "others (work s') = (others (work s))\<lparr>positions := positions (work s')\<rparr>"
    "\<And>eid e. find_execution eid (work s) = Some e \<Longrightarrow> find_execution eid (work s') = Some e"
    "set (t_all (executions (work s'))) = set (t_all (executions (work s)))"
    "uuid_src s' = uuid_src s" "outbox s' = outbox s"
proof (cases "find_position u a y (work s)")
  case (Some p)
  then have "find_position u a y (work s) = Some p \<and> po_quantity p = position_quantity u a y (work s)"
    by (simp add: position_quantity_def)
  with S fl own Some show thesis
    by (intro that [of p s]) (simp_all add: get_or_create_position_def others_def bnd_assoc)
next
  case None
  define p where "p = \<lparr>po_id = uuid_src s (uuid_next s), po_user_id = u, po_exchange_account_id = a,
     po_symbol = y, po_quantity = dzero\<rparr>"
  define d where "d = (work s)\<lparr>positions := t_add p (positions (work s))\<rparr>"
  have un: "db_unique (work s)" using S by (simp add: sound_def)
  have "t_flush (positions (work s)) = positions (work s)"
    using fl by (metis db_flush_sel(8) others_sel(8))
  then have pend: "pend (positions (work s)) = []" by (metis rows_simps(2))
  have "t_find (\<lambda>x. (po_exchange_account_id x, po_symbol x) = (a, y)) (positions (work s)) = None"
    using None own by (auto simp: find_position_def t_find_def find_None_iff positions_owned_def)
  then have "distinct (map (\<lambda>r. (po_exchange_account_id r, po_symbol r)) (t_all (t_add p (positions (work s)))))"
    using un pend by (intro distinct_added) (simp_all add: p_def db_unique_def)
  then have ud: "db_unique d" using un by (simp add: d_def db_unique_update)
  define s1 where "s1 = s\<lparr>uuid_next := Suc (uuid_next s), work := d\<rparr>"
  have s1: "sound s1"
    unfolding s1_def by (rule sound_frame [OF S ud]) (simp_all add: d_def)
  obtain s' where c: "commit s1 = (Inr (), s')" and s': "sound s'" "work s' = db_flush d"
    "uuid_src s' = uuid_src s1" "outbox s' = outbox s1"
    using commit_run [OF s1] by (auto simp: s1_def)
  have run: "get_or_create_position u a y s = (Inr p, s')"
    by (simp add: get_or_create_position_def None Let_def
        bnd_commit_Inr [OF c [unfolded s1_def d_def p_def]] p_def)
  have rows': "rows (positions (work s')) = rows (positions (work s)) @ [p]"
    using pend by (simp add: s' d_def t_all_def)
  have find: "find_position u a y (work s') = Some p"
    using None rows' by (simp add: find_position_def t_find_def find_append p_def)
  have other: "find_position u' a' y' (work s') = find_position u' a' y' (work s)"
    if "(a', y') \<noteq> (a, y)" for u' a' y'
    using that rows' by (auto simp: find_position_def t_find_def find_append p_def split: option.split)
  have own': "positions_owned u a (work s')"
    using own rows' by (auto simp: positions_owned_def p_def)
  have "others (work s') = (db_flush (others (work s)))\<lparr>positions := positions (work s')\<rparr>"
    by (simp add: s' d_def others_flush others_def db_flush_update)
  then have oth: "others (work s') = (others (work s))\<lparr>positions := positions (work s')\<rparr>"
    using fl by simp
  have "db_flush (others (work s')) = others (work s')" by (simp add: s' others_flush)
  with run s' find other own' oth None show thesis
    by (intro that [of p s'])
      (auto simp: p_def position_quantity_def s1_def d_def find_execution_def t_find_flush_present)
qed

lemma get_execution_run:
  "find_execution eid (work s) = Some e \<Longrightarrow> bnd (get_execution eid) k s = k e s"
  by (simp add: bnd_def get_execution_apply)

lemma fail_order_run:
  assumes S: "sound s" and f: "find_execution eid (work s) = Some ex" and st: "oe_status ex = CREATED"
  obtains e s' where "fail_order eid rr alerts s = (Inr e, s')" "sound s'" "saved s' = work s'"
    "work s' = db_flush (work s')" "others (work s') = db_flush (others (work s))"
    "find_execution eid (work s') = Some e" "\<exists>m. e = ex\<lparr>oe_error_message := m, oe_status := FAILED\<rparr>"
proof -
  let ?g = "\<lambda>e. e\<lparr>oe_error_message := Some (if join ''; '' (rc_reasons rr) = [] then ''zero quantity order''
     else join ''; '' (rc_reasons rr))\<rparr>"
  let ?why = "if rc_decision rr \<noteq> PASSED then ''risk_rejected'' else ''zero_quantity''"
  obtain s1 where r1: "modify_execution eid ?g s = (Inr (), s1)" and s1: "sound s1"
    "find_execution eid (work s1) = Some (?g ex)" "others (work s1) = others (work s)"
    by (rule modify_run [OF S f, of ?g]) (blast | simp)+
  obtain t s2 where r2: "transition_order_execution eid FAILED ?why None s1 = (Inr t, s2)"
    and s2: "sound s2" "find_execution eid (work s2) = Some ((?g ex)\<lparr>oe_status := FAILED\<rparr>)"
      "others (work s2) = others (work s1)"
    by (rule transition_run [OF s1(1,2), of FAILED ?why None]) (blast | simp add: st)+
  obtain s3 where r3: "commit s2 = (Inr (), s3)" and s3: "sound s3" "work s3 = db_flush (work s2)"
    "saved s3 = work s3"
    by (rule commit_run [OF s2(1)]) blast
  have f3: "find_execution eid (work s3) = Some ((?g ex)\<lparr>oe_status := FAILED\<rparr>)"
    using s2(2) by (simp add: s3 find_execution_flush)
  define s' where "s' = (if alerts then s3\<lparr>outbox := outbox s3 @ [OrderFailureAlert ''FAILED''
     (if rc_decision rr \<noteq> PASSED then ''risk_rejected'' else ''unknown'')]\<rparr> else s3)"
  note steps = bnd_Inr [where m = "modify_execution eid ?g", OF r1]
    bnd_Inr [where m = "transition_order_execution eid FAILED ?why None", OF r2] bnd_commit_Inr [OF r3]
  have run: "fail_order eid rr alerts s = (Inr ((?g ex)\<lparr>oe_status := FAILED\<rparr>), s')"
    unfolding fail_order_def Let_def steps by (simp add: get_execution_run [OF f3] notify_order_failure_def s'_def)
  have w: "work s' = work s3" "saved s' = saved s3" "sound s' = sound s3"
    by (simp_all add: s'_def sound_def both_def)
  show thesis
  proof (rule that [OF run])
    show "\<exists>m. (?g ex)\<lparr>oe_status := FAILED\<rparr> = ex\<lparr>oe_error_message := m, oe_status := FAILED\<rparr>" by blast
  qed (use w s1 s2 s3 f3 in \<open>simp_all add: others_flush\<close>)
qed

lemma apply_fill_run:
  assumes S: "sound s" and fl: "db_flush (others (work s)) = others (work s)"
    and own: "positions_owned u a (work s)"
  obtains p' s' where "apply_fill u a y side q s = (Inr p', s')" "sound s'" "db_flush (work s') = work s'"
    "position_quantity u a y (work s') = apply_side side (position_quantity u a y (work s)) q"
    "\<And>u' a' y'. (a', y') \<noteq> (a, y) \<Longrightarrow>
       position_quantity u' a' y' (work s') = position_quantity u' a' y' (work s)"
    "others (work s') = (others (work s))\<lparr>positions := positions (work s')\<rparr>"
    "\<And>eid e. find_execution eid (work s) = Some e \<Longrightarrow> find_execution eid (work s') = Some e"
    "uuid_src s' = uuid_src s" "outbox s' = outbox s"
proof -
  obtain p s1 where r1: "get_or_create_position u a y s = (Inr p, s1)" and s1: "sound s1"
    and fl1: "db_flush (others (work s1)) = others (work s1)" and f1: "find_position u a y (work s1) = Some p"
    and q: "po_quantity p = position_quantity u a y (work s)"
    and other: "\<And>u' a' y'. (a', y') \<noteq> (a, y) \<Longrightarrow> find_position u' a' y' (work s1) = find_position u' a' y' (work s)"
    and o1: "others (work s1) = (others (work s))\<lparr>positions := positions (work s1)\<rparr>"
    and e1: "\<And>eid e. find_execution eid (work s) = Some e \<Longrightarrow> find_execution eid (work s1) = Some e"
    and x1: "uuid_src s1 = uuid_src s" "outbox s1 = outbox s"
    by (rule position_run [OF S fl own, of y]) (rule that; assumption)
  define p' where "p' = p\<lparr>po_quantity := apply_side side (po_quantity p) q\<rparr>"
  define d where "d = (work s1)\<lparr>positions := t_put position_key p' (positions (work s1))\<rparr>"
  have "t_flush (positions (work s1)) = positions (work s1)"
    using fl1 by (metis db_flush_sel(8) others_sel(8))
  then have pend: "pend (positions (work s1)) = []" by (metis rows_simps(2))
  have un: "db_unique (work s1)" using s1 by (simp add: sound_def)
  have p': "position_key p' = position_key p" "po_user_id p' = po_user_id p"
    by (simp_all add: p'_def position_key_def)
  note st = find_position_stored [OF un f1 p', folded d_def]
  define s2 where "s2 = s1\<lparr>work := d\<rparr>"
  have "trails_inv (uuid_src s1) (uuid_next s1) d"
    by (rule trails_inv_frame [of d "work s1", THEN iffD2]) (use s1 in \<open>simp_all add: sound_def both_def d_def\<close>)
  then have s2: "sound s2" using s1 st(1) by (simp add: s2_def sound_def both_def)
  obtain s' where c: "commit s2 = (Inr (), s')" and s': "sound s'" "work s' = db_flush d"
    "uuid_src s' = uuid_src s2" "outbox s' = outbox s2"
    using commit_run [OF s2] by (auto simp: s2_def)
  have run: "apply_fill u a y side q s = (Inr p', s')"
    by (simp add: apply_fill_def bnd_Inr [where m = "get_or_create_position u a y", OF r1] Let_def
        bnd_commit_Inr [OF c [unfolded s2_def d_def p'_def]] p'_def)
  have "others (work s') = db_flush ((others (work s1))\<lparr>positions := positions d\<rparr>)"
    by (simp add: s' others_flush d_def others_def)
  also have "\<dots> = (others (work s1))\<lparr>positions := positions (work s')\<rparr>"
    using fl1 by (simp add: db_flush_update s')
  finally have o': "others (work s') = (others (work s))\<lparr>positions := positions (work s')\<rparr>"
    using o1 by simp
  have e': "find_execution eid (work s') = Some e" if "find_execution eid (work s) = Some e" for eid e
    using e1 [OF that] by (simp add: s' d_def find_execution_def t_find_flush_present)
  have pq: "position_quantity u a y (work s') = apply_side side (position_quantity u a y (work s)) q"
    using st(2) q by (simp add: position_quantity_def [of u a y "db_flush d"] s' p'_def)
  have ot: "position_quantity u' a' y' (work s') = position_quantity u' a' y' (work s)"
    if "(a', y') \<noteq> (a, y)" for u' a' y'
    using st(3) [OF that pend] other [OF that] by (simp add: position_quantity_def s')
  show thesis
    by (rule that [OF run s'(1) _ pq ot o' e']) (simp_all add: s' s2_def x1)
qed

lemma positions_owned_others: "others d' = others d \<Longrightarrow> positions_owned u a d' = positions_owned u a d"
  by (metis others_sel(8) positions_owned_def)

lemma position_quantity_others:
  "others d' = others d \<Longrightarrow> position_quantity u a y d' = position_quantity u a y d"
  by (metis find_position_def others_sel(8) position_quantity_def)

lemma advance_run:
  assumes S: "sound s" and f: "find_execution eid (work s) = Some ex"
    and b: "b \<in> set (allowed (oe_status ex))" and fl: "db_flush (others (work s)) = others (work s)"
  obtains t s1 s' where "transition_order_execution eid b why det s = (Inr t, s1)"
    "commit s1 = (Inr (), s')" "sound s'" "find_execution eid (work s') = Some (ex\<lparr>oe_status := b\<rparr>)"
    "others (work s') = others (work s)" "uuid_src s' = uuid_src s"
proof -
  obtain t s1 where r1: "transition_order_execution eid b why det s = (Inr t, s1)" and s1: "sound s1"
    "find_execution eid (work s1) = Some (ex\<lparr>oe_status := b\<rparr>)" "others (work s1) = others (work s)"
    "uuid_src s1 = uuid_src s"
    by (rule transition_run [OF S f b, of why det]) blast
  obtain s' where r2: "commit s1 = (Inr (), s')" and s': "sound s'" "work s' = db_flush (work s1)"
    "uuid_src s' = uuid_src s1"
    by (rule commit_run [OF s1(1)]) blast
  show thesis
    by (rule that [OF r1 r2 s'(1)]) (simp_all add: s' s1 fl find_execution_flush others_flush)
qed

lemma fill_order_run:
  assumes S: "sound s" and f: "find_execution eid (work s) = Some ex" and st: "oe_status ex = CREATED"
    and fl: "db_flush (others (work s)) = others (work s)"
    and own: "positions_owned u (ea_id a) (work s)"
  obtains e x' s' where "fill_order eid u g a side q x s = (Inr (e, x'), s')" "sound s'"
    "saved s' = work s'" "work s' = db_flush (work s')" "find_execution eid (work s') = Some e"
    "\<exists>i r. e = ex\<lparr>oe_exchange_order_id := i, oe_exchange_response := r, oe_status := FILLED\<rparr>"
    "position_quantity u (ea_id a) (sg_symbol g) (work s') =
       apply_side side (position_quantity u (ea_id a) (sg_symbol g) (work s)) q"
    "\<And>u' a' y'. (a', y') \<noteq> (ea_id a, sg_symbol g) \<Longrightarrow>
       position_quantity u' a' y' (work s') = position_quantity u' a' y' (work s)"
    "admission (work s') = admission (work s)"
proof -
  obtain t1 r1 s1 where a1: "transition_order_execution eid RISK_PASSED ''risk_passed'' None s = (Inr t1, r1)"
    and c1: "commit r1 = (Inr (), s1)" and s1: "sound s1"
      "find_execution eid (work s1) = Some (ex\<lparr>oe_status := RISK_PASSED\<rparr>)"
      "others (work s1) = others (work s)"
    by (rule advance_run [OF S f _ fl, of RISK_PASSED "''risk_passed''" None]) (blast | simp add: st)+
  obtain t2 r2 s2 where a2: "transition_order_execution eid SUBMITTED ''mock_order_submitted'' None s1 = (Inr t2, r2)"
    and c2: "commit r2 = (Inr (), s2)" and s2: "sound s2"
      "find_execution eid (work s2) = Some (ex\<lparr>oe_status := SUBMITTED\<rparr>)"
      "others (work s2) = others (work s1)"
    by (rule advance_run [OF s1(1,2), of SUBMITTED "''mock_order_submitted''" None]) (blast | simp add: s1 fl)+
  obtain resp x' where pl: "mock_place_order (signal_client_order_id (sg_id g) (ea_id a)) (sg_symbol g) side
      (sg_order_type g) q (sg_price g) x = (resp, x')" by fastforce
  let ?g = "\<lambda>e. e\<lparr>oe_exchange_order_id := Some (py_str (dict_get resp ''exchange_order_id'')),
     oe_exchange_response := Some resp\<rparr>"
  obtain s3 where r3: "modify_execution eid ?g s2 = (Inr (), s3)" and s3: "sound s3"
    "find_execution eid (work s3) = Some (?g (ex\<lparr>oe_status := SUBMITTED\<rparr>))"
    "others (work s3) = others (work s2)"
    by (rule modify_run [OF s2(1,2), of ?g]) (blast | simp)+
  obtain t4 s4 where r4: "transition_order_execution eid FILLED ''mock_order_filled'' None s3 = (Inr t4, s4)"
    and s4: "sound s4"
      "find_execution eid (work s4) = Some ((?g (ex\<lparr>oe_status := SUBMITTED\<rparr>))\<lparr>oe_status := FILLED\<rparr>)"
      "others (work s4) = others (work s3)"
    by (rule transition_run [OF s3(1,2), of FILLED "''mock_order_filled''" None]) (blast | simp)+
  have o4: "others (work s4) = others (work s)" by (simp add: s4 s3 s2 s1)
  have fl4: "db_flush (others (work s4)) = others (work s4)" using fl by (simp add: o4)
  have own4: "positions_owned u (ea_id a) (work s4)" using own positions_owned_others [OF o4] by simp
  note pos4 = position_quantity_others [OF o4]
  obtain p5 s5 where r5: "apply_fill u (ea_id a) (sg_symbol g) side q s4 = (Inr p5, s5)" and s5: "sound s5"
      "db_flush (work s5) = work s5"
    and q5: "position_quantity u (ea_id a) (sg_symbol g) (work s5) =
        apply_side side (position_quantity u (ea_id a) (sg_symbol g) (work s4)) q"
      "\<And>u' a' y'. (a', y') \<noteq> (ea_id a, sg_symbol g) \<Longrightarrow>
        position_quantity u' a' y' (work s5) = position_quantity u' a' y' (work s4)"
    and o5: "others (work s5) = (others (work s4))\<lparr>positions := positions (work s5)\<rparr>"
    and f5: "\<And>eid e. find_execution eid (work s4) = Some e \<Longrightarrow> find_execution eid (work s5) = Some e"
    by (rule apply_fill_run [OF s4(1) fl4 own4, of "sg_symbol g" side q]) (rule that; assumption)
  obtain s6 where r6: "commit s5 = (Inr (), s6)" and s6: "sound s6" "work s6 = db_flush (work s5)"
    "saved s6 = work s6"
    by (rule commit_run [OF s5(1)]) blast
  define e where "e = (?g (ex\<lparr>oe_status := SUBMITTED\<rparr>))\<lparr>oe_status := FILLED\<rparr>"
  have f6: "find_execution eid (work s6) = Some e"
    using f5 [OF s4(2)] by (simp add: s6 find_execution_flush e_def)
  note steps = bnd_Inr [where m = "transition_order_execution eid RISK_PASSED ''risk_passed'' None", OF a1]
    bnd_Inr [where m = "transition_order_execution eid SUBMITTED ''mock_order_submitted'' None", OF a2]
    bnd_commit_Inr [OF c1] bnd_commit_Inr [OF c2] bnd_Inr [where m = "modify_execution eid ?g", OF r3]
    bnd_Inr [where m = "transition_order_execution eid FILLED ''mock_order_filled'' None", OF r4]
    bnd_Inr [where m = "apply_fill u (ea_id a) (sg_symbol g) side q", OF r5] bnd_commit_Inr [OF r6]
  have run: "fill_order eid u g a side q x s = (Inr (e, x'), s6)"
    unfolding fill_order_def steps pl Let_def prod.case
    by (simp add: steps get_execution_run [OF f6])
  show thesis
  proof (rule that [OF run s6(1,3) _ f6])
    show "\<exists>i r. e = ex\<lparr>oe_exchange_order_id := i, oe_exchange_response := r, oe_status := FILLED\<rparr>"
      by (auto simp: e_def)
    show "admission (work s6) = admission (work s)"
      using admission_others(2) [OF o5] admission_others(1) [OF o4] by (simp add: s6 s5(2))
  qed (use s6(2) s5(2) q5 pos4 in simp_all)
qed

text \<open>What the risk engine and the quantity decide.\<close>

definition order_passes ::
    "exchange_account \<Rightarrow> risk_setting \<Rightarrow> string \<Rightarrow> order_side \<Rightarrow> dec \<Rightarrow> dec option \<Rightarrow> bool" where
  "order_passes account settings symbol side quantity price \<longleftrightarrow>
     (\<exists>r. check_order_risk account settings
        \<lparr>ro_symbol = symbol, ro_side = side, ro_quantity = quantity, ro_price = price\<rparr> False = Inr r
        \<and> rc_decision r = PASSED) \<and> 0 < dval quantity"

text \<open>The side and the quantity of the order that a signal asks for, in a given database.\<close>

definition wanted :: "trading_signal \<Rightarrow> exchange_account \<Rightarrow> db \<Rightarrow> order_side \<times> dec" where
  "wanted signal account d =
     (case sg_target_position_quantity signal of
        None \<Rightarrow> (sg_side signal, case sg_quantity signal of None \<Rightarrow> dzero | Some q \<Rightarrow> q)
      | Some target \<Rightarrow>
          let delta = calculate_delta (sg_symbol signal)
                (position_quantity (sg_user_id signal) (ea_id account) (sg_symbol signal) d) target
          in (case pd_side delta of None \<Rightarrow> sg_side signal | Some sd \<Rightarrow> sd, pd_delta_quantity delta))"

text \<open>
  The state a request for a new execution starts from: nothing pending, the constraints and the
  trails in order, the stop off, the signal and the account owned by the caller, no execution of
  the signal on the account yet, and its client order id not in use.
\<close>

definition engine_ready ::
    "string \<Rightarrow> string \<Rightarrow> string \<Rightarrow> trading_signal \<Rightarrow> exchange_account \<Rightarrow> session \<Rightarrow> bool" where
  "engine_ready user_id signal_id account_id signal account s \<longleftrightarrow>
     settled (work s) \<and> both trails_inv s \<and> \<not> stop_enabled (work s)
     \<and> find_owned_signal user_id signal_id (work s) = Some signal
     \<and> find_owned_account user_id account_id (work s) = Some account
     \<and> find_by_signal (sg_id signal) (ea_id account) (work s) = None
     \<and> (\<forall>e \<in> set (rows (executions (work s))).
          oe_client_order_id e \<noteq> signal_client_order_id (sg_id signal) (ea_id account))
     \<and> risks_owned user_id account_id (work s) \<and> positions_owned user_id account_id (work s)
     \<and> \<not> (sg_quantity signal = None \<and> sg_target_position_quantity signal = None)"

lemma positions_owned_foreign:
  assumes "positions_owned u a d" and "u' \<noteq> u"
  shows "find_position u' a y d = None"
  using assms by (auto simp: positions_owned_def find_position_def t_find_def find_None_iff)

lemma resolve_run:
  assumes S: "sound s" and fl: "db_flush (others (work s)) = others (work s)"
    and own: "positions_owned (sg_user_id g) (ea_id a) (work s)"
    and some: "\<not> (sg_quantity g = None \<and> sg_target_position_quantity g = None)"
  obtains s' where "resolve_side_and_quantity g a s = (Inr (wanted g a (work s)), s')" "sound s'"
    "db_flush (others (work s')) = others (work s')" "positions_owned (sg_user_id g) (ea_id a) (work s')"
    "\<And>u' a' y'. position_quantity u' a' y' (work s') = position_quantity u' a' y' (work s)"
    "others (work s') = (others (work s))\<lparr>positions := positions (work s')\<rparr>"
    "set (t_all (executions (work s'))) = set (t_all (executions (work s)))"
proof (cases "sg_target_position_quantity g")
  case None
  with some obtain q where "sg_quantity g = Some q" by auto
  with None S fl own show thesis
    by (intro that [of s]) (simp_all add: resolve_side_and_quantity_def wanted_def others_def)
next
  case (Some target)
  obtain p s1 where r1: "get_or_create_position (sg_user_id g) (ea_id a) (sg_symbol g) s = (Inr p, s1)"
    and s1: "sound s1" "db_flush (others (work s1)) = others (work s1)"
      "find_position (sg_user_id g) (ea_id a) (sg_symbol g) (work s1) = Some p"
      "po_quantity p = position_quantity (sg_user_id g) (ea_id a) (sg_symbol g) (work s)"
      "positions_owned (sg_user_id g) (ea_id a) (work s1)"
    and other: "\<And>u' a' y'. (a', y') \<noteq> (ea_id a, sg_symbol g) \<Longrightarrow>
        find_position u' a' y' (work s1) = find_position u' a' y' (work s)"
    and o1: "others (work s1) = (others (work s))\<lparr>positions := positions (work s1)\<rparr>"
    and e1: "set (t_all (executions (work s1))) = set (t_all (executions (work s)))"
    by (rule position_run [OF S fl own, of "sg_symbol g"]) (rule that; assumption)
  have "resolve_side_and_quantity g a s = (Inr (wanted g a (work s)), s1)"
    by (simp add: resolve_side_and_quantity_def Some wanted_def Let_def s1(4)
        bnd_Inr [where m = "get_or_create_position (sg_user_id g) (ea_id a) (sg_symbol g)", OF r1])
  moreover have "position_quantity u' a' y' (work s1) = position_quantity u' a' y' (work s)" for u' a' y'
  proof (cases "(a', y') = (ea_id a, sg_symbol g)")
    case True
    then show ?thesis
      using s1(3,4) positions_owned_foreign [OF own, of u'] positions_owned_foreign [OF s1(5), of u']
      by (cases "u' = sg_user_id g") (simp_all add: position_quantity_def)
  next
    case False
    then show ?thesis by (simp add: position_quantity_def other)
  qed
  ultimately show thesis using s1 o1 e1 by (intro that [of s1])
qed

definition signal_accepted ::
    "string \<Rightarrow> string \<Rightarrow> trading_signal \<Rightarrow> exchange_account \<Rightarrow> db \<Rightarrow> bool" where
  "signal_accepted user_id account_id signal account d \<longleftrightarrow>
     (\<exists>st. find_risk_settings user_id account_id d = Some st
        \<and> order_passes account st (sg_symbol signal) (fst (wanted signal account d))
            (snd (wanted signal account d)) (sg_price signal))"

text \<open>The outcome of a run, as a relation between the two databases and the execution returned.\<close>

definition engine_outcome ::
    "string \<Rightarrow> string \<Rightarrow> trading_signal \<Rightarrow> exchange_account \<Rightarrow> db \<Rightarrow> order_execution \<Rightarrow> db \<Rightarrow> bool" where
  "engine_outcome user_id account_id signal account d e d' \<longleftrightarrow>
     (oe_side e, oe_quantity e) = wanted signal account d
     \<and> oe_status e = (if signal_accepted user_id account_id signal account d then FILLED else FAILED)
     \<and> find_execution (oe_id e) d' = Some e
     \<and> position_quantity user_id account_id (sg_symbol signal) d' =
         (if oe_status e = FILLED
          then apply_side (oe_side e) (position_quantity user_id account_id (sg_symbol signal) d) (oe_quantity e)
          else position_quantity user_id account_id (sg_symbol signal) d)
     \<and> (\<forall>u a y. (a, y) \<noteq> (account_id, sg_symbol signal) \<longrightarrow>
          position_quantity u a y d' = position_quantity u a y d)"

lemma branch_run:
  assumes S: "sound s" and f: "find_execution eid (work s) = Some ex" and st: "oe_status ex = CREATED"
    and fl: "db_flush (others (work s)) = others (work s)" and own: "positions_owned u (ea_id a) (work s)"
  shows "\<exists>e x' s'. (if bad then bnd (fail_order eid rr alerts) (\<lambda>e'. ret (e', x))
       else fill_order eid u g a side q x) s = (Inr (e, x'), s') \<and> sound s' \<and> saved s' = work s' \<and> db_flush (work s') = work s'
     \<and> find_execution eid (work s') = Some e \<and> oe_id e = oe_id ex \<and> oe_side e = oe_side ex
     \<and> oe_signal_id e = oe_signal_id ex \<and> oe_exchange_account_id e = oe_exchange_account_id ex
     \<and> oe_quantity e = oe_quantity ex \<and> oe_status e = (if bad then FAILED else FILLED)
     \<and> position_quantity u (ea_id a) (sg_symbol g) (work s') =
         (if bad then position_quantity u (ea_id a) (sg_symbol g) (work s)
          else apply_side side (position_quantity u (ea_id a) (sg_symbol g) (work s)) q)
     \<and> (\<forall>u' a' y'. (a', y') \<noteq> (ea_id a, sg_symbol g) \<longrightarrow>
          position_quantity u' a' y' (work s') = position_quantity u' a' y' (work s))
     \<and> admission (work s') = admission (work s)"
proof (cases bad)
  case True
  obtain e s' where r: "fail_order eid rr alerts s = (Inr e, s')" and s': "sound s'" "saved s' = work s'"
    "work s' = db_flush (work s')" "others (work s') = db_flush (others (work s))"
    "find_execution eid (work s') = Some e" "\<exists>m. e = ex\<lparr>oe_error_message := m, oe_status := FAILED\<rparr>"
    by (rule fail_order_run [OF S f st, of rr alerts]) (rule that; assumption)
  have o: "others (work s') = others (work s)" using s'(4) fl by simp
  have "bnd (fail_order eid rr alerts) (\<lambda>e'. ret (e', x)) s = (Inr (e, x), s')"
    by (simp add: bnd_Inr [where m = "fail_order eid rr alerts", OF r])
  with True s' position_quantity_others [OF o] admission_others(1) [OF o] show ?thesis by fastforce
next
  case False
  obtain e x' s' where r: "fill_order eid u g a side q x s = (Inr (e, x'), s')" and s': "sound s'"
    "saved s' = work s'" "work s' = db_flush (work s')" "find_execution eid (work s') = Some e"
    "\<exists>i r. e = ex\<lparr>oe_exchange_order_id := i, oe_exchange_response := r, oe_status := FILLED\<rparr>"
    "position_quantity u (ea_id a) (sg_symbol g) (work s') =
       apply_side side (position_quantity u (ea_id a) (sg_symbol g) (work s)) q"
    "\<And>u' a' y'. (a', y') \<noteq> (ea_id a, sg_symbol g) \<Longrightarrow>
       position_quantity u' a' y' (work s') = position_quantity u' a' y' (work s)"
    "admission (work s') = admission (work s)"
    by (rule fill_order_run [OF S f st fl own, of g side q x]) (rule that; assumption)
  with False show ?thesis by fastforce
qed

lemma check_order_risk_total:
  "rs_blocked_symbols st \<noteq> None \<Longrightarrow> \<exists>r. check_order_risk a st order allow = Inr r"
  by (auto simp: check_order_risk_def Let_def)

theorem execute_run:
  assumes R: "engine_ready user_id signal_id account_id g a s"
  shows "\<exists>e x' s'. execute_signal_for_account user_id signal_id account_id x alerts s = (Inr (e, x'), s')
     \<and> sound s' \<and> saved s' = work s' \<and> settled (work s')
     \<and> engine_outcome user_id account_id g a (work s) e (work s')
     \<and> admission (work s') = admission (work s)
     \<and> oe_signal_id e = sg_id g \<and> oe_exchange_account_id e = ea_id a"
proof -
  from R have st: "settled (work s)" and J: "both trails_inv s" and nostop: "\<not> stop_enabled (work s)"
    and g: "find_owned_signal user_id signal_id (work s) = Some g"
    and a: "find_owned_account user_id account_id (work s) = Some a"
    and none: "find_by_signal (sg_id g) (ea_id a) (work s) = None"
    and cid: "\<forall>e \<in> set (rows (executions (work s))).
        oe_client_order_id e \<noteq> signal_client_order_id (sg_id g) (ea_id a)"
    and ro: "risks_owned user_id account_id (work s)" and po: "positions_owned user_id account_id (work s)"
    and some: "\<not> (sg_quantity g = None \<and> sg_target_position_quantity g = None)"
    by (simp_all add: engine_ready_def)
  have S: "sound s" using st J by (simp add: sound_def settled_def)
  note fl = settled_others [OF st]
  have ug: "sg_user_id g = user_id" and ia: "ea_id a = account_id"
    using owned_signal.lookup_owner(1) [OF g] owned_account.lookup_owner(2) [OF a] by simp_all
  have po': "positions_owned (sg_user_id g) (ea_id a) (work s)" using po ug ia by simp
  obtain side q where w: "wanted g a (work s) = (side, q)" by fastforce
  obtain s1 where r1: "resolve_side_and_quantity g a s = (Inr (wanted g a (work s)), s1)" and s1: "sound s1"
    "db_flush (others (work s1)) = others (work s1)" "positions_owned (sg_user_id g) (ea_id a) (work s1)"
    "\<And>u' a' y'. position_quantity u' a' y' (work s1) = position_quantity u' a' y' (work s)"
    "others (work s1) = (others (work s))\<lparr>positions := positions (work s1)\<rparr>"
    "set (t_all (executions (work s1))) = set (t_all (executions (work s)))"
    by (rule resolve_run [OF S fl po' some]) (rule that; assumption)
  let ?ex = "new_execution user_id g a side q"
  have "t_all (executions (work s)) = rows (executions (work s))"
    using settled_pend [OF st] by (simp add: t_all_settled)
  then have fresh: "\<forall>e \<in> set (t_all (executions (work s1))). oe_client_order_id e \<noteq> oe_client_order_id ?ex
      \<and> (oe_signal_id e, oe_exchange_account_id e) \<noteq> (oe_signal_id ?ex, oe_exchange_account_id ?ex)"
    using cid none s1(6) by (auto simp: new_execution_def find_by_signal_def t_find_def find_None_iff)
  have created: "oe_status ?ex = CREATED" by (simp add: new_execution_def)
  obtain e s2 where r2: "create_execution ?ex ''execution_created'' s1 = (Inr e, s2)" and s2: "sound s2"
    "e = ?ex\<lparr>oe_id := oe_id e, oe_execution_id := oe_execution_id e\<rparr>"
    "find_execution (oe_id e) (work s2) = Some e" "others (work s2) = db_flush (others (work s1))"
    by (rule create_run [OF s1(1) created fresh, of "''execution_created''"]) (rule that; assumption)
  obtain s3 where r3: "commit s2 = (Inr (), s3)" and s3: "sound s3" "work s3 = db_flush (work s2)"
    by (rule commit_run [OF s2(1)]) blast
  have o3: "others (work s3) = others (work s1)" using s1(2) s2(4) by (simp add: s3 others_flush)
  have f3: "find_execution (oe_id e) (work s3) = Some e" using s2(3) by (simp add: s3 find_execution_flush)
  have "risks (others (work s3)) = risks (others (work s))" unfolding o3 by (subst s1(5)) simp
  then have risks: "risks (work s3) = risks (work s)" by simp
  have "positions (others (work s3)) = positions (others (work s1))" unfolding o3 ..
  then have pos3: "positions (work s3) = positions (work s1)" by simp
  have ro3: "risks_owned user_id account_id (work s3)" using ro by (simp add: risks_owned_def risks)
  have fl3: "db_flush (others (work s3)) = others (work s3)" using s1(2) by (simp add: o3)
  obtain rst s4 where r4: "get_or_create_risk_settings user_id account_id s3 = (Inr rst, s4)"
    and s4: "sound s4" "db_flush (others (work s4)) = others (work s4)"
      "positions (work s4) = positions (work s3)" "rs_blocked_symbols rst \<noteq> None"
      "admission (work s4) = admission (work s3)"
      "\<And>x. find_risk_settings user_id account_id (work s3) = Some x \<Longrightarrow> rst = x"
      "find_risk_settings user_id account_id (work s3) = None \<Longrightarrow> \<not> rs_trading_enabled rst"
      "\<And>eid e. find_execution eid (work s3) = Some e \<Longrightarrow> find_execution eid (work s4) = Some e"
    by (rule risk_run [OF s3(1) fl3 ro3]) (rule that; assumption)
  define order where "order = \<lparr>ro_symbol = sg_symbol g, ro_side = side, ro_quantity = q, ro_price = sg_price g\<rparr>"
  obtain rr where rr: "check_order_risk a rst order False = Inr rr"
    using check_order_risk_total [OF s4(4)] by blast
  let ?g = "\<lambda>e. e\<lparr>oe_risk_result := Some (risk_to_dict rr)\<rparr>"
  obtain s5 where r5: "modify_execution (oe_id e) ?g s4 = (Inr (), s5)" and s5: "sound s5"
    "find_execution (oe_id e) (work s5) = Some (?g e)" "others (work s5) = others (work s4)"
    by (rule modify_run [OF s4(1) s4(8) [OF f3], of ?g]) (blast | simp)+
  let ?bad = "rc_decision rr \<noteq> PASSED \<or> dle q dzero"
  have fl5: "db_flush (others (work s5)) = others (work s5)" using s4(2) by (simp add: s5)
  have "positions (others (work s5)) = positions (others (work s4))" unfolding s5(3) ..
  then have pos5: "positions (work s5) = positions (work s1)" using s4(3) pos3 by simp
  have po5: "positions_owned user_id (ea_id a) (work s5)"
    using s1(3) ug by (simp add: positions_owned_def pos5)
  have pq5: "position_quantity u b y (work s5) = position_quantity u b y (work s)" for u b y
    using s1(4) by (simp add: position_quantity_def find_position_def pos5)
  have adm: "admission (work s5) = admission (work s)"
    using admission_others(1) [OF s5(3)] s4(5) admission_others(1) [OF o3] admission_others(2) [OF s1(5)]
    by simp
  have e: "oe_status e = CREATED" "oe_side e = side" "oe_quantity e = q" "oe_signal_id e = sg_id g"
    "oe_exchange_account_id e = ea_id a"
    by (subst s2(2), simp add: new_execution_def)+
  obtain e' x' s' where r6: "(if ?bad then bnd (fail_order (oe_id e) rr alerts) (\<lambda>e'. ret (e', x))
      else fill_order (oe_id e) user_id g a side q x) s5 = (Inr (e', x'), s')"
    and s': "sound s'" "saved s' = work s'" "db_flush (work s') = work s'"
      "find_execution (oe_id e) (work s') = Some e'" "oe_id e' = oe_id e" "oe_side e' = side"
      "oe_signal_id e' = sg_id g" "oe_exchange_account_id e' = ea_id a"
      "oe_quantity e' = q" "oe_status e' = (if ?bad then FAILED else FILLED)"
      "position_quantity user_id (ea_id a) (sg_symbol g) (work s') =
        (if ?bad then position_quantity user_id (ea_id a) (sg_symbol g) (work s5)
         else apply_side side (position_quantity user_id (ea_id a) (sg_symbol g) (work s5)) q)"
      "\<forall>u' a' y'. (a', y') \<noteq> (ea_id a, sg_symbol g) \<longrightarrow>
        position_quantity u' a' y' (work s') = position_quantity u' a' y' (work s5)"
      "admission (work s') = admission (work s5)"
    using branch_run [OF s5(1,2) _ fl5 po5, of ?bad rr alerts x g side q] e by auto
  have "find_risk_settings user_id account_id (work s3) = find_risk_settings user_id account_id (work s)"
    by (simp add: find_risk_settings_def risks)
  then have acc: "signal_accepted user_id account_id g a (work s) \<longleftrightarrow> \<not> ?bad"
    using s4(6,7) rr check_order_risk_passed [of a rst order False]
    by (cases "find_risk_settings user_id account_id (work s)")
      (auto simp: signal_accepted_def order_passes_def w order_def dcmp_dval not_le)
  note steps = bnd_Inr [where m = "resolve_side_and_quantity g a", OF r1]
    bnd_Inr [where m = "create_execution ?ex ''execution_created''", OF r2] bnd_commit_Inr [OF r3]
    bnd_Inr [where m = "get_or_create_risk_settings user_id account_id", OF r4]
    bnd_Inr [where m = "modify_execution (oe_id e) ?g", OF r5]
  have run: "execute_signal_for_account user_id signal_id account_id x alerts s = (Inr (e', x'), s')"
    using nostop g a none r6 w
    by (simp add: execute_signal_for_account_def bnd_assert_new_orders_allowed get_owned_signal_def
        get_owned_account_or_raise_def bnd_assoc steps rr order_def [symmetric])
  show ?thesis
    using run s' acc ia w pq5 adm
    by (intro exI [of _ e'] exI [of _ x'] exI [of _ s'])
      (simp add: engine_outcome_def settled_def sound_def)
qed

section \<open>Replays, refusals and trails\<close>

lemma execute_existing:
  assumes "\<not> stop_enabled (work s)" and "find_owned_signal user_id signal_id (work s) = Some g"
    and "find_owned_account user_id account_id (work s) = Some a"
    and "find_by_signal (sg_id g) (ea_id a) (work s) = Some e"
  shows "execute_signal_for_account user_id signal_id account_id x alerts s = (Inr (e, x), s)"
  using assms
  by (simp add: execute_signal_for_account_def bnd_assert_new_orders_allowed get_owned_signal_def
      get_owned_account_or_raise_def bnd_assoc)

lemma execute_stopped:
  "stop_enabled (work s) \<Longrightarrow> execute_signal_for_account user_id signal_id account_id x alerts s =
     (Inl (EmergencyStopEnabledError ''global emergency stop is enabled''), s)"
  by (simp add: execute_signal_for_account_def bnd_assert_new_orders_allowed)

lemma execute_not_owned:
  assumes "\<not> stop_enabled (work s)"
    and "find_owned_signal user_id signal_id (work s) = None
       \<or> find_owned_account user_id account_id (work s) = None"
  shows "\<exists>m. execute_signal_for_account user_id signal_id account_id x alerts s = (Inl (ValueError m), s)"
  using assms
  by (cases "find_owned_signal user_id signal_id (work s)")
    (auto simp: execute_signal_for_account_def bnd_assert_new_orders_allowed get_owned_signal_def
      get_owned_account_or_raise_def bnd_assoc)

lemma preserves_assert [preserves_rules]: "preserves J assert_new_orders_allowed"
  unfolding assert_new_orders_allowed_def by (intro preserves_rules)

lemma preserves_trails_risk_settings [preserves_rules]:
  "preserves trails_inv (get_or_create_risk_settings u a)"
  unfolding get_or_create_risk_settings_def
  by (intro preserves_rules preserves_trails_frame) simp_all

lemma preserves_trails_position [preserves_rules]:
  "preserves trails_inv (get_or_create_position u a y)"
  unfolding get_or_create_position_def
  by (intro preserves_rules preserves_trails_frame) simp_all

lemma preserves_trails_apply_fill [preserves_rules]:
  "preserves trails_inv (apply_fill u a y side q)"
  unfolding apply_fill_def
  by (intro preserves_rules preserves_trails_frame) simp_all

lemma preserves_trails_execute:
  "preserves trails_inv (execute_signal_for_account user_id signal_id account_id x alerts)"
  unfolding execute_signal_for_account_def get_owned_signal_def get_owned_account_or_raise_def
    resolve_side_and_quantity_def fail_order_def fill_order_def notify_order_failure_def
  by (intro preserves_rules) (simp_all add: new_execution_def)

section \<open>Properties\<close>

lemma sample_owned:
  "find_owned_signal ''alice'' ''sig-1'' sample_db = Some sample_signal"
  "find_owned_account ''alice'' ''acct-1'' sample_db = Some sample_account"
  "find_risk_settings ''alice'' ''acct-1'' sample_db = Some sample_risk"
  by (simp_all add: find_owned_signal_def find_owned_account_def find_risk_settings_def t_find_def
      sample_db_def sample_signal_def sample_account_def sample_risk_def)

lemma sample_not_stopped: "\<not> stop_enabled sample_db"
  by (simp add: stop_enabled_def get_control_def t_find_def sample_db_def empty_db_def t_empty_def)

lemma sample_ready: "engine_ready ''alice'' ''sig-1'' ''acct-1'' sample_signal sample_account sample_session"
  using sample_settled sample_trails sample_not_stopped
  by (simp add: engine_ready_def sample_owned)
    (simp add: find_by_signal_def t_find_def risks_owned_def positions_owned_def sample_db_def
      empty_db_def t_empty_def sample_risk_def testnet_risk_def sample_signal_def)

lemma sample_quantities:
  "position_quantity ''alice'' ''acct-1'' ''BTCUSDT'' sample_db = dzero"
  "numeric_28_10 dzero" "numeric_28_10 (Dec False 5 0)" "\<bar>dval (Dec False 5 0) - dval dzero\<bar> < 10 ^ 18"
  by (simp add: position_quantity_def find_position_def t_find_def sample_db_def empty_db_def t_empty_def)
    (simp_all add: numeric_28_10_def coef_at_def signed_coef_def dzero_def dval_Dec_False)

lemma sample_accepted: "signal_accepted ''alice'' ''acct-1'' sample_signal sample_account sample_db"
proof -
  note delta = calculate_delta_closes [OF sample_quantities(2-4), of "''BTCUSDT''"]
  show ?thesis
    using delta(1,3) check_order_risk_passed [of sample_account sample_risk
        "\<lparr>ro_symbol = ''BTCUSDT'', ro_side = BUY,
          ro_quantity = pd_delta_quantity (calculate_delta ''BTCUSDT'' dzero (Dec False 5 0)), ro_price = None\<rparr>" False]
    by (simp add: signal_accepted_def sample_owned order_passes_def wanted_def Let_def sample_signal_def sample_quantities(1)
        sample_account_def sample_risk_def in_range_def dval_Dec_False [of 5 0] dval_Dec_False [of 100 0])
qed

text \<open>C1: Executing a signal through the route returns and commits. The execution has the side and the
  quantity the signal asks for; it is \<open>FILLED\<close> exactly when the risk settings on record pass the
  order and its quantity is positive, else \<open>FAILED\<close>; the position of that account and symbol has
  moved by exactly the filled quantity, every other position is untouched; and the transition
  trails of all executions are intact.\<close>

theorem execute_signal_outcome:
  assumes "engine_ready (u_id user) signal_id account_id g a s"
  shows "\<exists>e s'. execute_signal signal_id account_id user s = (Inr e, s')
     \<and> saved s' = work s' \<and> settled (work s') \<and> both trails_inv s'
     \<and> engine_outcome (u_id user) account_id g a (work s) e (work s')"
proof -
  obtain e x' s' where r: "execute_signal_for_account (u_id user) signal_id account_id MockExchange True s
      = (Inr (e, x'), s')" and s': "sound s'" "saved s' = work s'" "settled (work s')"
      "engine_outcome (u_id user) account_id g a (work s) e (work s')"
    using execute_run [OF assms, of MockExchange True] by blast
  have "execute_signal signal_id account_id user s = (Inr e, s')"
    by (simp add: execute_signal_def try_except_def bnd_def r)
  with s' show ?thesis by (auto simp: sound_def)
qed

theorem execute_signal_outcome_witness:
  "\<exists>e s'. execute_signal ''sig-1'' ''acct-1'' sample_user sample_session = (Inr e, s')
     \<and> engine_outcome ''alice'' ''acct-1'' sample_signal sample_account sample_db e (work s')"
  using execute_signal_outcome [of sample_user "''sig-1''" "''acct-1''" sample_signal sample_account sample_session]
    sample_ready by (auto simp: sample_user_def)

text \<open>C9: A signal with a target quantity that is filled brings the position to the target, exactly.\<close>

theorem target_signal_reaches_target:
  assumes "engine_ready (u_id user) signal_id account_id g a s"
    and "sg_target_position_quantity g = Some t" and "signal_accepted (u_id user) account_id g a (work s)"
    and "numeric_28_10 (position_quantity (u_id user) account_id (sg_symbol g) (work s))"
    and "numeric_28_10 t"
    and "\<bar>dval t - dval (position_quantity (u_id user) account_id (sg_symbol g) (work s))\<bar> < 10 ^ 18"
  shows "\<exists>e x' s'. execute_signal_for_account (u_id user) signal_id account_id x alerts s = (Inr (e, x'), s')
     \<and> oe_status e = FILLED
     \<and> dval (position_quantity (u_id user) account_id (sg_symbol g) (work s')) = dval t"
proof -
  have ids: "sg_user_id g = u_id user" "ea_id a = account_id"
    using assms(1) owned_signal.lookup_owner(1) owned_account.lookup_owner(2)
    by (auto simp: engine_ready_def)
  let ?c = "position_quantity (u_id user) account_id (sg_symbol g) (work s)"
  let ?\<delta> = "calculate_delta (sg_symbol g) ?c t"
  obtain e x' s' where r: "execute_signal_for_account (u_id user) signal_id account_id x alerts s = (Inr (e, x'), s')"
    and o: "engine_outcome (u_id user) account_id g a (work s) e (work s')"
    using execute_run [OF assms(1), of x alerts] by blast
  note delta = calculate_delta_closes [OF assms(4-6), of "sg_symbol g"]
  have w: "wanted g a (work s) = (case pd_side ?\<delta> of None \<Rightarrow> sg_side g | Some sd \<Rightarrow> sd, pd_delta_quantity ?\<delta>)"
    using assms(2) ids by (simp add: wanted_def Let_def)
  obtain st where "order_passes a st (sg_symbol g) (fst (wanted g a (work s)))
      (snd (wanted g a (work s))) (sg_price g)"
    using assms(3) by (auto simp: signal_accepted_def)
  then have "0 < dval (pd_delta_quantity ?\<delta>)" by (simp add: order_passes_def w)
  then obtain sd where sd: "pd_side ?\<delta> = Some sd"
    using delta(1,3) by (auto split: if_splits)
  have "oe_status e = FILLED" "oe_side e = sd" "oe_quantity e = pd_delta_quantity ?\<delta>"
    using o assms(3) by (simp_all add: engine_outcome_def w sd)
  with o delta(4) [OF sd] r show ?thesis by (auto simp: engine_outcome_def)
qed

theorem target_signal_reaches_target_witness:
  "\<exists>e x' s'. execute_signal_for_account ''alice'' ''sig-1'' ''acct-1'' MockExchange True sample_session = (Inr (e, x'), s')
     \<and> dval (position_quantity ''alice'' ''acct-1'' ''BTCUSDT'' (work s')) = 5"
  using target_signal_reaches_target [of sample_user "''sig-1''" "''acct-1''" sample_signal sample_account
      sample_session "Dec False 5 0" MockExchange True] sample_ready sample_accepted sample_quantities
  by (auto simp: sample_user_def sample_signal_def dval_Dec_False [of 5 0])

text \<open>C3: Executing is idempotent: a second request for the same signal and account returns the
  execution of the first one and changes nothing, in the exchange or in the database.\<close>

theorem execute_twice:
  assumes "engine_ready user_id signal_id account_id g a s"
  shows "\<exists>e x' s'. execute_signal_for_account user_id signal_id account_id x alerts s = (Inr (e, x'), s')
     \<and> execute_signal_for_account user_id signal_id account_id x' alerts' s' = (Inr (e, x'), s')"
proof -
  obtain e x' s' where r: "execute_signal_for_account user_id signal_id account_id x alerts s = (Inr (e, x'), s')"
    and s': "sound s'" "settled (work s')" "engine_outcome user_id account_id g a (work s) e (work s')"
      "admission (work s') = admission (work s)" "oe_signal_id e = sg_id g" "oe_exchange_account_id e = ea_id a"
    using execute_run [OF assms, of x alerts] by blast
  have adm: "signals (work s') = signals (work s)" "accounts (work s') = accounts (work s)"
    "controls (work s') = controls (work s)" using s'(4) by (simp_all add: admission_def)
  have e: "e \<in> set (rows (executions (work s')))"
    using s'(3) by (auto simp: engine_outcome_def find_execution_def dest: t_find_SomeD)
  have "distinct (map (\<lambda>r. (oe_signal_id r, oe_exchange_account_id r)) (rows (executions (work s'))))"
    using s'(1) by (simp add: sound_def db_unique_def t_all_def)
  then have "inj_on (\<lambda>r. (oe_signal_id r, oe_exchange_account_id r)) (set (rows (executions (work s'))))"
    by (simp add: distinct_map)
  then have "x = e" if "x \<in> set (rows (executions (work s')))"
      "oe_signal_id x = sg_id g \<and> oe_exchange_account_id x = ea_id a" for x
    by (rule inj_onD) (use that e s'(5,6) in simp_all)
  then have "find_by_signal (sg_id g) (ea_id a) (work s') = Some e"
    unfolding find_by_signal_def by (intro t_find_unique [OF e]) (simp_all add: s')
  moreover have "\<not> stop_enabled (work s')" "find_owned_signal user_id signal_id (work s') = Some g"
    "find_owned_account user_id account_id (work s') = Some a"
    using assms adm by (simp_all add: engine_ready_def stop_enabled_def get_control_def
        find_owned_signal_def find_owned_account_def)
  ultimately have "execute_signal_for_account user_id signal_id account_id x' alerts' s' = (Inr (e, x'), s')"
    by (intro execute_existing)
  with r show ?thesis by blast
qed

theorem execute_twice_witness:
  "\<exists>e x' s'. execute_signal_for_account ''alice'' ''sig-1'' ''acct-1'' MockExchange True sample_session = (Inr (e, x'), s')
     \<and> execute_signal_for_account ''alice'' ''sig-1'' ''acct-1'' x' False s' = (Inr (e, x'), s')"
  by (rule execute_twice [OF sample_ready])

text \<open>While the emergency stop is on, the execution route answers 423 and changes nothing; a signal
  or an account that is not the caller's is answered 404, and nothing changes.\<close>

theorem execute_refusals:
  "(stop_enabled (work s) \<longrightarrow> execute_signal signal_id account_id user s =
      (Inl (HTTPException 423 [''global emergency stop is enabled'']), s))
   \<and> (\<not> stop_enabled (work s) \<longrightarrow> find_owned_signal (u_id user) signal_id (work s) = None
        \<or> find_owned_account (u_id user) account_id (work s) = None \<longrightarrow>
      (\<exists>m. execute_signal signal_id account_id user s = (Inl (HTTPException 404 [m]), s)))"
proof (cases "stop_enabled (work s)")
  case True
  then show ?thesis
    using execute_stopped [OF True] by (simp add: execute_signal_def try_except_def bnd_def)
next
  case False
  then show ?thesis
    using execute_not_owned [OF False, of "u_id user" signal_id account_id MockExchange True]
    by (auto simp: execute_signal_def try_except_def bnd_def)
qed

theorem execute_refusals_witness:
  "\<exists>m. execute_signal ''sig-1'' ''acct-1'' (sample_user\<lparr>u_id := ''mallory''\<rparr>) sample_session =
     (Inl (HTTPException 404 [m]), sample_session)"
  using execute_refusals [of sample_session "''sig-1''" "''acct-1''" "sample_user\<lparr>u_id := ''mallory''\<rparr>"]
    sample_not_stopped
  by (simp add: find_owned_signal_def t_find_def sample_db_def sample_signal_def)

end
