(* ===== verification/Testnet_Gate.thy ===== *)
theory Testnet_Gate
  imports Order_Engine
begin

text \<open>
  What must hold before a testnet order may be sent: the endpoint table
  (\<open>exchanges/testnet_config.py\<close>), the preflight gate (\<open>services/testnet_order_gate.py\<close>), the
  operator's window plan (\<open>services/testnet_order_window.py\<close>), the admission report
  (\<open>services/testnet_order_admission.py\<close>), the recorded window approval and the authorization
  that every submission needs (\<open>services/testnet_order_window_approval.py\<close>), with their routes
  (\<open>api/v1/orders.py\<close>).
\<close>

section \<open>Endpoints and readiness\<close>

record endpoint_config =
  ep_exchange_name :: exchange_name
  ep_rest_base_url :: string
  ep_public_ws_url :: "string option"
  ep_private_ws_url :: "string option"
  ep_demo_header_required :: bool
  ep_notes :: string

definition TESTNET_ENDPOINTS :: "(exchange_name \<times> endpoint_config) list" where
  "TESTNET_ENDPOINTS =
     [(BINANCE, \<lparr>ep_exchange_name = BINANCE, ep_rest_base_url = ''https://testnet.binance.vision'',
        ep_public_ws_url = Some ''wss://stream.testnet.binance.vision/ws'', ep_private_ws_url = None,
        ep_demo_header_required = False,
        ep_notes = ''Binance Spot Testnet data is periodically reset.''\<rparr>),
      (BYBIT, \<lparr>ep_exchange_name = BYBIT, ep_rest_base_url = ''https://api-testnet.bybit.com'',
        ep_public_ws_url = Some ''wss://stream-testnet.bybit.com/v5/public/spot'',
        ep_private_ws_url = Some ''wss://stream-testnet.bybit.com/v5/private'',
        ep_demo_header_required = False, ep_notes = ''''\<rparr>),
      (OKX, \<lparr>ep_exchange_name = OKX, ep_rest_base_url = ''https://www.okx.com'',
        ep_public_ws_url = Some ''wss://wspap.okx.com:8443/ws/v5/public'',
        ep_private_ws_url = Some ''wss://wspap.okx.com:8443/ws/v5/private'',
        ep_demo_header_required = True,
        ep_notes = ''OKX Demo Trading REST uses the OKX REST domain with demo trading authentication context.''\<rparr>)]"

definition get_testnet_endpoint_config :: "exchange_name \<Rightarrow> endpoint_config result" where
  "get_testnet_endpoint_config x =
     (case map_of TESTNET_ENDPOINTS x of None \<Rightarrow> Inl (KeyError (exchange_value x)) | Some c \<Rightarrow> Inr c)"

definition has_endpoint :: "exchange_name \<Rightarrow> bool" where
  "has_endpoint x \<longleftrightarrow> x \<in> fst ` set TESTNET_ENDPOINTS"

lemma has_endpoint_iff [simp]: "has_endpoint x \<longleftrightarrow> x \<noteq> MOCK"
  by (cases x) (simp_all add: has_endpoint_def TESTNET_ENDPOINTS_def)

text \<open>A gate's answer: approved (or ready) exactly when no reason was collected.\<close>

record gate_result =
  gr_approved :: bool
  gr_reasons :: "string list"

definition gate_of :: "(bool \<times> string) list \<Rightarrow> gate_result" where
  "gate_of cs = (let reasons = collect_reasons cs in \<lparr>gr_approved = (reasons = []), gr_reasons = reasons\<rparr>)"

definition check_testnet_readiness ::
    "exchange_name \<Rightarrow> account_mode \<Rightarrow> bool \<Rightarrow> bool \<Rightarrow> gate_result" where
  "check_testnet_readiness x mode trading_enabled api_key_configured = gate_of
     [(\<not> has_endpoint x, ''exchange does not have a configured testnet endpoint''),
      (mode \<noteq> TESTNET, ''account mode must be TESTNET''),
      (trading_enabled, ''trading must remain disabled for testnet readiness checks''),
      (\<not> api_key_configured, ''testnet API key metadata must be configured'')]"

section \<open>The preflight gate\<close>

record gate_input =
  gi_exchange_name :: exchange_name
  gi_account_mode :: account_mode
  gi_testnet_adapters_enabled :: bool
  gi_exchange_account_trading_enabled :: bool
  gi_risk_trading_enabled :: bool
  gi_api_key_configured :: bool
  gi_manual_testnet_order_enable_confirmed :: bool

definition gate_conds :: "gate_input \<Rightarrow> (bool \<times> string) list" where
  "gate_conds i =
     [(\<not> has_endpoint (gi_exchange_name i), ''exchange does not support testnet order routing''),
      (gi_account_mode i \<noteq> TESTNET, ''account mode must be TESTNET before testnet orders''),
      (\<not> gi_testnet_adapters_enabled i, ''TESTNET_ADAPTERS_ENABLED must be true before testnet orders''),
      (\<not> gi_exchange_account_trading_enabled i,
       ''exchange account trading_enabled must be true before testnet orders''),
      (\<not> gi_risk_trading_enabled i, ''risk settings trading_enabled must be true before testnet orders''),
      (\<not> gi_api_key_configured i, ''testnet API key metadata must be configured before testnet orders''),
      (\<not> gi_manual_testnet_order_enable_confirmed i,
       ''manual testnet order enable confirmation must be recorded'')]"

definition check_testnet_order_gate :: "gate_input \<Rightarrow> gate_result" where
  "check_testnet_order_gate i = gate_of (gate_conds i)"

section \<open>The window plan\<close>

record window_plan =
  wp_exchange_account_id :: string
  wp_ready :: bool
  wp_exchange_name :: exchange_name
  wp_account_mode :: account_mode
  wp_testnet_adapters_enabled :: bool
  wp_exchange_account_trading_enabled :: bool
  wp_risk_settings_exist :: bool
  wp_risk_trading_enabled :: bool
  wp_api_key_configured :: bool
  wp_blocked_reasons :: "string list"
  wp_required_operator_steps :: "string list"
  wp_mutations_allowed :: bool
  wp_order_submission_authorized :: bool

definition pre_window_blocked_reasons :: "account_mode \<Rightarrow> bool \<Rightarrow> bool \<Rightarrow> string list" where
  "pre_window_blocked_reasons mode risk_settings_exist api_key_configured = collect_reasons
     [(mode \<noteq> TESTNET, ''account mode must be TESTNET before preparing an order window''),
      (\<not> risk_settings_exist, ''risk settings must exist before preparing an order window''),
      (\<not> api_key_configured, ''encrypted API key metadata must exist before preparing an order window'')]"

definition required_operator_steps :: "string list \<Rightarrow> string list" where
  "required_operator_steps gate_reasons =
     [''complete docs/phase-3-testnet-order-admission-checklist.md'',
      ''record a separate explicit approval for a bounded TESTNET order window'',
      ''temporarily set TESTNET_ADAPTERS_ENABLED=true only during the approved window'',
      ''temporarily enable exchange_account.trading_enabled for the selected account only'',
      ''temporarily enable risk_settings.trading_enabled for the selected account only'',
      ''record manual testnet order enable confirmation in append-only audit logs'',
      ''submit at most the separately approved test order with an idempotent client_order_id'',
      ''restore TESTNET_ADAPTERS_ENABLED=false and both trading_enabled flags to false'',
      ''current gate still blocks submission: '' @ join ''; '' gate_reasons]"

definition account_or_value_error :: "string \<Rightarrow> string \<Rightarrow> exchange_account op" where
  "account_or_value_error user_id account_id = bnd (get_owned_account user_id account_id) (\<lambda>account.
     case account of None \<Rightarrow> raise (ValueError ''account not found'') | Some a \<Rightarrow> ret a)"

definition risk_enabled :: "risk_setting option \<Rightarrow> bool" where
  "risk_enabled r = (case r of None \<Rightarrow> False | Some st \<Rightarrow> rs_trading_enabled st)"

definition gate_for ::
    "exchange_account \<Rightarrow> bool \<Rightarrow> bool \<Rightarrow> bool \<Rightarrow> bool \<Rightarrow> gate_input" where
  "gate_for account adapters risk key confirmed =
     \<lparr>gi_exchange_name = ea_exchange_name account, gi_account_mode = ea_account_mode account,
      gi_testnet_adapters_enabled = adapters,
      gi_exchange_account_trading_enabled = ea_trading_enabled account,
      gi_risk_trading_enabled = risk, gi_api_key_configured = key,
      gi_manual_testnet_order_enable_confirmed = confirmed\<rparr>"

definition build_testnet_order_window_plan :: "string \<Rightarrow> string \<Rightarrow> bool \<Rightarrow> window_plan op" where
  "build_testnet_order_window_plan user_id account_id testnet_adapters_enabled =
     bnd (account_or_value_error user_id account_id) (\<lambda>account.
     bnd (query (find_risk_settings user_id (ea_id account))) (\<lambda>risk_settings.
     bnd (get_api_key_secret_metadata user_id (ea_id account)) (\<lambda>secret_metadata.
       let risk_trading_enabled = risk_enabled risk_settings;
           api_key_configured = (secret_metadata \<noteq> None);
           gate = check_testnet_order_gate (gate_for account testnet_adapters_enabled
                    risk_trading_enabled api_key_configured False);
           blocked_reasons = pre_window_blocked_reasons (ea_account_mode account)
                    (risk_settings \<noteq> None) api_key_configured
       in ret \<lparr>wp_exchange_account_id = ea_id account, wp_ready = (blocked_reasons = []),
            wp_exchange_name = ea_exchange_name account, wp_account_mode = ea_account_mode account,
            wp_testnet_adapters_enabled = testnet_adapters_enabled,
            wp_exchange_account_trading_enabled = ea_trading_enabled account,
            wp_risk_settings_exist = (risk_settings \<noteq> None),
            wp_risk_trading_enabled = risk_trading_enabled,
            wp_api_key_configured = api_key_configured, wp_blocked_reasons = blocked_reasons,
            wp_required_operator_steps = required_operator_steps (gr_reasons gate),
            wp_mutations_allowed = False, wp_order_submission_authorized = False\<rparr>)))"

section \<open>The admission report\<close>

record admission_check =
  ck_name :: string
  ck_pass :: bool
  ck_required :: bool
  ck_detail :: string

record admission_report =
  ar_exchange_account_id :: string
  ar_exchange_name :: exchange_name
  ar_account_mode :: account_mode
  ar_pass :: bool
  ar_checks :: "admission_check list"
  ar_gate_reasons :: "string list"
  ar_read_only :: bool
  ar_order_submission_authorized :: bool

definition admission_check_of :: "string \<Rightarrow> bool \<Rightarrow> string \<Rightarrow> string \<Rightarrow> admission_check" where
  "admission_check_of name condition pass_detail fail_detail =
     \<lparr>ck_name = name, ck_pass = condition, ck_required = True,
      ck_detail = (if condition then pass_detail else fail_detail)\<rparr>"

text \<open>Whether the audit log table can be read is a fact about the database server; it is an argument.\<close>

definition build_testnet_order_admission_report ::
    "bool \<Rightarrow> string \<Rightarrow> string \<Rightarrow> bool \<Rightarrow> admission_report op" where
  "build_testnet_order_admission_report audit_readable user_id account_id adapters =
     bnd (account_or_value_error user_id account_id) (\<lambda>account.
     bnd (query (find_risk_settings user_id (ea_id account))) (\<lambda>risk_settings.
     bnd (get_api_key_secret_metadata user_id (ea_id account)) (\<lambda>secret_metadata.
       let gate = check_testnet_order_gate (gate_for account adapters (risk_enabled risk_settings)
                    (secret_metadata \<noteq> None) False);
           checks =
             [admission_check_of ''exchange_supports_testnet_order_routing''
                (has_endpoint (ea_exchange_name account))
                ''exchange has a configured testnet/demo endpoint''
                ''exchange is not supported for testnet order routing'',
              admission_check_of ''account_mode_is_testnet'' (ea_account_mode account = TESTNET)
                ''account mode is TESTNET'' ''account mode must be TESTNET'',
              admission_check_of ''testnet_adapters_disabled_before_window'' (\<not> adapters)
                ''TESTNET_ADAPTERS_ENABLED is false before an approved order window''
                ''TESTNET_ADAPTERS_ENABLED is already true; verify rollback before proceeding'',
              admission_check_of ''exchange_account_trading_disabled_before_window''
                (\<not> ea_trading_enabled account)
                ''exchange account trading is disabled before an approved order window''
                ''exchange account trading is already enabled'',
              admission_check_of ''risk_settings_exist'' (risk_settings \<noteq> None)
                ''risk settings exist for the account'' ''risk settings must exist before admission'',
              admission_check_of ''risk_trading_disabled_before_window''
                (case risk_settings of None \<Rightarrow> False | Some st \<Rightarrow> \<not> rs_trading_enabled st)
                ''risk setting trading is disabled before an approved order window''
                ''risk setting trading is enabled or missing'',
              admission_check_of ''encrypted_api_key_metadata_configured'' (secret_metadata \<noteq> None)
                ''encrypted API key metadata exists without exposing secret material''
                ''encrypted API key metadata is missing'',
              admission_check_of ''audit_log_table_readable'' audit_readable
                ''audit log table is readable; this probe does not write audit rows''
                ''audit log table is not readable'',
              admission_check_of ''current_order_gate_blocks_submission'' (\<not> gr_approved gate)
                ''current gate blocks submission because no manual order approval is accepted here''
                ''current gate unexpectedly approves order submission'']
       in ret \<lparr>ar_exchange_account_id = ea_id account, ar_exchange_name = ea_exchange_name account,
            ar_account_mode = ea_account_mode account,
            ar_pass = list_all (\<lambda>c. ck_required c \<longrightarrow> ck_pass c) checks, ar_checks = checks,
            ar_gate_reasons = gr_reasons gate, ar_read_only = True,
            ar_order_submission_authorized = False\<rparr>)))"

section \<open>The window approval\<close>

definition TESTNET_ORDER_WINDOW_APPROVAL_ACK :: string where
  "TESTNET_ORDER_WINDOW_APPROVAL_ACK = ''APPROVE_TESTNET_ORDER_WINDOW_ONLY''"

record window_approval =
  wa_audit_log_id :: string
  wa_exchange_account_id :: string
  wa_exchange_name :: exchange_name
  wa_symbol :: string
  wa_side :: order_side
  wa_max_quantity :: dec
  wa_max_notional :: dec
  wa_duration_minutes :: int
  wa_order_submission_authorized :: bool
  wa_trading_flags_changed :: bool

record window_authorization =
  wz_audit_log_id :: string
  wz_expires_at :: datetime

text \<open>The validated body \<open>TestnetOrderWindowApprovalRequest\<close>.\<close>

record approval_request =
  aq_exchange_account_id :: string
  aq_symbol :: string
  aq_side :: order_side
  aq_max_quantity :: dec
  aq_max_notional :: dec
  aq_duration_minutes :: int
  aq_acknowledgement :: string

definition approval_conds ::
    "user_role \<Rightarrow> exchange_account \<Rightarrow> bool \<Rightarrow> risk_setting option \<Rightarrow> bool \<Rightarrow> int \<Rightarrow> string
     \<Rightarrow> (bool \<times> string) list" where
  "approval_conds role account adapters risk_settings key duration_minutes acknowledgement =
     [(role \<notin> {SUPER_ADMIN, ADMIN}, ''admin privileges are required to approve a testnet order window''),
      (\<not> has_endpoint (ea_exchange_name account), ''exchange does not support testnet order routing''),
      (\<not> ea_is_active account, ''exchange account must be active before approving an order window''),
      (ea_account_mode account \<noteq> TESTNET, ''account mode must be TESTNET before approving an order window''),
      (adapters, ''TESTNET_ADAPTERS_ENABLED must still be false before approval is recorded''),
      (ea_trading_enabled account, ''exchange account trading_enabled must still be false before approval''),
      (risk_settings = None, ''risk settings must exist before approving an order window''),
      (risk_enabled risk_settings, ''risk settings trading_enabled must still be false before approval''),
      (\<not> key, ''encrypted API key metadata must exist before approving an order window''),
      (duration_minutes < 1 \<or> duration_minutes > 10,
       ''testnet order window duration must be between 1 and 10 minutes''),
      (acknowledgement \<noteq> TESTNET_ORDER_WINDOW_APPROVAL_ACK,
       ''explicit testnet order window acknowledgement is required'')]"

definition approval_blocked_reasons ::
    "user_role \<Rightarrow> exchange_account \<Rightarrow> bool \<Rightarrow> risk_setting option \<Rightarrow> bool \<Rightarrow> int \<Rightarrow> string \<Rightarrow> string list" where
  "approval_blocked_reasons role account adapters risk_settings key duration_minutes acknowledgement =
     collect_reasons (approval_conds role account adapters risk_settings key duration_minutes acknowledgement)"

definition APPROVAL_ACTION :: string where
  "APPROVAL_ACTION = ''testnet.order_window.approval_recorded''"

definition approval_payload :: "exchange_account \<Rightarrow> approval_request \<Rightarrow> pydict" where
  "approval_payload account r =
     [(''exchange_name'', PStr (exchange_value (ea_exchange_name account))),
      (''account_mode'', PStr (mode_value (ea_account_mode account))),
      (''symbol'', PStr (aq_symbol r)), (''side'', PStr (side_value (aq_side r))),
      (''max_quantity'', PStr (dec_str (aq_max_quantity r))),
      (''max_notional'', PStr (dec_str (aq_max_notional r))),
      (''duration_minutes'', PInt (aq_duration_minutes r)),
      (''acknowledgement'', PStr (aq_acknowledgement r)),
      (''order_submission_authorized'', PBool False), (''trading_flags_changed'', PBool False)]"

definition record_testnet_order_window_approval ::
    "string \<Rightarrow> user_role \<Rightarrow> approval_request \<Rightarrow> bool \<Rightarrow> window_approval op" where
  "record_testnet_order_window_approval user_id user_role r adapters =
     bnd (account_or_value_error user_id (aq_exchange_account_id r)) (\<lambda>account.
     bnd (query (find_risk_settings user_id (ea_id account))) (\<lambda>risk_settings.
     bnd (get_api_key_secret_metadata user_id (ea_id account)) (\<lambda>secret_metadata.
       let reasons = approval_blocked_reasons user_role account adapters risk_settings
                       (secret_metadata \<noteq> None) (aq_duration_minutes r) (aq_acknowledgement r)
       in if reasons \<noteq> [] then raise (TestnetOrderWindowApprovalBlockedError reasons)
          else bnd (add_audit user_id (Some (ea_id account)) APPROVAL_ACTION ''WARNING''
                      (approval_payload account r)) (\<lambda>audit_log.
               bnd commit (\<lambda>_.
                 ret \<lparr>wa_audit_log_id = al_id audit_log, wa_exchange_account_id = ea_id account,
                      wa_exchange_name = ea_exchange_name account, wa_symbol = aq_symbol r,
                      wa_side = aq_side r, wa_max_quantity = aq_max_quantity r,
                      wa_max_notional = aq_max_notional r,
                      wa_duration_minutes = aq_duration_minutes r,
                      wa_order_submission_authorized = False, wa_trading_flags_changed = False\<rparr>)))))"

text \<open>
  \<open>order_by(created_at.desc())\<close> and the first row: the row with the latest instant. Between rows
  of the same instant the database is free; the model takes the one inserted last.
\<close>

fun latest :: "audit_log list \<Rightarrow> audit_log option" where
  "latest [] = None"
| "latest (l # ls) = (case latest ls of
      None \<Rightarrow> Some l
    | Some m \<Rightarrow> if dt_instant (al_created_at m) < dt_instant (al_created_at l) then Some l else Some m)"

definition find_window_approval :: "string \<Rightarrow> string \<Rightarrow> db \<Rightarrow> audit_log option" where
  "find_window_approval user_id account_id d =
     latest (t_select (\<lambda>l. al_user_id l = user_id \<and> al_exchange_account_id l = Some account_id
                            \<and> al_action l = APPROVAL_ACTION) (audits d))"

text \<open>
  \<open>Decimal(str(value))\<close> and \<open>int(str(value))\<close>: a value that does not parse adds a reason. A
  comparison \<open>q > m\<close> with a value that is not a number raises \<open>InvalidOperation\<close>.
\<close>

definition decimal_from_payload :: "pyval \<Rightarrow> decimal option" where
  "decimal_from_payload v = dec_parse (py_str v)"

definition int_from_payload :: "pyval \<Rightarrow> int option" where
  "int_from_payload v = py_int (py_str v)"

fun dec_gt :: "dec \<Rightarrow> decimal \<Rightarrow> bool result" where
  "dec_gt q (Finite m) = Inr (dlt m q)"
| "dec_gt q (Infinity neg) = Inr neg"
| "dec_gt q NaN = Inl InvalidOperation"

definition over_quantity :: "dec \<Rightarrow> decimal option \<Rightarrow> bool result" where
  "over_quantity quantity max_quantity =
     (case max_quantity of None \<Rightarrow> Inr False | Some m \<Rightarrow> dec_gt quantity m)"

definition over_notional :: "dec \<Rightarrow> dec option \<Rightarrow> decimal option \<Rightarrow> bool result" where
  "over_notional quantity price max_notional =
     (case price of None \<Rightarrow> Inr False | Some p \<Rightarrow>
        (case max_notional of None \<Rightarrow> Inr False | Some m \<Rightarrow> dec_gt (dmul quantity p) m))"

definition authorization_conds ::
    "pydict \<Rightarrow> string \<Rightarrow> order_side \<Rightarrow> dec option \<Rightarrow> bool \<Rightarrow> bool \<Rightarrow> bool \<Rightarrow> (bool \<times> string) list" where
  "authorization_conds payload symbol side price too_much too_dear late =
     (let duration_minutes = int_from_payload (dict_get payload ''duration_minutes'');
          bad_duration = (case duration_minutes of None \<Rightarrow> True | Some n \<Rightarrow> n < 1 \<or> n > 10)
      in [(price = None, ''limit price is required for approved testnet order windows''),
          (decimal_from_payload (dict_get payload ''max_quantity'') = None,
           ''testnet order window audit max_quantity is invalid''),
          (decimal_from_payload (dict_get payload ''max_notional'') = None,
           ''testnet order window audit max_notional is invalid''),
          (duration_minutes = None, ''testnet order window audit duration_minutes is invalid''),
          (upper (strip (py_str (dict_get_or payload ''symbol'' (PStr '''')))) \<noteq> upper (strip symbol),
           ''testnet order symbol must match the approved window''),
          (py_str (dict_get_or payload ''side'' (PStr '''')) \<noteq> side_value side,
           ''testnet order side must match the approved window''),
          (too_much, ''testnet order quantity exceeds the approved window''),
          (too_dear, ''testnet order notional exceeds the approved window''),
          (bad_duration, ''testnet order window audit duration is invalid''),
          (\<not> bad_duration \<and> late, ''testnet order window approval has expired'')])"

definition require_valid_testnet_order_window_authorization ::
    "string \<Rightarrow> string \<Rightarrow> string \<Rightarrow> order_side \<Rightarrow> dec \<Rightarrow> dec option \<Rightarrow> datetime option
     \<Rightarrow> window_authorization op" where
  "require_valid_testnet_order_window_authorization user_id account_id symbol side quantity price now =
     bnd (query (find_window_approval user_id account_id)) (\<lambda>found. bnd (reads now_utc) (\<lambda>clock_now.
       case found of
         None \<Rightarrow> raise (TestnetOrderWindowAuthorizationError (collect_reasons
           [(price = None, ''limit price is required for approved testnet order windows''),
            (True, ''valid testnet order window approval audit log is required'')]))
       | Some audit_log \<Rightarrow>
           let payload = al_payload audit_log;
               max_quantity = decimal_from_payload (dict_get payload ''max_quantity'');
               max_notional = decimal_from_payload (dict_get payload ''max_notional'');
               duration_minutes = int_from_payload (dict_get payload ''duration_minutes'')
           in bnd (lift_result (over_quantity quantity max_quantity)) (\<lambda>too_much.
              bnd (lift_result (over_notional quantity price max_notional)) (\<lambda>too_dear.
              bnd (lift_result (as_utc (al_created_at audit_log))) (\<lambda>created_at.
              bnd (lift_result (as_utc (case now of None \<Rightarrow> clock_now | Some t \<Rightarrow> t))) (\<lambda>now_utc'.
              bnd (lift_result (add_minutes created_at
                     (case duration_minutes of None \<Rightarrow> 0 | Some n \<Rightarrow> n))) (\<lambda>expires_at.
                let reasons = collect_reasons (authorization_conds payload symbol side price
                      too_much too_dear (dt_wall expires_at < dt_wall now_utc'))
                in if reasons \<noteq> [] then raise (TestnetOrderWindowAuthorizationError reasons)
                   else ret \<lparr>wz_audit_log_id = al_id audit_log, wz_expires_at = expires_at\<rparr>)))))))"

section \<open>Routes\<close>

definition value_error_404 :: "py_exc \<Rightarrow> 'a op option" where
  "value_error_404 e = (case e of
      ValueError m \<Rightarrow> Some (raise (HTTPException 404 [m]))
    | TestnetOrderEventValidationError m \<Rightarrow> Some (raise (HTTPException 404 [m]))
    | _ \<Rightarrow> None)"

definition get_testnet_order_admission_check ::
    "bool \<Rightarrow> bool \<Rightarrow> string \<Rightarrow> user \<Rightarrow> admission_report op" where
  "get_testnet_order_admission_check audit_readable adapters account_id current_user =
     try_except (build_testnet_order_admission_report audit_readable (u_id current_user) account_id adapters)
       value_error_404"

definition get_testnet_order_window_plan :: "bool \<Rightarrow> string \<Rightarrow> user \<Rightarrow> window_plan op" where
  "get_testnet_order_window_plan adapters account_id current_user =
     try_except (build_testnet_order_window_plan (u_id current_user) account_id adapters) value_error_404"

definition approve_testnet_order_window :: "bool \<Rightarrow> approval_request \<Rightarrow> user \<Rightarrow> window_approval op" where
  "approve_testnet_order_window adapters payload current_user =
     try_except (record_testnet_order_window_approval (u_id current_user) (u_role current_user) payload adapters)
       (\<lambda>e. case e of
          TestnetOrderWindowApprovalBlockedError reasons \<Rightarrow> Some (raise (HTTPException 400 reasons))
        | _ \<Rightarrow> value_error_404 e)"

section \<open>Behaviour\<close>

interpretation order_gate: reason_gate gate_conds
  "\<lambda>i. gr_reasons (check_testnet_order_gate i)" "\<lambda>i. gr_approved (check_testnet_order_gate i)"
  by unfold_locales (simp_all add: check_testnet_order_gate_def gate_of_def Let_def)

interpretation approval_gate: reason_gate
  "\<lambda>(r, a, ad, rs, k, n, ack). approval_conds r a ad rs k n ack"
  "\<lambda>(r, a, ad, rs, k, n, ack). approval_blocked_reasons r a ad rs k n ack"
  "\<lambda>(r, a, ad, rs, k, n, ack). approval_blocked_reasons r a ad rs k n ack = []"
  by unfold_locales (auto simp: approval_blocked_reasons_def split: prod.splits)

lemma approval_reasons_empty:
  "approval_blocked_reasons role a adapters rs key n ack = [] \<longleftrightarrow>
     role \<in> {SUPER_ADMIN, ADMIN} \<and> ea_exchange_name a \<noteq> MOCK \<and> ea_is_active a
     \<and> ea_account_mode a = TESTNET \<and> \<not> adapters \<and> \<not> ea_trading_enabled a
     \<and> (\<exists>st. rs = Some st \<and> \<not> rs_trading_enabled st) \<and> key \<and> 1 \<le> n \<and> n \<le> 10
     \<and> ack = TESTNET_ORDER_WINDOW_APPROVAL_ACK"
  using approval_gate.approves_iff [of "(role, a, adapters, rs, key, n, ack)"]
  by (cases rs) (auto simp: approval_conds_def risk_enabled_def)

lemma account_or_value_error_apply [act_simps]:
  "bnd (account_or_value_error u i) g s = (case find_owned_account u i (work s) of
      None \<Rightarrow> (Inl (ValueError ''account not found''), s) | Some a \<Rightarrow> g a s)"
  by (simp add: account_or_value_error_def get_owned_account_def bnd_assoc split: option.split)

lemma record_approval_apply:
  "record_testnet_order_window_approval u role r adapters s =
    (case find_owned_account u (aq_exchange_account_id r) (work s) of
       None \<Rightarrow> (Inl (ValueError ''account not found''), s)
     | Some a \<Rightarrow>
         let reasons = approval_blocked_reasons role a adapters (find_risk_settings u (ea_id a) (work s))
               (find_secret_metadata u (ea_id a) (work s) \<noteq> None) (aq_duration_minutes r) (aq_acknowledgement r);
             l = \<lparr>al_id = uuid_src s (uuid_next s), al_user_id = u, al_exchange_account_id = Some (ea_id a),
                  al_action = APPROVAL_ACTION, al_severity = ''WARNING'',
                  al_payload = approval_payload a r, al_created_at = now_utc s\<rparr>;
             d = (work s)\<lparr>audits := t_add l (audits (work s))\<rparr>;
             s1 = s\<lparr>uuid_next := Suc (uuid_next s)\<rparr>
         in if reasons \<noteq> [] then (Inl (TestnetOrderWindowApprovalBlockedError reasons), s)
            else if db_unique (work s)
            then (Inr \<lparr>wa_audit_log_id = al_id l, wa_exchange_account_id = ea_id a,
                      wa_exchange_name = ea_exchange_name a, wa_symbol = aq_symbol r, wa_side = aq_side r,
                      wa_max_quantity = aq_max_quantity r, wa_max_notional = aq_max_notional r,
                      wa_duration_minutes = aq_duration_minutes r,
                      wa_order_submission_authorized = False, wa_trading_flags_changed = False\<rparr>,
                  s1\<lparr>work := db_flush d, saved := db_flush d\<rparr>)
            else (Inl IntegrityError, s1\<lparr>work := saved s\<rparr>))"
  by (simp add: record_testnet_order_window_approval_def account_or_value_error_apply
      get_api_key_secret_metadata_def add_audit_apply bnd_commit Let_def split: option.split)

lemma latest_snoc:
  "\<forall>x \<in> set ls. dt_instant (al_created_at x) \<le> dt_instant (al_created_at l) \<Longrightarrow> latest (ls @ [l]) = Some l"
  by (induction ls) auto

lemma latest_mem: "latest ls = Some l \<Longrightarrow> l \<in> set ls"
  by (induction ls arbitrary: l) (auto split: option.splits if_splits)

lemma int_from_payload_minutes:
  assumes "1 \<le> n" and "n \<le> 10"
  shows "int_from_payload (PInt n) = Some n"
proof -
  have "\<forall>k \<in> set [1..10]. int_from_payload (PInt k) = Some k" by code_simp
  with assms show ?thesis by simp
qed

text \<open>What an authorization certifies.\<close>

definition authorizes ::
    "audit_log \<Rightarrow> string \<Rightarrow> order_side \<Rightarrow> dec \<Rightarrow> dec option \<Rightarrow> datetime \<Rightarrow> bool" where
  "authorizes l symbol side quantity price t \<longleftrightarrow>
     (\<exists>mq mn n p.
        decimal_from_payload (dict_get (al_payload l) ''max_quantity'') = Some mq
        \<and> decimal_from_payload (dict_get (al_payload l) ''max_notional'') = Some mn
        \<and> int_from_payload (dict_get (al_payload l) ''duration_minutes'') = Some n
        \<and> price = Some p \<and> dec_gt quantity mq = Inr False \<and> dec_gt (dmul quantity p) mn = Inr False
        \<and> upper (strip (py_str (dict_get_or (al_payload l) ''symbol'' (PStr [])))) = upper (strip symbol)
        \<and> py_str (dict_get_or (al_payload l) ''side'' (PStr [])) = side_value side
        \<and> 1 \<le> n \<and> n \<le> 10
        \<and> dt_instant t \<le> dt_instant (al_created_at l) + n * minute)"

lemma as_utc_instant: "as_utc v = Inr w \<Longrightarrow> dt_wall w = dt_instant v \<and> dt_offset w = Some 0"
  by (auto simp: as_utc_def dt_instant_def Let_def split: option.splits if_splits)

lemma add_minutes_wall: "add_minutes v n = Inr w \<Longrightarrow> w = v\<lparr>dt_wall := dt_wall v + n * minute\<rparr>"
  by (auto simp: add_minutes_def Let_def split: if_splits)

lemma authorization_apply:
  assumes "find_window_approval u a (work s) = Some l"
    and "over_quantity q (decimal_from_payload (dict_get (al_payload l) ''max_quantity'')) = Inr b1"
    and "over_notional q price (decimal_from_payload (dict_get (al_payload l) ''max_notional'')) = Inr b2"
    and "as_utc (al_created_at l) = Inr c" and "as_utc (case now of None \<Rightarrow> now_utc s | Some t \<Rightarrow> t) = Inr e"
    and "add_minutes c (case int_from_payload (dict_get (al_payload l) ''duration_minutes'') of
           None \<Rightarrow> 0 | Some n \<Rightarrow> n) = Inr x"
  shows "require_valid_testnet_order_window_authorization u a symbol side q price now s =
    (let reasons = collect_reasons (authorization_conds (al_payload l) symbol side price b1 b2
       (dt_wall x < dt_wall e))
     in if reasons \<noteq> [] then (Inl (TestnetOrderWindowAuthorizationError reasons), s)
        else (Inr \<lparr>wz_audit_log_id = al_id l, wz_expires_at = x\<rparr>, s))"
  using assms by (simp add: require_valid_testnet_order_window_authorization_def Let_def)

lemma authorization_sound:
  assumes "require_valid_testnet_order_window_authorization u a symbol side q price now s = (Inr z, s')"
  shows "s' = s \<and> (\<exists>l. find_window_approval u a (work s) = Some l \<and> wz_audit_log_id z = al_id l
    \<and> authorizes l symbol side q price (case now of None \<Rightarrow> now_utc s | Some t \<Rightarrow> t))"
proof -
  let ?t = "case now of None \<Rightarrow> now_utc s | Some t \<Rightarrow> t"
  obtain l where l: "find_window_approval u a (work s) = Some l"
    using assms by (cases "find_window_approval u a (work s)")
      (simp_all add: require_valid_testnet_order_window_authorization_def)
  let ?mq = "decimal_from_payload (dict_get (al_payload l) ''max_quantity'')"
  let ?mn = "decimal_from_payload (dict_get (al_payload l) ''max_notional'')"
  let ?n = "int_from_payload (dict_get (al_payload l) ''duration_minutes'')"
  obtain b1 b2 c e x where r: "over_quantity q ?mq = Inr b1" "over_notional q price ?mn = Inr b2"
    "as_utc (al_created_at l) = Inr c" "as_utc ?t = Inr e"
    "add_minutes c (case ?n of None \<Rightarrow> 0 | Some n \<Rightarrow> n) = Inr x"
    using assms unfolding require_valid_testnet_order_window_authorization_def Let_def
    by (simp add: l split: sum.splits)
  let ?cs = "authorization_conds (al_payload l) symbol side price b1 b2 (dt_wall x < dt_wall e)"
  have ok: "collect_reasons ?cs = []" and z: "s' = s" "z = \<lparr>wz_audit_log_id = al_id l, wz_expires_at = x\<rparr>"
    using assms authorization_apply [OF l r] by (auto simp: Let_def split: if_splits)
  from ok obtain mq mn n p where some: "?mq = Some mq" "?mn = Some mn" "?n = Some n" "price = Some p"
    and n: "1 \<le> n" "n \<le> 10" "dt_wall e \<le> dt_wall x" "\<not> b1" "\<not> b2"
    and m: "upper (strip (py_str (dict_get_or (al_payload l) ''symbol'' (PStr [])))) = upper (strip symbol)"
      "py_str (dict_get_or (al_payload l) ''side'' (PStr [])) = side_value side"
    unfolding collect_reasons_empty authorization_conds_def Let_def
    by (cases ?mq; cases ?mn; cases ?n; cases price) (auto simp: not_less)
  have "dt_wall e = dt_instant ?t" "dt_wall x = dt_instant (al_created_at l) + n * minute"
    using as_utc_instant [OF r(4)] as_utc_instant [OF r(3)] add_minutes_wall [OF r(5)] some by simp_all
  then have "authorizes l symbol side q price ?t"
    unfolding authorizes_def using some n m r(1,2) by (simp add: over_quantity_def over_notional_def)
  with l z show ?thesis by simp
qed

section \<open>Properties\<close>

text \<open>The preflight gate approves exactly when the exchange has a testnet endpoint, the account is in
  TESTNET mode, the adapters, the account and the risk settings are switched on, an API key is
  stored and the operator confirmed; otherwise it names a reason for each condition that fails.\<close>

theorem order_gate_approves_iff:
  "(gr_approved (check_testnet_order_gate i) \<longleftrightarrow>
      gi_exchange_name i \<noteq> MOCK \<and> gi_account_mode i = TESTNET \<and> gi_testnet_adapters_enabled i
      \<and> gi_exchange_account_trading_enabled i \<and> gi_risk_trading_enabled i \<and> gi_api_key_configured i
      \<and> gi_manual_testnet_order_enable_confirmed i)
   \<and> (\<forall>c r. (c, r) \<in> set (gate_conds i) \<longrightarrow> c = (r \<in> set (gr_reasons (check_testnet_order_gate i))))"
proof (intro conjI allI impI)
  show "gr_approved (check_testnet_order_gate i) \<longleftrightarrow>
      gi_exchange_name i \<noteq> MOCK \<and> gi_account_mode i = TESTNET \<and> gi_testnet_adapters_enabled i
      \<and> gi_exchange_account_trading_enabled i \<and> gi_risk_trading_enabled i \<and> gi_api_key_configured i
      \<and> gi_manual_testnet_order_enable_confirmed i"
    using order_gate.approves_iff [of i] by (auto simp: gate_conds_def)
  fix c r
  assume m: "(c, r) \<in> set (gate_conds i)"
  have "distinct (map snd (gate_conds i))" by (simp add: gate_conds_def)
  then have "inj_on snd (set (gate_conds i))" by (simp only: distinct_map)
  then have only: "(c', r) \<in> set (gate_conds i) \<Longrightarrow> c' = c" for c'
    using m inj_onD [of snd "set (gate_conds i)" "(c', r)" "(c, r)"] by simp
  show "c = (r \<in> set (gr_reasons (check_testnet_order_gate i)))"
    using m only [of True] order_gate.reason_given [of r i] order_gate.reason_holds [of r i] by (cases c) auto
qed

theorem order_gate_approves_iff_witness:
  "gr_reasons (check_testnet_order_gate (gate_for testnet_account True True True False)) =
     [''manual testnet order enable confirmation must be recorded'']
   \<and> \<not> gr_approved (check_testnet_order_gate (gate_for testnet_account True True True False))"
  using order_gate_approves_iff [of "gate_for testnet_account True True True False"]
  by (simp add: gate_for_def testnet_account_def check_testnet_order_gate_def gate_conds_def gate_of_def Let_def)

text \<open>C11: Nothing is authorized without a recorded approval: when the authorization check succeeds it has
  changed nothing, and the latest approval on record for this user and account names this
  symbol and side, covers the quantity and the notional, and has not run out at the time of
  the check; its window is at most ten minutes.\<close>

theorem authorization_needs_live_approval:
  assumes "require_valid_testnet_order_window_authorization u a symbol side q price now s = (Inr z, s')"
  shows "s' = s \<and> (\<exists>l \<in> set (rows (audits (work s))). al_user_id l = u \<and> al_exchange_account_id l = Some a
    \<and> al_action l = APPROVAL_ACTION \<and> wz_audit_log_id z = al_id l
    \<and> authorizes l symbol side q price (case now of None \<Rightarrow> now_utc s | Some t \<Rightarrow> t)
    \<and> dt_instant (case now of None \<Rightarrow> now_utc s | Some t \<Rightarrow> t) \<le> dt_instant (al_created_at l) + 10 * minute)"
proof -
  obtain l where s: "s' = s" and l: "find_window_approval u a (work s) = Some l" "wz_audit_log_id z = al_id l"
    "authorizes l symbol side q price (case now of None \<Rightarrow> now_utc s | Some t \<Rightarrow> t)"
    using authorization_sound [OF assms] by blast
  have "l \<in> set (rows (audits (work s))) \<and> al_user_id l = u \<and> al_exchange_account_id l = Some a
      \<and> al_action l = APPROVAL_ACTION"
    using latest_mem l(1) by (fastforce simp: find_window_approval_def t_select_def)
  moreover obtain n where "n \<le> 10"
    "dt_instant (case now of None \<Rightarrow> now_utc s | Some t \<Rightarrow> t) \<le> dt_instant (al_created_at l) + n * minute"
    using l(3) by (auto simp: authorizes_def)
  moreover from this(1) have "n * minute \<le> 10 * minute" by (simp add: minute_def)
  ultimately show ?thesis using s l by force
qed

definition approved_request :: approval_request where
  "approved_request = \<lparr>aq_exchange_account_id = ''acct-2'', aq_symbol = ''BTCUSDT'', aq_side = BUY,
     aq_max_quantity = Dec False 2 0, aq_max_notional = Dec False 100 0, aq_duration_minutes = 5,
     aq_acknowledgement = TESTNET_ORDER_WINDOW_APPROVAL_ACK\<rparr>"

definition approved_log :: audit_log where
  "approved_log = \<lparr>al_id = ''log-1'', al_user_id = ''alice'', al_exchange_account_id = Some ''acct-2'',
     al_action = APPROVAL_ACTION, al_severity = ''WARNING'',
     al_payload = approval_payload testnet_account approved_request,
     al_created_at = \<lparr>dt_wall = 0, dt_offset = Some 0\<rparr>\<rparr>"

definition approved_session :: session where
  "approved_session = sample_session\<lparr>work := sample_db\<lparr>audits := \<lparr>rows = [approved_log], pend = []\<rparr>\<rparr>\<rparr>"

lemma approval_payload_values:
  "decimal_from_payload (dict_get (approval_payload a r) ''max_quantity'') = Some (Finite (aq_max_quantity r))"
  "decimal_from_payload (dict_get (approval_payload a r) ''max_notional'') = Some (Finite (aq_max_notional r))"
  "dict_get (approval_payload a r) ''duration_minutes'' = PInt (aq_duration_minutes r)"
  "dict_get_or (approval_payload a r) ''symbol'' x = PStr (aq_symbol r)"
  "dict_get_or (approval_payload a r) ''side'' x = PStr (side_value (aq_side r))"
  by (simp_all add: approval_payload_def decimal_from_payload_def dec_parse_dec_str dict_get_or_def)

lemma authorization_granted:
  assumes l: "find_window_approval u a (work s) = Some l" "al_payload l = approval_payload acct r"
    and n: "1 \<le> aq_duration_minutes r" "aq_duration_minutes r \<le> 10"
    and q: "dval q \<le> dval (aq_max_quantity r)" "dval (dmul q p) \<le> dval (aq_max_notional r)"
    and t: "al_created_at l = \<lparr>dt_wall = w, dt_offset = Some 0\<rparr>" "0 \<le> w" "w \<le> clock s"
      "clock s \<le> w + aq_duration_minutes r * minute" "w + aq_duration_minutes r * minute < dt_max"
  shows "require_valid_testnet_order_window_authorization u a (aq_symbol r) (aq_side r) q (Some p) None s =
    (Inr \<lparr>wz_audit_log_id = al_id l,
          wz_expires_at = \<lparr>dt_wall = w + aq_duration_minutes r * minute, dt_offset = Some 0\<rparr>\<rparr>, s)"
proof -
  let ?x = "\<lparr>dt_wall = w + aq_duration_minutes r * minute, dt_offset = Some 0\<rparr> :: datetime"
  have m: "0 \<le> aq_duration_minutes r * minute" using n by (simp add: minute_def)
  note vals = approval_payload_values [of acct r] int_from_payload_minutes [OF n]
  have oq: "over_quantity q (decimal_from_payload (dict_get (al_payload l) ''max_quantity'')) = Inr False"
    and on: "over_notional q (Some p) (decimal_from_payload (dict_get (al_payload l) ''max_notional'')) = Inr False"
    using q by (simp_all add: l(2) vals over_quantity_def over_notional_def dcmp_dval not_less)
  have ca: "as_utc (al_created_at l) = Inr \<lparr>dt_wall = w, dt_offset = Some 0\<rparr>"
    and cn: "as_utc (case None of None \<Rightarrow> now_utc s | Some t \<Rightarrow> t) = Inr \<lparr>dt_wall = clock s, dt_offset = Some 0\<rparr>"
    using t m by (simp_all add: as_utc_def now_utc_def)
  have ex: "add_minutes \<lparr>dt_wall = w, dt_offset = Some 0\<rparr>
      (case int_from_payload (dict_get (al_payload l) ''duration_minutes'') of None \<Rightarrow> 0 | Some n \<Rightarrow> n) = Inr ?x"
    using t m by (simp add: l(2) vals add_minutes_def)
  have ok: "collect_reasons (authorization_conds (al_payload l) (aq_symbol r) (aq_side r) (Some p) False False
      (dt_wall ?x < dt_wall \<lparr>dt_wall = clock s, dt_offset = Some 0\<rparr>)) = []"
    using n t by (simp add: collect_reasons_empty authorization_conds_def l(2) vals)
  show ?thesis
    unfolding authorization_apply [OF l(1) oq on ca cn ex] Let_def ok by simp
qed

lemma approved_window:
  assumes "audits (work s) = \<lparr>rows = [approved_log], pend = []\<rparr>" and "clock s = 0"
  shows "require_valid_testnet_order_window_authorization ''alice'' ''acct-2'' ''BTCUSDT'' BUY (Dec False 1 0)
     (Some (Dec False 50 0)) None s =
   (Inr \<lparr>wz_audit_log_id = ''log-1'', wz_expires_at = \<lparr>dt_wall = 5 * minute, dt_offset = Some 0\<rparr>\<rparr>, s)"
proof -
  have f: "find_window_approval ''alice'' ''acct-2'' (work s) = Some approved_log"
    using assms(1) by (simp add: find_window_approval_def t_select_def approved_log_def)
  have d: "dval (Dec False 1 0) \<le> dval (aq_max_quantity approved_request)"
    "dval (dmul (Dec False 1 0) (Dec False 50 0)) \<le> dval (aq_max_notional approved_request)"
    by (simp_all add: approved_request_def dval_Dec_False dval_dmul)
  have "require_valid_testnet_order_window_authorization ''alice'' ''acct-2'' (aq_symbol approved_request)
      (aq_side approved_request) (Dec False 1 0) (Some (Dec False 50 0)) None s =
    (Inr \<lparr>wz_audit_log_id = al_id approved_log, wz_expires_at =
       \<lparr>dt_wall = 0 + aq_duration_minutes approved_request * minute, dt_offset = Some 0\<rparr>\<rparr>, s)"
    by (rule authorization_granted [OF f _ _ _ d])
      (use assms(2) in \<open>simp_all add: approved_log_def approved_request_def minute_def dt_max_def\<close>)
  then show ?thesis by (simp add: approved_request_def approved_log_def)
qed

theorem authorization_needs_live_approval_witness:
  "\<exists>l \<in> set (rows (audits (work approved_session))). al_id l = ''log-1'' \<and> al_action l = APPROVAL_ACTION"
  using authorization_needs_live_approval [OF approved_window [of approved_session]] by (auto simp: approved_session_def)

definition approvable_db :: db where
  "approvable_db = sample_db\<lparr>accounts := \<lparr>rows = [testnet_account\<lparr>ea_trading_enabled := False\<rparr>], pend = []\<rparr>,
     risks := \<lparr>rows = [testnet_risk\<lparr>rs_trading_enabled := False\<rparr>], pend = []\<rparr>\<rparr>"

lemma approvable_settled: "settled approvable_db"
  using settled_flush [OF sample_settled]
  by (simp add: approvable_db_def settled_def db_flush_update settledD [OF sample_settled] db_unique_update t_all_def)

lemma approvable_run:
  "\<exists>w s'. approve_testnet_order_window False approved_request sample_user
       (sample_session\<lparr>work := approvable_db\<rparr>) = (Inr w, s') \<and> wa_exchange_account_id w = ''acct-2''"
proof -
  have fa: "find_owned_account (u_id sample_user) (aq_exchange_account_id approved_request) approvable_db =
      Some (testnet_account\<lparr>ea_trading_enabled := False\<rparr>)"
    "find_risk_settings (u_id sample_user) (ea_id (testnet_account\<lparr>ea_trading_enabled := False\<rparr>)) approvable_db =
      Some (testnet_risk\<lparr>rs_trading_enabled := False\<rparr>)"
    "find_secret_metadata (u_id sample_user) (ea_id (testnet_account\<lparr>ea_trading_enabled := False\<rparr>)) approvable_db \<noteq> None"
    by (simp_all add: approvable_db_def find_owned_account_def find_risk_settings_def find_secret_metadata_def
        t_find_def sample_user_def testnet_account_def testnet_risk_def sample_risk_def approved_request_def
        sample_db_def sample_secret_def)
  have "\<exists>w s'. record_testnet_order_window_approval (u_id sample_user) (u_role sample_user) approved_request False
        (sample_session\<lparr>work := approvable_db\<rparr>) = (Inr w, s') \<and> wa_exchange_account_id w = ''acct-2''"
    using fa settledD(2) [OF approvable_settled]
    by (simp add: record_approval_apply Let_def approval_reasons_empty)
      (simp add: sample_user_def testnet_account_def testnet_risk_def approved_request_def)
  then show ?thesis
    by (auto simp: approve_testnet_order_window_def try_except_def)
qed

text \<open>C12: A recorded approval is what the authorization check reads back: an order for the approved
  symbol and side, within the approved quantity and notional, is authorized until the approved
  minutes have passed, under the id of the approval's audit row. (Earlier approvals of the
  account are older; the clock is in the range of the calendar.)\<close>

theorem recorded_approval_authorizes:
  assumes ok: "approve_testnet_order_window adapters r user s = (Inr w, s')" and st: "settled (work s)"
    and old: "\<forall>l \<in> set (rows (audits (work s))). dt_instant (al_created_at l) \<le> clock s"
    and q: "dval q \<le> dval (aq_max_quantity r)" "dval (dmul q p) \<le> dval (aq_max_notional r)"
    and t: "0 \<le> clock s" "clock s \<le> now" "now \<le> clock s + aq_duration_minutes r * minute"
      "clock s + aq_duration_minutes r * minute < dt_max"
  shows "require_valid_testnet_order_window_authorization (u_id user) (wa_exchange_account_id w)
      (aq_symbol r) (aq_side r) q (Some p) None (s'\<lparr>clock := now\<rparr>) =
    (Inr \<lparr>wz_audit_log_id = wa_audit_log_id w, wz_expires_at =
       \<lparr>dt_wall = clock s + aq_duration_minutes r * minute, dt_offset = Some 0\<rparr>\<rparr>, s'\<lparr>clock := now\<rparr>)"
proof -
  have "record_testnet_order_window_approval (u_id user) (u_role user) r adapters s = (Inr w, s')"
    using ok by (auto simp: approve_testnet_order_window_def try_except_def value_error_404_def
        split: prod.splits sum.splits option.splits py_exc.splits)
  then obtain a where a: "find_owned_account (u_id user) (aq_exchange_account_id r) (work s) = Some a"
    and n: "approval_blocked_reasons (u_role user) a adapters (find_risk_settings (u_id user) (ea_id a) (work s))
      (find_secret_metadata (u_id user) (ea_id a) (work s) \<noteq> None) (aq_duration_minutes r) (aq_acknowledgement r) = []"
    and w: "wa_exchange_account_id w = ea_id a" "wa_audit_log_id w = uuid_src s (uuid_next s)"
    and s': "work s' = db_flush ((work s)\<lparr>audits := t_add
        \<lparr>al_id = uuid_src s (uuid_next s), al_user_id = u_id user, al_exchange_account_id = Some (ea_id a),
         al_action = APPROVAL_ACTION, al_severity = ''WARNING'', al_payload = approval_payload a r,
         al_created_at = now_utc s\<rparr> (audits (work s))\<rparr>)"
    by (cases "find_owned_account (u_id user) (aq_exchange_account_id r) (work s)")
      (auto simp: record_approval_apply Let_def split: if_splits)
  let ?l = "\<lparr>al_id = uuid_src s (uuid_next s), al_user_id = u_id user, al_exchange_account_id = Some (ea_id a),
         al_action = APPROVAL_ACTION, al_severity = ''WARNING'', al_payload = approval_payload a r,
         al_created_at = now_utc s\<rparr>"
  have "rows (audits (work s')) = rows (audits (work s)) @ [?l]"
    using settled_pend [OF st] by (simp add: s' t_all_def)
  then have f: "find_window_approval (u_id user) (ea_id a) (work (s'\<lparr>clock := now\<rparr>)) = Some ?l"
    using old unfolding find_window_approval_def t_select_def
    by (simp, intro latest_snoc) (auto simp: dt_instant_def now_utc_def)
  have "1 \<le> aq_duration_minutes r" "aq_duration_minutes r \<le> 10"
    using n by (simp_all add: approval_reasons_empty)
  from authorization_granted [OF f _ this q] t show ?thesis
    by (simp add: w now_utc_def)
qed

theorem recorded_approval_authorizes_witness:
  "\<exists>w s'. approve_testnet_order_window False approved_request sample_user
       (sample_session\<lparr>work := approvable_db\<rparr>) = (Inr w, s')
     \<and> (\<exists>z. require_valid_testnet_order_window_authorization ''alice'' ''acct-2'' ''BTCUSDT'' BUY
          (Dec False 1 0) (Some (Dec False 50 0)) None (s'\<lparr>clock := 60000000\<rparr>) = (Inr z, s'\<lparr>clock := 60000000\<rparr>))"
proof -
  let ?s = "sample_session\<lparr>work := approvable_db\<rparr>"
  obtain w s' where r: "approve_testnet_order_window False approved_request sample_user ?s = (Inr w, s')"
    and w: "wa_exchange_account_id w = ''acct-2''"
    using approvable_run by blast
  have "require_valid_testnet_order_window_authorization (u_id sample_user) (wa_exchange_account_id w)
      (aq_symbol approved_request) (aq_side approved_request) (Dec False 1 0) (Some (Dec False 50 0)) None
      (s'\<lparr>clock := 60000000\<rparr>) = (Inr \<lparr>wz_audit_log_id = wa_audit_log_id w, wz_expires_at =
       \<lparr>dt_wall = clock ?s + aq_duration_minutes approved_request * minute, dt_offset = Some 0\<rparr>\<rparr>, s'\<lparr>clock := 60000000\<rparr>)"
    by (rule recorded_approval_authorizes [OF r])
      (use approvable_settled in \<open>simp_all add: approvable_db_def approved_request_def minute_def dt_max_def
         dval_Dec_False dval_dmul\<close>)
  with r w show ?thesis by (auto simp: sample_user_def approved_request_def)
qed

text \<open>Recording an approval switches nothing on: accounts, risk settings and keys are unchanged, and in
  the state it leaves the preflight gate still refuses, whatever the caller confirms.\<close>

theorem approval_opens_no_gate:
  assumes "approve_testnet_order_window adapters r user s = (Inr w, s')" and "settled (work s)"
  shows "accounts (work s') = accounts (work s) \<and> risks (work s') = risks (work s)
     \<and> secrets (work s') = secrets (work s) \<and> \<not> wa_order_submission_authorized w
     \<and> (\<forall>a confirmed. find_owned_account (u_id user) (aq_exchange_account_id r) (work s') = Some a \<longrightarrow>
          \<not> gr_approved (check_testnet_order_gate (gate_for a adapters
             (risk_enabled (find_risk_settings (u_id user) (ea_id a) (work s')))
             (find_secret_metadata (u_id user) (ea_id a) (work s') \<noteq> None) confirmed)))"
proof -
  have "record_testnet_order_window_approval (u_id user) (u_role user) r adapters s = (Inr w, s')"
    using assms(1) by (auto simp: approve_testnet_order_window_def try_except_def value_error_404_def
        split: prod.splits sum.splits option.splits py_exc.splits)
  then obtain a l where a: "find_owned_account (u_id user) (aq_exchange_account_id r) (work s) = Some a"
    and n: "approval_blocked_reasons (u_role user) a adapters (find_risk_settings (u_id user) (ea_id a) (work s))
      (find_secret_metadata (u_id user) (ea_id a) (work s) \<noteq> None) (aq_duration_minutes r) (aq_acknowledgement r) = []"
    and w: "\<not> wa_order_submission_authorized w"
    and s': "work s' = db_flush ((work s)\<lparr>audits := t_add l (audits (work s))\<rparr>)"
    by (cases "find_owned_account (u_id user) (aq_exchange_account_id r) (work s)")
      (auto simp: record_approval_apply Let_def split: if_splits)
  have same: "accounts (work s') = accounts (work s)" "risks (work s') = risks (work s)"
    "secrets (work s') = secrets (work s)"
    using settled_flush [OF assms(2)] by (simp_all add: s')
  have "find_owned_account (u_id user) (aq_exchange_account_id r) (work s') = Some a"
    using a by (simp add: find_owned_account_def same)
  moreover have "\<not> gr_approved (check_testnet_order_gate (gate_for a adapters x y z))" for x y z
    using n order_gate.approves_iff [of "gate_for a adapters x y z"]
    by (auto simp: approval_reasons_empty gate_conds_def gate_for_def)
  ultimately show ?thesis using same w by simp
qed

theorem approval_opens_no_gate_witness:
  "\<exists>w s'. approve_testnet_order_window False approved_request sample_user
       (sample_session\<lparr>work := approvable_db\<rparr>) = (Inr w, s')
     \<and> accounts (work s') = accounts approvable_db \<and> \<not> wa_order_submission_authorized w"
proof -
  obtain w s' where r: "approve_testnet_order_window False approved_request sample_user
      (sample_session\<lparr>work := approvable_db\<rparr>) = (Inr w, s')"
    using approvable_run by blast
  then show ?thesis using approval_opens_no_gate [OF r] approvable_settled by simp
qed

end
