(* ===== verification/Http_Client.thy ===== *)
theory Http_Client
  imports Testnet_Gate Py_Hmac "HOL-Library.AList" "HOL-Library.List_Lexorder" "HOL-Library.Char_ord"
    "HOL-Library.Product_Lexorder"
begin

text \<open>
  The signed HTTP client (\<open>exchanges/http_client.py\<close>, \<open>services/testnet_http_client.py\<close>): how a
  request to an exchange is put together, signed and sent, and how a failed call is reported.

  The network is an argument, \<open>net\<close>: what \<open>urlopen\<close> comes back with for a request. A request that
  is sent is appended to the session's \<open>wire\<close>. The parts of the standard library the code uses
  (\<open>urlencode\<close>, \<open>json.dumps\<close>, \<open>datetime.isoformat\<close>, the HMAC of \<open>Py_Hmac\<close>) are defined here.
\<close>

section \<open>Library: query strings\<close>

definition url_safe :: "char \<Rightarrow> bool" where
  "url_safe c \<longleftrightarrow> c \<in> set (upper_letters @ lower_letters @ digit_chars @ ''_.-~'')"

definition upper_hex :: "nat \<Rightarrow> char" where
  "upper_hex n = ''0123456789ABCDEF'' ! n"

definition quote_char :: "char \<Rightarrow> string" where
  "quote_char c =
     (if url_safe c then [c] else if c = CHR '' '' then ''+''
      else let n = of_char c :: nat in [CHR ''%'', upper_hex (n div 16), upper_hex (n mod 16)])"

definition quote_plus :: "string \<Rightarrow> string" where
  "quote_plus s = concat (map quote_char s)"

definition urlencode :: "(string \<times> string) list \<Rightarrow> string" where
  "urlencode ps = join ''&'' (map (\<lambda>(k, v). quote_plus k @ ''='' @ quote_plus v) ps)"

definition canonical_query :: "(string \<times> string) list \<Rightarrow> string" where
  "canonical_query params = urlencode (sort params)"

section \<open>Library: JSON text\<close>

definition json_char :: "char \<Rightarrow> string" where
  "json_char c = (let n = of_char c :: nat in
     if c = CHR 0x22 \<or> c = CHR 0x5C then [CHR 0x5C, c]
     else if n = 10 then [CHR 0x5C, CHR ''n''] else if n = 13 then [CHR 0x5C, CHR ''r'']
     else if n = 9 then [CHR 0x5C, CHR ''t''] else if n = 12 then [CHR 0x5C, CHR ''f'']
     else if n = 8 then [CHR 0x5C, CHR ''b'']
     else if n < 32 \<or> n > 126 then [CHR 0x5C, CHR ''u'', CHR ''0'', CHR ''0'', hex_digit (n div 16), hex_digit (n mod 16)]
     else [c])"

definition json_str :: "string \<Rightarrow> string" where
  "json_str s = CHR 0x22 # concat (map json_char s) @ [CHR 0x22]"

text \<open>\<open>json.dumps(v, separators=(",", ":"), sort_keys=True)\<close>; a \<open>Decimal\<close> is not serializable.\<close>

function json_ok :: "pyval \<Rightarrow> bool" where
  "json_ok (PDec d) = False"
| "json_ok (PList xs) = list_all (\<lambda>b. b) (map json_ok xs)"
| "json_ok (PDict d) = list_all (\<lambda>b. b) (map (\<lambda>kv. json_ok (snd kv)) d)"
| "json_ok PNone = True" | "json_ok (PBool b) = True" | "json_ok (PInt i) = True"
| "json_ok (PFloat r) = True" | "json_ok (PStr s) = True"
  by pat_completeness auto
termination
proof (relation "measure size", goal_cases)
  case 1
  show ?case by simp
next
  case (2 xs x)
  then show ?case by (induction xs) auto
next
  case (3 d kv)
  then show ?case by (induction d) auto
qed

function json_text :: "pyval \<Rightarrow> string" where
  "json_text PNone = ''null''"
| "json_text (PBool b) = (if b then ''true'' else ''false'')"
| "json_text (PInt i) = show_int i"
| "json_text (PFloat r) = (if r = ''nan'' then ''NaN'' else if r = ''inf'' then ''Infinity''
     else if r = ''-inf'' then ''-Infinity'' else r)"
| "json_text (PDec d) = []"
| "json_text (PStr s) = json_str s"
| "json_text (PList xs) = ''['' @ join '','' (map json_text xs) @ '']''"
| "json_text (PDict d) = ''{'' @ join '','' (map (\<lambda>(k, t). json_str k @ '':'' @ t)
     (sort_key fst (map (\<lambda>kv. (fst kv, json_text (snd kv))) d))) @ ''}''"
  by pat_completeness auto
termination
proof (relation "measure size", goal_cases)
  case 1
  show ?case by simp
next
  case (2 xs x)
  then show ?case by (induction xs) auto
next
  case (3 d kv)
  then show ?case by (induction d) auto
qed

definition json_body :: "pydict option \<Rightarrow> string result" where
  "json_body body = (let v = PDict (case body of None \<Rightarrow> [] | Some d \<Rightarrow> d)
     in if json_ok v then Inr (json_text v) else Inl TypeError)"

section \<open>Library: time stamps\<close>

text \<open>Microseconds at the start of 1970, and the calendar date of a day counted from the first day of year 1.\<close>

definition epoch :: int where "epoch = 62135596800000000"

definition civil :: "int \<Rightarrow> int \<times> int \<times> int" where
  "civil days =
     (let z = days + 306; era = z div 146097; doe = z mod 146097;
          yoe = (doe - doe div 1460 + doe div 36524 - doe div 146096) div 365;
          doy = doe - (365 * yoe + yoe div 4 - yoe div 100);
          mp = (5 * doy + 2) div 153;
          d = doy - (153 * mp + 2) div 5 + 1;
          m = (if mp < 10 then mp + 3 else mp - 9);
          y = yoe + era * 400 + (if m \<le> 2 then 1 else 0)
      in (y, m, d))"

definition pad0 :: "nat \<Rightarrow> int \<Rightarrow> string" where
  "pad0 w i = (let t = show_nat (nat i) in replicate (w - length t) (CHR ''0'') @ t)"

definition iso_seconds :: "int \<Rightarrow> string" where
  "iso_seconds us =
     (let sec = us div 1000000; day = sec div 86400; r = sec mod 86400
      in case civil day of (y, m, d) \<Rightarrow>
        pad0 4 y @ ''-'' @ pad0 2 m @ ''-'' @ pad0 2 d @ ''T'' @ pad0 2 (r div 3600) @ '':''
        @ pad0 2 (r mod 3600 div 60) @ '':'' @ pad0 2 (r mod 60))"

definition default_timestamp_ms :: "session \<Rightarrow> int" where
  "default_timestamp_ms s = (clock s - epoch) div 1000"

definition default_iso_timestamp :: "session \<Rightarrow> string" where
  "default_iso_timestamp s = iso_seconds (clock s) @ ''.'' @ pad0 3 (clock s mod 1000000 div 1000) @ ''Z''"

section \<open>Prepared requests\<close>

datatype security_type = PUBLIC | SIGNED | OKX_DEMO_SIGNED

record prepared_request =
  pr_method :: string
  pr_url :: string
  pr_path :: string
  pr_params :: "(string \<times> string) list"
  pr_headers :: "(string \<times> string) list"
  pr_body :: "pydict option"

record http_client =
  cl_exchange_name :: exchange_name
  cl_rest_base_url :: string
  cl_timestamp_ms_factory :: "session \<Rightarrow> int"
  cl_iso_timestamp_factory :: "session \<Rightarrow> string"
  cl_recv_window :: string

definition rstrip_char :: "char \<Rightarrow> string \<Rightarrow> string" where
  "rstrip_char c s = rev (dropWhile (\<lambda>x. x = c) (rev s))"

definition signed_http_client :: "exchange_name \<Rightarrow> string \<Rightarrow> http_client" where
  "signed_http_client x url =
     \<lparr>cl_exchange_name = x, cl_rest_base_url = rstrip_char (CHR ''/'') url,
      cl_timestamp_ms_factory = default_timestamp_ms, cl_iso_timestamp_factory = default_iso_timestamp,
      cl_recv_window = ''5000''\<rparr>"

definition create_testnet_signed_http_client :: "exchange_name \<Rightarrow> http_client result" where
  "create_testnet_signed_http_client x =
     bndr (get_testnet_endpoint_config x) (\<lambda>endpoint_config.
       Inr (signed_http_client x (ep_rest_base_url endpoint_config)))"

definition hmac_sha256_hex :: "string \<Rightarrow> string \<Rightarrow> string" where
  "hmac_sha256_hex secret payload = hexdigest (hmac_sha256 (encode secret) (encode payload))"

definition hmac_sha256_base64 :: "string \<Rightarrow> string \<Rightarrow> string" where
  "hmac_sha256_base64 secret payload = b64encode (hmac_sha256 (encode secret) (encode payload))"

definition prepare_public_request :: "http_client \<Rightarrow> string \<Rightarrow> (string \<times> string) list \<Rightarrow> prepared_request" where
  "prepare_public_request cl path params =
     \<lparr>pr_method = ''GET'', pr_url = cl_rest_base_url cl @ path, pr_path = path, pr_params = params,
      pr_headers = [], pr_body = None\<rparr>"

definition prepare_binance_request ::
    "http_client \<Rightarrow> session \<Rightarrow> string \<Rightarrow> string \<Rightarrow> exchange_credentials \<Rightarrow> (string \<times> string) list
     \<Rightarrow> prepared_request" where
  "prepare_binance_request cl s method path credentials params =
     (let signed_params = AList.update ''recvWindow'' (cl_recv_window cl)
            (AList.update ''timestamp'' (show_int (cl_timestamp_ms_factory cl s)) params);
          query = canonical_query signed_params;
          signed_params = AList.update ''signature'' (hmac_sha256_hex (ec_api_secret credentials) query) signed_params
      in \<lparr>pr_method = method, pr_url = cl_rest_base_url cl @ path, pr_path = path,
          pr_params = signed_params, pr_headers = [(''X-MBX-APIKEY'', ec_api_key credentials)],
          pr_body = None\<rparr>)"

definition request_body_of :: "string \<Rightarrow> pydict option \<Rightarrow> pydict option" where
  "request_body_of method body =
     (if method = ''POST'' then Some (case body of None \<Rightarrow> [] | Some d \<Rightarrow> d) else None)"

definition prepare_bybit_request ::
    "http_client \<Rightarrow> session \<Rightarrow> string \<Rightarrow> string \<Rightarrow> exchange_credentials \<Rightarrow> (string \<times> string) list
     \<Rightarrow> pydict option \<Rightarrow> prepared_request result" where
  "prepare_bybit_request cl s method path credentials params body =
     (let request_body = request_body_of method body;
          timestamp = show_int (cl_timestamp_ms_factory cl s)
      in bndr (if request_body \<noteq> None then json_body request_body else Inr (canonical_query params)) (\<lambda>payload_data.
         let payload = timestamp @ ec_api_key credentials @ cl_recv_window cl @ payload_data;
             headers = [(''X-BAPI-API-KEY'', ec_api_key credentials), (''X-BAPI-TIMESTAMP'', timestamp),
               (''X-BAPI-RECV-WINDOW'', cl_recv_window cl),
               (''X-BAPI-SIGN'', hmac_sha256_hex (ec_api_secret credentials) payload)]
               @ (if request_body \<noteq> None then [(''Content-Type'', ''application/json'')] else [])
         in Inr \<lparr>pr_method = method, pr_url = cl_rest_base_url cl @ path, pr_path = path,
              pr_params = params, pr_headers = headers, pr_body = request_body\<rparr>))"

definition prepare_okx_request ::
    "http_client \<Rightarrow> session \<Rightarrow> string \<Rightarrow> string \<Rightarrow> exchange_credentials \<Rightarrow> (string \<times> string) list
     \<Rightarrow> pydict option \<Rightarrow> security_type \<Rightarrow> prepared_request result" where
  "prepare_okx_request cl s method path credentials params body security =
     (case ec_passphrase credentials of
        None \<Rightarrow> Inl (ValueError ''OKX signed requests require an API passphrase'')
      | Some passphrase \<Rightarrow>
          let request_body = request_body_of method body;
              timestamp = cl_iso_timestamp_factory cl s;
              query = canonical_query params;
              path_with_query = (if query \<noteq> [] then path @ ''?'' @ query else path)
          in bndr (if request_body \<noteq> None then json_body request_body else Inr []) (\<lambda>body_payload.
             let signature_payload = timestamp @ method @ path_with_query @ body_payload;
                 headers = [(''OK-ACCESS-KEY'', ec_api_key credentials),
                   (''OK-ACCESS-SIGN'', hmac_sha256_base64 (ec_api_secret credentials) signature_payload),
                   (''OK-ACCESS-TIMESTAMP'', timestamp), (''OK-ACCESS-PASSPHRASE'', passphrase)]
                   @ (if request_body \<noteq> None then [(''Content-Type'', ''application/json'')] else [])
                   @ (if security = OKX_DEMO_SIGNED then [(''x-simulated-trading'', ''1'')] else [])
             in Inr \<lparr>pr_method = method, pr_url = cl_rest_base_url cl @ path, pr_path = path,
                  pr_params = params, pr_headers = headers, pr_body = request_body\<rparr>))"

definition prepare_private_any ::
    "http_client \<Rightarrow> session \<Rightarrow> string \<Rightarrow> string \<Rightarrow> exchange_credentials \<Rightarrow> (string \<times> string) list
     \<Rightarrow> pydict option \<Rightarrow> security_type \<Rightarrow> prepared_request result" where
  "prepare_private_any cl s method path credentials params body security =
     (case cl_exchange_name cl of
        BINANCE \<Rightarrow> Inr (prepare_binance_request cl s method path credentials params)
      | BYBIT \<Rightarrow> prepare_bybit_request cl s method path credentials params body
      | OKX \<Rightarrow> prepare_okx_request cl s method path credentials params body security
      | MOCK \<Rightarrow> Inl (ValueError (''signed HTTP client is not supported for '' @ exchange_value MOCK)))"

definition prepare_private_request ::
    "http_client \<Rightarrow> string \<Rightarrow> exchange_credentials \<Rightarrow> (string \<times> string) list \<Rightarrow> security_type
     \<Rightarrow> prepared_request op" where
  "prepare_private_request cl path credentials params security =
     bnd (reads (\<lambda>s. prepare_private_any cl s ''GET'' path credentials params None security)) lift_result"

definition prepare_private_post_request ::
    "http_client \<Rightarrow> string \<Rightarrow> exchange_credentials \<Rightarrow> (string \<times> string) list \<Rightarrow> pydict option \<Rightarrow> security_type
     \<Rightarrow> prepared_request op" where
  "prepare_private_post_request cl path credentials params body security =
     bnd (reads (\<lambda>s. prepare_private_any cl s ''POST'' path credentials params body security)) lift_result"

section \<open>Sending\<close>

text \<open>
  What comes back: a body that parses as JSON or does not, an empty body, an error status with what
  its body parses to, or no answer at all.
\<close>

datatype http_reply =
    Reply pyval
  | ReplyNotJson string
  | ReplyEmpty
  | ReplyStatus int "pyval option"
  | NoReply

type_synonym network = "http_request \<Rightarrow> http_reply"

definition read_exchange_error_code :: "pyval option \<Rightarrow> string option" where
  "read_exchange_error_code body = (case body of
      Some (PDict d) \<Rightarrow>
        let code = dict_get d ''code''
        in if code = PNone then None
           else let text = py_str code in if text \<noteq> [] then Some (take 40 text) else None
    | _ \<Rightarrow> None)"

definition http_failure_type :: "int \<Rightarrow> string" where
  "http_failure_type status_code =
     (if status_code = 401 \<or> status_code = 403 then ''authentication_failed''
      else if status_code = 429 then ''rate_limited''
      else if status_code \<ge> 500 then ''exchange_unavailable'' else ''request_rejected'')"

definition wire_request :: "prepared_request \<Rightarrow> http_request result" where
  "wire_request prepared =
     (let query = canonical_query (pr_params prepared);
          url = (if query \<noteq> [] then pr_url prepared @ ''?'' @ query else pr_url prepared)
      in bndr (case pr_body prepared of None \<Rightarrow> Inr None | Some b \<Rightarrow> bndr (json_body (Some b)) (\<lambda>t. Inr (Some t)))
           (\<lambda>data. Inr \<lparr>hq_method = pr_method prepared, hq_url = url,
              hq_headers = foldl (\<lambda>h (k, v). AList.update k v h)
                [(''User-Agent'', ''crypto-copy-trading-platform/0.1'')] (pr_headers prepared),
              hq_data = data\<rparr>))"

definition transport_request :: "network \<Rightarrow> prepared_request \<Rightarrow> pyval op" where
  "transport_request net prepared =
     bnd (lift_result (wire_request prepared)) (\<lambda>request.
     bnd (modify (\<lambda>s. s\<lparr>wire := wire s @ [request]\<rparr>)) (\<lambda>_.
       case net request of
         Reply v \<Rightarrow> ret v
       | ReplyNotJson msg \<Rightarrow> raise (ValueError msg)
       | ReplyEmpty \<Rightarrow> ret (PDict [])
       | ReplyStatus code body \<Rightarrow> raise (ExchangeHttpRequestError (http_failure_type code) (Some code)
           (read_exchange_error_code body))
       | NoReply \<Rightarrow> raise (ExchangeHttpRequestError ''transport_error'' None None)))"

definition get_public :: "network \<Rightarrow> http_client \<Rightarrow> string \<Rightarrow> (string \<times> string) list \<Rightarrow> pyval op" where
  "get_public net cl path params = transport_request net (prepare_public_request cl path params)"

definition get_private ::
    "network \<Rightarrow> http_client \<Rightarrow> string \<Rightarrow> exchange_credentials \<Rightarrow> (string \<times> string) list \<Rightarrow> security_type
     \<Rightarrow> pyval op" where
  "get_private net cl path credentials params security =
     bnd (prepare_private_request cl path credentials params security) (transport_request net)"

definition post_private ::
    "network \<Rightarrow> http_client \<Rightarrow> string \<Rightarrow> exchange_credentials \<Rightarrow> (string \<times> string) list \<Rightarrow> pydict option
     \<Rightarrow> security_type \<Rightarrow> pyval op" where
  "post_private net cl path credentials params body security =
     bnd (prepare_private_post_request cl path credentials params body security) (transport_request net)"

definition execute_prepared_request :: "network \<Rightarrow> prepared_request \<Rightarrow> pyval op" where
  "execute_prepared_request net prepared = transport_request net prepared"

definition noop_get_public :: "string \<Rightarrow> (string \<times> string) list \<Rightarrow> pyval op" where
  "noop_get_public path params = raise (RuntimeError ''exchange HTTP client is not configured'')"

definition noop_get_private ::
    "string \<Rightarrow> exchange_credentials \<Rightarrow> (string \<times> string) list \<Rightarrow> security_type \<Rightarrow> pyval op" where
  "noop_get_private path credentials params security =
     raise (RuntimeError ''exchange HTTP client is not configured'')"

section \<open>Reading a query string back\<close>

text \<open>What the receiver of a form-encoded query string makes of it.\<close>

definition hex_value :: "char \<Rightarrow> nat" where
  "hex_value c = (let n = of_char c in if n < 58 then n - 48 else n - 55)"

fun unquote_plus :: "string \<Rightarrow> string" where
  "unquote_plus [] = []"
| "unquote_plus (c # cs) =
     (if c = CHR ''+'' then CHR '' '' # unquote_plus cs
      else if c = CHR ''%'' then (case cs of
          a # b # r \<Rightarrow> char_of (16 * hex_value a + hex_value b) # unquote_plus r
        | _ \<Rightarrow> c # unquote_plus cs)
      else c # unquote_plus cs)"

fun split_on :: "char \<Rightarrow> string \<Rightarrow> string list" where
  "split_on c [] = [[]]"
| "split_on c (x # xs) = (if x = c then [] # split_on c xs
     else (case split_on c xs of [] \<Rightarrow> [[x]] | y # ys \<Rightarrow> (x # y) # ys))"

definition parse_pair :: "string \<Rightarrow> string \<times> string" where
  "parse_pair p = (unquote_plus (takeWhile (\<lambda>c. c \<noteq> CHR ''='') p),
                   unquote_plus (tl (dropWhile (\<lambda>c. c \<noteq> CHR ''='') p)))"

definition parse_query :: "string \<Rightarrow> (string \<times> string) list" where
  "parse_query s = (if s = [] then [] else map parse_pair (split_on (CHR ''&'') s))"

lemma upper_hex_all: "\<forall>k \<in> set [0..<16]. hex_value (upper_hex k) = k \<and> url_safe (upper_hex k)"
  by code_simp

lemma hex_value_upper_hex: "k < 16 \<Longrightarrow> hex_value (upper_hex k) = k"
  and upper_hex_safe: "k < 16 \<Longrightarrow> url_safe (upper_hex k)"
  using upper_hex_all by simp_all

lemma url_safe_neq: "url_safe c \<Longrightarrow> c \<noteq> CHR ''+'' \<and> c \<noteq> CHR ''%'' \<and> c \<noteq> CHR ''&'' \<and> c \<noteq> CHR ''=''"
  by (auto simp: url_safe_def upper_letters_def lower_letters_def digit_chars_def)

lemma of_char_hex: "(of_char c :: nat) div 16 < 16" "(of_char c :: nat) mod 16 < 16"
  by (simp_all add: less_mult_imp_div_less)

lemma unquote_quote_char: "unquote_plus (quote_char c @ s) = c # unquote_plus s"
proof (cases "url_safe c")
  case True
  then show ?thesis using url_safe_neq [OF True] by (simp add: quote_char_def)
next
  case False
  have "16 * hex_value (upper_hex (of_char c div 16)) + hex_value (upper_hex (of_char c mod 16)) = (of_char c :: nat)"
    by (simp add: hex_value_upper_hex of_char_hex)
  with False show ?thesis by (simp add: quote_char_def Let_def)
qed

lemma unquote_quote: "unquote_plus (quote_plus s) = s"
proof (induction s)
  case Nil
  show ?case by (simp add: quote_plus_def)
next
  case (Cons c s)
  have "quote_plus (c # s) = quote_char c @ quote_plus s" by (simp add: quote_plus_def)
  with Cons show ?case by (simp add: unquote_quote_char)
qed

lemma quote_plus_chars: "c \<in> set (quote_plus s) \<Longrightarrow> c \<noteq> CHR ''&'' \<and> c \<noteq> CHR ''=''"
  using url_safe_neq upper_hex_safe [OF of_char_hex(1)] upper_hex_safe [OF of_char_hex(2)]
  by (auto simp: quote_plus_def quote_char_def Let_def split: if_splits)

lemma split_on_free: "c \<notin> set x \<Longrightarrow> split_on c (x @ c # s) = x # split_on c s"
  by (induction x) auto

lemma split_on_last: "c \<notin> set x \<Longrightarrow> split_on c x = [x]"
  by (induction x) auto

lemma split_on_join: "xs \<noteq> [] \<Longrightarrow> \<forall>x \<in> set xs. c \<notin> set x \<Longrightarrow> split_on c (join [c] xs) = xs"
proof (induction xs rule: induct_list012)
  case (3 x y zs)
  then have "split_on c (join [c] (y # zs)) = y # zs" by simp
  with 3 show ?case by (simp add: split_on_free)
qed (simp_all add: split_on_last)

lemma parse_pair_encoded: "parse_pair (quote_plus k @ CHR ''='' # quote_plus v) = (k, v)"
proof -
  have "\<forall>c \<in> set (quote_plus k). c \<noteq> CHR ''=''" using quote_plus_chars by blast
  then have "takeWhile (\<lambda>c. c \<noteq> CHR ''='') (quote_plus k @ CHR ''='' # quote_plus v) = quote_plus k"
    "dropWhile (\<lambda>c. c \<noteq> CHR ''='') (quote_plus k @ CHR ''='' # quote_plus v) = CHR ''='' # quote_plus v"
    by simp_all
  then show ?thesis by (simp add: parse_pair_def unquote_quote)
qed

lemma urlencode_ne: "ps \<noteq> [] \<Longrightarrow> urlencode ps \<noteq> []"
  by (cases ps; cases "tl ps") (auto simp: urlencode_def)

lemma parse_urlencode: "parse_query (urlencode ps) = ps"
proof (cases "ps = []")
  case True
  then show ?thesis by (simp add: urlencode_def parse_query_def)
next
  case False
  let ?e = "\<lambda>(k, v). quote_plus k @ ''='' @ quote_plus v"
  have "split_on (CHR ''&'') (urlencode ps) = map ?e ps"
    unfolding urlencode_def using False by (intro split_on_join) (auto dest: quote_plus_chars)
  moreover have "map parse_pair (map ?e ps) = ps"
    by (simp add: comp_def parse_pair_encoded case_prod_beta)
  ultimately show ?thesis using False urlencode_ne [OF False] by (simp add: parse_query_def)
qed

section \<open>Signatures\<close>

text \<open>
  How each exchange checks a request it received, as its documentation prescribes: Binance over the
  query parameters in the order received without the signature itself, Bybit over time stamp, key,
  window and either the body or the query string, OKX over time stamp, method, the path with its
  query string and the body. \<open>base\<close> is the address of the exchange.
\<close>

definition url_query :: "string \<Rightarrow> string" where
  "url_query url = tl (dropWhile (\<lambda>c. c \<noteq> CHR ''?'') url)"

definition header :: "http_request \<Rightarrow> string \<Rightarrow> string option" where
  "header q k = map_of (hq_headers q) k"

definition verifies :: "exchange_name \<Rightarrow> string \<Rightarrow> string \<Rightarrow> http_request \<Rightarrow> bool" where
  "verifies x base secret q \<longleftrightarrow> (case x of
      BINANCE \<Rightarrow>
        let ps = parse_query (url_query (hq_url q))
        in map_of ps ''signature'' = Some (hmac_sha256_hex secret (urlencode (filter (\<lambda>p. fst p \<noteq> ''signature'') ps)))
    | BYBIT \<Rightarrow> (\<exists>ts key window. header q ''X-BAPI-TIMESTAMP'' = Some ts \<and> header q ''X-BAPI-API-KEY'' = Some key
        \<and> header q ''X-BAPI-RECV-WINDOW'' = Some window
        \<and> header q ''X-BAPI-SIGN'' = Some (hmac_sha256_hex secret (ts @ key @ window @
             (case hq_data q of Some body \<Rightarrow> body | None \<Rightarrow> url_query (hq_url q)))))
    | OKX \<Rightarrow> (\<exists>ts. header q ''OK-ACCESS-TIMESTAMP'' = Some ts
        \<and> header q ''OK-ACCESS-SIGN'' = Some (hmac_sha256_base64 secret (ts @ hq_method q @
             drop (length base) (hq_url q) @ (case hq_data q of Some body \<Rightarrow> body | None \<Rightarrow> []))))
    | MOCK \<Rightarrow> False)"

lemma url_query_simps:
  assumes "CHR ''?'' \<notin> set u"
  shows "url_query (u @ CHR ''?'' # q) = q" and "url_query u = []"
proof -
  have "\<forall>c \<in> set u. c \<noteq> CHR ''?''" using assms by metis
  then have "dropWhile (\<lambda>c. c \<noteq> CHR ''?'') (u @ CHR ''?'' # q) = CHR ''?'' # q"
    and e: "dropWhile (\<lambda>c. c \<noteq> CHR ''?'') u = []"
    by (simp_all only: dropWhile_eq_Nil_conv dropWhile_append2) simp
  then show "url_query (u @ CHR ''?'' # q) = q" by (simp only: url_query_def list.sel)
  show "url_query u = []" by (simp only: url_query_def e list.sel)
qed

lemma update_new_key: "k \<notin> fst ` set ps \<Longrightarrow> AList.update k v ps = ps @ [(k, v)]"
  by (induction ps) auto

lemma canonical_query_empty: "canonical_query ps = [] \<longleftrightarrow> ps = []"
proof
  assume "canonical_query ps = []"
  then have "sort ps = []" using urlencode_ne unfolding canonical_query_def by blast
  then have "length (sort ps) = 0" by (simp only: list.size)
  then show "ps = []" by simp
qed (simp add: canonical_query_def urlencode_def)

lemma wire_request_url:
  assumes "wire_request p = Inr q" and "CHR ''?'' \<notin> set (pr_url p)"
  shows "url_query (hq_url q) = canonical_query (pr_params p)"
    and "hq_url q = pr_url p @ (if canonical_query (pr_params p) = [] then [] else CHR ''?'' # canonical_query (pr_params p))"
    and "hq_method q = pr_method p"
  using assms by (auto simp: wire_request_def Let_def url_query_simps split: if_splits option.splits)

lemma wire_request_data:
  "wire_request p = Inr q \<Longrightarrow> hq_data q = None \<longleftrightarrow> pr_body p = None"
  "wire_request p = Inr q \<Longrightarrow> pr_body p = Some b \<Longrightarrow> \<exists>t. json_body (Some b) = Inr t \<and> hq_data q = Some t"
  by (auto simp: wire_request_def Let_def split: if_splits option.splits)

lemma map_of_updates:
  "distinct (map fst hs) \<Longrightarrow> map_of (foldl (\<lambda>h (k, v). AList.update k v h) h0 hs) k =
     (case map_of hs k of None \<Rightarrow> map_of h0 k | Some v \<Rightarrow> Some v)"
proof (induction hs arbitrary: h0)
  case (Cons kv hs)
  obtain k' v' where kv: "kv = (k', v')" by force
  with Cons.prems have "map_of hs k' = None" by (simp add: map_of_eq_None_iff)
  with Cons kv show ?case by (simp add: update_conv split: option.split)
qed simp

lemma wire_request_header:
  assumes "wire_request p = Inr q" and "distinct (map fst (pr_headers p))" and "k \<noteq> ''User-Agent''"
  shows "header q k = map_of (pr_headers p) k"
proof -
  have "hq_headers q = foldl (\<lambda>h (k, v). AList.update k v h)
      [(''User-Agent'', ''crypto-copy-trading-platform/0.1'')] (pr_headers p)"
    using assms(1) by (auto simp: wire_request_def Let_def)
  with assms(2,3) show ?thesis by (simp add: header_def map_of_updates split: option.split)
qed

lemma binance_verifies:
  assumes q: "wire_request (prepare_binance_request cl s method path cred params) = Inr q"
    and u: "CHR ''?'' \<notin> set (cl_rest_base_url cl @ path)" and new: "''signature'' \<notin> fst ` set params"
    and d: "distinct (map fst params)"
  shows "verifies BINANCE base (ec_api_secret cred) q"
proof -
  define ps where "ps = AList.update ''recvWindow'' (cl_recv_window cl)
    (AList.update ''timestamp'' (show_int (cl_timestamp_ms_factory cl s)) params)"
  define sig where "sig = hmac_sha256_hex (ec_api_secret cred) (canonical_query ps)"
  have ps: "''signature'' \<notin> fst ` set ps" "distinct (map fst ps)"
    using new d by (simp_all add: ps_def dom_update distinct_update)
  have p: "pr_params (prepare_binance_request cl s method path cred params) = ps @ [(''signature'', sig)]"
    using ps(1) by (simp add: prepare_binance_request_def Let_def sig_def ps_def update_new_key)
  have "url_query (hq_url q) = canonical_query (ps @ [(''signature'', sig)])"
    using wire_request_url(1) [OF q] u by (simp add: p) (simp add: prepare_binance_request_def Let_def)
  then have e: "parse_query (url_query (hq_url q)) = sort (ps @ [(''signature'', sig)])"
    by (simp add: canonical_query_def parse_urlencode)
  have "distinct (map fst (ps @ [(''signature'', sig)]))" using ps by simp
  then have "distinct (map fst (sort (ps @ [(''signature'', sig)])))"
    by (simp only: distinct_map distinct_sort set_sort)
  then have "map_of (sort (ps @ [(''signature'', sig)])) ''signature'' = Some sig"
    by (simp add: map_of_eq_Some_iff)
  moreover have "filter (\<lambda>p. fst p \<noteq> ''signature'') ps = ps"
    using ps(1) by (auto simp: filter_id_conv rev_image_eqI)
  then have "filter (\<lambda>p. fst p \<noteq> ''signature'') (sort (ps @ [(''signature'', sig)])) = sort ps"
    by (simp only: filter_sort filter_append) simp
  ultimately show ?thesis by (simp add: verifies_def e Let_def sig_def canonical_query_def)
qed

lemma bybit_verifies:
  assumes p: "prepare_bybit_request cl s method path cred params body = Inr p" and q: "wire_request p = Inr q"
    and u: "CHR ''?'' \<notin> set (cl_rest_base_url cl @ path)"
  shows "verifies BYBIT base (ec_api_secret cred) q"
proof -
  let ?b = "request_body_of method body"
  obtain data where data: "(if ?b \<noteq> None then json_body ?b else Inr (canonical_query params)) = Inr data"
    using p unfolding prepare_bybit_request_def Let_def by auto
  have d: "pr_body p = ?b" "pr_url p = cl_rest_base_url cl @ path" "pr_params p = params"
    "pr_headers p = [(''X-BAPI-API-KEY'', ec_api_key cred),
       (''X-BAPI-TIMESTAMP'', show_int (cl_timestamp_ms_factory cl s)), (''X-BAPI-RECV-WINDOW'', cl_recv_window cl),
       (''X-BAPI-SIGN'', hmac_sha256_hex (ec_api_secret cred)
          (show_int (cl_timestamp_ms_factory cl s) @ ec_api_key cred @ cl_recv_window cl @ data))]
       @ (if ?b \<noteq> None then [(''Content-Type'', ''application/json'')] else [])"
    using p data unfolding prepare_bybit_request_def Let_def by auto
  have "(case hq_data q of Some b \<Rightarrow> b | None \<Rightarrow> url_query (hq_url q)) = data"
    using wire_request_data [OF q] wire_request_url(1) [OF q] u d(1-3) data by (cases ?b) auto
  moreover have "header q k = map_of (pr_headers p) k" if "k \<noteq> ''User-Agent''" for k
    using wire_request_header [OF q _ that] d(4) by simp
  ultimately show ?thesis by (simp add: verifies_def d(4))
qed

lemma okx_verifies:
  assumes p: "prepare_okx_request cl s method path cred params body security = Inr p" and q: "wire_request p = Inr q"
    and u: "CHR ''?'' \<notin> set (cl_rest_base_url cl @ path)"
  shows "verifies OKX (cl_rest_base_url cl) (ec_api_secret cred) q"
proof -
  let ?b = "request_body_of method body"
  let ?path = "if canonical_query params \<noteq> [] then path @ ''?'' @ canonical_query params else path"
  obtain pp where pp: "ec_passphrase cred = Some pp"
    using p by (cases "ec_passphrase cred") (simp_all add: prepare_okx_request_def)
  obtain data where data: "(if ?b \<noteq> None then json_body ?b else Inr []) = Inr data"
    using p pp unfolding prepare_okx_request_def Let_def by auto
  have d: "pr_body p = ?b" "pr_url p = cl_rest_base_url cl @ path" "pr_params p = params" "pr_method p = method"
    "pr_headers p = [(''OK-ACCESS-KEY'', ec_api_key cred),
       (''OK-ACCESS-SIGN'', hmac_sha256_base64 (ec_api_secret cred)
          (cl_iso_timestamp_factory cl s @ method @ ?path @ data)),
       (''OK-ACCESS-TIMESTAMP'', cl_iso_timestamp_factory cl s), (''OK-ACCESS-PASSPHRASE'', pp)]
       @ (if ?b \<noteq> None then [(''Content-Type'', ''application/json'')] else [])
       @ (if security = OKX_DEMO_SIGNED then [(''x-simulated-trading'', ''1'')] else [])"
    using p pp data unfolding prepare_okx_request_def Let_def by auto
  have "(case hq_data q of Some b \<Rightarrow> b | None \<Rightarrow> []) = data"
    using wire_request_data [OF q] d(1) data by (cases ?b) auto
  moreover have "drop (length (cl_rest_base_url cl)) (hq_url q) = ?path" "hq_method q = method"
    using wire_request_url(2,3) [OF q] u d(2-4) by simp_all
  moreover have "header q k = map_of (pr_headers p) k" if "k \<noteq> ''User-Agent''" for k
    using wire_request_header [OF q _ that] d(5) by simp
  ultimately show ?thesis by (simp add: verifies_def d(5))
qed

section \<open>Operations that send nothing\<close>

definition silent :: "'a op \<Rightarrow> bool" where
  "silent m \<longleftrightarrow> keeps (\<lambda>s s'. wire s' = wire s \<and> sockets s' = sockets s) m"

named_theorems silent_rules \<open>operations that send no request\<close>

lemma silentD: "silent m \<Longrightarrow> m s = (r, s') \<Longrightarrow> wire s' = wire s"
  unfolding silent_def by (drule keepsD) auto

lemma silent_sockets: "silent m \<Longrightarrow> m s = (r, s') \<Longrightarrow> sockets s' = sockets s"
  unfolding silent_def by (drule keepsD) auto

lemma silentI: "(\<And>s r s'. m s = (r, s') \<Longrightarrow> wire s' = wire s \<and> sockets s' = sockets s) \<Longrightarrow> silent m"
  unfolding silent_def keeps_def by (metis prod.collapse)

lemma silent_basic [silent_rules]:
  "silent (ret a)" "silent (raise e)" "silent (reads f)" "silent (query g)" "silent (lift_result r)"
  "silent (upd h)" "silent new_uuid" "silent flush" "silent commit" "silent (send_alert al)"
  by (auto intro!: silentI simp: ret_def raise_def reads_def query_def lift_result_def upd_def modify_def
      new_uuid_def flush_def commit_apply send_alert_def split: if_splits)

lemma silent_bnd [silent_rules]: "silent m \<Longrightarrow> (\<And>a. silent (f a)) \<Longrightarrow> silent (bnd m f)"
  unfolding silent_def by (rule keeps_bnd) (auto intro: transpI)

lemma silent_if [silent_rules]: "(c \<Longrightarrow> silent m) \<Longrightarrow> (\<not> c \<Longrightarrow> silent m') \<Longrightarrow> silent (if c then m else m')"
  by simp

lemma silent_case_option [silent_rules]:
  "silent m \<Longrightarrow> (\<And>a. silent (f a)) \<Longrightarrow> silent (case x of None \<Rightarrow> m | Some a \<Rightarrow> f a)"
  by (simp split: option.split)

lemma silent_Let [silent_rules]: "silent (f x) \<Longrightarrow> silent (let y = x in f y)"
  by simp

lemma silent_try_except:
  "silent m \<Longrightarrow> (\<And>e k. h e = Some k \<Longrightarrow> silent k) \<Longrightarrow> silent (try_except m h)"
  unfolding silent_def by (rule keeps_try_except) (auto intro: transpI)

lemma silent_execution_ops [silent_rules]:
  "silent (get_execution eid)" "silent (put_execution ex)" "silent (modify_execution eid f)"
  "silent (transition_order_execution eid st reason details)" "silent (create_execution ex reason)"
proof -
  show get: "silent (get_execution i)" for i unfolding get_execution_def by (intro silent_rules)
  show put: "silent (put_execution x)" for x unfolding put_execution_def by (intro silent_rules)
  show "silent (modify_execution eid f)"
    unfolding modify_execution_def by (intro silent_rules get put)
  have add: "silent (add_transition x a b c d)" for x a b c d
    unfolding add_transition_def by (intro silent_rules)
  show "silent (transition_order_execution eid st reason details)"
    unfolding transition_order_execution_def by (intro silent_rules get put add)
  show "silent (create_execution ex reason)"
    unfolding create_execution_def add_execution_def record_initial_order_state_def
    by (intro silent_rules get add)
qed

lemma silent_reads [silent_rules]:
  "silent assert_new_orders_allowed" "silent (account_or_value_error u i)"
  "silent (get_or_create_risk_settings u i)" "silent (get_api_key_secret_metadata u i)"
  "silent (get_exchange_credentials c u i)"
  "silent (require_valid_testnet_order_window_authorization u i y sd q p n)"
proof -
  show md: "silent (get_api_key_secret_metadata u i)"
    unfolding get_api_key_secret_metadata_def by (intro silent_rules)
  show "silent assert_new_orders_allowed"
    unfolding assert_new_orders_allowed_def get_emergency_stop_state_def by (intro silent_rules)
  show "silent (account_or_value_error u i)"
    unfolding account_or_value_error_def get_owned_account_def by (intro silent_rules)
  show "silent (get_or_create_risk_settings u i)"
    unfolding get_or_create_risk_settings_def by (intro silent_rules)
  show "silent (get_exchange_credentials c u i)"
    unfolding get_exchange_credentials_def by (intro silent_rules md)
  show "silent (require_valid_testnet_order_window_authorization u i y sd q p n)"
    unfolding require_valid_testnet_order_window_authorization_def by (intro silent_rules)
qed

lemma sound_wire [simp]: "sound (s\<lparr>wire := w\<rparr>) = sound s"
  by (simp add: sound_def both_def)

text \<open>Operations all of whose requests satisfy \<open>P\<close> and all of whose dealings with websockets \<open>Q\<close>.\<close>

definition emitted :: "(http_request \<Rightarrow> bool) \<Rightarrow> (socket_event \<Rightarrow> bool) \<Rightarrow> session \<Rightarrow> session \<Rightarrow> bool" where
  "emitted P Q s s' \<longleftrightarrow> (\<exists>qs es. wire s' = wire s @ qs \<and> sockets s' = sockets s @ es
     \<and> (\<forall>q \<in> set qs. P q) \<and> (\<forall>e \<in> set es. Q e))"

definition emits :: "(http_request \<Rightarrow> bool) \<Rightarrow> (socket_event \<Rightarrow> bool) \<Rightarrow> 'a op \<Rightarrow> bool" where
  "emits P Q m \<longleftrightarrow> keeps (emitted P Q) m"

named_theorems emits_rules \<open>what operations send\<close>

lemma emitted_refl: "reflp (emitted P Q)"
  by (rule reflpI) (simp add: emitted_def)

lemma emitted_trans: "transp (emitted P Q)"
proof (rule transpI)
  fix s1 s2 s3
  assume "emitted P Q s1 s2" "emitted P Q s2 s3"
  then obtain q1 e1 q2 e2 where one: "wire s2 = wire s1 @ q1" "sockets s2 = sockets s1 @ e1" "\<forall>q \<in> set q1. P q" "\<forall>e \<in> set e1. Q e"
    and two: "wire s3 = wire s2 @ q2" "sockets s3 = sockets s2 @ e2" "\<forall>q \<in> set q2. P q" "\<forall>e \<in> set e2. Q e"
    unfolding emitted_def by blast
  show "emitted P Q s1 s3"
    unfolding emitted_def by (rule exI [of _ "q1 @ q2"], rule exI [of _ "e1 @ e2"]) (use one two in auto)
qed

lemma emitsI: "(\<And>s r s'. m s = (r, s') \<Longrightarrow> emitted P Q s s') \<Longrightarrow> emits P Q m"
  unfolding emits_def keeps_def by (metis prod.collapse)

lemma emitsD: "emits P Q m \<Longrightarrow> m s = (r, s') \<Longrightarrow> emitted P Q s s'"
  unfolding emits_def by (rule keepsD)

lemma emits_silent: "silent m \<Longrightarrow> emits P Q m"
  by (rule emitsI, unfold emitted_def, rule exI [of _ "[]"], rule exI [of _ "[]"]) (simp add: silentD silent_sockets)

lemma emits_bnd [emits_rules]: "emits P Q m \<Longrightarrow> (\<And>a. emits P Q (f a)) \<Longrightarrow> emits P Q (bnd m f)"
  unfolding emits_def by (rule keeps_bnd [OF emitted_trans])

lemma emits_try [emits_rules]:
  "emits P Q m \<Longrightarrow> (\<And>e k. h e = Some k \<Longrightarrow> emits P Q k) \<Longrightarrow> emits P Q (try_except m h)"
  unfolding emits_def by (rule keeps_try_except [OF emitted_trans])

lemma emits_map_act [emits_rules]: "(\<And>x. emits P Q (f x)) \<Longrightarrow> emits P Q (map_act f xs)"
  unfolding emits_def by (rule keeps_map_act [OF emitted_refl emitted_trans])

lemma emits_case_option [emits_rules]:
  "emits P Q m \<Longrightarrow> (\<And>a. emits P Q (f a)) \<Longrightarrow> emits P Q (case x of None \<Rightarrow> m | Some a \<Rightarrow> f a)"
  by (simp split: option.split)

lemma emits_if [emits_rules]: "(c \<Longrightarrow> emits P Q m) \<Longrightarrow> (\<not> c \<Longrightarrow> emits P Q m') \<Longrightarrow> emits P Q (if c then m else m')"
  by simp

lemma emits_Let [emits_rules]: "emits P Q (f x) \<Longrightarrow> emits P Q (let y = x in f y)"
  by simp

lemma transport_sends_one:
  assumes "transport_request net p s = (r, s')"
  shows "(\<exists>e. wire_request p = Inl e \<and> s' = s \<and> r = Inl e) \<or>
    (\<exists>q. wire_request p = Inr q \<and> s' = s\<lparr>wire := wire s @ [q]\<rparr> \<and> r = fst (transport_request net p s))"
  using assms by (cases "wire_request p") (auto simp: transport_request_def split: http_reply.splits)

section \<open>Properties\<close>

text \<open>The receiver of a query string reads back exactly the parameters that were encoded, sorted by
  name: \<open>urlencode\<close> loses nothing, whatever characters they contain.\<close>

theorem query_reads_back: "parse_query (canonical_query params) = sort params"
  by (simp add: canonical_query_def parse_urlencode)

text \<open>C13: Every signed request carries a signature that its exchange accepts: what is signed is what
  is sent, for each exchange's own rule.\<close>

theorem signed_requests_verify:
  assumes p: "prepare_private_any cl s method path cred params body security = Inr p" and q: "wire_request p = Inr q"
    and u: "CHR ''?'' \<notin> set (cl_rest_base_url cl @ path)" and new: "''signature'' \<notin> fst ` set params"
    and d: "distinct (map fst params)"
  shows "verifies (cl_exchange_name cl) (cl_rest_base_url cl) (ec_api_secret cred) q"
proof (cases "cl_exchange_name cl")
  case BINANCE
  with p have "p = prepare_binance_request cl s method path cred params" by (simp add: prepare_private_any_def)
  then show ?thesis using binance_verifies q u new d BINANCE by simp
next
  case BYBIT
  with p have "prepare_bybit_request cl s method path cred params body = Inr p" by (simp add: prepare_private_any_def)
  then show ?thesis using bybit_verifies q u BYBIT by simp
next
  case OKX
  with p have "prepare_okx_request cl s method path cred params body security = Inr p"
    by (simp add: prepare_private_any_def)
  then show ?thesis using okx_verifies q u OKX by simp
next
  case MOCK
  with p show ?thesis by (simp add: prepare_private_any_def)
qed

theorem signed_requests_verify_witness:
  "\<exists>p q. prepare_private_any (signed_http_client BINANCE ''https://testnet.binance.vision'') sample_session ''GET''
       ''/api/v3/order'' \<lparr>ec_api_key = ''k'', ec_api_secret = ''s'', ec_passphrase = None\<rparr> [(''symbol'', ''BTCUSDT'')] None SIGNED = Inr p
     \<and> wire_request p = Inr q \<and> verifies BINANCE ''https://testnet.binance.vision'' ''s'' q"
proof -
  let ?cl = "signed_http_client BINANCE ''https://testnet.binance.vision''"
  let ?cred = "\<lparr>ec_api_key = ''k'', ec_api_secret = ''s'', ec_passphrase = None\<rparr>"
  have cl: "cl_exchange_name ?cl = BINANCE" "cl_rest_base_url ?cl = ''https://testnet.binance.vision''"
    by (simp_all add: signed_http_client_def rstrip_char_def)
  obtain p where p: "prepare_private_any ?cl sample_session ''GET'' ''/api/v3/order'' ?cred [(''symbol'', ''BTCUSDT'')] None SIGNED = Inr p"
    and b: "pr_body p = None"
    by (simp add: prepare_private_any_def cl prepare_binance_request_def Let_def)
  obtain q where q: "wire_request p = Inr q" by (simp add: wire_request_def b Let_def)
  from p q signed_requests_verify [OF p q] show ?thesis by (simp add: cl)
qed

end
