(* ===== verification/Rate_Limit.thy ===== *)
theory Rate_Limit
  imports Db "HOL-Library.AList"
begin

text \<open>
  Rate limits: the table of exchange limits (\<open>exchanges/rate_limit.py\<close>) and the runtime limiter
  that every testnet order passes (\<open>services/rate_limit_service.py\<close>). The limiter counts calls in
  fixed windows kept by a store: a dictionary in memory, or Redis, whose three commands are
  parameters. Times are rationals (the program's monotonic clock, in seconds).
\<close>

section \<open>The table of limits\<close>

datatype rate_limit_scope = IP | ACCOUNT | USER_ID | CONNECTION | DYNAMIC

record rate_limit_rule =
  rl_name :: string
  rl_scope :: rate_limit_scope
  rl_limit :: "int option"
  rl_interval_seconds :: "int option"
  rl_applies_to :: "string list"
  rl_notes :: string

record exchange_rate_limit_config =
  rc_exchange_name :: exchange_name
  rc_retry_after_header :: "string option"
  rc_usage_headers :: "string list"
  rc_rules :: "rate_limit_rule list"
  rc_notes :: string

definition config_rule :: "exchange_rate_limit_config \<Rightarrow> string \<Rightarrow> rate_limit_rule result" where
  "config_rule c name = (case List.find (\<lambda>item. rl_name item = name) (rc_rules c) of
      Some item \<Rightarrow> Inr item
    | None \<Rightarrow> Inl (KeyError (''rate limit rule not configured: '' @ name)))"

definition EXCHANGE_RATE_LIMITS :: "(exchange_name \<times> exchange_rate_limit_config) list" where
  "EXCHANGE_RATE_LIMITS =
     [(BINANCE, \<lparr>rc_exchange_name = BINANCE, rc_retry_after_header = Some ''Retry-After'',
        rc_usage_headers = [''X-MBX-USED-WEIGHT-*'', ''X-MBX-ORDER-COUNT-*''],
        rc_rules =
          [\<lparr>rl_name = ''REQUEST_WEIGHT'', rl_scope = IP, rl_limit = None, rl_interval_seconds = None,
            rl_applies_to = [''REST'', ''WebSocket API''],
            rl_notes = ''Authoritative values are returned by /api/v3/exchangeInfo rateLimits.''\<rparr>,
           \<lparr>rl_name = ''RAW_REQUESTS'', rl_scope = IP, rl_limit = Some 300000, rl_interval_seconds = Some 300,
            rl_applies_to = [''REST''],
            rl_notes = ''Spot Testnet changelog lists 300,000 raw requests per 5 minutes.''\<rparr>,
           \<lparr>rl_name = ''ORDERS'', rl_scope = ACCOUNT, rl_limit = None, rl_interval_seconds = None,
            rl_applies_to = [''REST'', ''WebSocket API''],
            rl_notes = ''Order count limits are account-scoped and must use order-count headers.''\<rparr>],
        rc_notes = ''Do not run near the limits; back off on 429 or 418 responses.''\<rparr>),
      (BYBIT, \<lparr>rc_exchange_name = BYBIT, rc_retry_after_header = None,
        rc_usage_headers = [''X-Bapi-Limit'', ''X-Bapi-Limit-Status'', ''X-Bapi-Limit-Reset-Timestamp''],
        rc_rules =
          [\<lparr>rl_name = ''HTTP_IP'', rl_scope = IP, rl_limit = Some 600, rl_interval_seconds = Some 5,
            rl_applies_to = [''REST''],
            rl_notes = ''Default HTTP IP cap before 403 access-too-frequent protection.''\<rparr>,
           \<lparr>rl_name = ''WEBSOCKET_CONNECTIONS'', rl_scope = IP, rl_limit = Some 500, rl_interval_seconds = Some 300,
            rl_applies_to = [''WebSocket''], rl_notes = ''Connection creation cap per IP.''\<rparr>,
           \<lparr>rl_name = ''MARKET_DATA_CONNECTIONS'', rl_scope = IP, rl_limit = Some 1000, rl_interval_seconds = None,
            rl_applies_to = [''WebSocket market data''], rl_notes = ''Maximum market-data connections per IP.''\<rparr>],
        rc_notes = ''Endpoint and account-tier limits must be read from Bybit response headers.''\<rparr>),
      (OKX, \<lparr>rc_exchange_name = OKX, rc_retry_after_header = None, rc_usage_headers = [],
        rc_rules =
          [\<lparr>rl_name = ''PUBLIC_REST'', rl_scope = IP, rl_limit = None, rl_interval_seconds = None,
            rl_applies_to = [''REST public''],
            rl_notes = ''Public unauthenticated REST limits are endpoint-specific and IP-scoped.''\<rparr>,
           \<lparr>rl_name = ''PRIVATE_REST'', rl_scope = USER_ID, rl_limit = None, rl_interval_seconds = None,
            rl_applies_to = [''REST private''],
            rl_notes = ''Private REST limits are endpoint-specific and User ID scoped.''\<rparr>,
           \<lparr>rl_name = ''ORDER_MANAGEMENT'', rl_scope = USER_ID, rl_limit = None, rl_interval_seconds = None,
            rl_applies_to = [''REST order'', ''WebSocket order''],
            rl_notes = ''Trading API limits are shared across REST and WebSocket channels.''\<rparr>],
        rc_notes = ''Back off when OKX returns error code 50011 for rate limit reached.''\<rparr>)]"

definition get_exchange_rate_limit_config :: "exchange_name \<Rightarrow> exchange_rate_limit_config result" where
  "get_exchange_rate_limit_config x = (case map_of EXCHANGE_RATE_LIMITS x of
      None \<Rightarrow> Inl (KeyError (exchange_value x)) | Some c \<Rightarrow> Inr c)"

section \<open>Windows and stores\<close>

type_synonym rate_key = "string \<times> string \<times> string"

record window_state =
  ws_started_at :: rat
  ws_count :: int

record runtime_rule =
  rr_name :: string
  rr_scope :: rate_limit_scope
  rr_limit :: int
  rr_interval_seconds :: int

record rate_limit_window =
  rw_count :: int
  rw_retry_after_seconds :: int

text \<open>A store: \<open>acquire key limit interval now\<close> as an action on the store's state.\<close>

type_synonym 'st store_acquire = "rate_key \<Rightarrow> int \<Rightarrow> int \<Rightarrow> rat \<Rightarrow> ('st, rate_limit_window) action"

text \<open>\<open>int(x)\<close> of a float cuts towards zero.\<close>

definition trunc :: "rat \<Rightarrow> int" where
  "trunc x = (if 0 \<le> x then \<lfloor>x\<rfloor> else - \<lfloor>- x\<rfloor>)"

definition retry_after_seconds :: "rat \<Rightarrow> rat \<Rightarrow> int \<Rightarrow> int" where
  "retry_after_seconds now started_at interval_seconds =
     (let remaining = interval_seconds - trunc (now - started_at) in max 1 remaining)"

type_synonym windows = "(rate_key \<times> window_state) list"

definition active_window :: "rate_key \<Rightarrow> rat \<Rightarrow> int \<Rightarrow> (windows, window_state) action" where
  "active_window key now interval_seconds ws =
     (case map_of ws key of
        Some window \<Rightarrow>
          if now - ws_started_at window \<ge> of_int interval_seconds
          then (let window = \<lparr>ws_started_at = now, ws_count = 0\<rparr> in (Inr window, AList.update key window ws))
          else (Inr window, ws)
      | None \<Rightarrow> (let window = \<lparr>ws_started_at = now, ws_count = 0\<rparr> in (Inr window, AList.update key window ws)))"

definition memory_acquire :: "windows store_acquire" where
  "memory_acquire key limit interval_seconds now =
     bnd (active_window key now interval_seconds) (\<lambda>window.
       let window = window\<lparr>ws_count := ws_count window + 1\<rparr>
       in bnd (modify (AList.update key window)) (\<lambda>_.
            ret \<lparr>rw_count = ws_count window,
                 rw_retry_after_seconds = retry_after_seconds now (ws_started_at window) interval_seconds\<rparr>))"

text \<open>The three commands of Redis that the program uses; each may fail with \<open>RedisError\<close>.\<close>

record 'st redis_commands =
  r_incr :: "string \<Rightarrow> ('st, int) action"
  r_expire :: "string \<Rightarrow> int \<Rightarrow> ('st, unit) action"
  r_ttl :: "string \<Rightarrow> ('st, int) action"

definition escape_key_part :: "string \<Rightarrow> string" where
  "escape_key_part value = replace ''/'' ''_'' (replace '':'' ''_'' value)"

definition redis_key :: "string \<Rightarrow> rate_key \<Rightarrow> string" where
  "redis_key prefix key = (case key of (a, b, c) \<Rightarrow>
     join '':'' [prefix, escape_key_part a, escape_key_part b, escape_key_part c])"

definition redis_unavailable :: "py_exc \<Rightarrow> ('st, 'a) action option" where
  "redis_unavailable e = (if e = RedisError then Some (raise RateLimitStoreUnavailableError) else None)"

definition redis_acquire :: "'st redis_commands \<Rightarrow> string \<Rightarrow> 'st store_acquire" where
  "redis_acquire redis prefix key limit interval_seconds now =
     (let k = redis_key prefix key
      in bnd (try_except
           (bnd (r_incr redis k) (\<lambda>count.
            bnd (if count = 1 then r_expire redis k interval_seconds else ret ()) (\<lambda>_.
            bnd (r_ttl redis k) (\<lambda>ttl. ret (count, ttl)))))
           redis_unavailable) (\<lambda>(count, ttl).
         ret \<lparr>rw_count = count,
              rw_retry_after_seconds = max 1 (if ttl \<noteq> 0 \<and> ttl > 0 then ttl else interval_seconds)\<rparr>))"

section \<open>The limiter\<close>

record 'st limiter =
  lm_store :: 'st
  lm_alerts :: "alert list"

definition testnet_order_rules :: "exchange_name \<Rightarrow> runtime_rule list result" where
  "testnet_order_rules x =
     bndr (get_exchange_rate_limit_config x) (\<lambda>config. Inr (
       \<lparr>rr_name = ''TESTNET_ORDER_ACCOUNT_SAFETY'', rr_scope = ACCOUNT, rr_limit = 1, rr_interval_seconds = 1\<rparr>
       # List.map_filter (\<lambda>rule. case (rl_limit rule, rl_interval_seconds rule) of
            (Some limit, Some interval) \<Rightarrow>
              if ''REST'' \<in> set (rl_applies_to rule)
              then Some \<lparr>rr_name = rl_name rule, rr_scope = rl_scope rule, rr_limit = limit, rr_interval_seconds = interval\<rparr>
              else None
          | _ \<Rightarrow> None) (rc_rules config)))"

definition rate_limit_key :: "runtime_rule \<Rightarrow> exchange_name \<Rightarrow> string \<Rightarrow> string \<Rightarrow> rate_key" where
  "rate_limit_key rule x account_id request_path =
     (let scope_key = (if rr_scope rule = IP then ''global'' else account_id)
      in (exchange_value x, rr_name rule, scope_key @ '':'' @ request_path))"

definition safe_alert_scope :: "rate_limit_scope \<Rightarrow> string" where
  "safe_alert_scope scope = (if scope = IP then ''ip'' else if scope = ACCOUNT then ''account'' else ''global'')"

definition on_store :: "('st, 'a) action \<Rightarrow> ('st limiter, 'a) action" where
  "on_store m l = (case m (lm_store l) of (r, st) \<Rightarrow> (r, l\<lparr>lm_store := st\<rparr>))"

definition notify_rate_limit_blocked ::
    "bool \<Rightarrow> exchange_name \<Rightarrow> runtime_rule \<Rightarrow> int \<Rightarrow> ('st limiter, unit) action" where
  "notify_rate_limit_blocked alert_runtime x rule retry =
     (if \<not> alert_runtime then ret ()
      else modify (\<lambda>l. l\<lparr>lm_alerts := lm_alerts l @
        [RateLimitAlert (exchange_value x) (safe_alert_scope (rr_scope rule)) ''order'' retry]\<rparr>))"

fun acquire_rules ::
    "'st store_acquire \<Rightarrow> bool \<Rightarrow> exchange_name \<Rightarrow> rat \<Rightarrow> (runtime_rule \<times> rate_key) list \<Rightarrow> ('st limiter, unit) action" where
  "acquire_rules acquire alert_runtime x now [] = ret ()"
| "acquire_rules acquire alert_runtime x now ((rule, key) # rest) =
     bnd (on_store (acquire key (rr_limit rule) (rr_interval_seconds rule) now)) (\<lambda>window.
       if rw_count window > rr_limit rule
       then bnd (notify_rate_limit_blocked alert_runtime x rule (rw_retry_after_seconds window)) (\<lambda>_.
              raise (RateLimitExceededError (rr_name rule) (rw_retry_after_seconds window)))
       else acquire_rules acquire alert_runtime x now rest)"

definition acquire_testnet_order ::
    "'st store_acquire \<Rightarrow> bool \<Rightarrow> rat \<Rightarrow> exchange_name \<Rightarrow> string \<Rightarrow> string \<Rightarrow> ('st limiter, unit) action" where
  "acquire_testnet_order acquire alert_runtime now x account_id request_path =
     bnd (lift_result (testnet_order_rules x)) (\<lambda>rules.
       acquire_rules acquire alert_runtime x now
         (map (\<lambda>rule. (rule, rate_limit_key rule x account_id request_path)) rules))"

text \<open>The service of the application: the Redis store under its own prefix.\<close>

definition runtime_rate_limit_service ::
    "'st redis_commands \<Rightarrow> bool \<Rightarrow> rat \<Rightarrow> exchange_name \<Rightarrow> string \<Rightarrow> string \<Rightarrow> ('st limiter, unit) action" where
  "runtime_rate_limit_service redis = acquire_testnet_order (redis_acquire redis ''trading:rate_limit'')"

section \<open>The contract of a store\<close>

text \<open>
  What the limiter relies on: a call whose key has no window, or an expired one, opens a window
  with one call in it; a call in an active window adds one; other keys are untouched.
\<close>

definition fresh_at :: "window_state option \<Rightarrow> rat \<Rightarrow> int \<Rightarrow> bool" where
  "fresh_at w now interval = (case w of None \<Rightarrow> True | Some v \<Rightarrow> of_int interval \<le> now - ws_started_at v)"

text \<open>
  Attempts at the times \<open>ts\<close>, one after the other, each in the state the one before left, with
  what each was answered; and the answer an attempt deserves that is the one number \<open>i\<close> (from 0)
  of the window that started at \<open>t0\<close>.
\<close>

fun attempts :: "(rat \<Rightarrow> ('s, 'a) action) \<Rightarrow> rat list \<Rightarrow> 's \<Rightarrow> 'a result list \<times> 's" where
  "attempts f [] s = ([], s)"
| "attempts f (t # ts) s =
     (case f t s of (r, s1) \<Rightarrow> case attempts f ts s1 of (rs, s2) \<Rightarrow> (r # rs, s2))"

definition window_verdict :: "runtime_rule \<Rightarrow> rat \<Rightarrow> nat \<Rightarrow> rat \<Rightarrow> unit result" where
  "window_verdict rule t0 i t =
     (if int i < rr_limit rule then Inr ()
      else Inl (RateLimitExceededError (rr_name rule) (retry_after_seconds t t0 (rr_interval_seconds rule))))"

text \<open>An attempt is answered by the number the store gives it.\<close>

lemma attempt_answered:
  assumes "acquire k (rr_limit rule) (rr_interval_seconds rule) t (lm_store l) = (Inr w, st1)"
    and "rw_count w = int i + 1" and "rw_retry_after_seconds w = retry_after_seconds t t0 (rr_interval_seconds rule)"
  shows "\<exists>l1. acquire_rules acquire al x t [(rule, k)] l = (window_verdict rule t0 i t, l1) \<and> lm_store l1 = st1"
proof (cases "int i < rr_limit rule")
  case True
  with assms show ?thesis by (simp add: on_store_def bnd_def window_verdict_def)
next
  case False
  with assms show ?thesis
    by (cases al) (simp_all add: on_store_def bnd_def notify_rate_limit_blocked_def window_verdict_def)
qed

locale window_store =
  fixes acquire :: "'st store_acquire" and window_of :: "'st \<Rightarrow> rate_key \<Rightarrow> window_state option"
  assumes acquire_fresh: "fresh_at (window_of st k) now iv \<Longrightarrow>
      \<exists>w st'. acquire k lmt iv now st = (Inr w, st') \<and> rw_count w = 1
        \<and> rw_retry_after_seconds w = retry_after_seconds now now iv
        \<and> window_of st' k = Some \<lparr>ws_started_at = now, ws_count = 1\<rparr>"
    and acquire_active: "window_of st k = Some v \<Longrightarrow> \<not> fresh_at (Some v) now iv \<Longrightarrow>
      \<exists>w st'. acquire k lmt iv now st = (Inr w, st') \<and> rw_count w = ws_count v + 1
        \<and> rw_retry_after_seconds w = retry_after_seconds now (ws_started_at v) iv
        \<and> window_of st' k = Some (v\<lparr>ws_count := ws_count v + 1\<rparr>)"
    and acquire_other: "acquire k lmt iv now st = (r, st') \<Longrightarrow> k' \<noteq> k \<Longrightarrow> window_of st' k' = window_of st k'"
begin

lemma acquire_total: "\<exists>w st'. acquire k lmt iv now st = (Inr w, st')"
proof (cases "fresh_at (window_of st k) now iv")
  case True
  from acquire_fresh [OF this] show ?thesis by blast
next
  case False
  then obtain v where v: "window_of st k = Some v" by (auto simp: fresh_at_def split: option.splits)
  with False acquire_active [OF v] show ?thesis by metis
qed

text \<open>The attempts made within one window are numbered in their order, refused ones included.\<close>

lemma attempts_numbered:
  assumes "window_of (lm_store l) k = Some v" and "ws_count v = int n"
    and "\<forall>t \<in> set ts. t - ws_started_at v < of_int (rr_interval_seconds rule)"
  shows "fst (attempts (\<lambda>t. acquire_rules acquire al x t [(rule, k)]) ts l) =
    map (\<lambda>(i, t). window_verdict rule (ws_started_at v) i t) (enumerate n ts)"
  using assms
proof (induction ts arbitrary: l v n)
  case (Cons t ts)
  let ?iv = "rr_interval_seconds rule" and ?v = "v\<lparr>ws_count := ws_count v + 1\<rparr>"
  have "\<not> fresh_at (Some v) t ?iv" using Cons.prems(3) by (simp add: fresh_at_def not_le)
  then obtain w st1 where a: "acquire k (rr_limit rule) ?iv t (lm_store l) = (Inr w, st1)"
    "rw_count w = int n + 1" "rw_retry_after_seconds w = retry_after_seconds t (ws_started_at v) ?iv"
    "window_of st1 k = Some ?v"
    using acquire_active [OF Cons.prems(1)] Cons.prems(2) by metis
  obtain l1 where l1: "acquire_rules acquire al x t [(rule, k)] l =
      (window_verdict rule (ws_started_at v) n t, l1)" "lm_store l1 = st1"
    using attempt_answered [of acquire k rule t l w st1 n "ws_started_at v"] a by blast
  have "fst (attempts (\<lambda>t. acquire_rules acquire al x t [(rule, k)]) ts l1) =
      map (\<lambda>(i, t). window_verdict rule (ws_started_at ?v) i t) (enumerate (Suc n) ts)"
    by (rule Cons.IH) (use a(4) l1(2) Cons.prems in simp_all)
  with l1(1) show ?case by (simp add: split_beta)
qed simp

text \<open>Of the attempts made within one window, exactly the first ones up to the limit are admitted.\<close>

lemma attempts_admit:
  assumes f: "fresh_at (window_of (lm_store l) k) t (rr_interval_seconds rule)"
    and ts: "\<forall>t' \<in> set ts. t' - t < of_int (rr_interval_seconds rule)"
  shows "fst (attempts (\<lambda>t. acquire_rules acquire al x t [(rule, k)]) (t # ts) l) =
    map (\<lambda>(i, t'). window_verdict rule t i t') (enumerate 0 (t # ts))"
proof -
  let ?iv = "rr_interval_seconds rule" and ?v = "\<lparr>ws_started_at = t, ws_count = 1\<rparr>"
  obtain w st1 where a: "acquire k (rr_limit rule) ?iv t (lm_store l) = (Inr w, st1)" "rw_count w = 1"
    "rw_retry_after_seconds w = retry_after_seconds t t ?iv" "window_of st1 k = Some ?v"
    using acquire_fresh [OF f] by metis
  obtain l1 where l1: "acquire_rules acquire al x t [(rule, k)] l = (window_verdict rule t 0 t, l1)"
    "lm_store l1 = st1"
    using attempt_answered [of acquire k rule t l w st1 0 t] a by auto
  have "fst (attempts (\<lambda>t. acquire_rules acquire al x t [(rule, k)]) ts l1) =
      map (\<lambda>(i, t'). window_verdict rule (ws_started_at ?v) i t') (enumerate 1 ts)"
    by (rule attempts_numbered) (use a(4) l1(2) ts in simp_all)
  with l1(1) show ?thesis by (simp add: split_beta)
qed

text \<open>The rules of one order touch only their own keys.\<close>

lemma acquire_rules_other:
  "acquire_rules acquire al x now rks l = (r, l') \<Longrightarrow> k \<notin> snd ` set rks \<Longrightarrow>
     window_of (lm_store l') k = window_of (lm_store l) k"
proof (induction rks arbitrary: l)
  case (Cons rk rks)
  obtain rule key where rk: "rk = (rule, key)" by (cases rk)
  obtain r1 st1 where a: "acquire key (rr_limit rule) (rr_interval_seconds rule) now (lm_store l) = (r1, st1)"
    by force
  have same: "window_of st1 k = window_of (lm_store l) k"
    using acquire_other [OF a] Cons.prems(2) rk by auto
  show ?case
  proof (cases r1)
    case (Inl e)
    then have "lm_store l' = st1"
      using Cons.prems(1) a by (auto simp: rk on_store_def bnd_def)
    with same show ?thesis by simp
  next
    case (Inr w)
    show ?thesis
    proof (cases "rw_count w > rr_limit rule")
      case True
      then have "lm_store l' = st1"
        using Cons.prems(1) a Inr by (auto simp: rk on_store_def bnd_def notify_rate_limit_blocked_def split: if_splits)
      with same show ?thesis by simp
    next
      case False
      then have "acquire_rules acquire al x now rks (l\<lparr>lm_store := st1\<rparr>) = (r, l')"
        using Cons.prems(1) a Inr by (simp add: rk on_store_def bnd_def)
      from Cons.IH [OF this] Cons.prems(2) same show ?thesis by simp
    qed
  qed
qed simp

end

interpretation memory: window_store memory_acquire map_of
proof
  fix st :: windows and k now iv lmt
  assume "fresh_at (map_of st k) now iv"
  then show "\<exists>w st'. memory_acquire k lmt iv now st = (Inr w, st') \<and> rw_count w = 1
      \<and> rw_retry_after_seconds w = retry_after_seconds now now iv
      \<and> map_of st' k = Some \<lparr>ws_started_at = now, ws_count = 1\<rparr>"
    by (cases "map_of st k") (auto simp: memory_acquire_def active_window_def bnd_def fresh_at_def Let_def update_conv)
next
  fix st :: windows and k v now iv lmt
  assume "map_of st k = Some v" and "\<not> fresh_at (Some v) now iv"
  then show "\<exists>w st'. memory_acquire k lmt iv now st = (Inr w, st') \<and> rw_count w = ws_count v + 1
      \<and> rw_retry_after_seconds w = retry_after_seconds now (ws_started_at v) iv
      \<and> map_of st' k = Some (v\<lparr>ws_count := ws_count v + 1\<rparr>)"
    by (auto simp: memory_acquire_def active_window_def bnd_def fresh_at_def Let_def update_conv)
next
  fix k lmt iv now and st st' :: windows and r k'
  assume "memory_acquire k lmt iv now st = (r, st')" and "k' \<noteq> k"
  then show "map_of st' k' = map_of st k'"
    by (auto simp: memory_acquire_def active_window_def bnd_def Let_def update_conv split: option.splits if_splits)
qed

section \<open>Properties\<close>

definition safety_rule :: runtime_rule where
  "safety_rule = \<lparr>rr_name = ''TESTNET_ORDER_ACCOUNT_SAFETY'', rr_scope = ACCOUNT, rr_limit = 1, rr_interval_seconds = 1\<rparr>"

text \<open>The account rule comes first, and its key is used by no other rule.\<close>

lemma testnet_order_rules_shape:
  assumes "testnet_order_rules x = Inr rules"
  shows "\<exists>rest. rules = safety_rule # rest \<and> rr_name safety_rule \<notin> rr_name ` set rest"
  using assms
  by (cases x) (auto simp: testnet_order_rules_def get_exchange_rate_limit_config_def EXCHANGE_RATE_LIMITS_def
      safety_rule_def map_filter_simps)

lemma rate_limit_key_rule: "rr_name r \<noteq> rr_name r' \<Longrightarrow> rate_limit_key r x a p \<noteq> rate_limit_key r' x a' p"
  by (simp add: rate_limit_key_def Let_def)

text \<open>Every window on record has counted a call.\<close>

definition windows_ok :: "windows \<Rightarrow> bool" where
  "windows_ok ws \<longleftrightarrow> (\<forall>k v. map_of ws k = Some v \<longrightarrow> 1 \<le> ws_count v)"

lemma windows_ok_acquire:
  "memory_acquire k lmt iv now ws = (r, ws') \<Longrightarrow> windows_ok ws \<Longrightarrow> windows_ok ws'"
  by (fastforce simp: memory_acquire_def active_window_def windows_ok_def bnd_def Let_def update_conv
      split: option.splits if_splits)

lemma windows_ok_rules:
  "acquire_rules memory_acquire al x now rks l = (r, l') \<Longrightarrow> windows_ok (lm_store l) \<Longrightarrow> windows_ok (lm_store l')"
proof (induction rks arbitrary: l)
  case (Cons rk rks)
  obtain rule key where rk: "rk = (rule, key)" by (cases rk)
  obtain w st1 where a: "memory_acquire key (rr_limit rule) (rr_interval_seconds rule) now (lm_store l) = (Inr w, st1)"
    using memory.acquire_total by blast
  then have ok: "windows_ok st1" using windows_ok_acquire Cons.prems(2) by blast
  show ?case
  proof (cases "rw_count w > rr_limit rule")
    case True
    then have "lm_store l' = st1"
      using Cons.prems(1) a by (auto simp: rk on_store_def bnd_def notify_rate_limit_blocked_def split: if_splits)
    with ok show ?thesis by simp
  next
    case False
    then have "acquire_rules memory_acquire al x now rks (l\<lparr>lm_store := st1\<rparr>) = (r, l')"
      using Cons.prems(1) a by (simp add: rk on_store_def bnd_def)
    from Cons.IH [OF this] ok show ?thesis by simp
  qed
qed simp

text \<open>An admitted order opens the account's window, which is the next second.\<close>

lemma admitted_opens_window:
  assumes run: "acquire_testnet_order memory_acquire al t x a p l = (Inr (), l')" and ok: "windows_ok (lm_store l)"
  shows "map_of (lm_store l') (rate_limit_key safety_rule x a p) = Some \<lparr>ws_started_at = t, ws_count = 1\<rparr>"
proof -
  let ?k = "rate_limit_key safety_rule x a p"
  obtain rules where rules: "testnet_order_rules x = Inr rules"
    using run by (cases "testnet_order_rules x") (simp_all add: acquire_testnet_order_def)
  then obtain rest where rest: "rules = safety_rule # rest" "rr_name safety_rule \<notin> rr_name ` set rest"
    using testnet_order_rules_shape by blast
  let ?rks = "map (\<lambda>rule. (rule, rate_limit_key rule x a p)) rest"
  have other: "?k \<notin> snd ` set ?rks"
    using rest(2) rate_limit_key_rule by fastforce
  have run': "acquire_rules memory_acquire al x t ((safety_rule, ?k) # ?rks) l = (Inr (), l')"
    using run rules rest(1) by (simp add: acquire_testnet_order_def)
  have fresh: "fresh_at (map_of (lm_store l) ?k) t 1"
  proof (rule ccontr)
    assume n: "\<not> fresh_at (map_of (lm_store l) ?k) t 1"
    then obtain v where v: "map_of (lm_store l) ?k = Some v" by (cases "map_of (lm_store l) ?k") (auto simp: fresh_at_def)
    then have "1 \<le> ws_count v" using ok unfolding windows_ok_def by blast
    moreover obtain w st where "memory_acquire ?k 1 1 t (lm_store l) = (Inr w, st)" "rw_count w = ws_count v + 1"
      using memory.acquire_active [OF v, of t 1 1] n v by auto
    ultimately show False
      using run' by (auto simp: safety_rule_def on_store_def bnd_def notify_rate_limit_blocked_def split: if_splits)
  qed
  obtain w st1 where a: "memory_acquire ?k 1 1 t (lm_store l) = (Inr w, st1)" "rw_count w = 1"
    "map_of st1 ?k = Some \<lparr>ws_started_at = t, ws_count = 1\<rparr>"
    using memory.acquire_fresh [OF fresh] by blast
  have "acquire_rules memory_acquire al x t ?rks (l\<lparr>lm_store := st1\<rparr>) = (Inr (), l')"
    using run' a(1,2) by (simp add: safety_rule_def on_store_def bnd_def)
  from memory.acquire_rules_other [OF this other] a(3) show ?thesis by simp
qed

text \<open>After a testnet order was admitted, a further order of the same account within one second is
  refused, with the account rule and a wait of one second as the reason.\<close>

theorem burst_is_refused:
  assumes run: "acquire_testnet_order memory_acquire al t x a p l = (Inr (), l')" and ok: "windows_ok (lm_store l)"
    and t: "t \<le> t'" "t' < t + 1"
  shows "fst (acquire_testnet_order memory_acquire al t' x a p l') =
    Inl (RateLimitExceededError ''TESTNET_ORDER_ACCOUNT_SAFETY'' 1)"
proof -
  let ?k = "rate_limit_key safety_rule x a p"
  obtain rules where rules: "testnet_order_rules x = Inr rules"
    using run by (cases "testnet_order_rules x") (simp_all add: acquire_testnet_order_def)
  then obtain rest where rest: "rules = safety_rule # rest" using testnet_order_rules_shape by blast
  have "0 \<le> t' - t" "t' - t < 1" using t by simp_all
  then have tr: "trunc (t' - t) = 0" by (simp add: trunc_def floor_eq_iff)
  have "memory_acquire ?k 1 1 t' (lm_store l') =
      (Inr \<lparr>rw_count = 2, rw_retry_after_seconds = 1\<rparr>, AList.update ?k \<lparr>ws_started_at = t, ws_count = 2\<rparr> (lm_store l'))"
    using admitted_opens_window [OF run ok] t tr
    by (simp add: memory_acquire_def active_window_def bnd_def Let_def retry_after_seconds_def)
  then show ?thesis
    using rules rest
    by (simp add: acquire_testnet_order_def safety_rule_def on_store_def bnd_def notify_rate_limit_blocked_def)
qed

lemma replace_char: "replace [c] [d] s = map (\<lambda>x. if x = c then d else x) s"
proof (induction s)
  case Nil
  show ?case by (simp add: replace.simps)
next
  case (Cons x s)
  then show ?case by (subst replace.simps) (auto simp: startswith_def)
qed

lemma escape_free: "CHR '':'' \<notin> set s \<Longrightarrow> CHR ''/'' \<notin> set s \<Longrightarrow> escape_key_part s = s"
  unfolding escape_key_part_def replace_char by (induction s) auto

lemma escape_append: "escape_key_part (s @ t) = escape_key_part s @ escape_key_part t"
  by (simp add: escape_key_part_def replace_char)

text \<open>Accounts do not share the account rule's budget: for the same exchange and path, different
  accounts have different keys, in memory and in Redis (account ids contain no colon or slash).\<close>

theorem accounts_have_own_budget:
  assumes "a \<noteq> b" and "CHR '':'' \<notin> set (a @ b)" and "CHR ''/'' \<notin> set (a @ b)" and "rr_scope r \<noteq> IP"
  shows "rate_limit_key r x a p \<noteq> rate_limit_key r x b p
    \<and> redis_key prefix (rate_limit_key r x a p) \<noteq> redis_key prefix (rate_limit_key r x b p)"
proof -
  have "escape_key_part (a @ '':'' @ p) \<noteq> escape_key_part (b @ '':'' @ p)"
    using assms by (simp add: escape_append escape_free)
  then show ?thesis using assms(1,4) by (simp add: rate_limit_key_def redis_key_def Let_def)
qed

text \<open>C26: Of the attempts to pass one rule within one window of the store in memory exactly the
  first ones up to the limit are admitted; every later one is refused with the name of the rule and
  the seconds the window has left.\<close>

theorem window_admits_limit:
  assumes "fresh_at (map_of (lm_store l) k) t (rr_interval_seconds rule)"
    and "\<forall>t' \<in> set ts. t' - t < of_int (rr_interval_seconds rule)"
  shows "fst (attempts (\<lambda>t. acquire_rules memory_acquire al x t [(rule, k)]) (t # ts) l) =
    map (\<lambda>(i, t'). if int i < rr_limit rule then Inr ()
         else Inl (RateLimitExceededError (rr_name rule)
                     (retry_after_seconds t' t (rr_interval_seconds rule)))) (enumerate 0 (t # ts))"
  using memory.attempts_admit [OF assms] unfolding window_verdict_def .

text \<open>When Redis fails, the limiter refuses the order with the error for an unavailable store.\<close>

theorem redis_failure_refuses:
  assumes "testnet_order_rules x = Inr rules" and "r_incr redis k st = (Inl RedisError, st')"
    and "k = redis_key ''trading:rate_limit'' (rate_limit_key safety_rule x a p)"
  shows "fst (runtime_rate_limit_service redis al now x a p \<lparr>lm_store = st, lm_alerts = as\<rparr>) =
    Inl RateLimitStoreUnavailableError"
proof -
  obtain rest where rest: "rules = safety_rule # rest" using testnet_order_rules_shape [OF assms(1)] by blast
  have "redis_acquire redis ''trading:rate_limit'' (rate_limit_key safety_rule x a p) 1 1 now st =
      (Inl RateLimitStoreUnavailableError, st')"
    using assms(2,3) by (simp add: redis_acquire_def Let_def bnd_def try_except_def redis_unavailable_def)
  then show ?thesis
    using assms(1) rest
    by (simp add: runtime_rate_limit_service_def acquire_testnet_order_def on_store_def bnd_def safety_rule_def)
qed

theorem burst_is_refused_witness:
  "fst (acquire_testnet_order memory_acquire True (3/2) OKX ''acct-1'' ''/api/v5/trade/order''
     (snd (acquire_testnet_order memory_acquire True 1 OKX ''acct-1'' ''/api/v5/trade/order''
        \<lparr>lm_store = [], lm_alerts = []\<rparr>))) = Inl (RateLimitExceededError ''TESTNET_ORDER_ACCOUNT_SAFETY'' 1)"
proof -
  let ?m = "acquire_testnet_order memory_acquire True 1 OKX ''acct-1'' ''/api/v5/trade/order''
    \<lparr>lm_store = [], lm_alerts = []\<rparr>"
  have "fst ?m = Inr ()"
    by (simp add: acquire_testnet_order_def testnet_order_rules_def get_exchange_rate_limit_config_def
        EXCHANGE_RATE_LIMITS_def map_filter_simps memory_acquire_def active_window_def on_store_def bnd_def Let_def)
  then have r: "?m = (Inr (), snd ?m)" by (metis prod.collapse)
  show ?thesis
    by (rule burst_is_refused [OF r]) (simp_all add: windows_ok_def)
qed

theorem accounts_have_own_budget_witness:
  "redis_key ''trading:rate_limit'' (rate_limit_key safety_rule BINANCE ''acct-1'' ''/api/v3/order'') \<noteq>
   redis_key ''trading:rate_limit'' (rate_limit_key safety_rule BINANCE ''acct-2'' ''/api/v3/order'')"
  by (rule accounts_have_own_budget [THEN conjunct2]) (simp_all add: safety_rule_def)

theorem window_admits_limit_witness:
  "fst (attempts (\<lambda>t. acquire_rules memory_acquire True BYBIT t
         [(\<lparr>rr_name = ''HTTP_IP'', rr_scope = IP, rr_limit = 2, rr_interval_seconds = 5\<rparr>,
           (''bybit'', ''HTTP_IP'', ''global''))]) [0, 1, 3] \<lparr>lm_store = [], lm_alerts = []\<rparr>) =
    [Inr (), Inr (), Inl (RateLimitExceededError ''HTTP_IP'' 2)]"
  by (subst window_admits_limit) (simp_all add: fresh_at_def retry_after_seconds_def trunc_def)

definition broken_redis :: "unit redis_commands" where
  "broken_redis = \<lparr>r_incr = (\<lambda>k. raise RedisError), r_expire = (\<lambda>k i. raise RedisError), r_ttl = (\<lambda>k. raise RedisError)\<rparr>"

theorem redis_failure_refuses_witness:
  "fst (runtime_rate_limit_service broken_redis True 0 OKX ''acct-1'' ''/api/v5/trade/order''
     \<lparr>lm_store = (), lm_alerts = []\<rparr>) = Inl RateLimitStoreUnavailableError"
proof -
  have r: "testnet_order_rules OKX = Inr [safety_rule]"
    by (simp add: testnet_order_rules_def get_exchange_rate_limit_config_def EXCHANGE_RATE_LIMITS_def
        map_filter_simps safety_rule_def)
  show ?thesis by (rule redis_failure_refuses [OF r _ refl]) (simp add: broken_redis_def)
qed

end
