(* ===== verification/Testnet_Submission.thy ===== *)
theory Testnet_Submission
  imports Http_Client Rate_Limit
begin

text \<open>
  Submitting a testnet order: the request for each exchange (\<open>services/testnet_order_request.py\<close>),
  its execution under the rate limiter (\<open>services/testnet_order_execution.py\<close>), the context with
  gate, authorization and credentials (\<open>services/testnet_order_api.py\<close>), the execution's row
  (\<open>services/testnet_order_persistence.py\<close>) and the route with its error mapping
  (\<open>submit_testnet_order\<close> in \<open>api/v1/orders.py\<close>).
\<close>

section \<open>Requests\<close>

record order_input =
  ri_exchange_name :: exchange_name
  ri_symbol :: string
  ri_side :: order_side
  ri_order_type :: order_type
  ri_quantity :: dec
  ri_client_order_id :: string
  ri_price :: "dec option"

definition decimal_text :: "dec \<Rightarrow> string" where
  "decimal_text value = format_f (dnormalize value)"

definition required_price :: "order_input \<Rightarrow> string result" where
  "required_price order' = (case ri_price order' of
      None \<Rightarrow> Inl (ValueError ''limit orders require price'') | Some p \<Rightarrow> Inr (decimal_text p))"

definition title_side :: "order_side \<Rightarrow> string" where
  "title_side side = (if side = BUY then ''Buy'' else ''Sell'')"

definition title_order_type :: "order_type \<Rightarrow> string" where
  "title_order_type ot = (if ot = MARKET then ''Market'' else ''Limit'')"

definition okx_symbol :: "string \<Rightarrow> string" where
  "okx_symbol symbol = (let normalized = upper symbol
     in if contains normalized ''-'' then normalized
        else if endswith normalized ''USDT'' then take (length normalized - 4) normalized @ ''-USDT''
        else normalized)"

definition binance_order_params :: "order_input \<Rightarrow> (string \<times> string) list result" where
  "binance_order_params o' =
     (let params = [(''symbol'', upper (ri_symbol o')), (''side'', side_value (ri_side o')),
            (''type'', order_type_value (ri_order_type o')), (''quantity'', decimal_text (ri_quantity o')),
            (''newClientOrderId'', ri_client_order_id o')]
      in if ri_order_type o' = LIMIT
         then bndr (required_price o') (\<lambda>price. Inr (params @ [(''timeInForce'', ''GTC''), (''price'', price)]))
         else Inr params)"

definition bybit_order_body :: "order_input \<Rightarrow> pydict result" where
  "bybit_order_body o' =
     (let body = [(''category'', PStr ''spot''), (''symbol'', PStr (upper (ri_symbol o'))),
            (''side'', PStr (title_side (ri_side o'))), (''orderType'', PStr (title_order_type (ri_order_type o'))),
            (''qty'', PStr (decimal_text (ri_quantity o'))), (''orderLinkId'', PStr (ri_client_order_id o'))]
      in if ri_order_type o' = LIMIT then bndr (required_price o') (\<lambda>price. Inr (body @ [(''price'', PStr price)]))
         else Inr body)"

definition okx_order_body :: "order_input \<Rightarrow> pydict result" where
  "okx_order_body o' =
     (let body = [(''instId'', PStr (okx_symbol (ri_symbol o'))), (''tdMode'', PStr ''cash''),
            (''side'', PStr (lower (side_value (ri_side o')))),
            (''ordType'', PStr (lower (order_type_value (ri_order_type o')))),
            (''sz'', PStr (decimal_text (ri_quantity o'))), (''clOrdId'', PStr (ri_client_order_id o'))]
      in if ri_order_type o' = LIMIT then bndr (required_price o') (\<lambda>price. Inr (body @ [(''px'', PStr price)]))
         else Inr body)"

definition prepare_testnet_order_request ::
    "order_input \<Rightarrow> gate_result \<Rightarrow> http_client \<Rightarrow> exchange_credentials \<Rightarrow> prepared_request op" where
  "prepare_testnet_order_request o' gate cl credentials =
     (if \<not> gr_approved gate then raise (TestnetOrderRequestBlockedError
        ''testnet order request preparation is blocked by the preflight gate'')
      else case ri_exchange_name o' of
        BINANCE \<Rightarrow> bnd (lift_result (binance_order_params o')) (\<lambda>params.
          prepare_private_post_request cl ''/api/v3/order'' credentials params None SIGNED)
      | BYBIT \<Rightarrow> bnd (lift_result (bybit_order_body o')) (\<lambda>body.
          prepare_private_post_request cl ''/v5/order/create'' credentials [] (Some body) SIGNED)
      | OKX \<Rightarrow> bnd (lift_result (okx_order_body o')) (\<lambda>body.
          prepare_private_post_request cl ''/api/v5/trade/order'' credentials [] (Some body) OKX_DEMO_SIGNED)
      | MOCK \<Rightarrow> raise (ValueError (''unsupported testnet order exchange: '' @ exchange_value MOCK)))"

section \<open>Execution\<close>

record execution_result =
  xr_exchange_name :: exchange_name
  xr_client_order_id :: string
  xr_request_method :: string
  xr_request_path :: string
  xr_exchange_response :: pyval

text \<open>The limiter: what \<open>acquire_testnet_order\<close> answers for an exchange, an account and a path.\<close>

type_synonym order_limiter = "exchange_name \<Rightarrow> string \<Rightarrow> string \<Rightarrow> unit result"

definition execute_testnet_order ::
    "network \<Rightarrow> order_input \<Rightarrow> gate_result \<Rightarrow> http_client \<Rightarrow> exchange_credentials \<Rightarrow> order_limiter option
     \<Rightarrow> string option \<Rightarrow> execution_result op" where
  "execute_testnet_order net o' gate cl credentials rate_limiter account_id =
     bnd (prepare_testnet_order_request o' gate cl credentials) (\<lambda>prepared.
     bnd (case rate_limiter of
            None \<Rightarrow> ret ()
          | Some acquire \<Rightarrow> (case account_id of
                None \<Rightarrow> raise (RuntimeError ''exchange account id is required for rate limit enforcement'')
              | Some a \<Rightarrow> lift_result (acquire (ri_exchange_name o') a (pr_path prepared)))) (\<lambda>_.
     bnd (execute_prepared_request net prepared) (\<lambda>exchange_response.
       ret \<lparr>xr_exchange_name = ri_exchange_name o', xr_client_order_id = ri_client_order_id o',
            xr_request_method = pr_method prepared, xr_request_path = pr_path prepared,
            xr_exchange_response = exchange_response\<rparr>)))"

section \<open>The context of a submission\<close>

record submit_request =
  sq_exchange_account_id :: string
  sq_symbol :: string
  sq_side :: order_side
  sq_order_type :: order_type
  sq_quantity :: dec
  sq_price :: "dec option"
  sq_client_order_id :: string
  sq_manual_testnet_order_enable_confirmed :: bool

text \<open>The constraints of \<open>TestnetOrderSubmitRequest\<close>.\<close>

definition valid_submit_request :: "submit_request \<Rightarrow> bool" where
  "valid_submit_request p \<longleftrightarrow>
     1 \<le> length (sq_symbol p) \<and> length (sq_symbol p) \<le> 40 \<and> dlt dzero (sq_quantity p)
     \<and> (case sq_price p of None \<Rightarrow> True | Some x \<Rightarrow> dlt dzero x)
     \<and> 1 \<le> length (sq_client_order_id p) \<and> length (sq_client_order_id p) \<le> 80
     \<and> \<not> (sq_order_type p = LIMIT \<and> sq_price p = None)"

record api_context =
  cx_account :: exchange_account
  cx_order :: order_input
  cx_gate_result :: gate_result
  cx_credentials :: exchange_credentials
  cx_authorization :: window_authorization

definition authorization_blocked :: "py_exc \<Rightarrow> 'a op option" where
  "authorization_blocked e = (case e of
      TestnetOrderWindowAuthorizationError reasons \<Rightarrow> Some (raise (TestnetOrderApiBlockedError reasons))
    | _ \<Rightarrow> None)"

definition order_of_request :: "exchange_account \<Rightarrow> submit_request \<Rightarrow> order_input" where
  "order_of_request account payload =
     \<lparr>ri_exchange_name = ea_exchange_name account, ri_symbol = sq_symbol payload,
      ri_side = sq_side payload, ri_order_type = sq_order_type payload, ri_quantity = sq_quantity payload,
      ri_client_order_id = sq_client_order_id payload, ri_price = sq_price payload\<rparr>"

text \<open>The part after the gate: authorization, credentials, and the context that is returned.\<close>

definition authorized_context ::
    "cipher \<Rightarrow> string \<Rightarrow> submit_request \<Rightarrow> exchange_account \<Rightarrow> gate_result \<Rightarrow> api_context op" where
  "authorized_context c user_id payload account gate =
     bnd (try_except (require_valid_testnet_order_window_authorization user_id (ea_id account)
            (sq_symbol payload) (sq_side payload) (sq_quantity payload) (sq_price payload) None)
          authorization_blocked) (\<lambda>authorization.
     bnd (get_exchange_credentials c user_id (ea_id account)) (\<lambda>credentials.
       case credentials of
         None \<Rightarrow> raise (TestnetOrderApiBlockedError [''testnet API key metadata must be configured''])
       | Some cr \<Rightarrow> ret \<lparr>cx_account = account, cx_order = order_of_request account payload,
            cx_gate_result = gate, cx_credentials = cr, cx_authorization = authorization\<rparr>))"

definition build_testnet_order_api_context ::
    "cipher \<Rightarrow> string \<Rightarrow> submit_request \<Rightarrow> bool \<Rightarrow> api_context op" where
  "build_testnet_order_api_context c user_id payload adapters =
     bnd (account_or_value_error user_id (sq_exchange_account_id payload)) (\<lambda>account.
     bnd (get_or_create_risk_settings user_id (ea_id account)) (\<lambda>risk_settings.
     bnd (get_api_key_secret_metadata user_id (ea_id account)) (\<lambda>secret_metadata.
       let gate = check_testnet_order_gate (gate_for account adapters (rs_trading_enabled risk_settings)
                    (secret_metadata \<noteq> None) (sq_manual_testnet_order_enable_confirmed payload))
       in if \<not> gr_approved gate then raise (TestnetOrderApiBlockedError (gr_reasons gate))
          else authorized_context c user_id payload account gate)))"

section \<open>The execution's row\<close>

definition find_by_client_order_id :: "string \<Rightarrow> db \<Rightarrow> order_execution option" where
  "find_by_client_order_id cid d = t_find (\<lambda>e. oe_client_order_id e = cid) (executions d)"

record submission_record =
  sm_execution :: order_execution
  sm_idempotent_replay :: bool

definition submission_signal :: "string \<Rightarrow> api_context \<Rightarrow> string \<Rightarrow> trading_signal" where
  "submission_signal user_id ctx i =
     \<lparr>sg_id = i, sg_user_id = user_id, sg_source = MANUAL, sg_symbol = upper (ri_symbol (cx_order ctx)),
      sg_side = ri_side (cx_order ctx), sg_order_type = ri_order_type (cx_order ctx),
      sg_price = ri_price (cx_order ctx), sg_quantity = Some (ri_quantity (cx_order ctx)),
      sg_target_position_quantity = None,
      sg_raw_payload = Some [(''source'', PStr ''testnet_order_submit''),
        (''approval_audit_log_id'', PStr (wz_audit_log_id (cx_authorization ctx)))]\<rparr>"

definition submission_execution :: "string \<Rightarrow> api_context \<Rightarrow> string \<Rightarrow> order_execution" where
  "submission_execution user_id ctx signal_id =
     \<lparr>oe_id = [], oe_user_id = user_id, oe_signal_id = signal_id, oe_execution_id = [],
      oe_exchange_account_id = ea_id (cx_account ctx),
      oe_exchange_name = exchange_value (ea_exchange_name (cx_account ctx)),
      oe_client_order_id = ri_client_order_id (cx_order ctx), oe_exchange_order_id = None,
      oe_symbol = upper (ri_symbol (cx_order ctx)), oe_side = ri_side (cx_order ctx),
      oe_order_type = ri_order_type (cx_order ctx), oe_price = ri_price (cx_order ctx),
      oe_quantity = ri_quantity (cx_order ctx), oe_status = CREATED, oe_risk_result = None,
      oe_exchange_response = None, oe_error_message = None\<rparr>"

definition submission_risk_order :: "api_context \<Rightarrow> risk_order_input" where
  "submission_risk_order ctx =
     \<lparr>ro_symbol = upper (ri_symbol (cx_order ctx)), ro_side = ri_side (cx_order ctx),
      ro_quantity = ri_quantity (cx_order ctx), ro_price = ri_price (cx_order ctx)\<rparr>"

definition reject_submission :: "string \<Rightarrow> risk_check_result \<Rightarrow> submission_record op" where
  "reject_submission eid risk_result =
     bnd (modify_execution eid (\<lambda>e. e\<lparr>oe_error_message := Some (join ''; '' (rc_reasons risk_result))\<rparr>)) (\<lambda>_.
     bnd (transition_order_execution eid REJECTED ''testnet_risk_rejected'' None) (\<lambda>_.
     bnd commit (\<lambda>_.
       raise (TestnetOrderRiskRejectedError ''testnet order risk checks rejected the request''))))"

definition start_submission :: "string \<Rightarrow> submission_record op" where
  "start_submission eid =
     bnd (transition_order_execution eid RISK_PASSED ''testnet_risk_passed'' None) (\<lambda>_.
     bnd (transition_order_execution eid SUBMITTED ''testnet_order_submission_started'' None) (\<lambda>_.
     bnd commit (\<lambda>_.
     bnd (get_execution eid) (\<lambda>e. ret \<lparr>sm_execution = e, sm_idempotent_replay = False\<rparr>))))"

definition new_submission :: "string \<Rightarrow> api_context \<Rightarrow> submission_record op" where
  "new_submission user_id ctx =
     bnd new_uuid (\<lambda>i.
     bnd (upd (\<lambda>d. d\<lparr>signals := t_add (submission_signal user_id ctx i) (signals d)\<rparr>)) (\<lambda>_.
     bnd flush (\<lambda>_.
     bnd (create_execution (submission_execution user_id ctx i) ''testnet_execution_created'') (\<lambda>e.
     bnd (get_or_create_risk_settings user_id (ea_id (cx_account ctx))) (\<lambda>settings.
     bnd (lift_result (check_order_risk (cx_account ctx) settings (submission_risk_order ctx) True)) (\<lambda>risk_result.
     bnd (modify_execution (oe_id e) (\<lambda>e. e\<lparr>oe_risk_result := Some (risk_to_dict risk_result)\<rparr>)) (\<lambda>_.
       if rc_decision risk_result \<noteq> PASSED then reject_submission (oe_id e) risk_result
       else start_submission (oe_id e))))))))"

definition create_or_get_testnet_submission_execution :: "string \<Rightarrow> api_context \<Rightarrow> submission_record op" where
  "create_or_get_testnet_submission_execution user_id ctx =
     bnd (query (find_by_client_order_id (ri_client_order_id (cx_order ctx)))) (\<lambda>existing.
       case existing of
         Some e \<Rightarrow>
           if oe_user_id e \<noteq> user_id \<or> oe_exchange_account_id e \<noteq> ea_id (cx_account ctx)
              \<or> oe_exchange_name e \<noteq> exchange_value (ea_exchange_name (cx_account ctx))
           then raise (TestnetOrderIdempotencyConflictError ''client order id is already in use'')
           else ret \<lparr>sm_execution = e, sm_idempotent_replay = True\<rparr>
       | None \<Rightarrow> new_submission user_id ctx)"

section \<open>What is kept of the exchange's answer\<close>

definition SENSITIVE_RESPONSE_KEYS :: "string list" where
  "SENSITIVE_RESPONSE_KEYS = [''api_key'', ''apikey'', ''api_secret'', ''apisecret'', ''passphrase'',
     ''authorization'', ''signature'', ''sign'']"

definition sensitive_key :: "string \<Rightarrow> bool" where
  "sensitive_key key \<longleftrightarrow> lower (replace ''-'' ''_'' key) \<in> set SENSITIVE_RESPONSE_KEYS"

function safe_value :: "pyval \<Rightarrow> pyval" where
  "safe_value (PDict d) = PDict (map (\<lambda>kv. (fst kv, safe_value (snd kv))) (filter (\<lambda>kv. \<not> sensitive_key (fst kv)) d))"
| "safe_value (PList xs) = PList (map safe_value xs)"
| "safe_value (PDec x) = PStr (dec_str x)"
| "safe_value PNone = PNone"
| "safe_value (PStr s) = PStr s"
| "safe_value (PInt i) = PInt i"
| "safe_value (PFloat r) = PFloat r"
| "safe_value (PBool b) = PBool b"
  by pat_completeness auto
termination
proof (relation "measure size", goal_cases)
  case 1
  show ?case by simp
next
  case (2 d kv)
  then have "kv \<in> set d" by auto
  then show ?case by (induction d) auto
next
  case (3 xs x)
  then show ?case by (induction xs) auto
qed

definition raise_for_exchange_rejection :: "string \<Rightarrow> pyval \<Rightarrow> unit result" where
  "raise_for_exchange_rejection exchange response =
     bndr (if exchange = ''bybit'' then bndr (val_get response ''retCode'') (\<lambda>code.
             if \<not> ok_code code then Inl (TestnetExchangeOrderRejectedError ''Bybit rejected the testnet order'') else Inr ())
           else Inr ()) (\<lambda>_.
     bndr (if exchange = ''okx'' then bndr (val_get response ''code'') (\<lambda>code.
             if \<not> ok_code code then Inl (TestnetExchangeOrderRejectedError ''OKX rejected the testnet order'') else Inr ())
           else Inr ()) (\<lambda>_.
     (if exchange = ''binance'' then bndr (val_get response ''code'') (\<lambda>code.
             if \<not> ok_code code then Inl (TestnetExchangeOrderRejectedError ''Binance rejected the testnet order'') else Inr ())
           else Inr ())))"

definition exchange_order_id :: "string \<Rightarrow> pydict \<Rightarrow> string option" where
  "exchange_order_id exchange response =
     (if exchange = ''binance'' then optional_text (dict_get response ''orderId'')
      else if exchange = ''bybit''
      then optional_text (dict_get (mapping_or_empty (dict_get response ''result'')) ''orderId'')
      else if exchange = ''okx'' then (case dict_get response ''data'' of
          PList (row # _) \<Rightarrow> optional_text (dict_get (mapping_or_empty row) ''ordId'')
        | _ \<Rightarrow> None)
      else None)"

definition dict_of :: "pyval \<Rightarrow> pydict result" where
  "dict_of v = (case v of PDict d \<Rightarrow> Inr d | _ \<Rightarrow> Inl AttributeError)"

definition record_testnet_submission_accepted :: "order_execution \<Rightarrow> execution_result \<Rightarrow> order_execution op" where
  "record_testnet_submission_accepted execution result =
     (let response = safe_value (xr_exchange_response result); eid = oe_id execution
      in bnd (lift_result (raise_for_exchange_rejection (oe_exchange_name execution) response)) (\<lambda>_.
         if oe_status execution \<noteq> SUBMITTED
         then raise (InvalidOrderStateTransitionError ''testnet execution is not awaiting exchange acceptance'')
         else bnd (lift_result (dict_of response)) (\<lambda>d.
              bnd (modify_execution eid (\<lambda>e. e\<lparr>oe_exchange_response := Some d\<rparr>)) (\<lambda>_.
              bnd (case exchange_order_id (oe_exchange_name execution) d of
                     None \<Rightarrow> ret ()
                   | Some i \<Rightarrow> modify_execution eid (\<lambda>e. e\<lparr>oe_exchange_order_id := Some i\<rparr>)) (\<lambda>_.
              bnd (transition_order_execution eid ACCEPTED ''testnet_exchange_accepted''
                     (Some [(''exchange'', PStr (oe_exchange_name execution))])) (\<lambda>_.
              bnd commit (\<lambda>_. get_execution eid)))))))"

definition record_testnet_submission_failure :: "order_execution \<Rightarrow> string \<Rightarrow> order_execution op" where
  "record_testnet_submission_failure execution failure_type =
     (if oe_status execution \<noteq> SUBMITTED then ret execution
      else bnd (modify_execution (oe_id execution)
             (\<lambda>e. e\<lparr>oe_error_message := Some ''testnet exchange request failed''\<rparr>)) (\<lambda>_.
           bnd (transition_order_execution (oe_id execution) FAILED ''testnet_exchange_request_failed''
                  (Some [(''failure_type'', PStr failure_type)])) (\<lambda>_.
           bnd commit (\<lambda>_. get_execution (oe_id execution)))))"

section \<open>The route\<close>

record submit_response =
  sr_execution_id :: string
  sr_order_status :: order_status
  sr_idempotent_replay :: bool
  sr_exchange_account_id :: string
  sr_exchange_name :: exchange_name
  sr_client_order_id :: string
  sr_request_method :: string
  sr_request_path :: string
  sr_approval_audit_log_id :: string
  sr_approval_expires_at :: string
  sr_exchange_response :: pydict

definition testnet_order_request_path :: "exchange_name \<Rightarrow> string result" where
  "testnet_order_request_path x = (case x of
      BINANCE \<Rightarrow> Inr ''/api/v3/order'' | BYBIT \<Rightarrow> Inr ''/v5/order/create''
    | OKX \<Rightarrow> Inr ''/api/v5/trade/order'' | MOCK \<Rightarrow> Inl (KeyError (exchange_value MOCK)))"

text \<open>\<open>isoformat()\<close> of an aware UTC time: microseconds only when there are any.\<close>

definition iso_utc :: "int \<Rightarrow> string" where
  "iso_utc us = iso_seconds us @ (if us mod 1000000 = 0 then [] else ''.'' @ pad0 6 (us mod 1000000)) @ ''+00:00''"

definition testnet_submit_response :: "api_context \<Rightarrow> order_execution \<Rightarrow> bool \<Rightarrow> submit_response result" where
  "testnet_submit_response ctx e replay =
     bndr (testnet_order_request_path (ea_exchange_name (cx_account ctx))) (\<lambda>path. Inr
       \<lparr>sr_execution_id = oe_execution_id e, sr_order_status = oe_status e, sr_idempotent_replay = replay,
        sr_exchange_account_id = ea_id (cx_account ctx), sr_exchange_name = ea_exchange_name (cx_account ctx),
        sr_client_order_id = oe_client_order_id e, sr_request_method = ''POST'', sr_request_path = path,
        sr_approval_audit_log_id = wz_audit_log_id (cx_authorization ctx),
        sr_approval_expires_at = iso_utc (dt_wall (wz_expires_at (cx_authorization ctx))),
        sr_exchange_response = (case oe_exchange_response e of None \<Rightarrow> [] | Some r \<Rightarrow> r)\<rparr>)"

definition record_failure_of :: "submission_record option \<Rightarrow> string \<Rightarrow> unit op" where
  "record_failure_of submission failure_type = (case submission of
      None \<Rightarrow> ret ()
    | Some sm \<Rightarrow> if sm_idempotent_replay sm then ret ()
               else bnd (record_testnet_submission_failure (sm_execution sm) failure_type) (\<lambda>_. ret ()))"

text \<open>The \<open>except\<close> clauses, for the value the variable \<open>submission\<close> has when the exception arrives.\<close>

definition submit_handlers :: "submission_record option \<Rightarrow> py_exc \<Rightarrow> 'a op option" where
  "submit_handlers submission e = (case e of
      EmergencyStopEnabledError m \<Rightarrow> Some (raise (HTTPException 423 [m]))
    | ValueError m \<Rightarrow> Some (raise (HTTPException 404 [m]))
    | TestnetOrderEventValidationError m \<Rightarrow> Some (raise (HTTPException 404 [m]))
    | TestnetOrderIdempotencyConflictError m \<Rightarrow> Some (raise (HTTPException 409 [m]))
    | TestnetOrderRiskRejectedError m \<Rightarrow> Some (raise (HTTPException 400 [m]))
    | TestnetOrderApiBlockedError reasons \<Rightarrow> Some (raise (HTTPException 400 reasons))
    | RateLimitStoreUnavailableError \<Rightarrow>
        Some (bnd (record_failure_of submission ''rate_limit_store_unavailable'') (\<lambda>_.
          raise (HTTPException 503 [''testnet order rate limit service unavailable''])))
    | RateLimitExceededError _ _ \<Rightarrow>
        Some (bnd (record_failure_of submission ''rate_limited'') (\<lambda>_.
          raise (HTTPException 429 [''testnet order rate limit exceeded''])))
    | _ \<Rightarrow> if is_RuntimeError e
          then Some (bnd (record_failure_of submission ''exchange_request_failed'') (\<lambda>_.
            raise (HTTPException 502 [''testnet exchange request failed''])))
          else None)"

definition send_submission ::
    "network \<Rightarrow> order_limiter \<Rightarrow> api_context \<Rightarrow> submission_record \<Rightarrow> order_execution op" where
  "send_submission net limiter ctx submission =
     bnd (lift_result (create_testnet_signed_http_client (ea_exchange_name (cx_account ctx)))) (\<lambda>http_client.
     bnd (execute_testnet_order net (cx_order ctx) (cx_gate_result ctx) http_client (cx_credentials ctx)
            (Some limiter) (Some (ea_id (cx_account ctx)))) (\<lambda>result.
       record_testnet_submission_accepted (sm_execution submission) result))"

definition open_submission :: "cipher \<Rightarrow> bool \<Rightarrow> submit_request \<Rightarrow> user \<Rightarrow> (api_context \<times> submission_record) op" where
  "open_submission c adapters payload current_user =
     bnd assert_new_orders_allowed (\<lambda>_.
     bnd (build_testnet_order_api_context c (u_id current_user) payload adapters) (\<lambda>ctx.
     bnd (create_or_get_testnet_submission_execution (u_id current_user) ctx) (\<lambda>submission.
       ret (ctx, submission))))"

definition submit_testnet_order ::
    "cipher \<Rightarrow> network \<Rightarrow> order_limiter \<Rightarrow> bool \<Rightarrow> submit_request \<Rightarrow> user \<Rightarrow> submit_response op" where
  "submit_testnet_order c net limiter adapters payload current_user =
     bnd (try_except (open_submission c adapters payload current_user) (submit_handlers None)) (\<lambda>(ctx, submission).
     if sm_idempotent_replay submission
     then lift_result (testnet_submit_response ctx (sm_execution submission) True)
     else bnd (try_except (send_submission net limiter ctx submission) (submit_handlers (Some submission)))
            (\<lambda>execution. lift_result (testnet_submit_response ctx execution False)))"

section \<open>What is sent\<close>

lemma silent_new_submission: "silent (new_submission u ctx)"
  unfolding new_submission_def reject_submission_def start_submission_def by (intro silent_rules)

lemma silent_open: "silent (open_submission c adapters payload user)"
proof -
  have "silent (try_except (require_valid_testnet_order_window_authorization u i y sd q p n) authorization_blocked)"
    for u i y sd q p n
    by (rule silent_try_except)
      (auto simp: authorization_blocked_def split: py_exc.splits intro: silent_rules)
  then show ?thesis
    unfolding open_submission_def build_testnet_order_api_context_def authorized_context_def
      create_or_get_testnet_submission_execution_def
    by (intro silent_rules silent_new_submission)
qed

lemma silent_record:
  "silent (record_testnet_submission_accepted e r)" "silent (record_testnet_submission_failure e f)"
  "silent (record_failure_of sm f)"
proof -
  show "silent (record_testnet_submission_accepted e r)"
    unfolding record_testnet_submission_accepted_def by (intro silent_rules)
  show f: "silent (record_testnet_submission_failure e f)" for e f
    unfolding record_testnet_submission_failure_def by (intro silent_rules)
  show "silent (record_failure_of sm f)"
    unfolding record_failure_of_def by (intro silent_rules f)
qed

lemma silent_handler: "submit_handlers sm e = Some k \<Longrightarrow> silent k"
  by (cases e) (auto simp: submit_handlers_def intro!: silent_bnd silent_basic silent_record)

text \<open>
  An order request as it should be on the wire: a POST to the testnet endpoint of its exchange,
  signed with the account's secret and, for OKX, marked as simulated trading.
\<close>

definition testnet_request :: "exchange_name \<Rightarrow> exchange_credentials \<Rightarrow> http_request \<Rightarrow> bool" where
  "testnet_request x cr q \<longleftrightarrow> hq_method q = ''POST''
     \<and> (\<exists>cfg. map_of TESTNET_ENDPOINTS x = Some cfg \<and> startswith (hq_url q) (ep_rest_base_url cfg)
          \<and> verifies x (ep_rest_base_url cfg) (ec_api_secret cr) q)
     \<and> (x = OKX \<longrightarrow> header q ''x-simulated-trading'' = Some ''1'')"

lemma testnet_client_shape:
  assumes "create_testnet_signed_http_client x = Inr cl"
  shows "cl_exchange_name cl = x" and "CHR ''?'' \<notin> set (cl_rest_base_url cl)"
    and "\<exists>cfg. map_of TESTNET_ENDPOINTS x = Some cfg \<and> ep_rest_base_url cfg = cl_rest_base_url cl"
  using assms
  by (cases x; force simp: create_testnet_signed_http_client_def get_testnet_endpoint_config_def
      TESTNET_ENDPOINTS_def signed_http_client_def rstrip_char_def)+

lemma prepare_private_shape:
  assumes "prepare_private_any cl s m path cr params body sec = Inr p"
  shows "pr_url p = cl_rest_base_url cl @ path" and "pr_method p = m" and "pr_path p = path"
proof -
  have "pr_url p = cl_rest_base_url cl @ path \<and> pr_method p = m \<and> pr_path p = path"
  proof (cases "cl_exchange_name cl")
    case BINANCE
    with assms have "p = prepare_binance_request cl s m path cr params" by (simp add: prepare_private_any_def)
    then show ?thesis by (simp add: prepare_binance_request_def Let_def)
  next
    case BYBIT
    with assms have "prepare_bybit_request cl s m path cr params body = Inr p" by (simp add: prepare_private_any_def)
    then show ?thesis unfolding prepare_bybit_request_def Let_def by auto
  next
    case OKX
    with assms have "prepare_okx_request cl s m path cr params body sec = Inr p" by (simp add: prepare_private_any_def)
    then show ?thesis
      unfolding prepare_okx_request_def Let_def by (cases "ec_passphrase cr") auto
  next
    case MOCK
    with assms show ?thesis by (simp add: prepare_private_any_def)
  qed
  then show "pr_url p = cl_rest_base_url cl @ path" and "pr_method p = m" and "pr_path p = path" by simp_all
qed

lemma okx_demo_header:
  assumes p: "prepare_okx_request cl s m path cr params body OKX_DEMO_SIGNED = Inr p" and q: "wire_request p = Inr q"
  shows "header q ''x-simulated-trading'' = Some ''1''"
proof -
  have "distinct (map fst (pr_headers p))" "map_of (pr_headers p) ''x-simulated-trading'' = Some ''1''"
    using p unfolding prepare_okx_request_def Let_def by (cases "ec_passphrase cr"; auto)+
  with wire_request_header [OF q] show ?thesis by simp
qed

lemma prepared_testnet_request:
  assumes cl: "create_testnet_signed_http_client x = Inr cl" and q: "wire_request p = Inr q"
    and p: "prepare_private_any cl s ''POST'' path cr params body sec = Inr p" and path: "CHR ''?'' \<notin> set path"
    and params: "''signature'' \<notin> fst ` set params" "distinct (map fst params)" and okx: "x = OKX \<Longrightarrow> sec = OKX_DEMO_SIGNED"
  shows "testnet_request x cr q"
proof -
  note cs = testnet_client_shape [OF cl]
  note ps = prepare_private_shape [OF p]
  have u: "CHR ''?'' \<notin> set (cl_rest_base_url cl @ path)" using cs(2) path by simp
  have "verifies x (cl_rest_base_url cl) (ec_api_secret cr) q"
    using binance_verifies bybit_verifies okx_verifies p q u params cs(1)
    by (cases x) (auto simp: prepare_private_any_def)
  moreover have "hq_method q = ''POST''" "startswith (hq_url q) (cl_rest_base_url cl)"
    using wire_request_url(2,3) [OF q] u ps by (auto simp: startswith_iff)
  moreover have "header q ''x-simulated-trading'' = Some ''1''" if "x = OKX"
    using okx_demo_header [OF _ q, of cl s "''POST''" path cr params body] okx [OF that] that p cs(1)
    by (simp add: prepare_private_any_def)
  ultimately show ?thesis using cs(3) by (auto simp: testnet_request_def)
qed

text \<open>The order of an input at its exchange: path, parameters and body of the request.\<close>

definition order_request ::
    "order_input \<Rightarrow> (string \<times> (string \<times> string) list \<times> pydict option \<times> security_type) result" where
  "order_request o' = (case ri_exchange_name o' of
      BINANCE \<Rightarrow> bndr (binance_order_params o') (\<lambda>ps. Inr (''/api/v3/order'', ps, None, SIGNED))
    | BYBIT \<Rightarrow> bndr (bybit_order_body o') (\<lambda>b. Inr (''/v5/order/create'', [], Some b, SIGNED))
    | OKX \<Rightarrow> bndr (okx_order_body o') (\<lambda>b. Inr (''/api/v5/trade/order'', [], Some b, OKX_DEMO_SIGNED))
    | MOCK \<Rightarrow> Inl (ValueError (''unsupported testnet order exchange: '' @ exchange_value MOCK)))"

lemma prepare_order_apply:
  "prepare_testnet_order_request o' gate cl cr s =
    (if \<not> gr_approved gate then (Inl (TestnetOrderRequestBlockedError
        ''testnet order request preparation is blocked by the preflight gate''), s)
     else case order_request o' of
       Inl e \<Rightarrow> (Inl e, s)
     | Inr (path, params, body, sec) \<Rightarrow> (prepare_private_any cl s ''POST'' path cr params body sec, s))"
  unfolding prepare_testnet_order_request_def prepare_private_post_request_def order_request_def
  by (simp add: bndr_def split: exchange_name.split sum.split)

lemma order_request_shape:
  assumes "order_request o' = Inr (path, params, body, sec)"
  shows "testnet_order_request_path (ri_exchange_name o') = Inr path" and "CHR ''?'' \<notin> set path"
    and "''signature'' \<notin> fst ` set params" and "distinct (map fst params)"
    and "ri_exchange_name o' = OKX \<Longrightarrow> sec = OKX_DEMO_SIGNED"
proof -
  have "testnet_order_request_path (ri_exchange_name o') = Inr path \<and> CHR ''?'' \<notin> set path
      \<and> (ri_exchange_name o' = BINANCE \<longrightarrow> binance_order_params o' = Inr params)
      \<and> (ri_exchange_name o' \<noteq> BINANCE \<longrightarrow> params = [])
      \<and> (ri_exchange_name o' = OKX \<longrightarrow> sec = OKX_DEMO_SIGNED)"
    using assms by (cases "ri_exchange_name o'") (auto simp: order_request_def testnet_order_request_path_def)
  moreover have "''signature'' \<notin> fst ` set ps \<and> distinct (map fst ps)" if "binance_order_params o' = Inr ps" for ps
    using that unfolding binance_order_params_def Let_def by (auto split: if_splits)
  ultimately show "testnet_order_request_path (ri_exchange_name o') = Inr path" and "CHR ''?'' \<notin> set path"
    and "''signature'' \<notin> fst ` set params" and "distinct (map fst params)"
    and "ri_exchange_name o' = OKX \<Longrightarrow> sec = OKX_DEMO_SIGNED"
    by (cases "ri_exchange_name o' = BINANCE"; simp)+
qed

lemma prepared_order_request:
  assumes cl: "create_testnet_signed_http_client (ri_exchange_name o') = Inr cl"
    and p: "prepare_testnet_order_request o' gate cl cr s = (Inr p, s1)" and q: "wire_request p = Inr q"
  shows "s1 = s" and "gr_approved gate" and "testnet_request (ri_exchange_name o') cr q"
    and "testnet_order_request_path (ri_exchange_name o') = Inr (pr_path p)"
proof -
  obtain path params body sec where r: "order_request o' = Inr (path, params, body, sec)"
    and pp: "prepare_private_any cl s ''POST'' path cr params body sec = Inr p"
    and s1: "s1 = s" and ok: "gr_approved gate"
    using p unfolding prepare_order_apply by (auto split: if_splits sum.splits)
  show "s1 = s" by (rule s1)
  show "gr_approved gate" by (rule ok)
  note shape = order_request_shape [OF r]
  show "testnet_request (ri_exchange_name o') cr q"
    by (rule prepared_testnet_request [OF cl q pp shape(2-4)]) (rule shape(5))
  show "testnet_order_request_path (ri_exchange_name o') = Inr (pr_path p)"
    using shape(1) prepare_private_shape(3) [OF pp] by simp
qed

text \<open>Sending an order puts nothing on the wire, or exactly one request after the limiter agreed.\<close>

lemma send_submission_wire:
  assumes "send_submission net limiter ctx sm s = (r, s')"
    and x: "ri_exchange_name (cx_order ctx) = ea_exchange_name (cx_account ctx)"
  shows "wire s' = wire s \<or>
    (\<exists>q path. wire s' = wire s @ [q] \<and> gr_approved (cx_gate_result ctx)
       \<and> testnet_request (ea_exchange_name (cx_account ctx)) (cx_credentials ctx) q
       \<and> testnet_order_request_path (ea_exchange_name (cx_account ctx)) = Inr path
       \<and> limiter (ea_exchange_name (cx_account ctx)) (ea_id (cx_account ctx)) path = Inr ())"
proof (cases "create_testnet_signed_http_client (ea_exchange_name (cx_account ctx))")
  case (Inl e)
  with assms(1) show ?thesis by (simp add: send_submission_def)
next
  case (Inr cl)
  obtain rp s1 where pr: "prepare_testnet_order_request (cx_order ctx) (cx_gate_result ctx) cl (cx_credentials ctx) s = (rp, s1)"
    by force
  have s1: "s1 = s"
    using pr unfolding prepare_order_apply by (auto split: if_splits sum.splits)
  show ?thesis
  proof (cases rp)
    case (Inl e)
    then show ?thesis
      using assms(1) pr s1 Inr by (auto simp: send_submission_def execute_testnet_order_def bnd_assoc bnd_def)
  next
    case p: (Inr p)
    let ?l = "limiter (ea_exchange_name (cx_account ctx)) (ea_id (cx_account ctx)) (pr_path p)"
    have send: "send_submission net limiter ctx sm s = bnd (lift_result ?l) (\<lambda>_. bnd (transport_request net p) (\<lambda>v.
        record_testnet_submission_accepted (sm_execution sm)
          \<lparr>xr_exchange_name = ri_exchange_name (cx_order ctx), xr_client_order_id = ri_client_order_id (cx_order ctx),
           xr_request_method = pr_method p, xr_request_path = pr_path p, xr_exchange_response = v\<rparr>)) s"
      using Inr pr p s1 x
      by (simp add: send_submission_def execute_testnet_order_def execute_prepared_request_def bnd_assoc
          bnd_Inr [where m = "prepare_testnet_order_request _ _ _ _"])
    show ?thesis
    proof (cases ?l)
      case (Inl e)
      then show ?thesis using assms(1) send by simp
    next
      case lim: (Inr u)
      obtain r2 s2 where t: "transport_request net p s = (r2, s2)" by force
      have wire: "wire s' = wire s2"
        using assms(1) send lim t silentD [OF silent_record(1)]
        by (auto simp: bnd_def split: sum.splits prod.splits)
      show ?thesis
      proof (cases "wire_request p")
        case (Inl e)
        then show ?thesis using transport_sends_one [OF t] wire by auto
      next
        case q: (Inr q)
        have cl: "create_testnet_signed_http_client (ri_exchange_name (cx_order ctx)) = Inr cl" using Inr x by simp
        have pr': "prepare_testnet_order_request (cx_order ctx) (cx_gate_result ctx) cl (cx_credentials ctx) s = (Inr p, s1)"
          using pr p by simp
        note good = prepared_order_request [OF cl pr' q]
        have "wire s' = wire s @ [q]" using transport_sends_one [OF t] wire q by auto
        then show ?thesis using good lim x by auto
      qed
    qed
  qed
qed

section \<open>When a submission is opened\<close>

lemma authorized_context_ok:
  assumes "authorized_context c u payload a gate s = (Inr ctx, s')"
  obtains z cr where "s' = s"
    "require_valid_testnet_order_window_authorization u (ea_id a) (sq_symbol payload) (sq_side payload)
       (sq_quantity payload) (sq_price payload) None s = (Inr z, s)"
    "get_exchange_credentials c u (ea_id a) s = (Inr (Some cr), s)"
    "ctx = \<lparr>cx_account = a, cx_order = order_of_request a payload, cx_gate_result = gate,
        cx_credentials = cr, cx_authorization = z\<rparr>"
proof -
  let ?req = "require_valid_testnet_order_window_authorization u (ea_id a) (sq_symbol payload) (sq_side payload)
       (sq_quantity payload) (sq_price payload) None"
  from assms obtain z s2 crs s3 where z: "try_except ?req authorization_blocked s = (Inr z, s2)"
    and cred: "get_exchange_credentials c u (ea_id a) s2 = (Inr crs, s3)"
    and k: "(case crs of None \<Rightarrow> raise (TestnetOrderApiBlockedError [''testnet API key metadata must be configured''])
       | Some cr \<Rightarrow> ret \<lparr>cx_account = a, cx_order = order_of_request a payload,
            cx_gate_result = gate, cx_credentials = cr, cx_authorization = z\<rparr>) s3 = (Inr ctx, s')"
    unfolding authorized_context_def bnd_eq_Inr by blast
  have auth: "?req s = (Inr z, s2)"
    using z by (auto simp: try_except_def authorization_blocked_def raise_def
        split: prod.splits sum.splits option.splits py_exc.splits)
  then have s2: "s2 = s" using authorization_sound by blast
  have s3: "s3 = s2"
    using cred by (auto simp: get_exchange_credentials_def get_api_key_secret_metadata_def bnd_def lift_result_def
        ret_def split: option.splits sum.splits prod.splits)
  obtain cr where "crs = Some cr" using k by (cases crs) simp_all
  with k cred auth s2 s3 show thesis by (intro that [of z cr]) simp_all
qed

lemma context_ok:
  assumes "build_testnet_order_api_context c u payload adapters s = (Inr ctx, s')"
  obtains a st z cr where "s' = s" "find_owned_account u (sq_exchange_account_id payload) (work s) = Some a"
    "find_risk_settings u (ea_id a) (work s) = Some st" "gr_approved (cx_gate_result ctx)"
    "cx_gate_result ctx = check_testnet_order_gate (gate_for a adapters (rs_trading_enabled st)
       (find_secret_metadata u (ea_id a) (work s) \<noteq> None) (sq_manual_testnet_order_enable_confirmed payload))"
    "require_valid_testnet_order_window_authorization u (ea_id a) (sq_symbol payload) (sq_side payload)
       (sq_quantity payload) (sq_price payload) None s = (Inr z, s)"
    "get_exchange_credentials c u (ea_id a) s = (Inr (Some cr), s)"
    "cx_account ctx = a" "cx_order ctx = order_of_request a payload" "cx_credentials ctx = cr"
    "cx_authorization ctx = z"
proof -
  obtain a where a: "find_owned_account u (sq_exchange_account_id payload) (work s) = Some a"
    using assms by (cases "find_owned_account u (sq_exchange_account_id payload) (work s)")
      (simp_all add: build_testnet_order_api_context_def account_or_value_error_apply)
  let ?gate = "\<lambda>st s1. check_testnet_order_gate (gate_for a adapters (rs_trading_enabled st)
     (find_secret_metadata u (ea_id a) (work s1) \<noteq> None) (sq_manual_testnet_order_enable_confirmed payload))"
  obtain st s1 where g: "get_or_create_risk_settings u (ea_id a) s = (Inr st, s1)"
    and ok: "gr_approved (?gate st s1)"
    and rest: "authorized_context c u payload a (?gate st s1) s1 = (Inr ctx, s')"
    using assms by (auto simp: build_testnet_order_api_context_def account_or_value_error_apply a
        get_api_key_secret_metadata_def Let_def bnd_eq_Inr [where m = "get_or_create_risk_settings _ _"] split: if_splits)
  have on: "rs_trading_enabled st"
    using ok order_gate.approves_iff by (auto simp: gate_conds_def gate_for_def)
  then have st: "find_risk_settings u (ea_id a) (work s) = Some st" and s1: "s1 = s"
    using g fresh_settings_locked [of u "ea_id a" s st s1]
    by (cases "find_risk_settings u (ea_id a) (work s)"; force simp: get_or_create_risk_settings_def)+
  obtain z cr where z: "s' = s1" "require_valid_testnet_order_window_authorization u (ea_id a) (sq_symbol payload)
       (sq_side payload) (sq_quantity payload) (sq_price payload) None s1 = (Inr z, s1)"
    "get_exchange_credentials c u (ea_id a) s1 = (Inr (Some cr), s1)"
    "ctx = \<lparr>cx_account = a, cx_order = order_of_request a payload, cx_gate_result = ?gate st s1,
        cx_credentials = cr, cx_authorization = z\<rparr>"
    by (rule authorized_context_ok [OF rest]) (rule that; assumption)
  show thesis
    by (rule that [of a st z cr]) (use z s1 st ok a in simp_all)
qed

lemma context_facts:
  assumes b: "build_testnet_order_api_context c u payload adapters s = (Inr ctx, s')"
  shows "gr_approved (cx_gate_result ctx)" and "ea_exchange_name (cx_account ctx) \<noteq> MOCK"
    and "ri_client_order_id (cx_order ctx) = sq_client_order_id payload"
    and "ri_exchange_name (cx_order ctx) = ea_exchange_name (cx_account ctx)"
proof -
  from b show "gr_approved (cx_gate_result ctx)" by (rule context_ok)
  from b show "ri_client_order_id (cx_order ctx) = sq_client_order_id payload"
    and "ri_exchange_name (cx_order ctx) = ea_exchange_name (cx_account ctx)"
    by (rule context_ok, simp add: order_of_request_def)+
  from b show "ea_exchange_name (cx_account ctx) \<noteq> MOCK"
  proof (rule context_ok)
    fix a st
    assume "gr_approved (cx_gate_result ctx)" and "cx_account ctx = a"
      and "cx_gate_result ctx = check_testnet_order_gate (gate_for a adapters (rs_trading_enabled st)
       (find_secret_metadata u (ea_id a) (work s) \<noteq> None) (sq_manual_testnet_order_enable_confirmed payload))"
    then show ?thesis using order_gate.approves_iff by (auto simp: gate_conds_def gate_for_def)
  qed
qed

lemma create_execution_risks:
  assumes "create_execution ex0 reason s = (Inr e, s')"
  shows "risks (work s') = t_flush (risks (work s))"
proof -
  obtain s1 where a: "add_execution ex0 s = (Inr e, s1)" and r: "\<exists>t. record_initial_order_state (oe_id e) reason s1 = (Inr t, s')"
    using assms by (auto simp: create_execution_def bnd_eq_Inr)
  have "risks (work s1) = t_flush (risks (work s))"
    using a by (auto simp: add_execution_apply Let_def split: if_splits)
  moreover have "risks (work s') = risks (work s1)"
    using r by (auto simp: record_initial_order_state_def get_execution_apply add_transition_def Let_def bnd_def
        new_uuid_def split: option.splits if_splits)
  ultimately show ?thesis by simp
qed

lemma new_submission_checked:
  assumes m: "new_submission u ctx s = (Inr sm, s')"
    and st: "find_risk_settings u (ea_id (cx_account ctx)) (work s) = Some st"
  shows "\<not> sm_idempotent_replay sm"
    and "\<exists>r. check_order_risk (cx_account ctx) st (submission_risk_order ctx) True = Inr r \<and> rc_decision r = PASSED"
proof -
  let ?d = "(work s)\<lparr>signals := t_add (submission_signal u ctx (uuid_src s (uuid_next s))) (signals (work s))\<rparr>"
  obtain e s1 where c: "create_execution (submission_execution u ctx (uuid_src s (uuid_next s))) ''testnet_execution_created''
      (s\<lparr>uuid_next := Suc (uuid_next s), work := db_flush ?d\<rparr>) = (Inr e, s1)"
    and k: "bnd (get_or_create_risk_settings u (ea_id (cx_account ctx))) (\<lambda>settings.
     bnd (lift_result (check_order_risk (cx_account ctx) settings (submission_risk_order ctx) True)) (\<lambda>risk_result.
     bnd (modify_execution (oe_id e) (\<lambda>e. e\<lparr>oe_risk_result := Some (risk_to_dict risk_result)\<rparr>)) (\<lambda>_.
       if rc_decision risk_result \<noteq> PASSED then reject_submission (oe_id e) risk_result
       else start_submission (oe_id e)))) s1 = (Inr sm, s')"
    using m unfolding new_submission_def by (auto simp: bnd_flush bnd_eq_Inr split: if_splits)
  have "find_risk_settings u (ea_id (cx_account ctx)) (work s1) = Some st"
    using st create_execution_risks [OF c] by (simp add: find_risk_settings_def t_find_flush_present)
  then have g: "get_or_create_risk_settings u (ea_id (cx_account ctx)) s1 = (Inr st, s1)"
    by (simp add: get_or_create_risk_settings_def)
  obtain r where r: "check_order_risk (cx_account ctx) st (submission_risk_order ctx) True = Inr r"
    using k by (cases "check_order_risk (cx_account ctx) st (submission_risk_order ctx) True") (simp_all add: bnd_Inr [where m = "get_or_create_risk_settings u _", OF g])
  obtain s2 where k2: "(if rc_decision r \<noteq> PASSED then reject_submission (oe_id e) r else start_submission (oe_id e)) s2 = (Inr sm, s')"
    using k r by (auto simp: bnd_Inr [where m = "get_or_create_risk_settings u _", OF g] bnd_eq_Inr)
  have p: "rc_decision r = PASSED"
    using k2 by (auto simp: reject_submission_def bnd_eq_Inr split: if_splits)
  with r show "\<exists>r. check_order_risk (cx_account ctx) st (submission_risk_order ctx) True = Inr r \<and> rc_decision r = PASSED"
    by blast
  show "\<not> sm_idempotent_replay sm"
    using k2 p by (auto simp: start_submission_def bnd_eq_Inr)
qed

lemma handler_raises: "submit_handlers sm e = Some k \<Longrightarrow> \<exists>e' s'. k s = (Inl e', s')"
  by (cases e) (auto simp: submit_handlers_def bnd_def split: prod.splits sum.splits)

lemma try_handled:
  assumes "try_except m (submit_handlers sm) s = (Inr a, s')"
  shows "m s = (Inr a, s')"
proof -
  obtain r s1 where m: "m s = (r, s1)" by force
  show ?thesis
  proof (cases r)
    case (Inl e)
    with assms m obtain k where "submit_handlers sm e = Some k" "k s1 = (Inr a, s')"
      by (auto simp: try_except_def split: option.splits)
    then show ?thesis using handler_raises [of sm e k s1] by simp
  next
    case (Inr x)
    with assms m show ?thesis by (simp add: try_except_def)
  qed
qed

lemma open_submission_ok:
  assumes "open_submission c adapters payload user s = (Inr (ctx, sm), s')"
  obtains "\<not> stop_enabled (work s)" "build_testnet_order_api_context c (u_id user) payload adapters s = (Inr ctx, s)"
    "create_or_get_testnet_submission_execution (u_id user) ctx s = (Inr sm, s')"
proof -
  have n: "\<not> stop_enabled (work s)"
    using assms by (auto simp: open_submission_def bnd_assert_new_orders_allowed)
  then obtain s1 where b: "build_testnet_order_api_context c (u_id user) payload adapters s = (Inr ctx, s1)"
    and k: "create_or_get_testnet_submission_execution (u_id user) ctx s1 = (Inr sm, s')"
    using assms by (auto simp: open_submission_def bnd_assert_new_orders_allowed bnd_eq_Inr)
  from b have "s1 = s" by (rule context_ok) simp
  with n b k show thesis by (intro that) simp_all
qed

lemma submit_sends:
  assumes "submit_testnet_order c net limiter adapters payload user s = (r, s')" and "wire s' \<noteq> wire s"
  obtains ctx sm s1 where "open_submission c adapters payload user s = (Inr (ctx, sm), s1)"
    "\<not> sm_idempotent_replay sm" "wire s1 = wire s"
    "\<exists>r s2. send_submission net limiter ctx sm s1 = (r, s2) \<and> wire s' = wire s2"
proof -
  let ?open = "try_except (open_submission c adapters payload user) (submit_handlers None)"
  have quiet: "silent ?open"
    by (rule silent_try_except [OF silent_open]) (rule silent_handler)
  obtain r1 s1 where o: "?open s = (r1, s1)" by force
  then have w1: "wire s1 = wire s" using silentD [OF quiet] by blast
  show thesis
  proof (cases r1)
    case (Inl e)
    then show thesis using assms o w1 by (simp add: submit_testnet_order_def bnd_def)
  next
    case (Inr p)
    obtain ctx sm where p: "p = (ctx, sm)" by (cases p)
    have op: "open_submission c adapters payload user s = (Inr (ctx, sm), s1)"
      using try_handled [of "open_submission c adapters payload user" None s "(ctx, sm)" s1] o Inr p by simp
    have n: "\<not> sm_idempotent_replay sm"
      using assms o Inr p w1 by (auto simp: submit_testnet_order_def bnd_def)
    obtain rs s2 where sd: "send_submission net limiter ctx sm s1 = (rs, s2)" by force
    have "wire (snd (try_except (send_submission net limiter ctx sm) (submit_handlers (Some sm)) s1)) = wire s2"
    proof (cases rs)
      case (Inl e)
      have "wire (snd (k s2)) = wire s2" if "submit_handlers (Some sm) e = Some k" for k :: "order_execution op"
        using silentD [OF silent_handler [OF that], of s2 "fst (k s2)" "snd (k s2)"] by simp
      with Inl sd show ?thesis by (auto simp: try_except_def split: option.splits)
    qed (simp add: try_except_def sd)
    then have "wire s' = wire s2"
      using assms(1) o Inr p n by (auto simp: submit_testnet_order_def bnd_def split: prod.splits sum.splits)
    with sd show thesis by (intro that [OF op n w1]) blast
  qed
qed

section \<open>Running a submission\<close>

lemma flush_run:
  assumes "sound s"
  shows "flush s = (Inr (), s\<lparr>work := db_flush (work s)\<rparr>)" and "sound (s\<lparr>work := db_flush (work s)\<rparr>)"
  using assms trails.inv_flush by (simp_all add: flush_def sound_def both_def)

lemma start_submission_run:
  assumes S: "sound s" and f: "find_execution eid (work s) = Some e" and st: "oe_status e = CREATED"
  obtains s' where
    "start_submission eid s = (Inr \<lparr>sm_execution = e\<lparr>oe_status := SUBMITTED\<rparr>, sm_idempotent_replay = False\<rparr>, s')"
    "sound s'" "find_execution eid (work s') = Some (e\<lparr>oe_status := SUBMITTED\<rparr>)" "saved s' = work s'"
proof -
  obtain t1 s1 where r1: "transition_order_execution eid RISK_PASSED ''testnet_risk_passed'' None s = (Inr t1, s1)"
    and S1: "sound s1" and f1: "find_execution eid (work s1) = Some (e\<lparr>oe_status := RISK_PASSED\<rparr>)"
    by (rule transition_run [OF S f, of RISK_PASSED "''testnet_risk_passed''" None]) (blast | simp add: st)+
  obtain t2 s2 where r2: "transition_order_execution eid SUBMITTED ''testnet_order_submission_started'' None s1 = (Inr t2, s2)"
    and S2: "sound s2" and f2: "find_execution eid (work s2) = Some (e\<lparr>oe_status := RISK_PASSED\<rparr>\<lparr>oe_status := SUBMITTED\<rparr>)"
    by (rule transition_run [OF S1 f1, of SUBMITTED "''testnet_order_submission_started''" None]) (blast | simp)+
  obtain s3 where r3: "commit s2 = (Inr (), s3)" and S3: "sound s3" and w3: "work s3 = db_flush (work s2)" "saved s3 = work s3"
    by (rule commit_run [OF S2]) (rule that; assumption)
  have f3: "find_execution eid (work s3) = Some (e\<lparr>oe_status := SUBMITTED\<rparr>)"
    using find_execution_flush [OF f2] by (simp add: w3)
  show thesis
  proof (rule that [OF _ S3 f3 w3(2)])
    show "start_submission eid s = (Inr \<lparr>sm_execution = e\<lparr>oe_status := SUBMITTED\<rparr>, sm_idempotent_replay = False\<rparr>, s3)"
      by (simp add: start_submission_def
          bnd_Inr [where m = "transition_order_execution eid RISK_PASSED ''testnet_risk_passed'' None", OF r1]
          bnd_Inr [where m = "transition_order_execution eid SUBMITTED ''testnet_order_submission_started'' None", OF r2]
          bnd_commit_Inr [OF r3] get_execution_run [OF f3])
  qed
qed

text \<open>What a submission needs to be opened: a new client order id and risk settings that let it pass.\<close>

definition submission_ready :: "string \<Rightarrow> api_context \<Rightarrow> risk_check_result \<Rightarrow> session \<Rightarrow> bool" where
  "submission_ready u ctx res s \<longleftrightarrow> sound s \<and> settled (work s)
     \<and> find_by_client_order_id (ri_client_order_id (cx_order ctx)) (work s) = None
     \<and> (\<forall>e \<in> set (rows (executions (work s))). oe_signal_id e \<noteq> uuid_src s (uuid_next s))
     \<and> (\<exists>st. find_risk_settings u (ea_id (cx_account ctx)) (work s) = Some st
          \<and> check_order_risk (cx_account ctx) st (submission_risk_order ctx) True = Inr res)"

lemma new_submission_run:
  assumes R: "submission_ready u ctx res s" and pass: "rc_decision res = PASSED"
  obtains e s' where "new_submission u ctx s = (Inr \<lparr>sm_execution = e, sm_idempotent_replay = False\<rparr>, s')"
    "sound s'" "find_execution (oe_id e) (work s') = Some e" "oe_status e = SUBMITTED" "saved s' = work s'"
    "oe_client_order_id e = ri_client_order_id (cx_order ctx)"
    "oe_exchange_name e = exchange_value (ea_exchange_name (cx_account ctx))"
    "oe_user_id e = u" "oe_exchange_account_id e = ea_id (cx_account ctx)"
proof -
  obtain st where st: "find_risk_settings u (ea_id (cx_account ctx)) (work s) = Some st"
    and res: "check_order_risk (cx_account ctx) st (submission_risk_order ctx) True = Inr res"
    using R by (auto simp: submission_ready_def)
  have S: "sound s" and settled: "settled (work s)" using R by (simp_all add: submission_ready_def)
  let ?i = "uuid_src s (uuid_next s)"
  define d where "d = (work s)\<lparr>signals := t_add (submission_signal u ctx ?i) (signals (work s))\<rparr>"
  define s1 where "s1 = s\<lparr>uuid_next := Suc (uuid_next s), work := d\<rparr>"
  have S1: "sound s1"
    unfolding s1_def by (rule sound_frame [OF S]) (use S in \<open>simp_all add: d_def sound_def\<close>)
  define s2 where "s2 = s1\<lparr>work := db_flush (work s1)\<rparr>"
  have fl: "flush s1 = (Inr (), s2)" and S2: "sound s2"
    using flush_run [OF S1] by (simp_all add: s2_def)
  have ex: "t_all (executions (work s2)) = rows (executions (work s))"
    using settled_pend(9) [OF settled] by (simp add: s2_def s1_def d_def t_all_def)
  obtain e s3 where c: "create_execution (submission_execution u ctx ?i) ''testnet_execution_created'' s2 = (Inr e, s3)"
    and S3: "sound s3" and e: "e = (submission_execution u ctx ?i)\<lparr>oe_id := oe_id e, oe_execution_id := oe_execution_id e\<rparr>"
    and f3: "find_execution (oe_id e) (work s3) = Some e"
  proof (rule create_run [OF S2])
    show "oe_status (submission_execution u ctx ?i) = CREATED" by (simp add: submission_execution_def)
    show "\<forall>e \<in> set (t_all (executions (work s2))). oe_client_order_id e \<noteq> oe_client_order_id (submission_execution u ctx ?i)
      \<and> (oe_signal_id e, oe_exchange_account_id e) \<noteq>
         (oe_signal_id (submission_execution u ctx ?i), oe_exchange_account_id (submission_execution u ctx ?i))"
      using R unfolding ex by (auto simp: submission_ready_def submission_execution_def find_by_client_order_id_def
          t_find_def find_None_iff)
  qed (rule that; assumption)
  have "find_risk_settings u (ea_id (cx_account ctx)) (work s3) = Some st"
    using st create_execution_risks [OF c] by (simp add: s2_def s1_def d_def find_risk_settings_def t_find_flush_present)
  then have g: "get_or_create_risk_settings u (ea_id (cx_account ctx)) s3 = (Inr st, s3)"
    by (simp add: get_or_create_risk_settings_def)
  let ?g = "\<lambda>e. e\<lparr>oe_risk_result := Some (risk_to_dict res)\<rparr> :: order_execution"
  obtain s4 where m: "modify_execution (oe_id e) ?g s3 = (Inr (), s4)" and S4: "sound s4"
    and f4: "find_execution (oe_id e) (work s4) = Some (?g e)"
    by (rule modify_run [OF S3 f3, of ?g]) (blast | simp)+
  have "oe_status (?g e) = CREATED" by (subst e) (simp add: submission_execution_def)
  then obtain s5 where r: "start_submission (oe_id e) s4 =
      (Inr \<lparr>sm_execution = (?g e)\<lparr>oe_status := SUBMITTED\<rparr>, sm_idempotent_replay = False\<rparr>, s5)"
    and S5: "sound s5" "find_execution (oe_id e) (work s5) = Some ((?g e)\<lparr>oe_status := SUBMITTED\<rparr>)" "saved s5 = work s5"
    by (rule start_submission_run [OF S4 f4]) (rule that; assumption)
  have new: "new_submission u ctx s = (Inr \<lparr>sm_execution = (?g e)\<lparr>oe_status := SUBMITTED\<rparr>, sm_idempotent_replay = False\<rparr>, s5)"
    by (simp add: new_submission_def bnd_Inr [where m = flush, OF fl [unfolded s1_def d_def]]
        bnd_Inr [where m = "create_execution (submission_execution u ctx ?i) ''testnet_execution_created''", OF c]
        bnd_Inr [where m = "get_or_create_risk_settings u (ea_id (cx_account ctx))", OF g]
        res bnd_Inr [where m = "modify_execution (oe_id e) ?g", OF m] pass r)
  have "oe_client_order_id e = ri_client_order_id (cx_order ctx)"
    "oe_exchange_name e = exchange_value (ea_exchange_name (cx_account ctx))"
    "oe_user_id e = u" "oe_exchange_account_id e = ea_id (cx_account ctx)"
    by (subst e, simp add: submission_execution_def)+
  with S5 show thesis
    by (intro that [OF new]) simp_all
qed

text \<open>The two ways a started submission ends, both committed.\<close>

lemma failure_run:
  assumes S: "sound s" and f: "find_execution (oe_id e) (work s) = Some e" and st: "oe_status e = SUBMITTED"
  obtains e' s' where "record_testnet_submission_failure e why s = (Inr e', s')" "sound s'"
    "find_execution (oe_id e) (work s') = Some e'" "saved s' = work s'"
    "e' = e\<lparr>oe_error_message := Some ''testnet exchange request failed'', oe_status := FAILED\<rparr>"
proof -
  let ?g = "\<lambda>e. e\<lparr>oe_error_message := Some ''testnet exchange request failed''\<rparr> :: order_execution"
  let ?d = "Some [(''failure_type'', PStr why)]"
  obtain s1 where r1: "modify_execution (oe_id e) ?g s = (Inr (), s1)" and s1: "sound s1"
    "find_execution (oe_id e) (work s1) = Some (?g e)"
    by (rule modify_run [OF S f, of ?g]) (blast | simp)+
  obtain t s2 where r2: "transition_order_execution (oe_id e) FAILED ''testnet_exchange_request_failed'' ?d s1 = (Inr t, s2)"
    and s2: "sound s2" "find_execution (oe_id e) (work s2) = Some ((?g e)\<lparr>oe_status := FAILED\<rparr>)"
    by (rule transition_run [OF s1, of FAILED "''testnet_exchange_request_failed''" ?d]) (blast | simp add: st)+
  obtain s3 where r3: "commit s2 = (Inr (), s3)" and s3: "sound s3" "work s3 = db_flush (work s2)" "saved s3 = work s3"
    by (rule commit_run [OF s2(1)]) blast
  have f3: "find_execution (oe_id e) (work s3) = Some ((?g e)\<lparr>oe_status := FAILED\<rparr>)"
    using s2(2) by (simp add: s3 find_execution_flush)
  have "record_testnet_submission_failure e why s = (Inr ((?g e)\<lparr>oe_status := FAILED\<rparr>), s3)"
    by (simp add: record_testnet_submission_failure_def st bnd_Inr [where m = "modify_execution (oe_id e) ?g", OF r1]
        bnd_Inr [where m = "transition_order_execution (oe_id e) FAILED ''testnet_exchange_request_failed'' ?d", OF r2]
        bnd_commit_Inr [OF r3] get_execution_apply f3)
  then show thesis by (rule that [OF _ s3(1) f3 s3(3)]) simp
qed

lemma accepted_run:
  assumes S: "sound s" and f: "find_execution (oe_id e) (work s) = Some e" and st: "oe_status e = SUBMITTED"
    and ok: "raise_for_exchange_rejection (oe_exchange_name e) (safe_value (xr_exchange_response r)) = Inr ()"
    and d: "safe_value (xr_exchange_response r) = PDict d"
  obtains e' s' where "record_testnet_submission_accepted e r s = (Inr e', s')" "sound s'"
    "find_execution (oe_id e) (work s') = Some e'" "saved s' = work s'"
    "e' = e\<lparr>oe_exchange_response := Some d, oe_exchange_order_id :=
       (case exchange_order_id (oe_exchange_name e) d of None \<Rightarrow> oe_exchange_order_id e | Some i \<Rightarrow> Some i),
       oe_status := ACCEPTED\<rparr>"
proof -
  let ?g = "\<lambda>e. e\<lparr>oe_exchange_response := Some d\<rparr> :: order_execution"
  let ?set = "case exchange_order_id (oe_exchange_name e) d of None \<Rightarrow> ret ()
     | Some i \<Rightarrow> modify_execution (oe_id e) (\<lambda>e. e\<lparr>oe_exchange_order_id := Some i\<rparr>)"
  let ?e2 = "(?g e)\<lparr>oe_exchange_order_id :=
     (case exchange_order_id (oe_exchange_name e) d of None \<Rightarrow> oe_exchange_order_id e | Some i \<Rightarrow> Some i)\<rparr>"
  let ?det = "Some [(''exchange'', PStr (oe_exchange_name e))]"
  obtain s1 where r1: "modify_execution (oe_id e) ?g s = (Inr (), s1)" and s1: "sound s1"
    "find_execution (oe_id e) (work s1) = Some (?g e)"
    by (rule modify_run [OF S f, of ?g]) (blast | simp)+
  obtain s2 where r2: "?set s1 = (Inr (), s2)" and s2: "sound s2" "find_execution (oe_id e) (work s2) = Some ?e2"
  proof (cases "exchange_order_id (oe_exchange_name e) d")
    case None
    show thesis by (rule that [of s1]) (use None s1 in simp_all)
  next
    case (Some i)
    let ?h = "\<lambda>e. e\<lparr>oe_exchange_order_id := Some i\<rparr> :: order_execution"
    obtain s2 where "modify_execution (oe_id e) ?h s1 = (Inr (), s2)" "sound s2"
      "find_execution (oe_id e) (work s2) = Some (?h (?g e))"
      by (rule modify_run [OF s1, of ?h]) (blast | simp)+
    with Some show thesis by (intro that [of s2]) simp_all
  qed
  obtain t s3 where r3: "transition_order_execution (oe_id e) ACCEPTED ''testnet_exchange_accepted'' ?det s2 = (Inr t, s3)"
    and s3: "sound s3" "find_execution (oe_id e) (work s3) = Some (?e2\<lparr>oe_status := ACCEPTED\<rparr>)"
    by (rule transition_run [OF s2, of ACCEPTED "''testnet_exchange_accepted''" ?det]) (blast | simp add: st)+
  obtain s4 where r4: "commit s3 = (Inr (), s4)" and s4: "sound s4" "work s4 = db_flush (work s3)" "saved s4 = work s4"
    by (rule commit_run [OF s3(1)]) blast
  have f4: "find_execution (oe_id e) (work s4) = Some (?e2\<lparr>oe_status := ACCEPTED\<rparr>)"
    using s3(2) by (simp add: s4 find_execution_flush)
  have "record_testnet_submission_accepted e r s = (Inr (?e2\<lparr>oe_status := ACCEPTED\<rparr>), s4)"
    by (simp add: record_testnet_submission_accepted_def Let_def ok [unfolded d] st d dict_of_def
        bnd_Inr [where m = "modify_execution (oe_id e) ?g", OF r1] bnd_Inr [where m = ?set, OF r2]
        bnd_Inr [where m = "transition_order_execution (oe_id e) ACCEPTED ''testnet_exchange_accepted'' ?det", OF r3]
        bnd_commit_Inr [OF r4] get_execution_apply f4)
  then show thesis by (rule that [OF _ s4(1) f4 s4(3)]) simp
qed

lemma stored_by_client_id:
  assumes "sound s" and "find_execution i (work s) = Some e"
  shows "find_by_client_order_id (oe_client_order_id e) (work s) = Some e"
proof -
  have "distinct (map oe_client_order_id (rows (executions (work s))))"
    using assms(1) by (simp add: sound_def db_unique_def t_all_def)
  moreover have "e \<in> set (rows (executions (work s)))"
    using assms(2) by (auto simp: find_execution_def dest: t_find_SomeD)
  ultimately show ?thesis unfolding find_by_client_order_id_def by (rule t_find_unique_key)
qed

text \<open>An order that its exchange can express can be prepared and put on the wire at any time.\<close>

definition sendable :: "api_context \<Rightarrow> bool" where
  "sendable ctx \<longleftrightarrow> gr_approved (cx_gate_result ctx) \<and> ea_exchange_name (cx_account ctx) \<noteq> MOCK
     \<and> ri_exchange_name (cx_order ctx) = ea_exchange_name (cx_account ctx)
     \<and> (ri_order_type (cx_order ctx) = LIMIT \<longrightarrow> ri_price (cx_order ctx) \<noteq> None)
     \<and> (ea_exchange_name (cx_account ctx) = OKX \<longrightarrow> ec_passphrase (cx_credentials ctx) \<noteq> None)"

lemma order_bodies:
  assumes "ri_order_type o' = LIMIT \<longrightarrow> ri_price o' \<noteq> None"
  shows "\<exists>ps. binance_order_params o' = Inr ps"
    and "\<exists>b. bybit_order_body o' = Inr b \<and> json_ok (PDict b)"
    and "\<exists>b. okx_order_body o' = Inr b \<and> json_ok (PDict b)"
proof -
  obtain t where t: "ri_order_type o' = LIMIT \<longrightarrow> required_price o' = Inr t"
    using assms by (cases "ri_price o'") (auto simp: required_price_def)
  show "\<exists>ps. binance_order_params o' = Inr ps" using t by (auto simp: binance_order_params_def Let_def)
  show "\<exists>b. bybit_order_body o' = Inr b \<and> json_ok (PDict b)" using t by (auto simp: bybit_order_body_def Let_def)
  show "\<exists>b. okx_order_body o' = Inr b \<and> json_ok (PDict b)" using t by (auto simp: okx_order_body_def Let_def)
qed

lemma wire_request_total: "(\<And>b. pr_body p = Some b \<Longrightarrow> json_ok (PDict b)) \<Longrightarrow> \<exists>q. wire_request p = Inr q"
  by (cases "pr_body p") (simp_all add: wire_request_def json_body_def Let_def)

lemma sendable_request:
  assumes "sendable ctx" and cl: "create_testnet_signed_http_client (ea_exchange_name (cx_account ctx)) = Inr cl"
  obtains p q where "prepare_testnet_order_request (cx_order ctx) (cx_gate_result ctx) cl (cx_credentials ctx) s = (Inr p, s)"
    "wire_request p = Inr q" "testnet_order_request_path (ea_exchange_name (cx_account ctx)) = Inr (pr_path p)"
proof -
  let ?o = "cx_order ctx" and ?cr = "cx_credentials ctx" and ?x = "ea_exchange_name (cx_account ctx)"
  have x: "ri_exchange_name ?o = ?x" "cl_exchange_name cl = ?x" and ok: "gr_approved (cx_gate_result ctx)"
    using assms(1) testnet_client_shape(1) [OF cl] by (simp_all add: sendable_def)
  have price: "ri_order_type ?o = LIMIT \<longrightarrow> ri_price ?o \<noteq> None" using assms(1) by (simp add: sendable_def)
  note bodies = order_bodies [OF price]
  obtain path params body sec p where r: "order_request ?o = Inr (path, params, body, sec)"
    and pp: "prepare_private_any cl s ''POST'' path ?cr params body sec = Inr p"
    and js: "\<And>b. pr_body p = Some b \<Longrightarrow> json_ok (PDict b)"
  proof (cases ?x)
    case BINANCE
    then obtain ps where "binance_order_params ?o = Inr ps" using bodies(1) by blast
    then show thesis
      using BINANCE x by (intro that [of "''/api/v3/order''" ps None SIGNED
          "prepare_binance_request cl s ''POST'' ''/api/v3/order'' ?cr ps"])
        (simp_all add: order_request_def prepare_private_any_def prepare_binance_request_def Let_def)
  next
    case BYBIT
    obtain b where b: "bybit_order_body ?o = Inr b" "json_ok (PDict b)" using bodies(2) by blast
    then obtain p where p: "prepare_bybit_request cl s ''POST'' ''/v5/order/create'' ?cr [] (Some b) = Inr p" "pr_body p = Some b"
      unfolding prepare_bybit_request_def request_body_of_def json_body_def Let_def by simp
    show thesis
      by (rule that [of "''/v5/order/create''" "[]" "Some b" SIGNED p])
        (use b p BYBIT x in \<open>simp_all add: order_request_def prepare_private_any_def\<close>)
  next
    case OKX
    obtain b where b: "okx_order_body ?o = Inr b" "json_ok (PDict b)" using bodies(3) by blast
    moreover obtain pp where "ec_passphrase ?cr = Some pp" using OKX assms(1) by (auto simp: sendable_def)
    ultimately obtain p where p: "prepare_okx_request cl s ''POST'' ''/api/v5/trade/order'' ?cr [] (Some b) OKX_DEMO_SIGNED = Inr p"
        "pr_body p = Some b"
      unfolding prepare_okx_request_def request_body_of_def json_body_def Let_def by simp
    show thesis
      by (rule that [of "''/api/v5/trade/order''" "[]" "Some b" OKX_DEMO_SIGNED p])
        (use b p OKX x in \<open>simp_all add: order_request_def prepare_private_any_def\<close>)
  next
    case MOCK
    with assms(1) show thesis by (simp add: sendable_def)
  qed
  obtain q where q: "wire_request p = Inr q" using wire_request_total js by blast
  have "prepare_testnet_order_request ?o (cx_gate_result ctx) cl ?cr s = (Inr p, s)"
    unfolding prepare_order_apply using ok r pp by simp
  moreover have "testnet_order_request_path ?x = Inr (pr_path p)"
    using order_request_shape(1) [OF r] prepare_private_shape(3) [OF pp] x by simp
  ultimately show thesis using q by (intro that)
qed

text \<open>What the exchange is asked and what its answer makes of the submission.\<close>

lemma send_submission_apply:
  assumes "sendable ctx"
  obtains q path where "testnet_order_request_path (ea_exchange_name (cx_account ctx)) = Inr path"
    "send_submission net limiter ctx sm s =
      (case limiter (ea_exchange_name (cx_account ctx)) (ea_id (cx_account ctx)) path of
         Inl e \<Rightarrow> (Inl e, s)
       | Inr _ \<Rightarrow> (let s1 = s\<lparr>wire := wire s @ [q]\<rparr> in case net q of
           Reply v \<Rightarrow> record_testnet_submission_accepted (sm_execution sm)
             \<lparr>xr_exchange_name = ea_exchange_name (cx_account ctx), xr_client_order_id = ri_client_order_id (cx_order ctx),
              xr_request_method = ''POST'', xr_request_path = path, xr_exchange_response = v\<rparr> s1
         | ReplyNotJson msg \<Rightarrow> (Inl (ValueError msg), s1)
         | ReplyEmpty \<Rightarrow> record_testnet_submission_accepted (sm_execution sm)
             \<lparr>xr_exchange_name = ea_exchange_name (cx_account ctx), xr_client_order_id = ri_client_order_id (cx_order ctx),
              xr_request_method = ''POST'', xr_request_path = path, xr_exchange_response = PDict []\<rparr> s1
         | ReplyStatus code body \<Rightarrow> (Inl (ExchangeHttpRequestError (http_failure_type code) (Some code)
             (read_exchange_error_code body)), s1)
         | NoReply \<Rightarrow> (Inl (ExchangeHttpRequestError ''transport_error'' None None), s1)))"
proof -
  have x: "ri_exchange_name (cx_order ctx) = ea_exchange_name (cx_account ctx)" "ea_exchange_name (cx_account ctx) \<noteq> MOCK"
    using assms by (simp_all add: sendable_def)
  then obtain cl where cl: "create_testnet_signed_http_client (ea_exchange_name (cx_account ctx)) = Inr cl"
    by (cases "ea_exchange_name (cx_account ctx)")
      (simp_all add: create_testnet_signed_http_client_def get_testnet_endpoint_config_def TESTNET_ENDPOINTS_def)
  obtain p q where p: "prepare_testnet_order_request (cx_order ctx) (cx_gate_result ctx) cl (cx_credentials ctx) s = (Inr p, s)"
    and q: "wire_request p = Inr q" and path: "testnet_order_request_path (ea_exchange_name (cx_account ctx)) = Inr (pr_path p)"
    by (rule sendable_request [OF assms cl]) (rule that; assumption)
  have m: "pr_method p = ''POST''"
    using p prepare_private_shape(2) unfolding prepare_order_apply by (auto split: if_splits sum.splits)
  have "send_submission net limiter ctx sm s =
      bnd (lift_result (limiter (ea_exchange_name (cx_account ctx)) (ea_id (cx_account ctx)) (pr_path p))) (\<lambda>_.
        bnd (transport_request net p) (\<lambda>v. record_testnet_submission_accepted (sm_execution sm)
          \<lparr>xr_exchange_name = ri_exchange_name (cx_order ctx), xr_client_order_id = ri_client_order_id (cx_order ctx),
           xr_request_method = pr_method p, xr_request_path = pr_path p, xr_exchange_response = v\<rparr>)) s"
    using cl p x
    by (simp add: send_submission_def execute_testnet_order_def execute_prepared_request_def bnd_assoc
        bnd_Inr [where m = "prepare_testnet_order_request _ _ _ _"])
  then show thesis
    using m q x by (intro that [OF path, of q])
      (simp add: transport_request_def Let_def bnd_assoc split: sum.split http_reply.split)
qed

lemma submit_apply:
  assumes stop: "\<not> stop_enabled (work s)"
    and b: "build_testnet_order_api_context c (u_id user) payload adapters s = (Inr ctx, s)"
    and R: "submission_ready (u_id user) ctx res s" and pass: "rc_decision res = PASSED"
  obtains e s1 where
    "submit_testnet_order c net limiter adapters payload user s =
       bnd (try_except (send_submission net limiter ctx \<lparr>sm_execution = e, sm_idempotent_replay = False\<rparr>)
              (submit_handlers (Some \<lparr>sm_execution = e, sm_idempotent_replay = False\<rparr>)))
         (\<lambda>execution. lift_result (testnet_submit_response ctx execution False)) s1"
    "sound s1" "find_execution (oe_id e) (work s1) = Some e" "oe_status e = SUBMITTED" "saved s1 = work s1"
    "oe_client_order_id e = sq_client_order_id payload"
    "oe_exchange_name e = exchange_value (ea_exchange_name (cx_account ctx))" "wire s1 = wire s"
proof -
  from b have cid: "ri_client_order_id (cx_order ctx) = sq_client_order_id payload"
    by (rule context_ok) (simp add: order_of_request_def)
  obtain e s1 where n: "new_submission (u_id user) ctx s = (Inr \<lparr>sm_execution = e, sm_idempotent_replay = False\<rparr>, s1)"
    and s1: "sound s1" "find_execution (oe_id e) (work s1) = Some e" "oe_status e = SUBMITTED" "saved s1 = work s1"
      "oe_client_order_id e = ri_client_order_id (cx_order ctx)"
      "oe_exchange_name e = exchange_value (ea_exchange_name (cx_account ctx))"
    by (rule new_submission_run [OF R pass]) (rule that; assumption)
  have "create_or_get_testnet_submission_execution (u_id user) ctx s = (Inr \<lparr>sm_execution = e, sm_idempotent_replay = False\<rparr>, s1)"
    using R n by (simp add: create_or_get_testnet_submission_execution_def submission_ready_def)
  then have op: "open_submission c adapters payload user s = (Inr (ctx, \<lparr>sm_execution = e, sm_idempotent_replay = False\<rparr>), s1)"
    using stop b by (simp add: open_submission_def bnd_assert_new_orders_allowed
        bnd_Inr [where m = "build_testnet_order_api_context c (u_id user) payload adapters"]
        bnd_Inr [where m = "create_or_get_testnet_submission_execution (u_id user) ctx"])
  have w: "wire s1 = wire s" using silentD [OF silent_open op] .
  have t: "try_except (open_submission c adapters payload user) (submit_handlers None) s =
      (Inr (ctx, \<lparr>sm_execution = e, sm_idempotent_replay = False\<rparr>), s1)"
    using op by (simp add: try_except_def)
  show thesis
    by (rule that [of e s1])
      (use s1 w cid in \<open>simp_all add: submit_testnet_order_def
        bnd_Inr [where m = "try_except (open_submission c adapters payload user) (submit_handlers None)", OF t]\<close>)
qed

text \<open>A failure that the route records: the execution is failed and committed, the answer is the code.\<close>

lemma handled_failure:
  fixes m :: "'a op"
  assumes S: "sound s" and f: "find_execution (oe_id e) (work s) = Some e" and st: "oe_status e = SUBMITTED"
    and m: "m s0 = (Inl err, s)"
    and h: "submit_handlers (Some \<lparr>sm_execution = e, sm_idempotent_replay = False\<rparr>) err =
      Some (bnd (record_failure_of (Some \<lparr>sm_execution = e, sm_idempotent_replay = False\<rparr>) why) (\<lambda>_. raise exc) :: 'a op)"
  obtains e' s' where
    "try_except m (submit_handlers (Some \<lparr>sm_execution = e, sm_idempotent_replay = False\<rparr>)) s0 = (Inl exc, s')"
    "sound s'" "saved s' = work s'" "wire s' = wire s"
    "find_by_client_order_id (oe_client_order_id e) (work s') = Some e'" "oe_status e' = FAILED"
proof -
  obtain e' s' where r: "record_testnet_submission_failure e why s = (Inr e', s')" and s': "sound s'"
    "find_execution (oe_id e) (work s') = Some e'" "saved s' = work s'"
    and e': "e' = e\<lparr>oe_error_message := Some ''testnet exchange request failed'', oe_status := FAILED\<rparr>"
    by (rule failure_run [OF S f st]) (rule that; assumption)
  have "try_except m (submit_handlers (Some \<lparr>sm_execution = e, sm_idempotent_replay = False\<rparr>)) s0 = (Inl exc, s')"
    by (simp add: try_except_def m h record_failure_of_def bnd_assoc
        bnd_Inr [where m = "record_testnet_submission_failure e why", OF r])
  moreover have "find_by_client_order_id (oe_client_order_id e) (work s') = Some e'"
    using stored_by_client_id [OF s'(1,2)] e' by simp
  moreover have "oe_status e' = FAILED" by (simp add: e')
  ultimately show thesis
    using s' silentD [OF silent_record(2) r] by (intro that)
qed

text \<open>The whole run of a submission that the exchange answers.\<close>

lemma accepted_outcome:
  assumes stop: "\<not> stop_enabled (work s)"
    and b: "build_testnet_order_api_context c (u_id user) payload adapters s = (Inr ctx, s)"
    and R: "submission_ready (u_id user) ctx res s" and pass: "rc_decision res = PASSED" and snd: "sendable ctx"
    and lim: "\<forall>path. limiter (ea_exchange_name (cx_account ctx)) (ea_id (cx_account ctx)) path = Inr ()"
    and net: "\<forall>q. net q = Reply (PDict d)"
    and ok: "raise_for_exchange_rejection (exchange_value (ea_exchange_name (cx_account ctx))) (safe_value (PDict d)) = Inr ()"
  shows "\<exists>resp e s'. submit_testnet_order c net limiter adapters payload user s = (Inr resp, s')
    \<and> sr_order_status resp = ACCEPTED \<and> \<not> sr_idempotent_replay resp \<and> sr_execution_id resp = oe_execution_id e
    \<and> find_by_client_order_id (sq_client_order_id payload) (work s') = Some e \<and> oe_status e = ACCEPTED
    \<and> (\<exists>d'. safe_value (PDict d) = PDict d' \<and> oe_exchange_response e = Some d')
    \<and> saved s' = work s' \<and> sound s' \<and> (\<exists>q. wire s' = wire s @ [q])"
proof -
  obtain e s1 where run: "submit_testnet_order c net limiter adapters payload user s =
       bnd (try_except (send_submission net limiter ctx \<lparr>sm_execution = e, sm_idempotent_replay = False\<rparr>)
              (submit_handlers (Some \<lparr>sm_execution = e, sm_idempotent_replay = False\<rparr>)))
         (\<lambda>execution. lift_result (testnet_submit_response ctx execution False)) s1"
    and s1: "sound s1" "find_execution (oe_id e) (work s1) = Some e" "oe_status e = SUBMITTED" "saved s1 = work s1"
    and e: "oe_client_order_id e = sq_client_order_id payload"
      "oe_exchange_name e = exchange_value (ea_exchange_name (cx_account ctx))" and w1: "wire s1 = wire s"
    by (rule submit_apply [OF stop b R pass]) (rule that; assumption)
  obtain q path xr where path: "testnet_order_request_path (ea_exchange_name (cx_account ctx)) = Inr path"
    and sd: "send_submission net limiter ctx \<lparr>sm_execution = e, sm_idempotent_replay = False\<rparr> s1 =
      record_testnet_submission_accepted e xr (s1\<lparr>wire := wire s1 @ [q]\<rparr>)" and xr: "xr_exchange_response xr = PDict d"
    by (rule send_submission_apply [OF snd, of net limiter "\<lparr>sm_execution = e, sm_idempotent_replay = False\<rparr>" s1])
      (use lim net in \<open>auto simp: Let_def\<close>)
  obtain d' where d': "safe_value (PDict d) = PDict d'" by simp
  have S2: "sound (s1\<lparr>wire := wire s1 @ [q]\<rparr>)" "find_execution (oe_id e) (work (s1\<lparr>wire := wire s1 @ [q]\<rparr>)) = Some e"
    using s1 by simp_all
  have rej: "raise_for_exchange_rejection (oe_exchange_name e) (safe_value (xr_exchange_response xr)) = Inr ()"
    "safe_value (xr_exchange_response xr) = PDict d'"
    using ok e d' by (simp_all only: xr)
  obtain e' s' where acc: "send_submission net limiter ctx \<lparr>sm_execution = e, sm_idempotent_replay = False\<rparr> s1 = (Inr e', s')"
    and s': "sound s'" "find_execution (oe_id e) (work s') = Some e'" "saved s' = work s'"
    and e': "e' = e\<lparr>oe_exchange_response := Some d', oe_exchange_order_id :=
       (case exchange_order_id (oe_exchange_name e) d' of None \<Rightarrow> oe_exchange_order_id e | Some i \<Rightarrow> Some i),
       oe_status := ACCEPTED\<rparr>"
    unfolding sd by (rule accepted_run [OF S2 s1(3) rej]) blast
  have "wire s' = wire s @ [q]"
    using silentD [OF silent_record(1)] acc w1 unfolding sd by force
  moreover have "submit_testnet_order c net limiter adapters payload user s =
      (testnet_submit_response ctx e' False, s')"
    unfolding run by (simp add: bnd_def try_except_def acc)
  moreover have "find_by_client_order_id (sq_client_order_id payload) (work s') = Some e'"
    using stored_by_client_id [OF s'(1,2)] e' e by simp
  ultimately show ?thesis
    using s' e' d' path by (auto simp: testnet_submit_response_def)
qed

section \<open>Properties\<close>

text \<open>C2: A testnet order reaches the exchange only when everything that must hold before holds: the
  emergency stop is off, the account is the caller's, in TESTNET mode with trading switched on
  for it, its risk settings and the adapters, the caller confirmed, an approval on record covers
  this very order and has not run out, the client order id is new, the risk check passes and the
  rate limiter agrees. Then exactly one request is sent, to the testnet endpoint of the
  account's exchange, with a signature that verifies under the account's secret.\<close>

theorem orders_are_sent_only_when_admitted:
  assumes run: "submit_testnet_order c net limiter adapters payload user s = (r, s')" and sent: "wire s' \<noteq> wire s"
  shows "\<not> stop_enabled (work s) \<and> adapters \<and> sq_manual_testnet_order_enable_confirmed payload
    \<and> find_by_client_order_id (sq_client_order_id payload) (work s) = None
    \<and> (\<exists>a st cr q path l res. wire s' = wire s @ [q]
       \<and> find_owned_account (u_id user) (sq_exchange_account_id payload) (work s) = Some a
       \<and> find_risk_settings (u_id user) (ea_id a) (work s) = Some st
       \<and> ea_account_mode a = TESTNET \<and> ea_trading_enabled a \<and> rs_trading_enabled st
       \<and> find_window_approval (u_id user) (ea_id a) (work s) = Some l
       \<and> authorizes l (sq_symbol payload) (sq_side payload) (sq_quantity payload) (sq_price payload) (now_utc s)
       \<and> check_order_risk a st \<lparr>ro_symbol = upper (sq_symbol payload), ro_side = sq_side payload,
            ro_quantity = sq_quantity payload, ro_price = sq_price payload\<rparr> True = Inr res
       \<and> rc_decision res = PASSED
       \<and> testnet_order_request_path (ea_exchange_name a) = Inr path
       \<and> limiter (ea_exchange_name a) (ea_id a) path = Inr ()
       \<and> get_exchange_credentials c (u_id user) (ea_id a) s = (Inr (Some cr), s)
       \<and> testnet_request (ea_exchange_name a) cr q)"
proof -
  obtain ctx sm s1 r2 s2 where op: "open_submission c adapters payload user s = (Inr (ctx, sm), s1)"
    and n: "\<not> sm_idempotent_replay sm" and w: "wire s1 = wire s"
    and sd: "send_submission net limiter ctx sm s1 = (r2, s2)" "wire s' = wire s2"
    by (rule submit_sends [OF run sent]) (elim exE conjE, rule that; assumption)
  obtain stop: "\<not> stop_enabled (work s)"
    and b: "build_testnet_order_api_context c (u_id user) payload adapters s = (Inr ctx, s)"
    and cg: "create_or_get_testnet_submission_execution (u_id user) ctx s = (Inr sm, s1)"
    by (rule open_submission_ok [OF op])
  obtain a st z cr where a: "find_owned_account (u_id user) (sq_exchange_account_id payload) (work s) = Some a"
    and st: "find_risk_settings (u_id user) (ea_id a) (work s) = Some st"
    and ok: "gr_approved (cx_gate_result ctx)"
      "cx_gate_result ctx = check_testnet_order_gate (gate_for a adapters (rs_trading_enabled st)
         (find_secret_metadata (u_id user) (ea_id a) (work s) \<noteq> None) (sq_manual_testnet_order_enable_confirmed payload))"
    and auth: "require_valid_testnet_order_window_authorization (u_id user) (ea_id a) (sq_symbol payload)
         (sq_side payload) (sq_quantity payload) (sq_price payload) None s = (Inr z, s)"
    and cr: "get_exchange_credentials c (u_id user) (ea_id a) s = (Inr (Some cr), s)"
    and ctx: "cx_account ctx = a" "cx_order ctx = order_of_request a payload" "cx_credentials ctx = cr"
    by (rule context_ok [OF b]) (rule that; assumption)
  have new: "find_by_client_order_id (sq_client_order_id payload) (work s) = None"
    "new_submission (u_id user) ctx s = (Inr sm, s1)"
    using cg n ctx by (auto simp: create_or_get_testnet_submission_execution_def order_of_request_def
        split: option.splits if_splits)
  have flags: "adapters" "sq_manual_testnet_order_enable_confirmed payload" "ea_account_mode a = TESTNET"
    "ea_trading_enabled a" "rs_trading_enabled st"
    using ok order_gate.approves_iff by (auto simp: gate_conds_def gate_for_def)
  obtain res where res: "check_order_risk a st (submission_risk_order ctx) True = Inr res" "rc_decision res = PASSED"
    using new_submission_checked(2) [OF new(2)] st ctx by auto
  obtain l where l: "find_window_approval (u_id user) (ea_id a) (work s) = Some l"
    "authorizes l (sq_symbol payload) (sq_side payload) (sq_quantity payload) (sq_price payload) (now_utc s)"
    using authorization_sound [OF auth] by auto
  have x: "ri_exchange_name (cx_order ctx) = ea_exchange_name (cx_account ctx)" using ctx by (simp add: order_of_request_def)
  obtain q path where q: "wire s' = wire s @ [q]" "testnet_request (ea_exchange_name a) cr q"
    "testnet_order_request_path (ea_exchange_name a) = Inr path" "limiter (ea_exchange_name a) (ea_id a) path = Inr ()"
    using send_submission_wire [OF sd(1) x] sd(2) sent w ctx by auto
  show ?thesis
    using stop new(1) flags a st l q cr res ctx by (auto simp: submission_risk_order_def order_of_request_def)
qed

text \<open>C6: A submission that is opened and answered by the exchange with a success is accepted: the route
  returns the execution, which is stored under its client order id in status ACCEPTED with the
  sanitized answer, and the transaction is committed.\<close>

theorem answered_submission_is_accepted:
  assumes stop: "\<not> stop_enabled (work s)"
    and b: "build_testnet_order_api_context c (u_id user) payload adapters s = (Inr ctx, s)"
    and R: "submission_ready (u_id user) ctx res s" and pass: "rc_decision res = PASSED" and snd: "sendable ctx"
    and lim: "\<forall>path. limiter (ea_exchange_name (cx_account ctx)) (ea_id (cx_account ctx)) path = Inr ()"
    and net: "\<forall>q. net q = Reply (PDict d)"
    and ok: "raise_for_exchange_rejection (exchange_value (ea_exchange_name (cx_account ctx))) (safe_value (PDict d)) = Inr ()"
  shows "\<exists>resp e s'. submit_testnet_order c net limiter adapters payload user s = (Inr resp, s')
    \<and> sr_order_status resp = ACCEPTED \<and> \<not> sr_idempotent_replay resp \<and> sr_execution_id resp = oe_execution_id e
    \<and> find_by_client_order_id (sq_client_order_id payload) (work s') = Some e \<and> oe_status e = ACCEPTED
    \<and> (\<exists>d'. safe_value (PDict d) = PDict d' \<and> oe_exchange_response e = Some d')
    \<and> saved s' = work s' \<and> sound s' \<and> (\<exists>q. wire s' = wire s @ [q])"
  using assms by (rule accepted_outcome)

definition recorded_as :: "py_exc \<Rightarrow> int \<Rightarrow> bool" where
  "recorded_as e code \<longleftrightarrow> (case e of
      RateLimitExceededError _ _ \<Rightarrow> code = 429 | RateLimitStoreUnavailableError \<Rightarrow> code = 503
    | ExchangeHttpRequestError _ _ _ \<Rightarrow> code = 502 | _ \<Rightarrow> False)"

lemma recorded_handler:
  "recorded_as e code \<Longrightarrow> \<exists>why detail. submit_handlers sm e =
     Some (bnd (record_failure_of sm why) (\<lambda>_. raise (HTTPException code detail)))"
  by (cases e) (auto simp: recorded_as_def submit_handlers_def)

text \<open>C7: A submission that fails after it was opened is recorded as such: when the limiter refuses
  (429) or is unavailable (503), nothing is sent; when the exchange answers with an error status
  or not at all, the answer is 502. In each case the execution is stored as FAILED and committed.\<close>

theorem failed_submission_is_recorded:
  assumes stop: "\<not> stop_enabled (work s)"
    and b: "build_testnet_order_api_context c (u_id user) payload adapters s = (Inr ctx, s)"
    and R: "submission_ready (u_id user) ctx res s" and pass: "rc_decision res = PASSED" and snd: "sendable ctx"
    and fail: "(\<forall>path. limiter (ea_exchange_name (cx_account ctx)) (ea_id (cx_account ctx)) path = Inl (RateLimitExceededError rule n))
        \<and> code = 429
      \<or> (\<forall>path. limiter (ea_exchange_name (cx_account ctx)) (ea_id (cx_account ctx)) path = Inl RateLimitStoreUnavailableError)
        \<and> code = 503
      \<or> (\<forall>path. limiter (ea_exchange_name (cx_account ctx)) (ea_id (cx_account ctx)) path = Inr ())
        \<and> (\<forall>q. net q = NoReply \<or> (\<exists>st body. net q = ReplyStatus st body)) \<and> code = 502"
  shows "\<exists>detail e s'. submit_testnet_order c net limiter adapters payload user s = (Inl (HTTPException code detail), s')
    \<and> find_by_client_order_id (sq_client_order_id payload) (work s') = Some e \<and> oe_status e = FAILED
    \<and> saved s' = work s' \<and> sound s' \<and> (code \<noteq> 502 \<longrightarrow> wire s' = wire s)"
proof -
  obtain e s1 where run: "submit_testnet_order c net limiter adapters payload user s =
       bnd (try_except (send_submission net limiter ctx \<lparr>sm_execution = e, sm_idempotent_replay = False\<rparr>)
              (submit_handlers (Some \<lparr>sm_execution = e, sm_idempotent_replay = False\<rparr>)))
         (\<lambda>execution. lift_result (testnet_submit_response ctx execution False)) s1"
    and s1: "sound s1" "find_execution (oe_id e) (work s1) = Some e" "oe_status e = SUBMITTED" "saved s1 = work s1"
    and e: "oe_client_order_id e = sq_client_order_id payload" and w1: "wire s1 = wire s"
    by (rule submit_apply [OF stop b R pass]) blast
  let ?sm = "\<lparr>sm_execution = e, sm_idempotent_replay = False\<rparr>"
  obtain err s2 where sd: "send_submission net limiter ctx ?sm s1 = (Inl err, s2)"
    and s2: "s2 = s1 \<or> (\<exists>q. code = 502 \<and> s2 = s1\<lparr>wire := wire s1 @ [q]\<rparr>)" and err: "recorded_as err code"
  proof (rule send_submission_apply [OF snd, of net limiter ?sm s1])
    fix q path
    assume "send_submission net limiter ctx ?sm s1 =
      (case limiter (ea_exchange_name (cx_account ctx)) (ea_id (cx_account ctx)) path of
         Inl e \<Rightarrow> (Inl e, s1)
       | Inr _ \<Rightarrow> (let s1 = s1\<lparr>wire := wire s1 @ [q]\<rparr> in case net q of
           Reply v \<Rightarrow> record_testnet_submission_accepted (sm_execution ?sm)
             \<lparr>xr_exchange_name = ea_exchange_name (cx_account ctx), xr_client_order_id = ri_client_order_id (cx_order ctx),
              xr_request_method = ''POST'', xr_request_path = path, xr_exchange_response = v\<rparr> s1
         | ReplyNotJson msg \<Rightarrow> (Inl (ValueError msg), s1)
         | ReplyEmpty \<Rightarrow> record_testnet_submission_accepted (sm_execution ?sm)
             \<lparr>xr_exchange_name = ea_exchange_name (cx_account ctx), xr_client_order_id = ri_client_order_id (cx_order ctx),
              xr_request_method = ''POST'', xr_request_path = path, xr_exchange_response = PDict []\<rparr> s1
         | ReplyStatus code body \<Rightarrow> (Inl (ExchangeHttpRequestError (http_failure_type code) (Some code)
             (read_exchange_error_code body)), s1)
         | NoReply \<Rightarrow> (Inl (ExchangeHttpRequestError ''transport_error'' None None), s1)))"
    moreover have "limiter (ea_exchange_name (cx_account ctx)) (ea_id (cx_account ctx)) path = Inl (RateLimitExceededError rule n) \<and> code = 429
      \<or> limiter (ea_exchange_name (cx_account ctx)) (ea_id (cx_account ctx)) path = Inl RateLimitStoreUnavailableError \<and> code = 503
      \<or> limiter (ea_exchange_name (cx_account ctx)) (ea_id (cx_account ctx)) path = Inr ()
        \<and> (net q = NoReply \<or> (\<exists>st body. net q = ReplyStatus st body)) \<and> code = 502"
      using fail by blast
    ultimately show thesis by (elim disjE) (auto simp: Let_def recorded_as_def intro: that)
  qed
  obtain why detail where h: "submit_handlers (Some ?sm) err = Some (bnd (record_failure_of (Some ?sm) why) (\<lambda>_.
          raise (HTTPException code detail)) :: order_execution op)"
    using recorded_handler [OF err] by blast
  have S2: "sound s2" "find_execution (oe_id e) (work s2) = Some e" "code \<noteq> 502 \<longrightarrow> wire s2 = wire s"
    using s2 s1 w1 by auto
  obtain e' s' where "try_except (send_submission net limiter ctx ?sm) (submit_handlers (Some ?sm)) s1 =
      (Inl (HTTPException code detail), s')"
    "sound s'" "saved s' = work s'" "wire s' = wire s2"
    "find_by_client_order_id (oe_client_order_id e) (work s') = Some e'" "oe_status e' = FAILED"
    by (rule handled_failure [where m = "send_submission net limiter ctx ?sm", OF S2(1,2) s1(3) sd h]) blast
  then show ?thesis
    using S2(3) e by (auto simp: run bnd_def)
qed

text \<open>An answer that is not JSON is reported as 404, although the order was sent: the execution is
  left in status SUBMITTED.\<close>

theorem unreadable_answer_leaves_order_open:
  assumes stop: "\<not> stop_enabled (work s)"
    and b: "build_testnet_order_api_context c (u_id user) payload adapters s = (Inr ctx, s)"
    and R: "submission_ready (u_id user) ctx res s" and pass: "rc_decision res = PASSED" and snd: "sendable ctx"
    and lim: "\<forall>path. limiter (ea_exchange_name (cx_account ctx)) (ea_id (cx_account ctx)) path = Inr ()"
    and net: "\<forall>q. net q = ReplyNotJson msg"
  shows "\<exists>e q s'. submit_testnet_order c net limiter adapters payload user s = (Inl (HTTPException 404 [msg]), s')
    \<and> find_by_client_order_id (sq_client_order_id payload) (work s') = Some e \<and> oe_status e = SUBMITTED
    \<and> saved s' = work s' \<and> wire s' = wire s @ [q]"
proof -
  obtain e s1 where run: "submit_testnet_order c net limiter adapters payload user s =
       bnd (try_except (send_submission net limiter ctx \<lparr>sm_execution = e, sm_idempotent_replay = False\<rparr>)
              (submit_handlers (Some \<lparr>sm_execution = e, sm_idempotent_replay = False\<rparr>)))
         (\<lambda>execution. lift_result (testnet_submit_response ctx execution False)) s1"
    and s1: "sound s1" "find_execution (oe_id e) (work s1) = Some e" "oe_status e = SUBMITTED" "saved s1 = work s1"
    and e: "oe_client_order_id e = sq_client_order_id payload" and w1: "wire s1 = wire s"
    by (rule submit_apply [OF stop b R pass]) blast
  let ?sm = "\<lparr>sm_execution = e, sm_idempotent_replay = False\<rparr>"
  obtain q where sd: "send_submission net limiter ctx ?sm s1 = (Inl (ValueError msg), s1\<lparr>wire := wire s1 @ [q]\<rparr>)"
    by (rule send_submission_apply [OF snd, of net limiter ?sm s1]) (use lim net in \<open>auto simp: Let_def\<close>)
  have "submit_testnet_order c net limiter adapters payload user s =
      (Inl (HTTPException 404 [msg]), s1\<lparr>wire := wire s1 @ [q]\<rparr>)"
    by (simp add: run bnd_def try_except_def sd submit_handlers_def)
  moreover have "find_by_client_order_id (sq_client_order_id payload) (work s1) = Some e"
    using stored_by_client_id [OF s1(1,2)] e by simp
  ultimately show ?thesis using s1 w1 by auto
qed

text \<open>C8: Submitting again under a client order id that is already on record for the caller's account
  returns that execution, marked as a replay, and changes and sends nothing; an id that belongs
  to somebody else's order, or to another account, is answered with 409.\<close>

theorem resubmission_is_a_replay:
  assumes stop: "\<not> stop_enabled (work s)"
    and b: "build_testnet_order_api_context c (u_id user) payload adapters s = (Inr ctx, s)"
    and f: "find_by_client_order_id (sq_client_order_id payload) (work s) = Some e"
  shows "if oe_user_id e = u_id user \<and> oe_exchange_account_id e = ea_id (cx_account ctx)
          \<and> oe_exchange_name e = exchange_value (ea_exchange_name (cx_account ctx))
    then \<exists>resp. submit_testnet_order c net limiter adapters payload user s = (Inr resp, s)
      \<and> sr_idempotent_replay resp \<and> sr_execution_id resp = oe_execution_id e \<and> sr_order_status resp = oe_status e
    else submit_testnet_order c net limiter adapters payload user s =
      (Inl (HTTPException 409 [''client order id is already in use'']), s)"
proof -
  note facts = context_facts [OF b]
  then obtain path where path: "testnet_order_request_path (ea_exchange_name (cx_account ctx)) = Inr path"
    by (cases "ea_exchange_name (cx_account ctx)") (simp_all add: testnet_order_request_path_def)
  note steps = bnd_Inr [where m = "build_testnet_order_api_context c (u_id user) payload adapters", OF b]
  let ?same = "oe_user_id e = u_id user \<and> oe_exchange_account_id e = ea_id (cx_account ctx)
    \<and> oe_exchange_name e = exchange_value (ea_exchange_name (cx_account ctx))"
  have op: "open_submission c adapters payload user s =
      (if ?same then Inr (ctx, \<lparr>sm_execution = e, sm_idempotent_replay = True\<rparr>)
       else Inl (TestnetOrderIdempotencyConflictError ''client order id is already in use''), s)"
    using stop f facts
    by (simp add: open_submission_def bnd_assert_new_orders_allowed steps create_or_get_testnet_submission_execution_def
        bnd_assoc)
  show ?thesis
  proof (cases ?same)
    case True
    with op path show ?thesis
      by (simp add: submit_testnet_order_def bnd_def try_except_def testnet_submit_response_def)
  next
    case False
    with op show ?thesis
      by (simp only: if_False) (simp add: submit_testnet_order_def bnd_def try_except_def submit_handlers_def)
  qed
qed

text \<open>The parts of a value: the value itself, and the parts of what a dictionary or a list holds.\<close>

inductive part_of :: "pyval \<Rightarrow> pyval \<Rightarrow> bool" where
  part_self: "part_of v v"
| part_entry: "part_of x v \<Longrightarrow> (k, v) \<in> set d \<Longrightarrow> part_of x (PDict d)"
| part_item: "part_of x v \<Longrightarrow> v \<in> set xs \<Longrightarrow> part_of x (PList xs)"

inductive_cases part_of_DictE: "part_of x (PDict d)"
inductive_cases part_of_ListE: "part_of x (PList xs)"
inductive_simps part_of_scalar [simp]:
  "part_of x PNone" "part_of x (PStr s)" "part_of x (PInt i)" "part_of x (PFloat r)" "part_of x (PBool b)"
  "part_of x (PDec q)"

text \<open>The names under which exchanges return credentials, in any case and with either dash.\<close>

definition credential_name :: "string \<Rightarrow> bool" where
  "credential_name k \<longleftrightarrow>
     map (\<lambda>c. if c = CHR ''-'' then CHR ''_'' else lower_char c) k \<in>
       {''api_key'', ''apikey'', ''api_secret'', ''apisecret'', ''passphrase'', ''authorization'',
        ''signature'', ''sign''}"

lemma sensitive_key_iff: "sensitive_key k \<longleftrightarrow> credential_name k"
proof -
  have "lower_char (CHR ''_'') = CHR ''_''"
    by (simp add: lower_char_def upper_letters_def lower_letters_def)
  then have "lower (replace ''-'' ''_'' k) = map (\<lambda>c. if c = CHR ''-'' then CHR ''_'' else lower_char c) k"
    unfolding replace_char lower_def by simp
  then show ?thesis by (simp add: sensitive_key_def SENSITIVE_RESPONSE_KEYS_def credential_name_def)
qed

text \<open>C27: In what is stored of an exchange's answer no dictionary, at any depth, has an entry under one
  of the eight credential names, in whatever case and with whichever dash; every other entry is
  kept in its place with its value sanitized; the result can be written as JSON, and sanitizing it
  again changes nothing.\<close>

theorem stored_answers_hold_no_secrets:
  "(\<forall>d k x. part_of (PDict d) (safe_value v) \<longrightarrow> (k, x) \<in> set d \<longrightarrow> \<not> credential_name k)
   \<and> (\<forall>d. safe_value (PDict d) =
         PDict (map (\<lambda>(k, x). (k, safe_value x)) (filter (\<lambda>(k, x). \<not> credential_name k) d)))
   \<and> json_ok (safe_value v) \<and> safe_value (safe_value v) = safe_value v"
proof -
  have names: "\<not> credential_name k"
    if "part_of (PDict d) (safe_value v)" and "(k, x) \<in> set d" for d k x
    using that
  proof (induction v rule: safe_value.induct)
    case (1 e)
    let ?kept = "map (\<lambda>kv. (fst kv, safe_value (snd kv))) (filter (\<lambda>kv. \<not> sensitive_key (fst kv)) e)"
    have "d = ?kept \<or> (\<exists>y j. part_of (PDict d) y \<and> (j, y) \<in> set ?kept)"
      using "1.prems"(1) unfolding safe_value.simps by (auto elim: part_of_DictE)
    then show ?case
    proof (elim disjE exE conjE)
      assume "d = ?kept"
      with "1.prems"(2) show ?thesis by (auto simp: sensitive_key_iff)
    next
      fix y j
      assume p: "part_of (PDict d) y" and "(j, y) \<in> set ?kept"
      then obtain w where "(j, w) \<in> set (filter (\<lambda>kv. \<not> sensitive_key (fst kv)) e)" "y = safe_value w" by auto
      with "1.IH" [of "(j, w)"] p "1.prems"(2) show ?thesis by simp
    qed
  next
    case (2 xs)
    from "2.prems"(1) show ?case
      unfolding safe_value.simps by (rule part_of_ListE) (use "2.IH" "2.prems"(2) in auto)
  qed simp_all
  moreover have "json_ok (safe_value v) \<and> safe_value (safe_value v) = safe_value v"
  proof (induction v rule: safe_value.induct)
    case (1 d)
    then show ?case by (auto simp: list_all_iff filter_map comp_def)
  next
    case (2 xs)
    then show ?case by (auto simp: list_all_iff)
  qed simp_all
  moreover have "safe_value (PDict d) =
      PDict (map (\<lambda>(k, x). (k, safe_value x)) (filter (\<lambda>(k, x). \<not> credential_name k) d))" for d
    by (simp add: sensitive_key_iff case_prod_unfold)
  ultimately show ?thesis by blast
qed

theorem stored_answers_hold_no_secrets_witness:
  "safe_value (PDict [(''API-Key'', PStr ''x''), (''id'', PInt 1)]) = PDict [(''id'', PInt 1)]
   \<and> credential_name ''API-Key'' \<and> \<not> credential_name ''id''"
proof -
  let ?v = "PDict [(''API-Key'', PStr ''x''), (''id'', PInt 1)]"
  have names: "credential_name ''API-Key''" "\<not> credential_name ''id''"
    by (simp_all add: credential_name_def lower_char_def upper_letters_def lower_letters_def)
  note clean = stored_answers_hold_no_secrets [of ?v]
  have eq: "safe_value ?v = PDict [(''id'', PInt 1)]"
    using clean [THEN conjunct2, THEN conjunct1, THEN spec, of "[(''API-Key'', PStr ''x''), (''id'', PInt 1)]"] names by simp
  have "\<not> credential_name ''id''"
    using clean [THEN conjunct1, rule_format, of "[(''id'', PInt 1)]" "''id''" "PInt 1"] eq part_self by simp
  with eq names(1) show ?thesis by blast
qed

text \<open>The text in which a quantity or a price is sent denotes exactly its value (up to the 28 digits
  of the columns).\<close>

theorem decimal_text_exact:
  assumes "dcoef v < 10 ^ 28"
  shows "\<exists>d. dec_parse (decimal_text v) = Some (Finite d) \<and> dval d = dval v"
  using dec_parse_format_f [of "dnormalize v"] dval_dnormalize [OF assms] by (auto simp: decimal_text_def)

theorem decimal_text_exact_witness:
  "\<exists>d. dec_parse (decimal_text (Dec False 12500 (-4))) = Some (Finite d) \<and> dval d = 5 / 4"
  using decimal_text_exact [of "Dec False 12500 (-4)"] by (simp add: dval_Dec_False power_int_def power_divide)

section \<open>A submission on the sample data\<close>

definition plain_cipher :: cipher where
  "plain_cipher = \<lparr>encrypt_secret = (\<lambda>nonce x. x), decrypt_secret = Inr\<rparr>"

definition open_limiter :: order_limiter where
  "open_limiter x a path = Inr ()"

definition sample_submit :: submit_request where
  "sample_submit = \<lparr>sq_exchange_account_id = ''acct-2'', sq_symbol = ''BTCUSDT'', sq_side = BUY, sq_order_type = LIMIT,
     sq_quantity = Dec False 1 0, sq_price = Some (Dec False 50 0), sq_client_order_id = ''cid-1'',
     sq_manual_testnet_order_enable_confirmed = True\<rparr>"

definition sample_context :: api_context where
  "sample_context = \<lparr>cx_account = testnet_account, cx_order = order_of_request testnet_account sample_submit,
     cx_gate_result = \<lparr>gr_approved = True, gr_reasons = []\<rparr>,
     cx_credentials = \<lparr>ec_api_key = ''k'', ec_api_secret = ''s'', ec_passphrase = None\<rparr>,
     cx_authorization = \<lparr>wz_audit_log_id = ''log-1'', wz_expires_at = \<lparr>dt_wall = 5 * minute, dt_offset = Some 0\<rparr>\<rparr>\<rparr>"

lemma approved_session_rows:
  "find_owned_account ''alice'' ''acct-2'' (work approved_session) = Some testnet_account"
  "find_risk_settings ''alice'' ''acct-2'' (work approved_session) = Some testnet_risk"
  "find_secret_metadata ''alice'' ''acct-2'' (work approved_session) = Some sample_secret"
  by (simp_all add: approved_session_def find_owned_account_def find_risk_settings_def find_secret_metadata_def
      t_find_def sample_db_def sample_account_def testnet_account_def testnet_risk_def sample_risk_def sample_secret_def)

text \<open>The context of the sample request, whatever orders are on record.\<close>

lemma sample_context_built:
  assumes s: "s = approved_session\<lparr>work := (work approved_session)\<lparr>executions := x\<rparr>\<rparr>"
  shows "build_testnet_order_api_context plain_cipher (u_id sample_user) sample_submit True s = (Inr sample_context, s)"
proof -
  have rows: "find_owned_account ''alice'' ''acct-2'' (work s) = Some testnet_account"
    "find_risk_settings ''alice'' ''acct-2'' (work s) = Some testnet_risk"
    "find_secret_metadata ''alice'' ''acct-2'' (work s) = Some sample_secret"
    using approved_session_rows
    by (simp_all add: s find_owned_account_def find_risk_settings_def find_secret_metadata_def)
  have ids: "u_id sample_user = ''alice''" "sq_exchange_account_id sample_submit = ''acct-2''"
    "ea_id testnet_account = ''acct-2''" by (simp_all add: sample_user_def sample_submit_def testnet_account_def)
  have req: "require_valid_testnet_order_window_authorization ''alice'' ''acct-2'' (sq_symbol sample_submit)
      (sq_side sample_submit) (sq_quantity sample_submit) (sq_price sample_submit) None s =
     (Inr (cx_authorization sample_context), s)"
    using approved_window [of s] by (simp add: sample_submit_def sample_context_def s approved_session_def)
  have gate: "check_testnet_order_gate (gate_for testnet_account True (rs_trading_enabled testnet_risk) True
      (sq_manual_testnet_order_enable_confirmed sample_submit)) = \<lparr>gr_approved = True, gr_reasons = []\<rparr>"
    by (simp add: check_testnet_order_gate_def gate_of_def gate_conds_def gate_for_def testnet_account_def
        testnet_risk_def sample_risk_def sample_submit_def Let_def)
  have cred: "get_exchange_credentials plain_cipher ''alice'' ''acct-2'' s = (Inr (Some (cx_credentials sample_context)), s)"
    by (simp add: get_exchange_credentials_def get_api_key_secret_metadata_def rows sample_secret_def
        plain_cipher_def sample_context_def)
  have "authorized_context plain_cipher ''alice'' sample_submit testnet_account \<lparr>gr_approved = True, gr_reasons = []\<rparr> s =
      (Inr sample_context, s)"
    using req cred by (simp add: authorized_context_def ids bnd_def try_except_def sample_context_def)
  moreover have g: "get_or_create_risk_settings ''alice'' ''acct-2'' s = (Inr testnet_risk, s)"
    by (simp add: get_or_create_risk_settings_def rows)
  ultimately show ?thesis
    using rows gate
    by (simp add: build_testnet_order_api_context_def account_or_value_error_apply ids
        bnd_Inr [where m = "get_or_create_risk_settings ''alice'' ''acct-2''", OF g] get_api_key_secret_metadata_def Let_def)
qed

lemma approved_context_built:
  "build_testnet_order_api_context plain_cipher (u_id sample_user) sample_submit True approved_session =
     (Inr sample_context, approved_session)"
  by (rule sample_context_built [of _ "executions (work approved_session)"]) simp

lemma approved_session_sound: "sound approved_session" "settled (work approved_session)"
proof -
  show "settled (work approved_session)"
    using settledD [OF sample_settled]
    by (simp add: approved_session_def settled_def db_flush_update) (simp add: t_flush_def)
  have "trails_inv sample_uuid 0 (work approved_session)"
    using sample_trails by (simp add: both_def approved_session_def trails_inv_frame [of "sample_db\<lparr>audits := _\<rparr>" sample_db])
  then show "sound approved_session"
    using sample_trails settledD(2) [OF sample_settled] by (simp add: sound_def both_def approved_session_def)
qed

lemma sample_ready_context:
  "\<exists>res. submission_ready ''alice'' sample_context res approved_session \<and> rc_decision res = PASSED"
proof -
  have "\<exists>r. check_order_risk testnet_account testnet_risk (submission_risk_order sample_context) True = Inr r \<and> rc_decision r = PASSED"
    unfolding check_order_risk_passed
    by (simp add: testnet_account_def testnet_risk_def sample_risk_def in_range_def submission_risk_order_def
        sample_context_def order_of_request_def sample_submit_def dval_Dec_False)
  moreover have "executions (work approved_session) = t_empty" by (simp add: approved_session_def)
  ultimately show ?thesis
    using approved_session_sound approved_session_rows(2)
    by (auto simp: submission_ready_def find_by_client_order_id_def t_find_def sample_context_def testnet_account_def)
qed

lemma sample_sendable: "sendable sample_context"
  by (simp add: sendable_def sample_context_def order_of_request_def testnet_account_def sample_submit_def)

lemma approved_not_stopped: "\<not> stop_enabled (work approved_session)"
  by (simp add: stop_enabled_def approved_session_def get_control_def t_find_def)

definition sample_reply :: pydict where
  "sample_reply = [(''orderId'', PInt 7), (''status'', PStr ''NEW''), (''signature'', PStr ''x'')]"

lemma sample_reply_ok:
  "raise_for_exchange_rejection (exchange_value (ea_exchange_name (cx_account sample_context)))
     (safe_value (PDict sample_reply)) = Inr ()"
  by (simp add: raise_for_exchange_rejection_def sample_context_def testnet_account_def sample_reply_def)

lemma alice: "u_id sample_user = ''alice''"
  by (simp add: sample_user_def)

theorem answered_submission_is_accepted_witness:
  "\<exists>resp s'. submit_testnet_order plain_cipher (\<lambda>q. Reply (PDict sample_reply)) open_limiter True sample_submit sample_user
      approved_session = (Inr resp, s') \<and> sr_order_status resp = ACCEPTED \<and> length (wire s') = 1"
proof -
  obtain res where R: "submission_ready (u_id sample_user) sample_context res approved_session" "rc_decision res = PASSED"
    using sample_ready_context by (auto simp: alice)
  have "wire approved_session = []" by (simp add: approved_session_def sample_session_def)
  then show ?thesis
    using answered_submission_is_accepted [OF approved_not_stopped approved_context_built R sample_sendable _ _ sample_reply_ok,
        of open_limiter "\<lambda>q. Reply (PDict sample_reply)"]
    by (auto simp: open_limiter_def)
qed

lemma sample_sent:
  "\<exists>r s'. submit_testnet_order plain_cipher (\<lambda>q. Reply (PDict sample_reply)) open_limiter True sample_submit sample_user
      approved_session = (r, s') \<and> wire s' \<noteq> wire approved_session"
proof -
  obtain res where R: "submission_ready (u_id sample_user) sample_context res approved_session" "rc_decision res = PASSED"
    using sample_ready_context by (auto simp: alice)
  show ?thesis
    using accepted_outcome [OF approved_not_stopped approved_context_built R sample_sendable _ _ sample_reply_ok,
        of open_limiter "\<lambda>q. Reply (PDict sample_reply)"]
    by (force simp: open_limiter_def)
qed

theorem orders_are_sent_only_when_admitted_witness:
  "\<not> stop_enabled (work approved_session)
     \<and> find_by_client_order_id ''cid-1'' (work approved_session) = None
     \<and> (\<exists>l. find_window_approval ''alice'' ''acct-2'' (work approved_session) = Some l
          \<and> authorizes l ''BTCUSDT'' BUY (Dec False 1 0) (Some (Dec False 50 0)) (now_utc approved_session))"
proof -
  obtain r s' where "submit_testnet_order plain_cipher (\<lambda>q. Reply (PDict sample_reply)) open_limiter True sample_submit
      sample_user approved_session = (r, s')" "wire s' \<noteq> wire approved_session"
    using sample_sent by blast
  from orders_are_sent_only_when_admitted [OF this] show ?thesis
    using approved_session_rows(1) by (auto simp: sample_submit_def alice testnet_account_def)
qed

theorem failed_submission_is_recorded_witness:
  "\<exists>detail e s'. submit_testnet_order plain_cipher (\<lambda>q. NoReply) open_limiter True sample_submit sample_user
      approved_session = (Inl (HTTPException 502 detail), s')
     \<and> find_by_client_order_id ''cid-1'' (work s') = Some e \<and> oe_status e = FAILED"
proof -
  obtain res where R: "submission_ready (u_id sample_user) sample_context res approved_session" "rc_decision res = PASSED"
    using sample_ready_context by (auto simp: alice)
  have "sq_client_order_id sample_submit = ''cid-1''" by (simp add: sample_submit_def)
  then show ?thesis
    using failed_submission_is_recorded [OF approved_not_stopped approved_context_built R sample_sendable,
        of open_limiter _ _ 502 "\<lambda>q. NoReply"]
    by (auto simp: open_limiter_def)
qed

theorem unreadable_answer_leaves_order_open_witness:
  "\<exists>e s'. submit_testnet_order plain_cipher (\<lambda>q. ReplyNotJson ''Expecting value'') open_limiter True sample_submit sample_user
      approved_session = (Inl (HTTPException 404 [''Expecting value'']), s')
     \<and> find_by_client_order_id ''cid-1'' (work s') = Some e \<and> oe_status e = SUBMITTED"
proof -
  obtain res where R: "submission_ready (u_id sample_user) sample_context res approved_session" "rc_decision res = PASSED"
    using sample_ready_context by (auto simp: alice)
  have "sq_client_order_id sample_submit = ''cid-1''" by (simp add: sample_submit_def)
  then show ?thesis
    using unreadable_answer_leaves_order_open [OF approved_not_stopped approved_context_built R sample_sendable,
        of open_limiter "\<lambda>q. ReplyNotJson ''Expecting value''" "''Expecting value''"]
    by (auto simp: open_limiter_def)
qed

definition replayed_execution :: order_execution where
  "replayed_execution = (submission_execution ''alice'' sample_context ''sig-9'')\<lparr>oe_id := ''x-1'', oe_execution_id := ''x-2'',
     oe_status := ACCEPTED\<rparr>"

theorem resubmission_is_a_replay_witness:
  "\<exists>resp. submit_testnet_order plain_cipher (\<lambda>q. NoReply) open_limiter True sample_submit sample_user
      (approved_session\<lparr>work := (work approved_session)\<lparr>executions := \<lparr>rows = [replayed_execution], pend = []\<rparr>\<rparr>\<rparr>) =
      (Inr resp, approved_session\<lparr>work := (work approved_session)\<lparr>executions := \<lparr>rows = [replayed_execution], pend = []\<rparr>\<rparr>\<rparr>)
    \<and> sr_idempotent_replay resp \<and> sr_execution_id resp = ''x-2''"
proof -
  let ?s = "approved_session\<lparr>work := (work approved_session)\<lparr>executions := \<lparr>rows = [replayed_execution], pend = []\<rparr>\<rparr>\<rparr>"
  have n: "\<not> stop_enabled (work ?s)"
    using approved_not_stopped by (simp add: stop_enabled_def get_control_def)
  have f: "find_by_client_order_id (sq_client_order_id sample_submit) (work ?s) = Some replayed_execution"
    by (simp add: find_by_client_order_id_def t_find_def replayed_execution_def submission_execution_def sample_context_def
        order_of_request_def)
  have same: "oe_user_id replayed_execution = u_id sample_user
      \<and> oe_exchange_account_id replayed_execution = ea_id (cx_account sample_context)
      \<and> oe_exchange_name replayed_execution = exchange_value (ea_exchange_name (cx_account sample_context))"
    and i: "oe_execution_id replayed_execution = ''x-2''"
    by (simp_all add: replayed_execution_def submission_execution_def alice)
  from resubmission_is_a_replay [OF n sample_context_built [OF refl] f, of "\<lambda>q. NoReply" open_limiter]
  show ?thesis unfolding if_P [OF same] i by blast
qed

end
