(* ===== verification/Testnet_Lifecycle.thy ===== *)
theory Testnet_Lifecycle
  imports Http_Client
begin

text \<open>
  What the exchange reports about testnet orders: order events of the user stream and REST lookups
  are normalized and applied to the executions (\<open>services/testnet_order_lifecycle.py\<close>), pending
  orders are reconciled on request (\<open>services/testnet_order_reconciliation.py\<close>, the first route of
  \<open>api/v1/admin_testnet_reconciliation.py\<close>).
\<close>

section \<open>Events\<close>

datatype stream_event_type = ORDER_EVENT | BALANCE_EVENT | POSITION_EVENT | UNKNOWN_EVENT

record stream_event =
  ev_exchange_name :: exchange_name
  ev_event_type :: stream_event_type
  ev_raw_payload :: pydict

record order_event =
  ne_exchange_name :: exchange_name
  ne_client_order_id :: "string option"
  ne_exchange_order_id :: "string option"
  ne_status :: order_status
  ne_event_id :: "string option"
  ne_filled_quantity :: "decimal option"

record lifecycle_result =
  lr_matched :: bool
  lr_transitioned :: bool
  lr_duplicate :: bool
  lr_ignored :: bool
  lr_execution_id :: "string option"
  lr_status :: "order_status option"
  lr_reason :: string

definition event_status :: "pyval \<Rightarrow> (string \<times> order_status) list \<Rightarrow> order_status result" where
  "event_status raw_status mapping = (case map_of mapping (py_str raw_status) of
      None \<Rightarrow> Inl (TestnetOrderEventValidationError ''unsupported testnet order status'')
    | Some st \<Rightarrow> Inr st)"

definition first_mapping :: "pyval \<Rightarrow> pydict result" where
  "first_mapping v = (case v of
      PList (PDict d # _) \<Rightarrow> Inr d
    | _ \<Rightarrow> Inl (TestnetOrderEventValidationError ''testnet order event data is missing''))"

definition optional_decimal :: "pyval \<Rightarrow> decimal option result" where
  "optional_decimal v = (if v = PNone \<or> v = PStr [] then Inr None
     else case dec_parse (py_str v) of
       None \<Rightarrow> Inl (TestnetOrderEventValidationError ''invalid filled quantity'')
     | Some q \<Rightarrow> Inr (Some q))"

definition BINANCE_STATUSES :: "(string \<times> order_status) list" where
  "BINANCE_STATUSES = [(''NEW'', ACCEPTED), (''PENDING_NEW'', SUBMITTED), (''PARTIALLY_FILLED'', PARTIALLY_FILLED),
     (''FILLED'', FILLED), (''CANCELED'', CANCELLED), (''REJECTED'', REJECTED), (''EXPIRED'', TIMEOUT),
     (''EXPIRED_IN_MATCH'', TIMEOUT)]"

definition BYBIT_STATUSES :: "(string \<times> order_status) list" where
  "BYBIT_STATUSES = [(''New'', ACCEPTED), (''PartiallyFilled'', PARTIALLY_FILLED), (''Filled'', FILLED),
     (''Cancelled'', CANCELLED), (''Rejected'', REJECTED), (''Deactivated'', CANCELLED)]"

definition OKX_STATUSES :: "(string \<times> order_status) list" where
  "OKX_STATUSES = [(''live'', ACCEPTED), (''partially_filled'', PARTIALLY_FILLED), (''filled'', FILLED),
     (''canceled'', CANCELLED), (''mmp_canceled'', CANCELLED)]"

definition make_event ::
    "exchange_name \<Rightarrow> pyval \<Rightarrow> pyval \<Rightarrow> order_status result \<Rightarrow> pyval \<Rightarrow> pyval \<Rightarrow> order_event result" where
  "make_event x client exchange st event_id filled =
     bndr st (\<lambda>st. bndr (optional_decimal filled) (\<lambda>q. Inr
       \<lparr>ne_exchange_name = x, ne_client_order_id = optional_text client, ne_exchange_order_id = optional_text exchange,
        ne_status = st, ne_event_id = optional_text event_id, ne_filled_quantity = q\<rparr>))"

definition normalize_binance :: "pydict \<Rightarrow> order_event result" where
  "normalize_binance payload =
     (if dict_get payload ''e'' \<noteq> PStr ''executionReport''
      then Inl (TestnetOrderEventValidationError ''invalid Binance order event'')
      else make_event BINANCE (dict_get payload ''c'') (dict_get payload ''i'')
        (event_status (dict_get payload ''X'') BINANCE_STATUSES) (dict_get payload ''E'') (dict_get payload ''z''))"

definition normalize_bybit :: "pydict \<Rightarrow> order_event result" where
  "normalize_bybit payload =
     bndr (first_mapping (dict_get payload ''data'')) (\<lambda>row.
       make_event BYBIT (dict_get row ''orderLinkId'') (dict_get row ''orderId'')
         (event_status (dict_get row ''orderStatus'') BYBIT_STATUSES)
         (py_or (dict_get payload ''id'') (dict_get payload ''creationTime'')) (dict_get row ''cumExecQty''))"

definition normalize_okx :: "pydict \<Rightarrow> order_event result" where
  "normalize_okx payload =
     bndr (first_mapping (dict_get payload ''data'')) (\<lambda>row.
       make_event OKX (dict_get row ''clOrdId'') (dict_get row ''ordId'')
         (event_status (dict_get row ''state'') OKX_STATUSES)
         (py_or (dict_get row ''uTime'') (dict_get row ''cTime'')) (dict_get row ''accFillSz''))"

definition normalize_testnet_user_stream_order_event :: "exchange_name \<Rightarrow> pydict \<Rightarrow> order_event result" where
  "normalize_testnet_user_stream_order_event x payload = (case x of
      BINANCE \<Rightarrow> normalize_binance payload | BYBIT \<Rightarrow> normalize_bybit payload | OKX \<Rightarrow> normalize_okx payload
    | MOCK \<Rightarrow> Inl (TestnetOrderEventValidationError ''unsupported testnet order event exchange''))"

text \<open>A REST answer need not be an object; \<open>payload.get\<close> then raises \<open>AttributeError\<close>.\<close>

definition normalize_binance_rest :: "pyval \<Rightarrow> order_event result" where
  "normalize_binance_rest payload =
     bndr (val_get payload ''clientOrderId'') (\<lambda>client. bndr (val_get payload ''orderId'') (\<lambda>exchange.
     bndr (val_get payload ''status'') (\<lambda>st. bndr (val_get payload ''updateTime'') (\<lambda>event_id.
     bndr (val_get payload ''executedQty'') (\<lambda>filled.
       make_event BINANCE client exchange (event_status st BINANCE_STATUSES) event_id filled)))))"

definition normalize_bybit_rest :: "pyval \<Rightarrow> order_event result" where
  "normalize_bybit_rest payload =
     bndr (val_get payload ''retCode'') (\<lambda>code.
       if \<not> ok_code code then Inl (TestnetOrderEventValidationError ''Bybit REST order lookup was rejected'')
       else bndr (val_get payload ''result'') (\<lambda>r.
         normalize_bybit [(''data'', dict_get (mapping_or_empty r) ''list'')]))"

definition normalize_okx_rest :: "pyval \<Rightarrow> order_event result" where
  "normalize_okx_rest payload =
     bndr (val_get payload ''code'') (\<lambda>code.
       if \<not> ok_code code then Inl (TestnetOrderEventValidationError ''OKX REST order lookup was rejected'')
       else bndr (val_get payload ''data'') (\<lambda>d. normalize_okx [(''data'', d)]))"

definition normalize_testnet_rest_order_status :: "exchange_name \<Rightarrow> pyval \<Rightarrow> order_event result" where
  "normalize_testnet_rest_order_status x payload = (case x of
      BINANCE \<Rightarrow> normalize_binance_rest payload | BYBIT \<Rightarrow> normalize_bybit_rest payload
    | OKX \<Rightarrow> normalize_okx_rest payload
    | MOCK \<Rightarrow> Inl (TestnetOrderEventValidationError ''unsupported testnet REST order exchange''))"

section \<open>Applying an event\<close>

fun decimal_str :: "decimal \<Rightarrow> string" where
  "decimal_str (Finite d) = dec_str d"
| "decimal_str (Infinity neg) = (if neg then ''-Infinity'' else ''Infinity'')"
| "decimal_str NaN = ''NaN''"

definition safe_transition_details :: "order_event \<Rightarrow> pydict" where
  "safe_transition_details event =
     [(''exchange'', PStr (exchange_value (ne_exchange_name event)))]
     @ (case ne_event_id event of Some i \<Rightarrow> if i \<noteq> [] then [(''event_id'', PStr i)] else [] | None \<Rightarrow> [])
     @ (case ne_filled_quantity event of Some q \<Rightarrow> [(''filled_quantity'', PStr (decimal_str q))] | None \<Rightarrow> [])"

definition ignored_result :: "string \<Rightarrow> lifecycle_result" where
  "ignored_result reason = \<lparr>lr_matched = False, lr_transitioned = False, lr_duplicate = False, lr_ignored = True,
     lr_execution_id = None, lr_status = None, lr_reason = reason\<rparr>"

definition execution_result_of :: "order_execution \<Rightarrow> bool \<Rightarrow> bool \<Rightarrow> bool \<Rightarrow> string \<Rightarrow> lifecycle_result" where
  "execution_result_of e transitioned duplicate ignored reason =
     \<lparr>lr_matched = True, lr_transitioned = transitioned, lr_duplicate = duplicate, lr_ignored = ignored,
      lr_execution_id = Some (oe_execution_id e), lr_status = Some (oe_status e), lr_reason = reason\<rparr>"

definition given_text :: "string option \<Rightarrow> string option" where
  "given_text t = (case t of None \<Rightarrow> None | Some s \<Rightarrow> if s = [] then None else Some s)"

definition event_matches :: "string \<Rightarrow> string \<Rightarrow> order_event \<Rightarrow> order_execution \<Rightarrow> bool" where
  "event_matches user_id account_id event e \<longleftrightarrow>
     oe_user_id e = user_id \<and> oe_exchange_account_id e = account_id
     \<and> oe_exchange_name e = exchange_value (ne_exchange_name event)
     \<and> (given_text (ne_client_order_id event) = Some (oe_client_order_id e)
        \<or> (given_text (ne_exchange_order_id event) \<noteq> None
           \<and> oe_exchange_order_id e = given_text (ne_exchange_order_id event)))"

definition find_event_execution :: "string \<Rightarrow> string \<Rightarrow> order_event \<Rightarrow> order_execution option op" where
  "find_event_execution user_id account_id event =
     (if given_text (ne_client_order_id event) = None \<and> given_text (ne_exchange_order_id event) = None
      then raise (TestnetOrderEventValidationError ''order event has no usable identifier'')
      else query (\<lambda>d. t_find (event_matches user_id account_id event) (executions d)))"

definition transition_or_stale :: "string \<Rightarrow> order_event \<Rightarrow> string \<Rightarrow> bool op" where
  "transition_or_stale eid event reason =
     try_except (bnd (transition_order_execution eid (ne_status event) reason (Some (safe_transition_details event)))
                   (\<lambda>_. ret True))
       (\<lambda>e. case e of InvalidOrderStateTransitionError _ \<Rightarrow> Some (ret False) | _ \<Rightarrow> None)"

definition learn_exchange_id :: "string \<Rightarrow> order_event \<Rightarrow> unit op" where
  "learn_exchange_id eid event =
     (case given_text (ne_exchange_order_id event) of
        None \<Rightarrow> ret ()
      | Some i \<Rightarrow> modify_execution eid (\<lambda>e. if given_text (oe_exchange_order_id e) = None
          then e\<lparr>oe_exchange_order_id := Some i\<rparr> else e))"

definition apply_event :: "string \<Rightarrow> string \<Rightarrow> order_event \<Rightarrow> string \<Rightarrow> lifecycle_result op" where
  "apply_event user_id account_id event transition_reason =
     bnd (find_event_execution user_id account_id event) (\<lambda>found. case found of
       None \<Rightarrow> ret (ignored_result ''owned_order_execution_not_found'')
     | Some e \<Rightarrow>
         if oe_status e = ne_status event
         then ret (execution_result_of e False True True ''duplicate_order_event'')
         else bnd (transition_or_stale (oe_id e) event transition_reason) (\<lambda>done'.
           if \<not> done' then ret (execution_result_of e False False True ''stale_or_invalid_order_event'')
           else bnd (learn_exchange_id (oe_id e) event) (\<lambda>_.
                bnd commit (\<lambda>_.
                bnd (get_execution (oe_id e)) (\<lambda>e'.
                  ret (execution_result_of e' True False False ''order_status_transitioned''))))))"

definition handle_user_stream_event :: "string \<Rightarrow> string \<Rightarrow> stream_event \<Rightarrow> lifecycle_result op" where
  "handle_user_stream_event user_id account_id event =
     (if ev_event_type event \<noteq> ORDER_EVENT then ret (ignored_result ''non_order_event'')
      else bnd (lift_result (normalize_testnet_user_stream_order_event (ev_exchange_name event) (ev_raw_payload event)))
             (\<lambda>normalized. apply_event user_id account_id normalized ''testnet_user_stream_event''))"

section \<open>Reconciliation\<close>

definition PENDING_STATUSES :: "order_status list" where
  "PENDING_STATUSES = [SUBMITTED, ACCEPTED, PARTIALLY_FILLED]"

record reconciliation_item =
  rt_execution_id :: string
  rt_status :: string
  rt_lifecycle_result :: "lifecycle_result option"
  rt_failure_type :: "string option"

record reconciliation_result =
  rz_exchange_account_id :: string
  rz_attempted :: nat
  rz_transitioned :: nat
  rz_failed :: nat
  rz_items :: "reconciliation_item list"

definition order_lookup_path :: "exchange_name \<Rightarrow> string result" where
  "order_lookup_path x = (case x of
      BINANCE \<Rightarrow> Inr ''/api/v3/order'' | BYBIT \<Rightarrow> Inr ''/v5/order/realtime'' | OKX \<Rightarrow> Inr ''/api/v5/trade/order''
    | MOCK \<Rightarrow> Inl (KeyError (exchange_value MOCK)))"

definition lookup_okx_symbol :: "string \<Rightarrow> string" where
  "lookup_okx_symbol symbol = (let normalized = upper symbol
     in if contains normalized ''-'' then normalized
        else if endswith normalized ''USDT'' then take (length normalized - 4) normalized @ ''-USDT''
        else normalized)"

definition order_lookup_params :: "order_execution \<Rightarrow> exchange_name \<Rightarrow> (string \<times> string) list" where
  "order_lookup_params e x =
     (if x = BINANCE then [(''symbol'', oe_symbol e), (''origClientOrderId'', oe_client_order_id e)]
      else if x = BYBIT then [(''category'', ''spot''), (''orderLinkId'', oe_client_order_id e)]
      else [(''instId'', lookup_okx_symbol (oe_symbol e)), (''clOrdId'', oe_client_order_id e)])"

definition lookup_security_type :: "exchange_name \<Rightarrow> security_type" where
  "lookup_security_type x = (if x = OKX then OKX_DEMO_SIGNED else SIGNED)"

definition lookup_failure :: "py_exc \<Rightarrow> string option" where
  "lookup_failure e = (case e of
      ExchangeHttpRequestError failure_type _ _ \<Rightarrow> Some failure_type
    | ValueError _ \<Rightarrow> Some ''response_invalid''
    | TestnetOrderEventValidationError _ \<Rightarrow> Some ''response_invalid''
    | _ \<Rightarrow> None)"

definition lookup_and_apply ::
    "network \<Rightarrow> string \<Rightarrow> string \<Rightarrow> exchange_name \<Rightarrow> exchange_credentials \<Rightarrow> http_client \<Rightarrow> order_execution
     \<Rightarrow> lifecycle_result op" where
  "lookup_and_apply net user_id account_id x credentials client execution =
     bnd (lift_result (order_lookup_path x)) (\<lambda>path.
     bnd (get_private net client path credentials (order_lookup_params execution x) (lookup_security_type x)) (\<lambda>response.
     bnd (lift_result (normalize_testnet_rest_order_status x response)) (\<lambda>event.
       apply_event user_id account_id event ''testnet_rest_order_reconciliation'')))"

definition reconcile_execution ::
    "network \<Rightarrow> string \<Rightarrow> string \<Rightarrow> exchange_name \<Rightarrow> exchange_credentials \<Rightarrow> http_client \<Rightarrow> order_execution
     \<Rightarrow> reconciliation_item op" where
  "reconcile_execution net user_id account_id x credentials client execution =
     try_except
       (bnd (lookup_and_apply net user_id account_id x credentials client execution) (\<lambda>r.
        bnd (get_execution (oe_id execution)) (\<lambda>now.
          ret \<lparr>rt_execution_id = oe_execution_id execution,
               rt_status = (case lr_status r of Some st \<Rightarrow> status_value st | None \<Rightarrow> status_value (oe_status now)),
               rt_lifecycle_result = Some r, rt_failure_type = None\<rparr>)))
       (\<lambda>e. case lookup_failure e of
          None \<Rightarrow> None
        | Some f \<Rightarrow> Some (bnd (get_execution (oe_id execution)) (\<lambda>now.
            ret \<lparr>rt_execution_id = oe_execution_id execution, rt_status = status_value (oe_status now),
                 rt_lifecycle_result = None, rt_failure_type = Some f\<rparr>)))"

definition pending_executions :: "string \<Rightarrow> string \<Rightarrow> db \<Rightarrow> order_execution list" where
  "pending_executions user_id account_id d =
     t_select (\<lambda>e. oe_user_id e = user_id \<and> oe_exchange_account_id e = account_id
                  \<and> oe_status e \<in> set PENDING_STATUSES) (executions d)"

definition item_transitioned :: "reconciliation_item \<Rightarrow> bool" where
  "item_transitioned item = (case rt_lifecycle_result item of None \<Rightarrow> False | Some r \<Rightarrow> lr_transitioned r)"

definition summarize :: "string \<Rightarrow> reconciliation_item list \<Rightarrow> reconciliation_result" where
  "summarize account_id items =
     \<lparr>rz_exchange_account_id = account_id, rz_attempted = length items,
      rz_transitioned = length (filter item_transitioned items),
      rz_failed = length (filter (\<lambda>i. rt_failure_type i \<noteq> None) items), rz_items = items\<rparr>"

definition write_reconciliation_audit :: "string \<Rightarrow> exchange_name \<Rightarrow> reconciliation_result \<Rightarrow> unit op" where
  "write_reconciliation_audit user_id x result =
     bnd (add_audit user_id (Some (rz_exchange_account_id result)) ''testnet.order.reconciliation.requested''
            (if rz_failed result \<noteq> 0 then ''WARNING'' else ''INFO'')
            [(''exchange_name'', PStr (exchange_value x)), (''account_mode'', PStr (mode_value TESTNET)),
             (''attempted'', PInt (int (rz_attempted result))), (''transitioned'', PInt (int (rz_transitioned result))),
             (''failed'', PInt (int (rz_failed result)))]) (\<lambda>_. commit)"

definition reconcile_account :: "string \<Rightarrow> string \<Rightarrow> exchange_account op" where
  "reconcile_account user_id account_id = bnd (get_owned_account user_id account_id) (\<lambda>account. case account of
      None \<Rightarrow> raise (TestnetOrderReconciliationBlockedError ''testnet exchange account was not found'')
    | Some a \<Rightarrow>
        if \<not> ea_is_active a then raise (TestnetOrderReconciliationBlockedError ''testnet exchange account was not found'')
        else if ea_account_mode a \<noteq> TESTNET then raise (TestnetOrderReconciliationBlockedError ''account mode must be TESTNET'')
        else if ea_exchange_name a = MOCK then raise (TestnetOrderReconciliationBlockedError ''mock exchange has no private REST lookup'')
        else if ea_trading_enabled a then raise (TestnetOrderReconciliationBlockedError ''trading must remain disabled'')
        else ret a)"

definition reconcile_pending_testnet_orders ::
    "cipher \<Rightarrow> network \<Rightarrow> string \<Rightarrow> string \<Rightarrow> http_client option \<Rightarrow> reconciliation_result op" where
  "reconcile_pending_testnet_orders c net user_id account_id http_client =
     bnd (reconcile_account user_id account_id) (\<lambda>account.
     bnd (get_exchange_credentials c user_id account_id) (\<lambda>credentials. case credentials of
       None \<Rightarrow> raise (TestnetOrderReconciliationBlockedError ''testnet API credentials are not configured'')
     | Some cr \<Rightarrow>
         bnd (case http_client of
                Some cl \<Rightarrow> ret cl
              | None \<Rightarrow> lift_result (create_testnet_signed_http_client (ea_exchange_name account))) (\<lambda>client.
         bnd (query (pending_executions user_id account_id)) (\<lambda>pending.
         bnd (map_act (reconcile_execution net user_id account_id (ea_exchange_name account) cr client) pending) (\<lambda>items.
         let result = summarize account_id items
         in bnd (write_reconciliation_audit user_id (ea_exchange_name account) result) (\<lambda>_. ret result))))))"

definition require_super_admin :: "user \<Rightarrow> unit op" where
  "require_super_admin current_user = (if u_role current_user \<noteq> SUPER_ADMIN
     then raise (HTTPException 403 [''super admin privileges required'']) else ret ())"

definition require_testnet_enabled :: "bool \<Rightarrow> unit op" where
  "require_testnet_enabled adapters = (if \<not> adapters
     then raise (HTTPException 409 [''TESTNET_ADAPTERS_ENABLED must be true before this operation'']) else ret ())"

record reconciliation_item_response =
  ri_execution_id :: string
  ri_status :: string
  ri_transitioned :: bool
  ri_failure_type :: "string option"

record reconciliation_response =
  rp_exchange_account_id :: string
  rp_attempted :: nat
  rp_transitioned :: nat
  rp_failed :: nat
  rp_items :: "reconciliation_item_response list"

definition reconciliation_response_of :: "reconciliation_result \<Rightarrow> reconciliation_response" where
  "reconciliation_response_of result =
     \<lparr>rp_exchange_account_id = rz_exchange_account_id result, rp_attempted = rz_attempted result,
      rp_transitioned = rz_transitioned result, rp_failed = rz_failed result,
      rp_items = map (\<lambda>item. \<lparr>ri_execution_id = rt_execution_id item, ri_status = rt_status item,
        ri_transitioned = item_transitioned item, ri_failure_type = rt_failure_type item\<rparr>) (rz_items result)\<rparr>"

definition reconciliation_blocked :: "py_exc \<Rightarrow> reconciliation_result op option" where
  "reconciliation_blocked e = (case e of
      TestnetOrderReconciliationBlockedError _ \<Rightarrow>
        Some (raise (HTTPException 400 [''testnet order reconciliation is blocked'']))
    | _ \<Rightarrow> None)"

definition reconcile_testnet_order_statuses ::
    "cipher \<Rightarrow> network \<Rightarrow> bool \<Rightarrow> string \<Rightarrow> user \<Rightarrow> reconciliation_response op" where
  "reconcile_testnet_order_statuses c net adapters account_id current_user =
     bnd (require_super_admin current_user) (\<lambda>_.
     bnd (require_testnet_enabled adapters) (\<lambda>_.
     bnd (try_except (reconcile_pending_testnet_orders c net (u_id current_user) account_id None) reconciliation_blocked)
       (\<lambda>result. ret (reconciliation_response_of result))))"

section \<open>What an event changes\<close>

lemma sound_row:
  assumes "sound s" and "t_find P (executions (work s)) = Some e"
  shows "find_execution (oe_id e) (work s) = Some e"
proof -
  have "distinct (map oe_id (rows (executions (work s))))"
    using assms(1) by (simp add: sound_def both_def trails_inv_def t_all_def)
  then show ?thesis
    unfolding find_execution_def using t_find_SomeD [OF assms(2)] by (intro t_find_unique_key) simp_all
qed

text \<open>The executions other than one are untouched by what happens to it.\<close>

definition except_for :: "string \<Rightarrow> db \<Rightarrow> order_execution list" where
  "except_for eid d = filter (\<lambda>e. oe_id e \<noteq> eid) (t_all (executions d))"

lemma except_for_put [simp]:
  "oe_id ex = eid \<Longrightarrow> except_for eid (d\<lparr>executions := t_put oe_id ex (executions d)\<rparr>) = except_for eid d"
proof -
  assume "oe_id ex = eid"
  then have "filter (\<lambda>e. oe_id e \<noteq> eid) (map (\<lambda>x. if oe_id x = oe_id ex then ex else x) xs) =
      filter (\<lambda>e. oe_id e \<noteq> eid) xs" for xs
    by (induction xs) auto
  then show ?thesis by (simp add: except_for_def t_all_put)
qed

lemma except_for_frame [simp]:
  "except_for eid (d\<lparr>transitions := x\<rparr>) = except_for eid d" "except_for eid (db_flush d) = except_for eid d"
  by (simp_all add: except_for_def)

lemma transition_frame:
  assumes "transition_order_execution eid b reason details s = (Inr t, s')" and "sound s"
  shows "except_for eid (work s') = except_for eid (work s)" and "wire s' = wire s"
proof -
  from assms(1) obtain ex where ex: "find_execution eid (work s) = Some ex"
    by (auto simp: transition_order_execution_def get_execution_apply bnd_def split: option.splits)
  have id: "oe_id ex \<noteq> []" "oe_id ex = eid"
    using assms(2) trails_inv_id_ne(1,2) [OF _ ex] by (auto simp: sound_def both_def)
  have "b \<in> set (allowed (oe_status ex))" using assms(1) transition_apply [OF ex id(1)] by (auto split: if_splits)
  with assms(1) transition_apply [OF ex id(1), of b reason details]
  show "except_for eid (work s') = except_for eid (work s)" "wire s' = wire s"
    using id by (auto simp: Let_def)
qed

lemma modify_frame:
  assumes "modify_execution eid g s = (Inr (), s')" and "find_execution eid (work s) = Some ex" and "oe_id (g ex) = eid"
  shows "except_for eid (work s') = except_for eid (work s)"
  using assms by (auto simp: modify_execution_def get_execution_def put_execution_def bnd_assoc)

text \<open>The row of an execution after an event with another status.\<close>

definition after_event :: "order_event \<Rightarrow> order_execution \<Rightarrow> order_execution" where
  "after_event event e = e\<lparr>oe_status := ne_status event, oe_exchange_order_id :=
     (if given_text (oe_exchange_order_id e) = None \<and> given_text (ne_exchange_order_id event) \<noteq> None
      then given_text (ne_exchange_order_id event) else oe_exchange_order_id e)\<rparr>"

lemma learn_run:
  assumes S: "sound s" and f: "find_execution eid (work s) = Some (e\<lparr>oe_status := ne_status event\<rparr>)"
    and id: "oe_id e = eid"
  obtains s' where "learn_exchange_id eid event s = (Inr (), s')" "sound s'"
    "find_execution eid (work s') = Some (after_event event e)" "others (work s') = others (work s)"
    "except_for eid (work s') = except_for eid (work s)"
proof (cases "given_text (ne_exchange_order_id event)")
  case None
  show thesis by (rule that [of s]) (use None S f in \<open>simp_all add: learn_exchange_id_def after_event_def\<close>)
next
  case (Some i)
  let ?g = "\<lambda>e. if given_text (oe_exchange_order_id e) = None then e\<lparr>oe_exchange_order_id := Some i\<rparr> else e"
  obtain s' where r: "modify_execution eid ?g s = (Inr (), s')" "sound s'"
    "find_execution eid (work s') = Some (?g (e\<lparr>oe_status := ne_status event\<rparr>))" "others (work s') = others (work s)"
    by (rule modify_run [OF S f, where g = ?g]) (simp_all split: if_splits)
  show thesis
    by (rule that [of s']) (use r Some modify_frame [OF r(1) f] id in \<open>simp_all add: learn_exchange_id_def after_event_def\<close>)
qed

definition event_outcome ::
    "string \<Rightarrow> string \<Rightarrow> order_event \<Rightarrow> session \<Rightarrow> lifecycle_result \<Rightarrow> session \<Rightarrow> bool" where
  "event_outcome user_id account_id event s r s' \<longleftrightarrow>
     (case t_find (event_matches user_id account_id event) (executions (work s)) of
        None \<Rightarrow> s' = s \<and> r = ignored_result ''owned_order_execution_not_found''
      | Some e \<Rightarrow>
          if ne_status event = oe_status e
          then s' = s \<and> r = execution_result_of e False True True ''duplicate_order_event''
          else if \<not> order_step (oe_status e) (ne_status event)
          then s' = s \<and> r = execution_result_of e False False True ''stale_or_invalid_order_event''
          else r = execution_result_of (after_event event e) True False False ''order_status_transitioned''
             \<and> settled (work s') \<and> saved s' = work s' \<and> find_execution (oe_id e) (work s') = Some (after_event event e)
             \<and> except_for (oe_id e) (work s') = except_for (oe_id e) (work s)
             \<and> others (work s') = db_flush (others (work s)))"

lemma transition_stale:
  assumes "sound s" and "find_execution eid (work s) = Some e" and "ne_status event \<notin> set (allowed (oe_status e))"
  shows "transition_or_stale eid event reason s = (Inr False, s)"
proof -
  have "oe_id e \<noteq> []" using assms(1,2) trails_inv_id_ne(1) by (auto simp: sound_def both_def)
  from transition_apply [OF assms(2) this] assms(3) show ?thesis
    by (simp add: transition_or_stale_def try_except_def bnd_def)
qed

lemma apply_event_run:
  assumes S: "sound s" and ident: "given_text (ne_client_order_id event) \<noteq> None \<or> given_text (ne_exchange_order_id event) \<noteq> None"
  shows "\<exists>r s'. apply_event user_id account_id event reason s = (Inr r, s') \<and> sound s' \<and> event_outcome user_id account_id event s r s'"
proof (cases "t_find (event_matches user_id account_id event) (executions (work s))")
  case None
  then have "find_event_execution user_id account_id event s = (Inr None, s)"
    using ident by (auto simp: find_event_execution_def)
  with S None show ?thesis
    by (simp add: apply_event_def event_outcome_def bnd_Inr [where m = "find_event_execution _ _ _"])
next
  case (Some e)
  have f: "find_execution (oe_id e) (work s) = Some e" by (rule sound_row [OF S Some])
  have found: "find_event_execution user_id account_id event s = (Inr (Some e), s)"
    using Some ident by (auto simp: find_event_execution_def)
  have start: "apply_event user_id account_id event reason s =
     (if oe_status e = ne_status event then (Inr (execution_result_of e False True True ''duplicate_order_event''), s)
      else bnd (transition_or_stale (oe_id e) event reason) (\<lambda>done'.
           if \<not> done' then ret (execution_result_of e False False True ''stale_or_invalid_order_event'')
           else bnd (learn_exchange_id (oe_id e) event) (\<lambda>_. bnd commit (\<lambda>_.
                bnd (get_execution (oe_id e)) (\<lambda>e'.
                  ret (execution_result_of e' True False False ''order_status_transitioned''))))) s)"
    by (simp add: apply_event_def bnd_Inr [where m = "find_event_execution _ _ _", OF found])
  consider (dup) "ne_status event = oe_status e"
    | (stale) "ne_status event \<noteq> oe_status e" "ne_status event \<notin> set (allowed (oe_status e))"
    | (step) "ne_status event \<noteq> oe_status e" "ne_status event \<in> set (allowed (oe_status e))" by blast
  then show ?thesis
  proof cases
    case dup
    with S Some start show ?thesis by (simp add: event_outcome_def)
  next
    case stale
    with S Some start transition_stale [OF S f, of event reason] show ?thesis
      by (simp add: event_outcome_def bnd_Inr [where m = "transition_or_stale _ _ _"])
  next
    case step
    obtain t s1 where s1: "transition_order_execution (oe_id e) (ne_status event) reason
        (Some (safe_transition_details event)) s = (Inr t, s1)" "sound s1"
      "find_execution (oe_id e) (work s1) = Some (e\<lparr>oe_status := ne_status event\<rparr>)" "others (work s1) = others (work s)"
      by (rule transition_run [OF S f step(2)]) (rule that; assumption)
    have t: "transition_or_stale (oe_id e) event reason s = (Inr True, s1)"
      using s1(1) by (simp add: transition_or_stale_def try_except_def bnd_def)
    obtain s2 where s2: "learn_exchange_id (oe_id e) event s1 = (Inr (), s2)" "sound s2"
      "find_execution (oe_id e) (work s2) = Some (after_event event e)" "others (work s2) = others (work s1)"
      "except_for (oe_id e) (work s2) = except_for (oe_id e) (work s1)"
      by (rule learn_run [OF s1(2,3) refl])
    obtain s3 where s3: "commit s2 = (Inr (), s3)" "sound s3" "work s3 = db_flush (work s2)" "saved s3 = work s3"
      by (rule commit_run [OF s2(2)]) (rule that; assumption)
    have f3: "find_execution (oe_id e) (work s3) = Some (after_event event e)"
      using find_execution_flush [OF s2(3)] s3(3) by simp
    have "apply_event user_id account_id event reason s =
        (Inr (execution_result_of (after_event event e) True False False ''order_status_transitioned''), s3)"
      using step(1) f3 unfolding start
      by (simp add: bnd_Inr [where m = "transition_or_stale _ _ _", OF t]
          bnd_Inr [where m = "learn_exchange_id _ _", OF s2(1)] bnd_commit_Inr [OF s3(1)] get_execution_def bnd_assoc)
    moreover have "except_for (oe_id e) (work s3) = except_for (oe_id e) (work s)"
      using transition_frame(1) [OF s1(1) S] s2(5) s3(3) by simp
    ultimately show ?thesis
      using s2(2) s3 f3 Some step s1(4) s2(4) by (simp add: event_outcome_def others_flush settled_db_flush sound_def)
  qed
qed

section \<open>Lookups only read\<close>

definition plain_get :: "http_request \<Rightarrow> bool" where
  "plain_get q \<longleftrightarrow> hq_method q = ''GET'' \<and> hq_data q = None"

abbreviation reads_only :: "'a op \<Rightarrow> bool" where
  "reads_only \<equiv> emits plain_get (\<lambda>_. False)"

lemma prepared_get:
  assumes "prepare_private_any cl s ''GET'' path cred params body security = Inr p"
  shows "pr_method p = ''GET''" and "pr_body p = None"
  using assms
  by (auto simp: prepare_private_any_def prepare_binance_request_def prepare_bybit_request_def
      prepare_okx_request_def request_body_of_def Let_def split: exchange_name.splits option.splits)

lemma get_private_cases:
  obtains (unprepared) e where
      "prepare_private_any cl s ''GET'' path cred params None security = Inl e"
      "get_private net cl path cred params security s = (Inl e, s)"
  | (sent) q where "hq_method q = ''GET''" "hq_data q = None"
      "get_private net cl path cred params security s = (case net q of
         Reply v \<Rightarrow> (Inr v, s\<lparr>wire := wire s @ [q]\<rparr>)
       | ReplyNotJson msg \<Rightarrow> (Inl (ValueError msg), s\<lparr>wire := wire s @ [q]\<rparr>)
       | ReplyEmpty \<Rightarrow> (Inr (PDict []), s\<lparr>wire := wire s @ [q]\<rparr>)
       | ReplyStatus code body \<Rightarrow> (Inl (ExchangeHttpRequestError (http_failure_type code) (Some code)
           (read_exchange_error_code body)), s\<lparr>wire := wire s @ [q]\<rparr>)
       | NoReply \<Rightarrow> (Inl (ExchangeHttpRequestError ''transport_error'' None None), s\<lparr>wire := wire s @ [q]\<rparr>))"
proof (cases "prepare_private_any cl s ''GET'' path cred params None security")
  case (Inl e)
  then show thesis by (intro unprepared) (simp_all add: get_private_def prepare_private_request_def bnd_assoc)
next
  case (Inr p)
  note p = prepared_get [OF Inr]
  obtain q where q: "wire_request p = Inr q" "hq_method q = ''GET''" "hq_data q = None"
    using p by (auto simp: wire_request_def Let_def)
  show thesis
    by (rule sent [of q]) (use Inr q in \<open>simp_all add: get_private_def prepare_private_request_def bnd_assoc
      transport_request_def split: http_reply.split\<close>)
qed

lemma reads_only_get [emits_rules]: "reads_only (get_private net cl path cred params security)"
proof (rule emitsI)
  fix s r s'
  assume "get_private net cl path cred params security s = (r, s')"
  then show "emitted plain_get (\<lambda>_. False) s s'"
    by (cases rule: get_private_cases [of cl s path cred params security net])
      (auto simp: emitted_def plain_get_def split: http_reply.splits)
qed

lemma silent_transition_or_stale: "silent (transition_or_stale eid event reason)"
  unfolding transition_or_stale_def
  by (rule silent_try_except) (auto split: py_exc.splits intro!: silent_rules)

lemma silent_apply_event: "silent (apply_event user_id account_id event reason)"
  unfolding apply_event_def find_event_execution_def learn_exchange_id_def
  by (intro silent_rules silent_transition_or_stale)

lemma reads_only_reconcile_execution [emits_rules]:
  "reads_only (reconcile_execution net user_id account_id x credentials client execution)"
  unfolding reconcile_execution_def lookup_and_apply_def
  by (intro emits_rules emits_silent silent_rules silent_apply_event)
    (auto split: option.splits intro!: emits_silent silent_rules)

section \<open>What events and lookups do to the database\<close>

lemma wire_free [simp]: "both J (s\<lparr>wire := w\<rparr>) = both J s"
  by (simp add: both_def)

lemma get_private_both [preserves_rules]: "preserves J (get_private net cl path cred params security)"
proof (rule preservesI)
  fix s r s'
  assume "get_private net cl path cred params security s = (r, s')" and "both J s"
  then show "both J s'"
    by (cases rule: get_private_cases [of cl s path cred params security net]) (auto split: http_reply.splits)
qed

lemma silent_reconcile_account: "silent (reconcile_account user_id account_id)"
  unfolding reconcile_account_def get_owned_account_def by (intro silent_rules)

lemma silent_reconciliation_audit: "silent (write_reconciliation_audit user_id x result)"
  unfolding write_reconciliation_audit_def add_audit_def by (intro silent_rules)

lemma reads_only_reconcile_pending:
  "reads_only (reconcile_pending_testnet_orders c net user_id account_id client)"
  unfolding reconcile_pending_testnet_orders_def Let_def
  by (intro emits_rules emits_silent [OF silent_reconcile_account] emits_silent
      silent_reconciliation_audit silent_rules)

text \<open>
  Events and lookups write through three doors only: a status change with its entry in the trail, an
  assignment to an attribute other than the id and the status, and an audit entry. A property that
  all three keep, they keep.
\<close>

locale order_effects = db_invariant J for J +
  assumes transition_law: "preserves J (transition_order_execution eid b reason details)"
    and modify_law: "(\<And>e. oe_id (f e) = oe_id e) \<Longrightarrow> (\<And>e. oe_status (f e) = oe_status e) \<Longrightarrow>
      preserves J (modify_execution eid f)"
    and audits_law: "preserves J (upd (\<lambda>d. d\<lparr>audits := t_add l (audits d)\<rparr>))"
begin

lemmas effect_rules = preserves_rules transition_law modify_law audits_law

lemma kept_apply_event: "preserves J (apply_event user_id account_id event reason)"
proof -
  have "preserves J (transition_or_stale eid event reason)" for eid
    unfolding transition_or_stale_def
    by (rule preserves_try_except) (auto split: py_exc.splits intro!: effect_rules)
  moreover have "preserves J (learn_exchange_id eid event)" for eid
    unfolding learn_exchange_id_def by (cases "given_text (ne_exchange_order_id event)") (auto intro!: effect_rules)
  ultimately show ?thesis
    unfolding apply_event_def find_event_execution_def by (intro effect_rules)
qed

lemma kept_reconcile_execution:
  "preserves J (reconcile_execution net user_id account_id x credentials client execution)"
  unfolding reconcile_execution_def lookup_and_apply_def
  by (rule preserves_try_except) (auto split: option.splits intro!: effect_rules kept_apply_event)

lemma kept_reconcile_pending:
  "preserves J (reconcile_pending_testnet_orders c net user_id account_id client)"
  unfolding reconcile_pending_testnet_orders_def reconcile_account_def get_owned_account_def
    get_exchange_credentials_def get_api_key_secret_metadata_def write_reconciliation_audit_def add_audit_def
  by (intro effect_rules kept_reconcile_execution)

lemma kept_reconcile_route:
  "preserves J (reconcile_testnet_order_statuses c net adapters account_id user)"
proof -
  have blocked: "reconciliation_blocked e = Some k \<Longrightarrow> \<exists>x. k = raise x" for e k
    by (auto simp: reconciliation_blocked_def split: py_exc.splits)
  show ?thesis
    unfolding reconcile_testnet_order_statuses_def require_super_admin_def require_testnet_enabled_def
    by (intro preserves_rules preserves_try_except kept_reconcile_pending)
      (auto dest!: blocked intro!: preserves_rules)
qed

end

text \<open>The trails stay valid.\<close>

interpretation trail_orders: order_effects trails_inv
proof
  fix f :: "order_execution \<Rightarrow> order_execution" and eid
  assume "\<And>e. oe_id (f e) = oe_id e" and "\<And>e. oe_status (f e) = oe_status e"
  then show "preserves trails_inv (modify_execution eid f)" by (rule preserves_trails_modify)
qed (rule preserves_trails_transition, rule preserves_trails_frame, simp_all)

text \<open>No flag changes and no order is created.\<close>

definition flags_are :: "exchange_account list \<Rightarrow> risk_setting list \<Rightarrow> string list \<Rightarrow> db_pred" where
  "flags_are as rs ids u n d \<longleftrightarrow>
     t_all (accounts d) = as \<and> t_all (risks d) = rs \<and> map oe_id (t_all (executions d)) = ids"

interpretation flags: db_invariant "flags_are as rs ids" for as rs ids
  by unfold_locales (simp_all add: flags_are_def)

lemma flags_put: "preserves (flags_are as rs ids) (put_execution ex)"
  unfolding put_execution_def by (rule preserves_upd) (simp add: flags_are_def map_t_all_put)

lemma flags_upd [preserves_rules]:
  "preserves (flags_are as rs ids) (upd (\<lambda>d. d\<lparr>transitions := t_add t (transitions d)\<rparr>))"
  "preserves (flags_are as rs ids) (upd (\<lambda>d. d\<lparr>audits := t_add l (audits d)\<rparr>))"
  by (rule preserves_upd; simp add: flags_are_def)+

lemma flags_transition: "preserves (flags_are as rs ids) (transition_order_execution eid b reason details)"
  unfolding transition_order_execution_def add_transition_def Let_def by (intro preserves_rules flags_put)

interpretation flag_orders: order_effects "flags_are as rs ids" for as rs ids
  by unfold_locales (rule flags_transition, simp add: modify_execution_def preserves_bnd preserves_get_execution flags_put,
    rule flags_upd)

lemma reads_only_reconcile_route:
  "reads_only (reconcile_testnet_order_statuses c net adapters account_id user)"
proof -
  have blocked: "reconciliation_blocked e = Some k \<Longrightarrow> \<exists>x. k = raise x" for e k
    by (auto simp: reconciliation_blocked_def split: py_exc.splits)
  show ?thesis
    unfolding reconcile_testnet_order_statuses_def require_super_admin_def require_testnet_enabled_def
    by (intro emits_rules reads_only_reconcile_pending emits_silent)
      (auto dest!: blocked intro!: silent_rules)
qed

lemmas reconcile_route_rules = reads_only_reconcile_route flag_orders.kept_reconcile_route

section \<open>Every pending order is looked up\<close>

lemma event_status_error: "event_status raw m = Inl e \<Longrightarrow> lookup_failure e = Some ''response_invalid''"
  by (auto simp: event_status_def lookup_failure_def split: option.splits)

lemma make_event_error: "make_event x c i (event_status raw m) ei f = Inl e \<Longrightarrow> lookup_failure e = Some ''response_invalid''"
  by (cases "event_status raw m") (auto simp: make_event_def optional_decimal_def lookup_failure_def
      dest: event_status_error [unfolded lookup_failure_def] split: if_splits option.splits)

lemma first_mapping_error: "first_mapping v = Inl e \<Longrightarrow> lookup_failure e = Some ''response_invalid''"
  by (auto simp: first_mapping_def lookup_failure_def split: pyval.splits list.splits)

lemma normalize_row_error:
  "normalize_bybit d = Inl e \<Longrightarrow> lookup_failure e = Some ''response_invalid''"
  "normalize_okx d = Inl e \<Longrightarrow> lookup_failure e = Some ''response_invalid''"
  unfolding normalize_bybit_def normalize_okx_def
  by (cases "first_mapping (dict_get d ''data'')"; auto dest: first_mapping_error make_event_error)+

lemma normalize_rest_error:
  assumes "normalize_testnet_rest_order_status x (PDict d) = Inl e"
  shows "lookup_failure e = Some ''response_invalid''"
  using assms
  by (cases x) (auto simp: normalize_testnet_rest_order_status_def normalize_binance_rest_def normalize_bybit_rest_def
      normalize_okx_rest_def lookup_failure_def
      dest: make_event_error [unfolded lookup_failure_def] normalize_row_error [unfolded lookup_failure_def] split: if_splits)

text \<open>An exchange that answers with a JSON object, with something that is not JSON, or not at all.\<close>

definition answers_objects :: "network \<Rightarrow> bool" where
  "answers_objects net \<longleftrightarrow> (\<forall>q v. net q = Reply v \<longrightarrow> (\<exists>d. v = PDict d))"

lemma unprepared_failure:
  "prepare_private_any cl s ''GET'' path cred params None security = Inl e \<Longrightarrow> lookup_failure e = Some ''response_invalid''"
  by (auto simp: prepare_private_any_def prepare_bybit_request_def prepare_okx_request_def request_body_of_def
      lookup_failure_def Let_def split: exchange_name.splits option.splits)

lemma find_execution_settled:
  assumes "settled d"
  shows "find_execution i d \<noteq> None \<longleftrightarrow> (\<exists>e \<in> set (t_all (executions d)). oe_id e = i)"
  using settled_pend(9) [OF assms] by (auto simp: find_execution_def t_find_def t_all_def find_None_iff)

lemma event_keeps_rows:
  assumes o: "event_outcome user_id account_id event s r s'" and s: "settled (work s)"
  shows "settled (work s')" and "find_execution i (work s) \<noteq> None \<Longrightarrow> find_execution i (work s') \<noteq> None"
proof -
  show st: "settled (work s')" using o s by (auto simp: event_outcome_def split: option.splits if_splits)
  assume i: "find_execution i (work s) \<noteq> None"
  have "s' = s \<or> (\<exists>j. find_execution j (work s') \<noteq> None
      \<and> except_for j (work s') = except_for j (work s))"
  proof (cases "t_find (event_matches user_id account_id event) (executions (work s))")
    case (Some e)
    with o have "s' = s \<or> find_execution (oe_id e) (work s') \<noteq> None
        \<and> except_for (oe_id e) (work s') = except_for (oe_id e) (work s)"
      by (simp add: event_outcome_def split: if_splits)
    then show ?thesis by blast
  qed (use o in \<open>simp add: event_outcome_def\<close>)
  then consider "s' = s" | j where "find_execution j (work s') \<noteq> None"
      "except_for j (work s') = except_for j (work s)" by blast
  then show "find_execution i (work s') \<noteq> None"
  proof cases
    case 1
    with i show ?thesis by simp
  next
    case (2 j)
    obtain x where x: "x \<in> set (t_all (executions (work s)))" "oe_id x = i"
      using i unfolding find_execution_settled [OF s] by blast
    show ?thesis
    proof (cases "i = j")
      case False
      then have "x \<in> set (except_for j (work s'))" using 2(2) x by (simp add: except_for_def)
      then show ?thesis using x(2) unfolding find_execution_settled [OF st] by (auto simp: except_for_def)
    qed (use 2(1) in simp)
  qed
qed

text \<open>What one lookup leaves: a sound session with the same executions, at most one more request.\<close>

definition lookup_kept :: "session \<Rightarrow> session \<Rightarrow> bool" where
  "lookup_kept s s' \<longleftrightarrow> sound s' \<and> settled (work s') \<and> length (wire s') \<le> Suc (length (wire s))
     \<and> (\<forall>i. find_execution i (work s) \<noteq> None \<longrightarrow> find_execution i (work s') \<noteq> None)"

lemma apply_event_kept:
  assumes "sound s" and "settled (work s)" and "apply_event user_id account_id event reason s = (r, s')"
  shows "sound s' \<and> settled (work s') \<and> wire s' = wire s
     \<and> (\<forall>i. find_execution i (work s) \<noteq> None \<longrightarrow> find_execution i (work s') \<noteq> None)
     \<and> (\<forall>e. r = Inl e \<longrightarrow> lookup_failure e \<noteq> None)"
proof (cases "given_text (ne_client_order_id event) = None \<and> given_text (ne_exchange_order_id event) = None")
  case True
  with assms show ?thesis
    by (auto simp: apply_event_def find_event_execution_def lookup_failure_def bnd_Inl)
next
  case False
  obtain r' where r: "apply_event user_id account_id event reason s = (Inr r', s')" "sound s'"
      "event_outcome user_id account_id event s r' s'"
    using apply_event_run [OF assms(1), of event user_id account_id reason] False assms(3) by auto
  then show ?thesis
    using event_keeps_rows [OF r(3) assms(2)] silentD [OF silent_apply_event r(1)] assms(3) by auto
qed

lemma lookup_run:
  assumes S: "sound s" "settled (work s)" and x: "x \<noteq> MOCK" and net: "answers_objects net"
    and run: "lookup_and_apply net user_id account_id x cred cl e s = (r, s')"
  shows "lookup_kept s s' \<and> (\<forall>e. r = Inl e \<longrightarrow> lookup_failure e \<noteq> None)"
proof -
  obtain path where path: "order_lookup_path x = Inr path" using x by (cases x) (simp_all add: order_lookup_path_def)
  let ?get = "get_private net cl path cred (order_lookup_params e x) (lookup_security_type x)"
  let ?rest = "\<lambda>response. bnd (lift_result (normalize_testnet_rest_order_status x response)) (\<lambda>event.
       apply_event user_id account_id event ''testnet_rest_order_reconciliation'')"
  have body: "bnd ?get ?rest s = (r, s')" using run path by (simp add: lookup_and_apply_def)
  have answered: ?thesis if g: "?get s = (Inr (PDict d), s\<lparr>wire := wire s @ [q]\<rparr>)" for d q
  proof (cases "normalize_testnet_rest_order_status x (PDict d)")
    case (Inl ex)
    then have "r = Inl ex" "s' = s\<lparr>wire := wire s @ [q]\<rparr>"
      using body by (simp_all add: bnd_Inr [where m = ?get, OF g])
    with Inl S normalize_rest_error [OF Inl] show ?thesis by (simp add: lookup_kept_def)
  next
    case (Inr event)
    then have "apply_event user_id account_id event ''testnet_rest_order_reconciliation'' (s\<lparr>wire := wire s @ [q]\<rparr>) = (r, s')"
      using body by (simp add: bnd_Inr [where m = ?get, OF g])
    from apply_event_kept [OF _ _ this] S show ?thesis by (auto simp: lookup_kept_def)
  qed
  have failed: ?thesis if g: "?get s = (Inl ex, s1)" and "lookup_failure ex \<noteq> None" and "s1 = s \<or> s1 = s\<lparr>wire := wire s @ [q]\<rparr>"
    for ex s1 q
    using body S that(2,3) by (auto simp: bnd_Inl [where m = ?get, OF g] lookup_kept_def)
  show ?thesis
  proof (cases rule: get_private_cases [of cl s path cred "order_lookup_params e x" "lookup_security_type x" net])
    case (unprepared ex)
    from failed [OF unprepared(2)] unprepared_failure [OF unprepared(1)] show ?thesis by simp
  next
    case (sent q)
    consider d where "?get s = (Inr (PDict d), s\<lparr>wire := wire s @ [q]\<rparr>)"
      | ex where "?get s = (Inl ex, s\<lparr>wire := wire s @ [q]\<rparr>)" "lookup_failure ex \<noteq> None"
      using sent(3) net by (cases "net q") (auto simp: answers_objects_def lookup_failure_def)
    then show ?thesis by cases (rule answered, assumption, rule failed, auto)
  qed
qed

lemma reconcile_execution_run:
  assumes S: "sound s" "settled (work s)" and x: "x \<noteq> MOCK" and net: "answers_objects net"
    and f: "find_execution (oe_id e) (work s) \<noteq> None"
  obtains item s' where "reconcile_execution net user_id account_id x cred cl e s = (Inr item, s')" "lookup_kept s s'"
    "rt_execution_id item = oe_execution_id e" "rt_lifecycle_result item = None \<longleftrightarrow> rt_failure_type item \<noteq> None"
proof -
  obtain r s' where run: "lookup_and_apply net user_id account_id x cred cl e s = (r, s')" by fastforce
  note k = lookup_run [OF S x net run]
  obtain now where now: "find_execution (oe_id e) (work s') = Some now" using k f by (auto simp: lookup_kept_def)
  show thesis
  proof (cases r)
    case (Inr lr)
    have "reconcile_execution net user_id account_id x cred cl e s = (Inr \<lparr>rt_execution_id = oe_execution_id e,
        rt_status = (case lr_status lr of Some st \<Rightarrow> status_value st | None \<Rightarrow> status_value (oe_status now)),
        rt_lifecycle_result = Some lr, rt_failure_type = None\<rparr>, s')"
      by (simp add: reconcile_execution_def try_except_def bnd_Inr [where m = "lookup_and_apply _ _ _ _ _ _ _", OF run [unfolded Inr]]
          get_execution_def bnd_assoc now)
    from that [OF this] k show thesis by simp
  next
    case (Inl ex)
    then obtain ft where ft: "lookup_failure ex = Some ft" using k by auto
    have "reconcile_execution net user_id account_id x cred cl e s = (Inr \<lparr>rt_execution_id = oe_execution_id e,
        rt_status = status_value (oe_status now), rt_lifecycle_result = None, rt_failure_type = Some ft\<rparr>, s')"
      by (simp add: reconcile_execution_def try_except_def bnd_Inl [where m = "lookup_and_apply _ _ _ _ _ _ _", OF run [unfolded Inl]]
          ft get_execution_def bnd_assoc now)
    from that [OF this] k show thesis by simp
  qed
qed

lemma reconcile_all_run:
  assumes "sound s" "settled (work s)" "x \<noteq> MOCK" "answers_objects net"
    and "\<forall>e \<in> set es. find_execution (oe_id e) (work s) \<noteq> None"
  shows "\<exists>items s'. map_act (reconcile_execution net user_id account_id x cred cl) es s = (Inr items, s')
     \<and> sound s' \<and> settled (work s') \<and> length (wire s') \<le> length (wire s) + length es
     \<and> map rt_execution_id items = map oe_execution_id es
     \<and> (\<forall>i \<in> set items. rt_lifecycle_result i = None \<longleftrightarrow> rt_failure_type i \<noteq> None)"
  using assms
proof (induction es arbitrary: s)
  case Nil
  then show ?case by simp
next
  case (Cons e es)
  obtain item s1 where e: "reconcile_execution net user_id account_id x cred cl e s = (Inr item, s1)" "lookup_kept s s1"
    "rt_execution_id item = oe_execution_id e" "rt_lifecycle_result item = None \<longleftrightarrow> rt_failure_type item \<noteq> None"
    by (rule reconcile_execution_run [OF Cons.prems(1-4), of e user_id account_id cred cl]) (use Cons.prems(5) in auto)
  obtain items s2 where es: "map_act (reconcile_execution net user_id account_id x cred cl) es s1 = (Inr items, s2)"
    "sound s2" "settled (work s2)" "length (wire s2) \<le> length (wire s1) + length es"
    "map rt_execution_id items = map oe_execution_id es"
    "\<forall>i \<in> set items. rt_lifecycle_result i = None \<longleftrightarrow> rt_failure_type i \<noteq> None"
    using Cons.IH [of s1] Cons.prems(3-5) e(2) by (auto simp: lookup_kept_def)
  have "length (wire s2) \<le> length (wire s) + length (e # es)"
    using e(2) es(4) by (simp add: lookup_kept_def)
  then show ?case
    using e(3,4) es(2,3,5,6)
    by (simp add: bnd_Inr [where m = "reconcile_execution _ _ _ _ _ _ _", OF e(1)] bnd_Inr [where m = "map_act _ _", OF es(1)])
qed

lemma audit_run:
  assumes "sound s"
  shows "\<exists>s'. write_reconciliation_audit user_id x result s = (Inr (), s') \<and> sound s' \<and> saved s' = work s' \<and> wire s' = wire s
     \<and> executions (work s') = t_flush (executions (work s))"
proof -
  have "trails_inv (uuid_src s) (Suc (uuid_next s)) (db_flush ((work s)\<lparr>audits := t\<rparr>))"
    "trails_inv (uuid_src s) (Suc (uuid_next s)) (saved s)" for t
    using assms trails.inv_more trails.inv_flush trails_inv_frame [of "(work s)\<lparr>audits := t\<rparr>" "work s"]
    by (auto simp: sound_def both_def)
  with assms show ?thesis
    by (simp add: write_reconciliation_audit_def add_audit_apply Let_def commit_apply sound_def both_def)
qed

lemma pending_found:
  assumes "settled (work s)" and "e \<in> set (pending_executions user_id account_id (work s))"
  shows "find_execution (oe_id e) (work s) \<noteq> None"
  using assms(2) unfolding find_execution_settled [OF assms(1)]
  by (auto simp: pending_executions_def t_select_def t_all_def)

text \<open>The conditions under which an account is reconciled.\<close>

definition reconcilable :: "exchange_account \<Rightarrow> bool" where
  "reconcilable a \<longleftrightarrow> ea_is_active a \<and> ea_account_mode a = TESTNET \<and> ea_exchange_name a \<noteq> MOCK \<and> \<not> ea_trading_enabled a"

lemma reconcile_account_apply:
  "reconcile_account user_id account_id s = (case find_owned_account user_id account_id (work s) of
      None \<Rightarrow> (Inl (TestnetOrderReconciliationBlockedError ''testnet exchange account was not found''), s)
    | Some a \<Rightarrow> if reconcilable a then (Inr a, s)
        else (Inl (TestnetOrderReconciliationBlockedError
          (if \<not> ea_is_active a then ''testnet exchange account was not found''
           else if ea_account_mode a \<noteq> TESTNET then ''account mode must be TESTNET''
           else if ea_exchange_name a = MOCK then ''mock exchange has no private REST lookup''
           else ''trading must remain disabled'')), s))"
  by (simp add: reconcile_account_def get_owned_account_def reconcilable_def split: option.split)

lemma testnet_client_exists: "x \<noteq> MOCK \<Longrightarrow> \<exists>cl. create_testnet_signed_http_client x = Inr cl"
  by (cases x) (simp_all add: create_testnet_signed_http_client_def get_testnet_endpoint_config_def TESTNET_ENDPOINTS_def)

section \<open>Properties\<close>

text \<open>A testnet account with one order under way, on which the witnesses run.\<close>

definition quiet_account :: exchange_account where
  "quiet_account = testnet_account\<lparr>ea_trading_enabled := False\<rparr>"

definition pending_execution :: order_execution where
  "pending_execution = (snd filled_sample)\<lparr>oe_exchange_account_id := ''acct-2'', oe_exchange_name := ''binance'',
     oe_status := SUBMITTED\<rparr>"

definition pending_db :: db where
  "pending_db = sample_db\<lparr>accounts := \<lparr>rows = [sample_account, quiet_account], pend = []\<rparr>,
     executions := \<lparr>rows = [pending_execution], pend = []\<rparr>,
     transitions := \<lparr>rows = take 3 (rows (transitions (fst filled_sample))), pend = []\<rparr>\<rparr>"

definition pending_session :: session where
  "pending_session = sample_session\<lparr>work := pending_db, saved := pending_db, uuid_next := 5\<rparr>"

lemma pending_session_sel [simp]:
  "work pending_session = pending_db" "saved pending_session = pending_db"
  "uuid_src pending_session = sample_uuid" "uuid_next pending_session = 5"
  by (simp_all add: pending_session_def)

lemma pending_trails: "trails_inv sample_uuid 5 pending_db"
proof -
  let ?ts = "trail_of pending_db (sample_uuid 0)"
  have "?ts = take 3 (rows (transitions (fst filled_sample)))"
    by (simp add: trail_of_def pending_db_def filled_sample_def Let_def t_all_def)
  moreover have "valid_trail SUBMITTED (take 3 (rows (transitions (fst filled_sample))))"
    unfolding filled_sample_def Let_def fst_conv
    by (simp, rule trail_step [of RISK_PASSED "[_, _]", simplified],
        rule trail_step [of CREATED "[_]", simplified], rule trail_start) simp_all
  ultimately have "valid_trail SUBMITTED ?ts" by simp
  moreover have "sample_uuid 0 \<in> sample_uuid ` {..<5}" by simp
  ultimately show ?thesis
    by (simp add: trails_inv_def sample_uuid_inj sample_uuid_ne)
      (simp add: pending_db_def pending_execution_def filled_sample_def Let_def t_all_def)
qed

lemma pending_settled: "settled pending_db"
  using sample_settled
  by (simp add: settled_def pending_db_def db_flush_update db_unique_update t_flush_def t_all_def filled_sample_def Let_def)

lemma pending_sound: "sound pending_session"
  using pending_trails settledD(2) [OF pending_settled] by (simp add: sound_def both_def)

lemma pending_account: "find_owned_account ''alice'' ''acct-2'' pending_db = Some quiet_account" "reconcilable quiet_account"
  by (simp_all add: find_owned_account_def t_find_def pending_db_def sample_account_def quiet_account_def
      testnet_account_def reconcilable_def)

lemma pending_credentials:
  "get_exchange_credentials demo_cipher ''alice'' ''acct-2'' pending_session =
     (Inr (Some \<lparr>ec_api_key = [], ec_api_secret = [], ec_passphrase = None\<rparr>), pending_session)"
  by (simp add: get_exchange_credentials_def get_api_key_secret_metadata_def find_secret_metadata_def t_find_def
      pending_db_def sample_db_def sample_secret_def demo_cipher_def)

text \<open>C28: An order event changes at most one execution of its own account, along an allowed step of the
  state machine, and commits it; an event for a foreign or unknown order, a repeated one and a stale one
  change nothing at all, and the answer says which of these it was.\<close>

theorem order_event_outcome:
  assumes "sound s" and "given_text (ne_client_order_id event) \<noteq> None \<or> given_text (ne_exchange_order_id event) \<noteq> None"
  shows "\<exists>r s'. apply_event user_id account_id event reason s = (Inr r, s') \<and> sound s'
     \<and> event_outcome user_id account_id event s r s'"
  using assms by (rule apply_event_run)

theorem order_event_outcome_witness:
  "\<exists>r s'. apply_event ''alice'' ''acct-2'' \<lparr>ne_exchange_name = BINANCE, ne_client_order_id = Some ''c'',
        ne_exchange_order_id = Some ''77'', ne_status = FILLED, ne_event_id = None, ne_filled_quantity = None\<rparr>
        ''test'' pending_session = (Inr r, s')
     \<and> lr_transitioned r \<and> lr_status r = Some FILLED \<and> saved s' = work s'"
  using order_event_outcome [OF pending_sound, of "\<lparr>ne_exchange_name = BINANCE, ne_client_order_id = Some ''c'',
        ne_exchange_order_id = Some ''77'', ne_status = FILLED, ne_event_id = None, ne_filled_quantity = None\<rparr>"
      "''alice''" "''acct-2''" "''test''"]
  by (auto simp: event_outcome_def t_find_def pending_db_def pending_execution_def filled_sample_def Let_def
      event_matches_def given_text_def execution_result_of_def after_event_def)

text \<open>C30: Reconciling the pending orders of an account sends nothing but GET requests without a body. It
  neither switches trading on nor changes a risk setting nor creates an order, whatever the exchange
  answers and whether it succeeds or fails.\<close>

theorem reconciliation_only_reads:
  assumes "reconcile_testnet_order_statuses c net adapters account_id user s = (r, s')" and "saved s = work s"
  shows "(\<exists>qs. wire s' = wire s @ qs \<and> (\<forall>q \<in> set qs. hq_method q = ''GET'' \<and> hq_data q = None))
     \<and> t_all (accounts (work s')) = t_all (accounts (work s)) \<and> t_all (risks (work s')) = t_all (risks (work s))
     \<and> map oe_id (t_all (executions (work s'))) = map oe_id (t_all (executions (work s)))
     \<and> t_all (accounts (saved s')) = t_all (accounts (work s)) \<and> t_all (risks (saved s')) = t_all (risks (work s))
     \<and> map oe_id (t_all (executions (saved s'))) = map oe_id (t_all (executions (work s)))"
proof -
  let ?J = "flags_are (t_all (accounts (work s))) (t_all (risks (work s))) (map oe_id (t_all (executions (work s))))"
  have "both ?J s" using assms(2) by (simp add: both_def flags_are_def)
  then have "both ?J s'" by (rule preservesD [OF reconcile_route_rules(2) assms(1)])
  then show ?thesis
    using emitsD [OF reconcile_route_rules(1) assms(1)] by (auto simp: both_def flags_are_def emitted_def plain_get_def)
qed

theorem reconciliation_only_reads_witness:
  "\<exists>r s'. reconcile_testnet_order_statuses demo_cipher (\<lambda>_. NoReply) True ''acct-2'' sample_user pending_session = (r, s')
     \<and> t_all (accounts (saved s')) = [sample_account, quiet_account] \<and> map oe_id (t_all (executions (saved s'))) = [sample_uuid 0]"
proof -
  obtain r s' where "reconcile_testnet_order_statuses demo_cipher (\<lambda>_. NoReply) True ''acct-2'' sample_user pending_session = (r, s')"
    by fastforce
  with reconciliation_only_reads [OF this] show ?thesis
    by (simp add: pending_db_def pending_execution_def filled_sample_def Let_def t_all_def)
qed

text \<open>C29: Reconciling an account looks every pending order up, one request each at most. An answer that
  cannot be used, a refused request and a lost connection are reported for that order and do not stop the
  others; the result is committed, and all trails stay valid.\<close>

theorem reconciliation_covers_pending:
  assumes S: "sound s" "settled (work s)" and a: "find_owned_account (u_id user) account_id (work s) = Some a" "reconcilable a"
    and cr: "get_exchange_credentials c (u_id user) account_id s = (Inr (Some cred), s)"
    and admin: "u_role user = SUPER_ADMIN" and net: "answers_objects net"
  shows "\<exists>r s'. reconcile_testnet_order_statuses c net True account_id user s = (Inr r, s')
     \<and> both trails_inv s' \<and> saved s' = work s'
     \<and> map ri_execution_id (rp_items r) = map oe_execution_id (pending_executions (u_id user) account_id (work s))
     \<and> rp_attempted r = length (pending_executions (u_id user) account_id (work s))
     \<and> length (wire s') \<le> length (wire s) + rp_attempted r
     \<and> (\<forall>i \<in> set (rp_items r). ri_transitioned i \<longrightarrow> ri_failure_type i = None)"
proof -
  obtain cl where cl: "create_testnet_signed_http_client (ea_exchange_name a) = Inr cl"
    using testnet_client_exists a(2) by (auto simp: reconcilable_def)
  let ?es = "pending_executions (u_id user) account_id (work s)"
  have "ea_exchange_name a \<noteq> MOCK" using a(2) by (simp add: reconcilable_def)
  from reconcile_all_run [OF S this net, of ?es "u_id user" account_id cred cl] pending_found [OF S(2)]
  obtain items s1 where m: "map_act (reconcile_execution net (u_id user) account_id (ea_exchange_name a) cred cl) ?es s = (Inr items, s1)"
    "sound s1" "length (wire s1) \<le> length (wire s) + length ?es" "map rt_execution_id items = map oe_execution_id ?es"
    "\<forall>i \<in> set items. rt_lifecycle_result i = None \<longleftrightarrow> rt_failure_type i \<noteq> None" by blast
  obtain s2 where w: "write_reconciliation_audit (u_id user) (ea_exchange_name a) (summarize account_id items) s1 = (Inr (), s2)"
    "sound s2" "saved s2 = work s2" "wire s2 = wire s1"
    using audit_run [OF m(2)] by blast
  have acc: "reconcile_account (u_id user) account_id s = (Inr a, s)" using a by (simp add: reconcile_account_apply)
  have "reconcile_pending_testnet_orders c net (u_id user) account_id None s = (Inr (summarize account_id items), s2)"
    by (simp add: reconcile_pending_testnet_orders_def bnd_Inr [where m = "reconcile_account _ _", OF acc]
        bnd_Inr [where m = "get_exchange_credentials _ _ _", OF cr] cl bnd_Inr [where m = "map_act _ _", OF m(1)] Let_def
        bnd_Inr [where m = "write_reconciliation_audit _ _ _", OF w(1)])
  then have "reconcile_testnet_order_statuses c net True account_id user s =
      (Inr (reconciliation_response_of (summarize account_id items)), s2)"
    using admin by (simp add: reconcile_testnet_order_statuses_def require_super_admin_def require_testnet_enabled_def
        try_except_def bnd_def)
  moreover have "length items = length ?es" using m(4) by (metis length_map)
  ultimately show ?thesis
    using m w by (fastforce simp: reconciliation_response_of_def summarize_def item_transitioned_def sound_def comp_def
        split: option.splits)
qed

theorem reconciliation_covers_pending_witness:
  "\<exists>r s'. reconcile_testnet_order_statuses demo_cipher (\<lambda>_. NoReply) True ''acct-2'' sample_user pending_session = (Inr r, s')
     \<and> saved s' = work s' \<and> rp_attempted r = 1 \<and> map ri_execution_id (rp_items r) = [''x'']"
proof -
  have u: "u_id sample_user = ''alice''" "u_role sample_user = SUPER_ADMIN" by (simp_all add: sample_user_def)
  have "pending_executions ''alice'' ''acct-2'' pending_db = [pending_execution]"
    by (simp add: pending_executions_def t_select_def pending_db_def pending_execution_def filled_sample_def Let_def PENDING_STATUSES_def)
  then show ?thesis
    using reconciliation_covers_pending [of pending_session sample_user "''acct-2''" quiet_account demo_cipher _ "\<lambda>_. NoReply"]
      pending_sound pending_settled pending_account pending_credentials u
    by (auto simp: answers_objects_def pending_execution_def filled_sample_def Let_def)
qed

text \<open>Only a super administrator may have orders reconciled, only where testnet adapters are enabled, and
  only for an own, active testnet account whose trading is off; every other request is refused with 403, 409
  or 400, sends nothing and changes nothing.\<close>

theorem reconciliation_refusals:
  "(u_role user \<noteq> SUPER_ADMIN \<longrightarrow> reconcile_testnet_order_statuses c net adapters account_id user s =
      (Inl (HTTPException 403 [''super admin privileges required'']), s)) \<and>
   (u_role user = SUPER_ADMIN \<and> \<not> adapters \<longrightarrow> reconcile_testnet_order_statuses c net adapters account_id user s =
      (Inl (HTTPException 409 [''TESTNET_ADAPTERS_ENABLED must be true before this operation'']), s)) \<and>
   (u_role user = SUPER_ADMIN \<and> adapters
      \<and> (\<forall>a. find_owned_account (u_id user) account_id (work s) = Some a \<longrightarrow> \<not> reconcilable a) \<longrightarrow>
      reconcile_testnet_order_statuses c net adapters account_id user s =
      (Inl (HTTPException 400 [''testnet order reconciliation is blocked'']), s))"
proof -
  have "\<exists>m. reconcile_pending_testnet_orders c net (u_id user) account_id None s =
      (Inl (TestnetOrderReconciliationBlockedError m), s)"
    if none: "\<forall>a. find_owned_account (u_id user) account_id (work s) = Some a \<longrightarrow> \<not> reconcilable a"
  proof -
    obtain m where "reconcile_account (u_id user) account_id s = (Inl (TestnetOrderReconciliationBlockedError m), s)"
      by (cases "find_owned_account (u_id user) account_id (work s)") (use none in \<open>simp_all add: reconcile_account_apply\<close>)
    then show ?thesis
      by (simp add: reconcile_pending_testnet_orders_def bnd_Inl [where m = "reconcile_account _ _"])
  qed
  then show ?thesis
    by (auto simp: reconcile_testnet_order_statuses_def require_super_admin_def require_testnet_enabled_def bnd_def
        try_except_def reconciliation_blocked_def)
qed

theorem reconciliation_refusals_witness:
  "reconcile_testnet_order_statuses demo_cipher (\<lambda>_. NoReply) True ''acct-2'' sample_user sample_session =
     (Inl (HTTPException 400 [''testnet order reconciliation is blocked'']), sample_session)"
  using reconciliation_refusals [of sample_user demo_cipher "\<lambda>_. NoReply" True "''acct-2''" sample_session]
  by (simp add: sample_user_def find_owned_account_def t_find_def sample_db_def sample_account_def
      testnet_account_def reconcilable_def)

end
