(* ===== verification/Account_Sync.thy ===== *)
theory Account_Sync
  imports Testnet_Lifecycle
begin

text \<open>
  Balances and positions as an exchange reports them on the user stream: the classification of a
  message (\<open>services/testnet_user_stream_runtime.py\<close>), the validation of its numbers and the update of the
  rows (\<open>services/testnet_account_state_sync.py\<close>), and the handler that stores one event
  (\<open>services/testnet_user_stream_event_handler.py\<close>).
\<close>

section \<open>Kinds of messages\<close>

text \<open>Membership in a set display hashes the value first; lists and dictionaries cannot be hashed.\<close>

fun hashable :: "pyval \<Rightarrow> bool" where
  "hashable (PList _) = False"
| "hashable (PDict _) = False"
| "hashable _ = True"

definition in_set :: "pyval \<Rightarrow> pyval list \<Rightarrow> bool result" where
  "in_set v vs = (if hashable v then Inr (v \<in> set vs) else Inl TypeError)"

definition binance_event_type :: "pydict \<Rightarrow> stream_event_type result" where
  "binance_event_type payload =
     (let event_name = dict_get payload ''e'' in
      bndr (in_set event_name [PStr ''executionReport'', PStr ''listStatus'']) (\<lambda>order_event.
        if order_event then Inr ORDER_EVENT
        else bndr (in_set event_name [PStr ''outboundAccountPosition'', PStr ''balanceUpdate'']) (\<lambda>balance_event.
          if balance_event then Inr BALANCE_EVENT else Inr UNKNOWN_EVENT)))"

definition bybit_event_type :: "pydict \<Rightarrow> stream_event_type" where
  "bybit_event_type payload =
     (let topic = py_str (dict_get_or payload ''topic'' (PStr []))
      in if startswith topic ''order'' \<or> startswith topic ''execution'' then ORDER_EVENT
         else if startswith topic ''wallet'' then BALANCE_EVENT
         else if startswith topic ''position'' then POSITION_EVENT else UNKNOWN_EVENT)"

definition okx_event_type :: "pydict \<Rightarrow> stream_event_type" where
  "okx_event_type payload = (case dict_get payload ''arg'' of
      PDict arg \<Rightarrow>
        let channel = dict_get arg ''channel''
        in if channel = PStr ''orders'' then ORDER_EVENT
           else if channel = PStr ''account'' then BALANCE_EVENT
           else if channel = PStr ''positions'' then POSITION_EVENT else UNKNOWN_EVENT
    | _ \<Rightarrow> UNKNOWN_EVENT)"

definition event_type :: "exchange_name \<Rightarrow> pydict \<Rightarrow> stream_event_type result" where
  "event_type x payload = (case x of
      BINANCE \<Rightarrow> binance_event_type payload | BYBIT \<Rightarrow> Inr (bybit_event_type payload)
    | OKX \<Rightarrow> Inr (okx_event_type payload) | MOCK \<Rightarrow> Inr UNKNOWN_EVENT)"

definition parse_testnet_user_stream_event :: "exchange_name \<Rightarrow> pydict \<Rightarrow> stream_event result" where
  "parse_testnet_user_stream_event x payload =
     bndr (event_type x payload) (\<lambda>t.
       Inr \<lparr>ev_exchange_name = x, ev_event_type = t, ev_raw_payload = payload\<rparr>)"

section \<open>Validation\<close>

record balance_update =
  bu_asset :: string
  bu_available_quantity :: dec
  bu_locked_quantity :: dec
  bu_total_quantity :: dec

record position_update =
  pu_symbol :: string
  pu_quantity :: dec

datatype sync_status = IGNORED | SYNCED

record sync_result =
  sr_status :: sync_status
  sr_balances_synced :: nat
  sr_positions_synced :: nat

fun is_dict :: "pyval \<Rightarrow> bool" where
  "is_dict (PDict _) = True"
| "is_dict _ = False"

definition dict_list :: "pyval \<Rightarrow> string \<Rightarrow> pydict list result" where
  "dict_list v field = (case v of
      PList xs \<Rightarrow> if list_all is_dict xs then Inr (map mapping_or_empty xs)
        else Inl (TestnetAccountStateSyncError (field @ '' must be a list of objects''))
    | _ \<Rightarrow> Inl (TestnetAccountStateSyncError (field @ '' must be a list of objects'')))"

text \<open>\<open>str.isalnum\<close> on ASCII: letters outside it, which Python accepts, are refused here.\<close>

definition identifier_char :: "char \<Rightarrow> bool" where
  "identifier_char c \<longleftrightarrow> c \<in> set upper_letters \<union> set lower_letters \<union> set digit_chars \<or> c = CHR ''-'' \<or> c = CHR ''_''"

definition sync_identifier :: "pyval \<Rightarrow> string \<Rightarrow> string result" where
  "sync_identifier v field = (case v of
      PStr t \<Rightarrow>
        let normalized = upper (strip t)
        in if normalized = [] \<or> length normalized > 40 then Inl (TestnetAccountStateSyncError (field @ '' is invalid''))
           else if \<not> list_all identifier_char normalized then Inl (TestnetAccountStateSyncError (field @ '' is invalid''))
           else Inr normalized
    | _ \<Rightarrow> Inl (TestnetAccountStateSyncError (field @ '' must be a string'')))"

definition sync_quantity :: "pyval \<Rightarrow> string \<Rightarrow> bool \<Rightarrow> dec result" where
  "sync_quantity v field nonnegative = (case dec_parse (py_str v) of
      None \<Rightarrow> Inl (TestnetAccountStateSyncError (field @ '' must be numeric''))
    | Some (Finite q) \<Rightarrow>
        if dexp q < -10 then Inl (TestnetAccountStateSyncError (field @ '' exceeds database precision''))
        else if dtruthy q \<and> adjusted q \<ge> 18 then Inl (TestnetAccountStateSyncError (field @ '' exceeds database precision''))
        else if nonnegative \<and> dlt q dzero then Inl (TestnetAccountStateSyncError (field @ '' must not be negative''))
        else Inr q
    | Some _ \<Rightarrow> Inl (TestnetAccountStateSyncError (field @ '' must be finite'')))"

definition require_unique_keys :: "string list \<Rightarrow> string \<Rightarrow> unit result" where
  "require_unique_keys keys label = (if length keys \<noteq> length (remdups keys)
     then Inl (TestnetAccountStateSyncError (''event contains duplicate '' @ label)) else Inr ())"

definition binance_balance_update :: "pydict \<Rightarrow> balance_update result" where
  "binance_balance_update balance =
     bndr (sync_quantity (dict_get balance ''f'') ''free'' True) (\<lambda>available.
     bndr (sync_quantity (dict_get balance ''l'') ''locked'' True) (\<lambda>locked.
     bndr (sync_identifier (dict_get balance ''a'') ''asset'') (\<lambda>asset.
       Inr \<lparr>bu_asset = asset, bu_available_quantity = available, bu_locked_quantity = locked,
            bu_total_quantity = dadd available locked\<rparr>)))"

definition binance_balance_updates :: "pydict \<Rightarrow> balance_update list result" where
  "binance_balance_updates payload =
     bndr (dict_list (dict_get payload ''B'') ''B'') (map_res binance_balance_update)"

definition bybit_balance_update :: "pydict \<Rightarrow> balance_update result" where
  "bybit_balance_update coin =
     bndr (sync_quantity (dict_get coin ''walletBalance'') ''walletBalance'' True) (\<lambda>total.
     bndr (sync_quantity (dict_get_or coin ''locked'' (PStr ''0'')) ''locked'' True) (\<lambda>locked.
       if dlt total locked then Inl (TestnetAccountStateSyncError ''locked balance exceeds total balance'')
       else bndr (sync_identifier (dict_get coin ''coin'') ''coin'') (\<lambda>asset.
         Inr \<lparr>bu_asset = asset, bu_available_quantity = dsub total locked, bu_locked_quantity = locked,
              bu_total_quantity = total\<rparr>)))"

text \<open>The nested loops: the rows of every account of the message, in order.\<close>

definition nested_updates :: "string \<Rightarrow> (pydict \<Rightarrow> balance_update result) \<Rightarrow> pydict \<Rightarrow> balance_update list result" where
  "nested_updates inner f payload =
     bndr (dict_list (dict_get payload ''data'') ''data'') (\<lambda>accounts.
     bndr (map_res (\<lambda>account. bndr (dict_list (dict_get account inner) inner) (map_res f)) accounts) (\<lambda>updates.
       Inr (concat updates)))"

definition bybit_balance_updates :: "pydict \<Rightarrow> balance_update list result" where
  "bybit_balance_updates = nested_updates ''coin'' bybit_balance_update"

definition okx_balance_update :: "pydict \<Rightarrow> balance_update result" where
  "okx_balance_update detail =
     bndr (sync_quantity (dict_get detail ''availBal'') ''availBal'' True) (\<lambda>available.
     bndr (sync_quantity (dict_get_or detail ''frozenBal'' (PStr ''0'')) ''frozenBal'' True) (\<lambda>locked.
     bndr (sync_quantity (dict_get detail ''cashBal'') ''cashBal'' True) (\<lambda>total.
       if dlt total (dadd available locked)
       then Inl (TestnetAccountStateSyncError ''available and locked balance exceed total balance'')
       else bndr (sync_identifier (dict_get detail ''ccy'') ''ccy'') (\<lambda>asset.
         Inr \<lparr>bu_asset = asset, bu_available_quantity = available, bu_locked_quantity = locked,
              bu_total_quantity = total\<rparr>))))"

definition okx_balance_updates :: "pydict \<Rightarrow> balance_update list result" where
  "okx_balance_updates = nested_updates ''details'' okx_balance_update"

definition bybit_position_update :: "pydict \<Rightarrow> position_update result" where
  "bybit_position_update position =
     bndr (sync_quantity (dict_get position ''size'') ''size'' True) (\<lambda>size.
     let side = dict_get position ''side'' in
     bndr (if side = PStr ''Buy'' then Inr size
           else if side = PStr ''Sell'' then Inr (dminus size)
           else bndr (in_set side [PStr [], PNone]) (\<lambda>empty.
             if empty \<and> \<not> dtruthy size then Inr dzero
             else Inl (TestnetAccountStateSyncError ''Bybit position side is invalid''))) (\<lambda>quantity.
     bndr (sync_identifier (dict_get position ''symbol'') ''symbol'') (\<lambda>symbol.
       Inr \<lparr>pu_symbol = symbol, pu_quantity = quantity\<rparr>)))"

definition bybit_position_updates :: "pydict \<Rightarrow> position_update list result" where
  "bybit_position_updates payload =
     bndr (dict_list (dict_get payload ''data'') ''data'') (map_res bybit_position_update)"

definition okx_position_update :: "pydict \<Rightarrow> position_update result" where
  "okx_position_update position =
     bndr (sync_identifier (dict_get position ''instId'') ''instId'') (\<lambda>symbol.
     bndr (sync_quantity (dict_get position ''pos'') ''pos'' False) (\<lambda>quantity.
       Inr \<lparr>pu_symbol = symbol, pu_quantity = quantity\<rparr>))"

definition okx_position_updates :: "pydict \<Rightarrow> position_update list result" where
  "okx_position_updates payload =
     bndr (dict_list (dict_get payload ''data'') ''data'') (map_res okx_position_update)"

definition balance_updates :: "exchange_name \<Rightarrow> pydict \<Rightarrow> balance_update list result" where
  "balance_updates x payload =
     bndr (case x of
         BINANCE \<Rightarrow> binance_balance_updates payload | BYBIT \<Rightarrow> bybit_balance_updates payload
       | OKX \<Rightarrow> okx_balance_updates payload
       | MOCK \<Rightarrow> Inl (TestnetAccountStateSyncError ''balance event exchange is not supported'')) (\<lambda>updates.
     bndr (require_unique_keys (map bu_asset updates) ''asset'') (\<lambda>_.
       if updates = [] then Inl (TestnetAccountStateSyncError ''balance event contains no balances'') else Inr updates))"

definition position_updates :: "exchange_name \<Rightarrow> pydict \<Rightarrow> position_update list result" where
  "position_updates x payload =
     bndr (case x of
         BYBIT \<Rightarrow> bybit_position_updates payload | OKX \<Rightarrow> okx_position_updates payload
       | _ \<Rightarrow> Inl (TestnetAccountStateSyncError ''position event exchange is not supported'')) (\<lambda>updates.
     bndr (require_unique_keys (map pu_symbol updates) ''symbol'') (\<lambda>_.
       if updates = [] then Inl (TestnetAccountStateSyncError ''position event contains no positions'') else Inr updates))"

section \<open>Updating the rows\<close>

definition find_balance :: "string \<Rightarrow> string \<Rightarrow> string \<Rightarrow> db \<Rightarrow> balance option" where
  "find_balance user_id account_id asset d =
     t_find (\<lambda>b. ba_user_id b = user_id \<and> ba_exchange_account_id b = account_id \<and> ba_asset b = asset) (balances d)"

definition balance_key :: "balance \<Rightarrow> string \<times> string" where
  "balance_key b = (ba_exchange_account_id b, ba_asset b)"

definition set_balance :: "balance_update \<Rightarrow> balance \<Rightarrow> balance" where
  "set_balance update b = b\<lparr>ba_available_quantity := bu_available_quantity update,
     ba_locked_quantity := bu_locked_quantity update, ba_total_quantity := bu_total_quantity update\<rparr>"

definition upsert_balance :: "string \<Rightarrow> string \<Rightarrow> balance_update \<Rightarrow> unit op" where
  "upsert_balance user_id account_id update =
     bnd (query (find_balance user_id account_id (bu_asset update))) (\<lambda>found. case found of
       None \<Rightarrow> bnd new_uuid (\<lambda>i.
         upd (\<lambda>d. d\<lparr>balances := t_add (set_balance update \<lparr>ba_id = i, ba_user_id = user_id,
           ba_exchange_account_id = account_id, ba_asset = bu_asset update, ba_available_quantity = dzero,
           ba_locked_quantity = dzero, ba_total_quantity = dzero\<rparr>) (balances d)\<rparr>))
     | Some b \<Rightarrow> upd (\<lambda>d. d\<lparr>balances := t_put balance_key (set_balance update b) (balances d)\<rparr>))"

definition upsert_position :: "string \<Rightarrow> string \<Rightarrow> position_update \<Rightarrow> unit op" where
  "upsert_position user_id account_id update =
     bnd (query (find_position user_id account_id (pu_symbol update))) (\<lambda>found. case found of
       None \<Rightarrow> bnd new_uuid (\<lambda>i.
         upd (\<lambda>d. d\<lparr>positions := t_add \<lparr>po_id = i, po_user_id = user_id, po_exchange_account_id = account_id,
           po_symbol = pu_symbol update, po_quantity = pu_quantity update\<rparr> (positions d)\<rparr>))
     | Some p \<Rightarrow> upd (\<lambda>d. d\<lparr>positions := t_put position_key (p\<lparr>po_quantity := pu_quantity update\<rparr>) (positions d)\<rparr>))"

definition require_testnet_account :: "string \<Rightarrow> string \<Rightarrow> exchange_name \<Rightarrow> exchange_account op" where
  "require_testnet_account user_id account_id x =
     bnd (query (find_owned_account user_id account_id)) (\<lambda>account. case account of
       None \<Rightarrow> raise (TestnetAccountStateSyncError ''testnet exchange account was not found'')
     | Some a \<Rightarrow>
         if \<not> ea_is_active a then raise (TestnetAccountStateSyncError ''testnet exchange account is inactive'')
         else if ea_account_mode a \<noteq> TESTNET then raise (TestnetAccountStateSyncError ''account mode must be TESTNET'')
         else if ea_exchange_name a \<noteq> x then raise (TestnetAccountStateSyncError ''event exchange does not match account'')
         else ret a)"

definition sync_testnet_account_state_event :: "string \<Rightarrow> string \<Rightarrow> stream_event \<Rightarrow> sync_result op" where
  "sync_testnet_account_state_event user_id account_id event =
     bnd (require_testnet_account user_id account_id (ev_exchange_name event)) (\<lambda>_.
     case ev_event_type event of
       BALANCE_EVENT \<Rightarrow>
         bnd (lift_result (balance_updates (ev_exchange_name event) (ev_raw_payload event))) (\<lambda>updates.
         bnd (map_act (upsert_balance user_id account_id) updates) (\<lambda>_.
         bnd flush (\<lambda>_.
           ret \<lparr>sr_status = SYNCED, sr_balances_synced = length updates, sr_positions_synced = 0\<rparr>)))
     | POSITION_EVENT \<Rightarrow>
         bnd (lift_result (position_updates (ev_exchange_name event) (ev_raw_payload event))) (\<lambda>updates.
         bnd (map_act (upsert_position user_id account_id) updates) (\<lambda>_.
         bnd flush (\<lambda>_.
           ret \<lparr>sr_status = SYNCED, sr_balances_synced = 0, sr_positions_synced = length updates\<rparr>)))
     | _ \<Rightarrow> ret \<lparr>sr_status = IGNORED, sr_balances_synced = 0, sr_positions_synced = 0\<rparr>)"

section \<open>The handler\<close>

record handling_result =
  hr_order_result :: "lifecycle_result option"
  hr_state_event_processed :: bool

definition handle_event :: "string \<Rightarrow> string \<Rightarrow> stream_event \<Rightarrow> handling_result op" where
  "handle_event user_id account_id event =
     (if ev_event_type event = ORDER_EVENT
      then bnd (handle_user_stream_event user_id account_id event) (\<lambda>r.
        ret \<lparr>hr_order_result = Some r, hr_state_event_processed = False\<rparr>)
      else bnd (sync_testnet_account_state_event user_id account_id event) (\<lambda>state_result.
        bnd (if sr_status state_result = SYNCED then commit else ret ()) (\<lambda>_.
          ret \<lparr>hr_order_result = None, hr_state_event_processed = (sr_status state_result = SYNCED)\<rparr>)))"

section \<open>Books\<close>

text \<open>
  What an account holds, as a map from names to values: the rows of the owner, whether flushed or
  pending.
\<close>

definition book_of ::
    "('r \<Rightarrow> string) \<Rightarrow> ('r \<Rightarrow> string) \<Rightarrow> ('r \<Rightarrow> string) \<Rightarrow> ('r \<Rightarrow> 'v) \<Rightarrow> string \<Rightarrow> string \<Rightarrow> 'r list
     \<Rightarrow> string \<rightharpoonup> 'v" where
  "book_of usr acct nm vl u a xs = map_of (map (\<lambda>x. (nm x, vl x)) (filter (\<lambda>x. usr x = u \<and> acct x = a) xs))"

definition owned_only :: "('r \<Rightarrow> string) \<Rightarrow> ('r \<Rightarrow> string) \<Rightarrow> string \<Rightarrow> string \<Rightarrow> 'r list \<Rightarrow> bool" where
  "owned_only usr acct u a xs \<longleftrightarrow> (\<forall>x \<in> set xs. acct x = a \<longrightarrow> usr x = u)"

lemma map_of_replace:
  assumes "map_of ps k \<noteq> None"
  shows "map_of (map (\<lambda>p. if fst p = k then (k, v) else p) ps) = (map_of ps)(k \<mapsto> v)"
proof -
  have "map_of (map (\<lambda>p. if fst p = k then (k, v) else p) ps) j =
      (if j = k \<and> map_of ps k \<noteq> None then Some v else map_of ps j)" for j
    by (induction ps) auto
  with assms show ?thesis by (simp add: fun_eq_iff)
qed

lemma book_of_put:
  assumes own: "owned_only usr acct u a xs" and r: "usr r = u" "acct r = a"
    and "\<exists>x \<in> set xs. acct x = a \<and> nm x = nm r"
  shows "book_of usr acct nm vl u a (map (\<lambda>x. if (acct x, nm x) = (acct r, nm r) then r else x) xs) =
    (book_of usr acct nm vl u a xs)(nm r \<mapsto> vl r)" (is "book_of _ _ _ _ _ _ (map ?g xs) = _")
proof -
  let ?ps = "map (\<lambda>x. (nm x, vl x)) (filter (\<lambda>x. usr x = u \<and> acct x = a) xs)"
  have rows: "map (\<lambda>x. (nm x, vl x)) (filter (\<lambda>x. usr x = u \<and> acct x = a) (map ?g xs)) =
      map (\<lambda>p. if fst p = nm r then (nm r, vl r) else p) ?ps"
    using own by (induction xs) (auto simp: owned_only_def r)
  obtain x where x: "x \<in> set xs" "acct x = a" "nm x = nm r" using assms(4) by blast
  have "usr x = u" using own x by (simp add: owned_only_def)
  then have "(nm r, vl x) \<in> set ?ps" unfolding set_map using x by (intro image_eqI [of _ _ x]) simp_all
  then have "map_of ?ps (nm r) \<noteq> None" by (metis not_None_eq weak_map_of_SomeI)
  then show ?thesis unfolding book_of_def rows by (rule map_of_replace)
qed

lemma book_of_add:
  assumes "usr r = u" "acct r = a" and "\<forall>x \<in> set xs. acct x = a \<longrightarrow> nm x \<noteq> nm r"
  shows "book_of usr acct nm vl u a (xs @ [r]) = (book_of usr acct nm vl u a xs)(nm r \<mapsto> vl r)"
proof -
  have "nm r \<notin> dom (book_of usr acct nm vl u a xs)"
    using assms(3) by (auto simp: book_of_def dom_map_of_conv_image_fst)
  with assms(1,2) show ?thesis
    by (auto simp: book_of_def map_add_def fun_eq_iff domIff split: option.split)
qed

text \<open>
  The interface of a table that is updated row by row before one flush: \<open>book\<close> is what the table
  means, \<open>waiting\<close> the names of rows added since the last flush, which queries do not see.
\<close>

locale keyed_upsert =
  fixes book :: "db \<Rightarrow> string \<rightharpoonup> 'v" and waiting :: "db \<Rightarrow> string set"
    and upsert :: "'x \<Rightarrow> unit op" and key :: "'x \<Rightarrow> string" and val :: "'x \<Rightarrow> 'v"
    and ok :: "db \<Rightarrow> bool" and kept :: "session \<Rightarrow> session \<Rightarrow> bool"
  assumes upsert_one: "ok (work s) \<Longrightarrow> key x \<notin> waiting (work s) \<Longrightarrow>
      \<exists>s'. upsert x s = (Inr (), s') \<and> ok (work s') \<and> kept s s'
        \<and> book (work s') = (book (work s))(key x \<mapsto> val x) \<and> waiting (work s') \<subseteq> insert (key x) (waiting (work s))"
    and kept_refl: "kept s s"
    and kept_trans: "kept s s' \<Longrightarrow> kept s' s'' \<Longrightarrow> kept s s''"
begin

lemma upsert_all:
  assumes "ok (work s)" and "distinct (map key xs)" and "key ` set xs \<inter> waiting (work s) = {}"
  shows "\<exists>us s'. map_act upsert xs s = (Inr us, s') \<and> ok (work s') \<and> kept s s'
     \<and> book (work s') = book (work s) ++ map_of (map (\<lambda>x. (key x, val x)) xs)"
  using assms
proof (induction xs arbitrary: s)
  case Nil
  then show ?case by (simp add: kept_refl)
next
  case (Cons x xs)
  obtain s1 where s1: "upsert x s = (Inr (), s1)" "ok (work s1)" "kept s s1"
    "book (work s1) = (book (work s))(key x \<mapsto> val x)" "waiting (work s1) \<subseteq> insert (key x) (waiting (work s))"
    using upsert_one [of s x] Cons.prems by auto
  have "key y \<notin> waiting (work s1)" if y: "y \<in> set xs" for y
  proof -
    have "key y \<noteq> key x" using Cons.prems(2) y by (metis distinct.simps(2) image_eqI list.set_map list.simps(9))
    moreover have "key y \<notin> waiting (work s)" using Cons.prems(3) y by auto
    ultimately show ?thesis using s1(5) by blast
  qed
  then have free: "key ` set xs \<inter> waiting (work s1) = {}" by blast
  obtain us s2 where s2: "map_act upsert xs s1 = (Inr us, s2)" "ok (work s2)" "kept s1 s2"
    "book (work s2) = book (work s1) ++ map_of (map (\<lambda>x. (key x, val x)) xs)"
    using Cons.IH [OF s1(2) _ free] Cons.prems(2) by auto
  have "key x \<notin> dom (map_of (map (\<lambda>x. (key x, val x)) xs))"
    using Cons.prems(2) by (auto simp: dom_map_of_conv_image_fst)
  then have "book (work s2) = book (work s) ++ map_of (map (\<lambda>x. (key x, val x)) (x # xs))"
    using s1(4) s2(4) by (simp add: map_add_upd_left map_add_upd)
  moreover have "map_act upsert (x # xs) s = (Inr (() # us), s2)"
    by (simp add: bnd_Inr [where m = "upsert _", OF s1(1)] bnd_Inr [where m = "map_act _ _", OF s2(1)])
  ultimately show ?case using s2(2) kept_trans [OF s1(3) s2(3)] by blast
qed

end

lemma filter_put: "\<not> P r \<Longrightarrow> (\<And>x. key x = key r \<Longrightarrow> \<not> P x) \<Longrightarrow>
    filter P (map (\<lambda>x. if key x = key r then r else x) xs) = filter P xs"
  by (induction xs) auto

lemma keys_put: "map key (map (\<lambda>x. if key x = key r then r else x) xs) = map key xs"
  by auto

text \<open>
  A table with one row for each account and name, as the unique constraint of the schema demands,
  in which every row belongs to the owner of its account.
\<close>

locale owned_table =
  fixes tbl :: "db \<Rightarrow> 'r table" and set_tbl :: "'r table \<Rightarrow> db \<Rightarrow> db"
    and usr acct nm :: "'r \<Rightarrow> string" and vl :: "'r \<Rightarrow> 'v"
    and find_row :: "string \<Rightarrow> string \<Rightarrow> string \<Rightarrow> db \<Rightarrow> 'r option"
  assumes unique_set: "db_unique d \<Longrightarrow> db_unique (set_tbl t d) \<longleftrightarrow> distinct (map (\<lambda>r. (acct r, nm r)) (t_all t))"
    and unique_tbl: "db_unique d \<Longrightarrow> distinct (map (\<lambda>r. (acct r, nm r)) (t_all (tbl d)))"
    and find_row: "find_row u a k d = t_find (\<lambda>r. usr r = u \<and> acct r = a \<and> nm r = k) (tbl d)"
begin

lemma row_free:
  assumes own: "owned_only usr acct u a (t_all (tbl d))" and none: "find_row u a (nm r) d = None"
    and new: "nm r \<notin> nm ` {b \<in> set (pend (tbl d)). acct b = a}"
  shows "\<forall>y \<in> set (t_all (tbl d)). acct y = a \<longrightarrow> nm y \<noteq> nm r"
proof -
  have "\<forall>y \<in> set (pend (tbl d)). acct y = a \<longrightarrow> nm y \<noteq> nm r"
    using new by (metis (mono_tags, lifting) imageI mem_Collect_eq)
  moreover have "\<forall>y \<in> set (rows (tbl d)). acct y = a \<longrightarrow> nm y \<noteq> nm r"
    using none own by (auto simp: find_row t_find_def find_None_iff owned_only_def t_all_def)
  ultimately show ?thesis by (auto simp: t_all_def)
qed

lemma add_row:
  assumes un: "db_unique d" and own: "owned_only usr acct u a (t_all (tbl d))" and none: "find_row u a (nm r) d = None"
    and new: "nm r \<notin> nm ` {b \<in> set (pend (tbl d)). acct b = a}" and r: "usr r = u" "acct r = a"
  shows "db_unique (set_tbl (t_add r (tbl d)) d)" and "owned_only usr acct u a (t_all (t_add r (tbl d)))"
    and "book_of usr acct nm vl u a (t_all (t_add r (tbl d))) = (book_of usr acct nm vl u a (t_all (tbl d)))(nm r \<mapsto> vl r)"
    and "filter (\<lambda>b. acct b \<noteq> a) (t_all (t_add r (tbl d))) = filter (\<lambda>b. acct b \<noteq> a) (t_all (tbl d))"
    and "nm ` {b \<in> set (pend (t_add r (tbl d))). acct b = a} \<subseteq> insert (nm r) (nm ` {b \<in> set (pend (tbl d)). acct b = a})"
proof -
  note free = row_free [OF own none new]
  then have "(acct r, nm r) \<notin> (\<lambda>r. (acct r, nm r)) ` set (t_all (tbl d))" using r(2) by auto
  then show "db_unique (set_tbl (t_add r (tbl d)) d)" using un unique_tbl [OF un] by (simp add: unique_set)
  show "owned_only usr acct u a (t_all (t_add r (tbl d)))" using own r by (simp add: owned_only_def)
  show "book_of usr acct nm vl u a (t_all (t_add r (tbl d))) = (book_of usr acct nm vl u a (t_all (tbl d)))(nm r \<mapsto> vl r)"
    using book_of_add [of usr r u acct a "t_all (tbl d)" nm vl, OF r free] by simp
qed (use r in auto)

lemma put_row:
  assumes un: "db_unique d" and own: "owned_only usr acct u a (t_all (tbl d))" and some: "find_row u a (nm r) d = Some b"
    and r: "usr r = u" "acct r = a"
  shows "db_unique (set_tbl (t_put (\<lambda>r. (acct r, nm r)) r (tbl d)) d)"
    and "owned_only usr acct u a (t_all (t_put (\<lambda>r. (acct r, nm r)) r (tbl d)))"
    and "book_of usr acct nm vl u a (t_all (t_put (\<lambda>r. (acct r, nm r)) r (tbl d))) =
      (book_of usr acct nm vl u a (t_all (tbl d)))(nm r \<mapsto> vl r)"
    and "filter (\<lambda>b. acct b \<noteq> a) (t_all (t_put (\<lambda>r. (acct r, nm r)) r (tbl d))) = filter (\<lambda>b. acct b \<noteq> a) (t_all (tbl d))"
    and "nm ` {b \<in> set (pend (t_put (\<lambda>r. (acct r, nm r)) r (tbl d))). acct b = a} \<subseteq>
      insert (nm r) (nm ` {b \<in> set (pend (tbl d)). acct b = a})"
proof -
  let ?key = "\<lambda>r. (acct r, nm r)"
  show "db_unique (set_tbl (t_put ?key r (tbl d)) d)"
    by (simp only: unique_set [OF un] t_all_put keys_put [where key = ?key] unique_tbl [OF un])
  show "owned_only usr acct u a (t_all (t_put ?key r (tbl d)))"
    using own r(1) unfolding t_all_put by (auto simp: owned_only_def)
  have "\<exists>x \<in> set (t_all (tbl d)). acct x = a \<and> nm x = nm r"
    using some by (auto simp: find_row t_all_def dest: t_find_SomeD)
  from book_of_put [of usr acct u a "t_all (tbl d)" r nm vl, OF own r this]
  show "book_of usr acct nm vl u a (t_all (t_put ?key r (tbl d))) = (book_of usr acct nm vl u a (t_all (tbl d)))(nm r \<mapsto> vl r)"
    unfolding t_all_put .
  show "filter (\<lambda>b. acct b \<noteq> a) (t_all (t_put ?key r (tbl d))) = filter (\<lambda>b. acct b \<noteq> a) (t_all (tbl d))"
    unfolding t_all_put by (rule filter_put) (use r in auto)
qed (auto simp: t_put_def)

end

subsection \<open>Balances and positions\<close>

type_synonym holding = "dec \<times> dec \<times> dec"

definition holding_of :: "balance \<Rightarrow> holding" where
  "holding_of b = (ba_available_quantity b, ba_locked_quantity b, ba_total_quantity b)"

definition update_holding :: "balance_update \<Rightarrow> holding" where
  "update_holding b = (bu_available_quantity b, bu_locked_quantity b, bu_total_quantity b)"

interpretation balance_table: owned_table balances "\<lambda>t d. d\<lparr>balances := t\<rparr>" ba_user_id ba_exchange_account_id ba_asset
  holding_of find_balance
  by unfold_locales (simp_all add: db_unique_update find_balance_def, simp add: db_unique_def)

interpretation position_table: owned_table positions "\<lambda>t d. d\<lparr>positions := t\<rparr>" po_user_id po_exchange_account_id po_symbol
  po_quantity find_position
  by unfold_locales (simp_all add: db_unique_update find_position_def, simp add: db_unique_def)

definition balance_book :: "string \<Rightarrow> string \<Rightarrow> db \<Rightarrow> string \<rightharpoonup> holding" where
  "balance_book u a d = book_of ba_user_id ba_exchange_account_id ba_asset holding_of u a (t_all (balances d))"

definition position_book :: "string \<Rightarrow> string \<Rightarrow> db \<Rightarrow> string \<rightharpoonup> dec" where
  "position_book u a d = book_of po_user_id po_exchange_account_id po_symbol po_quantity u a (t_all (positions d))"

definition balances_ok :: "string \<Rightarrow> string \<Rightarrow> db \<Rightarrow> bool" where
  "balances_ok u a d \<longleftrightarrow> db_unique d \<and> owned_only ba_user_id ba_exchange_account_id u a (t_all (balances d))"

definition positions_ok :: "string \<Rightarrow> string \<Rightarrow> db \<Rightarrow> bool" where
  "positions_ok u a d \<longleftrightarrow> db_unique d \<and> owned_only po_user_id po_exchange_account_id u a (t_all (positions d))"

text \<open>Nothing but the rows of the one account changes.\<close>

definition balances_kept :: "string \<Rightarrow> session \<Rightarrow> session \<Rightarrow> bool" where
  "balances_kept a s s' \<longleftrightarrow> (work s')\<lparr>balances := t_empty\<rparr> = (work s)\<lparr>balances := t_empty\<rparr>
     \<and> saved s' = saved s \<and> wire s' = wire s \<and> outbox s' = outbox s
     \<and> filter (\<lambda>b. ba_exchange_account_id b \<noteq> a) (t_all (balances (work s'))) =
       filter (\<lambda>b. ba_exchange_account_id b \<noteq> a) (t_all (balances (work s)))"

definition positions_kept :: "string \<Rightarrow> session \<Rightarrow> session \<Rightarrow> bool" where
  "positions_kept a s s' \<longleftrightarrow> (work s')\<lparr>positions := t_empty\<rparr> = (work s)\<lparr>positions := t_empty\<rparr>
     \<and> saved s' = saved s \<and> wire s' = wire s \<and> outbox s' = outbox s
     \<and> filter (\<lambda>p. po_exchange_account_id p \<noteq> a) (t_all (positions (work s'))) =
       filter (\<lambda>p. po_exchange_account_id p \<noteq> a) (t_all (positions (work s)))"

interpretation balance_rows: keyed_upsert "balance_book u a"
  "\<lambda>d. ba_asset ` {b \<in> set (pend (balances d)). ba_exchange_account_id b = a}"
  "upsert_balance u a" bu_asset update_holding "balances_ok u a" "balances_kept a" for u a
proof
  fix s :: session and x :: balance_update
  assume ok: "balances_ok u a (work s)"
    and new: "bu_asset x \<notin> ba_asset ` {b \<in> set (pend (balances (work s))). ba_exchange_account_id b = a}"
  then have un: "db_unique (work s)" "owned_only ba_user_id ba_exchange_account_id u a (t_all (balances (work s)))"
    by (simp_all add: balances_ok_def)
  show "\<exists>s'. upsert_balance u a x s = (Inr (), s') \<and> balances_ok u a (work s') \<and> balances_kept a s s'
     \<and> balance_book u a (work s') = (balance_book u a (work s))(bu_asset x \<mapsto> update_holding x)
     \<and> ba_asset ` {b \<in> set (pend (balances (work s'))). ba_exchange_account_id b = a} \<subseteq>
       insert (bu_asset x) (ba_asset ` {b \<in> set (pend (balances (work s))). ba_exchange_account_id b = a})"
  proof (cases "find_balance u a (bu_asset x) (work s)")
    case None
    define r where "r = set_balance x \<lparr>ba_id = uuid_src s (uuid_next s), ba_user_id = u, ba_exchange_account_id = a,
      ba_asset = bu_asset x, ba_available_quantity = dzero, ba_locked_quantity = dzero, ba_total_quantity = dzero\<rparr>"
    have r: "ba_user_id r = u" "ba_exchange_account_id r = a" "ba_asset r = bu_asset x" "holding_of r = update_holding x"
      by (simp_all add: r_def set_balance_def holding_of_def update_holding_def)
    have "upsert_balance u a x s = (Inr (), s\<lparr>uuid_next := Suc (uuid_next s),
        work := (work s)\<lparr>balances := t_add r (balances (work s))\<rparr>\<rparr>)"
      using None by (simp add: upsert_balance_def r_def)
    then show ?thesis
      using balance_table.add_row [OF un, of r] None new r by (simp add: balances_ok_def balances_kept_def balance_book_def)
  next
    case (Some b)
    define r where "r = set_balance x b"
    have r: "ba_user_id r = u" "ba_exchange_account_id r = a" "ba_asset r = bu_asset x" "holding_of r = update_holding x"
      using Some by (auto simp: r_def set_balance_def holding_of_def update_holding_def find_balance_def dest: t_find_SomeD)
    have "upsert_balance u a x s = (Inr (), s\<lparr>work := (work s)\<lparr>balances := t_put balance_key r (balances (work s))\<rparr>\<rparr>)"
      using Some by (simp add: upsert_balance_def r_def)
    then show ?thesis
      using balance_table.put_row [OF un, of r b] Some r
      by (simp add: balances_ok_def balances_kept_def balance_book_def balance_key_def [abs_def])
  qed
qed (auto simp: balances_kept_def)

interpretation position_rows: keyed_upsert "position_book u a"
  "\<lambda>d. po_symbol ` {p \<in> set (pend (positions d)). po_exchange_account_id p = a}"
  "upsert_position u a" pu_symbol pu_quantity "positions_ok u a" "positions_kept a" for u a
proof
  fix s :: session and x :: position_update
  assume ok: "positions_ok u a (work s)"
    and new: "pu_symbol x \<notin> po_symbol ` {p \<in> set (pend (positions (work s))). po_exchange_account_id p = a}"
  then have un: "db_unique (work s)" "owned_only po_user_id po_exchange_account_id u a (t_all (positions (work s)))"
    by (simp_all add: positions_ok_def)
  show "\<exists>s'. upsert_position u a x s = (Inr (), s') \<and> positions_ok u a (work s') \<and> positions_kept a s s'
     \<and> position_book u a (work s') = (position_book u a (work s))(pu_symbol x \<mapsto> pu_quantity x)
     \<and> po_symbol ` {p \<in> set (pend (positions (work s'))). po_exchange_account_id p = a} \<subseteq>
       insert (pu_symbol x) (po_symbol ` {p \<in> set (pend (positions (work s))). po_exchange_account_id p = a})"
  proof (cases "find_position u a (pu_symbol x) (work s)")
    case None
    define r where "r = \<lparr>po_id = uuid_src s (uuid_next s), po_user_id = u, po_exchange_account_id = a,
      po_symbol = pu_symbol x, po_quantity = pu_quantity x\<rparr>"
    have r: "po_user_id r = u" "po_exchange_account_id r = a" "po_symbol r = pu_symbol x" "po_quantity r = pu_quantity x"
      by (simp_all add: r_def)
    have "upsert_position u a x s = (Inr (), s\<lparr>uuid_next := Suc (uuid_next s),
        work := (work s)\<lparr>positions := t_add r (positions (work s))\<rparr>\<rparr>)"
      using None by (simp add: upsert_position_def r_def)
    then show ?thesis
      using position_table.add_row [OF un, of r] None new r by (simp add: positions_ok_def positions_kept_def position_book_def)
  next
    case (Some p)
    define r where "r = p\<lparr>po_quantity := pu_quantity x\<rparr>"
    have r: "po_user_id r = u" "po_exchange_account_id r = a" "po_symbol r = pu_symbol x" "po_quantity r = pu_quantity x"
      using Some by (auto simp: r_def find_position_def dest: t_find_SomeD)
    have "upsert_position u a x s = (Inr (), s\<lparr>work := (work s)\<lparr>positions := t_put position_key r (positions (work s))\<rparr>\<rparr>)"
      using Some by (simp add: upsert_position_def r_def)
    then show ?thesis
      using position_table.put_row [OF un, of r p] Some r
      by (simp add: positions_ok_def positions_kept_def position_book_def position_key_def [abs_def])
  qed
qed (auto simp: positions_kept_def)

section \<open>What validation guarantees\<close>

text \<open>Rounding to 28 digits does not bring a sum of stored numbers that left the column's range back into it.\<close>

lemma dval_large:
  assumes "10 ^ n \<le> m" and "18 \<le> int n + f"
  shows "10 ^ 18 \<le> dval (Dec False m f)"
proof -
  have "(10::rat) powi 18 \<le> 10 powi (int n + f)" using assms(2) by (intro power_int_increasing) simp_all
  also have "\<dots> = 10 ^ n * 10 powi f" by (simp add: power_int_add)
  also have "\<dots> \<le> of_nat m * 10 powi f"
  proof (rule mult_right_mono)
    have "(of_nat (10 ^ n) :: rat) \<le> of_nat m" using assms(1) by (simp only: of_nat_le_iff)
    then show "(10::rat) ^ n \<le> of_nat m" by simp
  qed simp
  finally show ?thesis by (simp add: dval_def signed_coef_def)
qed

lemma div_half_even_ge: "10 ^ (n + k) \<le> c \<Longrightarrow> 10 ^ n \<le> div_half_even c k"
proof -
  assume "10 ^ (n + k) \<le> c"
  then have "10 ^ (n + k) div 10 ^ k \<le> c div 10 ^ k" by (rule div_le_mono)
  then have "10 ^ n \<le> c div 10 ^ k" by (simp add: power_add)
  also have "\<dots> \<le> div_half_even c k" by (simp add: div_half_even_def Let_def)
  finally show ?thesis .
qed

lemma fix28_large:
  assumes "e \<ge> -10" and "10 ^ 18 \<le> dval (Dec False c e)"
  shows "10 ^ 18 \<le> dval (fix28 (Dec False c e))"
proof (cases "num_len c \<le> 28")
  case True
  then have "fix28 (Dec False c e) = Dec False c e" by (simp add: fix28.simps prec_def)
  with assms(2) show ?thesis by simp
next
  case False
  define k where "k = num_len c - 28"
  have k: "0 < k" "num_len c - prec = k" using False by (simp_all add: k_def prec_def)
  have "\<not> num_len c \<le> 27 + k" using False by (simp add: k_def)
  then have "10 ^ (27 + k) \<le> c" using num_len_le_iff [of "27 + k" c] by simp
  then have q: "10 ^ 27 \<le> div_half_even c k" by (rule div_half_even_ge)
  show ?thesis
  proof (cases "num_len (div_half_even c k) > prec")
    case True
    then have "\<not> div_half_even c k < 10 ^ 28" using num_len_le_iff [of 28 "div_half_even c k"] by (simp add: prec_def)
    then have "10 ^ 28 div 10 \<le> div_half_even c k div 10" by (intro div_le_mono) simp
    then have "10 ^ 27 \<le> div_half_even c k div 10" by simp
    then have "10 ^ 18 \<le> dval (Dec False (div_half_even c k div 10) (e + int k + 1))"
      by (rule dval_large) (use assms(1) in simp)
    with True k show ?thesis by (simp add: fix28.simps Let_def)
  next
    case False
    have "10 ^ 18 \<le> dval (Dec False (div_half_even c k) (e + int k))"
      using k(1) assms(1) by (intro dval_large [OF q]) simp
    with False k show ?thesis by (simp add: fix28.simps Let_def)
  qed
qed

lemma dadd_in_range:
  assumes "dexp a \<ge> -10" "dexp b \<ge> -10" and nn: "0 \<le> dval a" "0 \<le> dval b" and small: "dval (dadd a b) < 10 ^ 18"
  shows "dval (dadd a b) = dval a + dval b"
proof (cases "dval a + dval b < 10 ^ 18")
  case True
  then show ?thesis using nn by (intro dadd_numeric(2) assms(1,2)) simp
next
  case False
  obtain neg c e where d: "dadd_exact a b = Dec neg c e" by (cases "dadd_exact a b")
  then have v: "dval (Dec neg c e) = dval a + dval b" using dval_dadd_exact [of a b] by simp
  have "e \<ge> -10" using assms(1,2) d by (auto simp: dadd_exact_def Let_def)
  moreover have "\<not> neg"
  proof
    assume neg
    then have "dval (Dec neg c e) \<le> 0" by (simp add: dval_def signed_coef_def)
    with v False show False by simp
  qed
  ultimately have "10 ^ 18 \<le> dval (dadd a b)" using fix28_large [of e c] v False by (simp add: dadd_def d)
  with small show ?thesis by simp
qed

lemma adjusted_small:
  assumes "dexp d \<ge> -10" and "\<not> (dtruthy d \<and> adjusted d \<ge> 18)"
  shows "numeric_28_10 d"
proof (cases "dtruthy d")
  case False
  then have zero: "dval d = 0" by (simp add: dtruthy_def)
  show ?thesis using assms(1) unfolding numeric_28_10_iff zero by simp
next
  case True
  then have n: "dexp d + int (num_len (dcoef d)) \<le> 18" using assms(2) by (simp add: adjusted_def)
  have "\<bar>dval d\<bar> = of_nat (dcoef d) * 10 powi dexp d" by (simp add: dval_def signed_coef_def abs_mult)
  also have "\<dots> < of_nat (10 ^ num_len (dcoef d)) * 10 powi dexp d"
    using num_len_bound [of "dcoef d"] by (intro mult_strict_right_mono) (simp_all only: of_nat_less_iff, simp)
  also have "\<dots> = 10 powi (dexp d + int (num_len (dcoef d)))" by (simp add: power_int_add mult.commute)
  also have "\<dots> \<le> 10 powi 18" using n by (intro power_int_increasing) simp_all
  finally show ?thesis using assms(1) by (simp add: numeric_28_10_iff)
qed

lemma sync_quantity_ok:
  assumes "sync_quantity v field nonneg = Inr q"
  shows "numeric_28_10 q" and "nonneg \<Longrightarrow> 0 \<le> dval q"
  using assms adjusted_small [of q]
  by (auto simp: sync_quantity_def dlt_dval not_less split: option.splits decimal.splits if_splits)

lemma map_res_image: "map_res f xs = Inr ys \<Longrightarrow> y \<in> set ys \<Longrightarrow> \<exists>x \<in> set xs. f x = Inr y"
  by (induction xs arbitrary: ys) auto

text \<open>What may be stored of a balance: parts that fit their columns, are not negative, and do not exceed the total.\<close>

definition sane_balance :: "balance_update \<Rightarrow> bool" where
  "sane_balance b \<longleftrightarrow> numeric_28_10 (bu_available_quantity b) \<and> numeric_28_10 (bu_locked_quantity b)
     \<and> 0 \<le> dval (bu_available_quantity b) \<and> 0 \<le> dval (bu_locked_quantity b)
     \<and> (numeric_28_10 (bu_total_quantity b) \<longrightarrow>
          dval (bu_available_quantity b) + dval (bu_locked_quantity b) \<le> dval (bu_total_quantity b))"

lemma numeric_exp: "numeric_28_10 d \<Longrightarrow> dexp d \<ge> -10"
  by (simp add: numeric_28_10_def)

lemma binance_sane: "binance_balance_update d = Inr b \<Longrightarrow> sane_balance b"
proof -
  assume "binance_balance_update d = Inr b"
  then obtain av lo where q: "sync_quantity (dict_get d ''f'') ''free'' True = Inr av"
      "sync_quantity (dict_get d ''l'') ''locked'' True = Inr lo"
    and b: "bu_available_quantity b = av" "bu_locked_quantity b = lo" "bu_total_quantity b = dadd av lo"
    by (auto simp: binance_balance_update_def)
  note n = sync_quantity_ok [OF q(1)] sync_quantity_ok [OF q(2)]
  have "dval av + dval lo \<le> dval (dadd av lo)" if "numeric_28_10 (dadd av lo)"
  proof -
    have "dval (dadd av lo) < 10 ^ 18" using that by (simp add: numeric_28_10_iff abs_less_iff)
    then show ?thesis using n by (subst dadd_in_range) (simp_all add: numeric_exp)
  qed
  with n show ?thesis by (simp add: sane_balance_def b)
qed

lemma bybit_sane: "bybit_balance_update d = Inr b \<Longrightarrow> sane_balance b \<and> numeric_28_10 (bu_total_quantity b)"
proof -
  assume "bybit_balance_update d = Inr b"
  then obtain tot lo where q: "sync_quantity (dict_get d ''walletBalance'') ''walletBalance'' True = Inr tot"
      "sync_quantity (dict_get_or d ''locked'' (PStr ''0'')) ''locked'' True = Inr lo" and le: "\<not> dlt tot lo"
    and b: "bu_available_quantity b = dsub tot lo" "bu_locked_quantity b = lo" "bu_total_quantity b = tot"
    by (auto simp: bybit_balance_update_def split: if_splits)
  note n = sync_quantity_ok [OF q(1)] sync_quantity_ok [OF q(2)]
  have "dval lo \<le> dval tot" using le by (simp add: dlt_dval)
  then have "\<bar>dval tot - dval lo\<bar> < 10 ^ 18" using n by (auto simp: numeric_28_10_iff abs_less_iff)
  from dsub_numeric [OF _ _ this] n \<open>dval lo \<le> dval tot\<close> show ?thesis
    by (simp add: sane_balance_def b numeric_exp)
qed

lemma okx_sane: "okx_balance_update d = Inr b \<Longrightarrow> sane_balance b \<and> numeric_28_10 (bu_total_quantity b)"
proof -
  assume "okx_balance_update d = Inr b"
  then obtain av lo tot where q: "sync_quantity (dict_get d ''availBal'') ''availBal'' True = Inr av"
      "sync_quantity (dict_get_or d ''frozenBal'' (PStr ''0'')) ''frozenBal'' True = Inr lo"
      "sync_quantity (dict_get d ''cashBal'') ''cashBal'' True = Inr tot" and le: "\<not> dlt tot (dadd av lo)"
    and b: "bu_available_quantity b = av" "bu_locked_quantity b = lo" "bu_total_quantity b = tot"
    by (auto simp: okx_balance_update_def split: if_splits)
  note n = sync_quantity_ok [OF q(1)] sync_quantity_ok [OF q(2)] sync_quantity_ok [OF q(3)]
  have le': "dval (dadd av lo) \<le> dval tot" using le by (simp add: dlt_dval)
  also have "\<dots> < 10 ^ 18" using n(5) by (simp add: numeric_28_10_iff abs_less_iff)
  finally have "dval (dadd av lo) = dval av + dval lo" using n by (intro dadd_in_range) (simp_all add: numeric_exp)
  with n le' show ?thesis by (simp add: sane_balance_def b)
qed

lemma nested_updates_image:
  assumes "nested_updates inner f payload = Inr ups" and "b \<in> set ups"
  shows "\<exists>d. f d = Inr b"
proof -
  obtain accounts uss where "map_res (\<lambda>account. bndr (dict_list (dict_get account inner) inner) (map_res f)) accounts = Inr uss"
    and ups: "ups = concat uss" using assms(1) by (auto simp: nested_updates_def)
  moreover obtain us where "us \<in> set uss" "b \<in> set us" using assms(2) ups by auto
  ultimately show ?thesis by (auto dest!: map_res_image)
qed

lemma unique_keys_distinct: "require_unique_keys ks label = Inr x \<Longrightarrow> distinct ks"
  by (auto simp: require_unique_keys_def split: if_splits) (metis distinct_remdups length_remdups_eq)

lemma balance_updates_keys: "balance_updates x payload = Inr ups \<Longrightarrow> distinct (map bu_asset ups) \<and> ups \<noteq> []"
  by (auto simp: balance_updates_def dest: unique_keys_distinct split: if_splits)

lemma position_updates_keys: "position_updates x payload = Inr ups \<Longrightarrow> distinct (map pu_symbol ups) \<and> ups \<noteq> []"
  by (auto simp: position_updates_def dest: unique_keys_distinct split: if_splits)

lemma balance_updates_sane:
  assumes "balance_updates x payload = Inr ups" and "b \<in> set ups"
  shows "sane_balance b \<and> (x \<noteq> BINANCE \<longrightarrow> numeric_28_10 (bu_total_quantity b))"
proof (cases x)
  case BINANCE
  then obtain ds where "map_res binance_balance_update ds = Inr ups"
    using assms(1) by (auto simp: balance_updates_def binance_balance_updates_def split: if_splits)
  from map_res_image [OF this assms(2)] BINANCE show ?thesis by (auto dest: binance_sane)
next
  case BYBIT
  then have "nested_updates ''coin'' bybit_balance_update payload = Inr ups"
    using assms(1) by (auto simp: balance_updates_def bybit_balance_updates_def split: if_splits)
  from nested_updates_image [OF this assms(2)] show ?thesis by (auto dest: bybit_sane)
next
  case OKX
  then have "nested_updates ''details'' okx_balance_update payload = Inr ups"
    using assms(1) by (auto simp: balance_updates_def okx_balance_updates_def split: if_splits)
  from nested_updates_image [OF this assms(2)] show ?thesis by (auto dest: okx_sane)
next
  case MOCK
  with assms(1) show ?thesis by (simp add: balance_updates_def)
qed

section \<open>Running an event\<close>

definition admits_event :: "string \<Rightarrow> string \<Rightarrow> exchange_name \<Rightarrow> db \<Rightarrow> bool" where
  "admits_event u a x d \<longleftrightarrow> (\<exists>acc. find_owned_account u a d = Some acc \<and> ea_is_active acc
     \<and> ea_account_mode acc = TESTNET \<and> ea_exchange_name acc = x)"

lemma require_testnet_account_run: "admits_event u a x (work s) \<Longrightarrow> \<exists>acc. require_testnet_account u a x s = (Inr acc, s)"
  by (auto simp: admits_event_def require_testnet_account_def)

lemma commit_flushed: "db_unique (work s) \<Longrightarrow> commit (s\<lparr>work := db_flush (work s)\<rparr>) =
    (Inr (), s\<lparr>work := db_flush (work s), saved := db_flush (work s)\<rparr>)"
  by (simp add: commit_apply)

lemma handle_balance_run:
  assumes s: "settled (work s)" and ok: "balances_ok u a (work s)" and ad: "admits_event u a (ev_exchange_name ev) (work s)"
    and t: "ev_event_type ev = BALANCE_EVENT" and ups: "balance_updates (ev_exchange_name ev) (ev_raw_payload ev) = Inr ups"
  obtains s1 where "handle_event u a ev s = (Inr \<lparr>hr_order_result = None, hr_state_event_processed = True\<rparr>,
      s1\<lparr>work := db_flush (work s1), saved := db_flush (work s1)\<rparr>)" "db_unique (work s1)" "balances_kept a s s1"
    "balance_book u a (work s1) = balance_book u a (work s) ++ map_of (map (\<lambda>b. (bu_asset b, update_holding b)) ups)"
proof -
  have "bu_asset ` set ups \<inter> ba_asset ` {b \<in> set (pend (balances (work s))). ba_exchange_account_id b = a} = {}"
    using settled_pend(7) [OF s] by simp
  from balance_rows.upsert_all [OF ok _ this] balance_updates_keys [OF ups]
  obtain us s1 where m: "map_act (upsert_balance u a) ups s = (Inr us, s1)" "balances_ok u a (work s1)" "balances_kept a s s1"
    "balance_book u a (work s1) = balance_book u a (work s) ++ map_of (map (\<lambda>b. (bu_asset b, update_holding b)) ups)" by blast
  have un: "db_unique (work s1)" using m(2) by (simp add: balances_ok_def)
  obtain acc where acc: "require_testnet_account u a (ev_exchange_name ev) s = (Inr acc, s)"
    using require_testnet_account_run [OF ad] by blast
  have "handle_event u a ev s = (Inr \<lparr>hr_order_result = None, hr_state_event_processed = True\<rparr>,
      s1\<lparr>work := db_flush (work s1), saved := db_flush (work s1)\<rparr>)"
    using un t ups by (simp add: handle_event_def sync_testnet_account_state_event_def bnd_assoc
        bnd_Inr [where m = "require_testnet_account _ _ _", OF acc] bnd_Inr [where m = "map_act _ _", OF m(1)]
        bnd_flush bnd_commit)
  then show thesis using that un m(3,4) by blast
qed

lemma handle_position_run:
  assumes s: "settled (work s)" and ok: "positions_ok u a (work s)" and ad: "admits_event u a (ev_exchange_name ev) (work s)"
    and t: "ev_event_type ev = POSITION_EVENT" and ups: "position_updates (ev_exchange_name ev) (ev_raw_payload ev) = Inr ups"
  obtains s1 where "handle_event u a ev s = (Inr \<lparr>hr_order_result = None, hr_state_event_processed = True\<rparr>,
      s1\<lparr>work := db_flush (work s1), saved := db_flush (work s1)\<rparr>)" "db_unique (work s1)" "positions_kept a s s1"
    "position_book u a (work s1) = position_book u a (work s) ++ map_of (map (\<lambda>p. (pu_symbol p, pu_quantity p)) ups)"
proof -
  have "pu_symbol ` set ups \<inter> po_symbol ` {p \<in> set (pend (positions (work s))). po_exchange_account_id p = a} = {}"
    using settled_pend(8) [OF s] by simp
  from position_rows.upsert_all [OF ok _ this] position_updates_keys [OF ups]
  obtain us s1 where m: "map_act (upsert_position u a) ups s = (Inr us, s1)" "positions_ok u a (work s1)" "positions_kept a s s1"
    "position_book u a (work s1) = position_book u a (work s) ++ map_of (map (\<lambda>p. (pu_symbol p, pu_quantity p)) ups)" by blast
  have un: "db_unique (work s1)" using m(2) by (simp add: positions_ok_def)
  obtain acc where acc: "require_testnet_account u a (ev_exchange_name ev) s = (Inr acc, s)"
    using require_testnet_account_run [OF ad] by blast
  have "handle_event u a ev s = (Inr \<lparr>hr_order_result = None, hr_state_event_processed = True\<rparr>,
      s1\<lparr>work := db_flush (work s1), saved := db_flush (work s1)\<rparr>)"
    using un t ups by (simp add: handle_event_def sync_testnet_account_state_event_def bnd_assoc
        bnd_Inr [where m = "require_testnet_account _ _ _", OF acc] bnd_Inr [where m = "map_act _ _", OF m(1)]
        bnd_flush bnd_commit)
  then show thesis using that un m(3,4) by blast
qed

lemma flush_erased:
  assumes "settled (work s)"
  shows "balances_kept a s s1 \<Longrightarrow> (db_flush (work s1))\<lparr>balances := t_empty\<rparr> = (work s)\<lparr>balances := t_empty\<rparr>"
    and "positions_kept a s s1 \<Longrightarrow> (db_flush (work s1))\<lparr>positions := t_empty\<rparr> = (work s)\<lparr>positions := t_empty\<rparr>"
proof -
  have e: "t_flush t_empty = t_empty" by (simp add: t_flush_def t_empty_def t_all_def)
  show "(db_flush (work s1))\<lparr>balances := t_empty\<rparr> = (work s)\<lparr>balances := t_empty\<rparr>" if "balances_kept a s s1"
    using that db_flush_update(7) [where d = "work s1" and ?t6.0 = t_empty] db_flush_update(7) [where d = "work s" and ?t6.0 = t_empty] settledD(1) [OF assms]
    by (simp add: balances_kept_def e)
  show "(db_flush (work s1))\<lparr>positions := t_empty\<rparr> = (work s)\<lparr>positions := t_empty\<rparr>" if "positions_kept a s s1"
    using that db_flush_update(8) [where d = "work s1" and ?t7.0 = t_empty] db_flush_update(8) [where d = "work s" and ?t7.0 = t_empty] settledD(1) [OF assms]
    by (simp add: positions_kept_def e)
qed

lemma book_of_other:
  assumes "filter (\<lambda>x. acct x \<noteq> a) xs = filter (\<lambda>x. acct x \<noteq> a) ys" and "c \<noteq> a"
  shows "book_of usr acct nm vl v c xs = book_of usr acct nm vl v c ys"
proof -
  have "filter (\<lambda>x. usr x = v \<and> acct x = c) zs = filter (\<lambda>x. usr x = v \<and> acct x = c) (filter (\<lambda>x. acct x \<noteq> a) zs)" for zs
    unfolding filter_filter using assms(2) by (intro filter_cong) auto
  then have "book_of usr acct nm vl v c zs = map_of (map (\<lambda>x. (nm x, vl x))
      (filter (\<lambda>x. usr x = v \<and> acct x = c) (filter (\<lambda>x. acct x \<noteq> a) zs)))" for zs
    by (simp only: book_of_def)
  then show ?thesis by (simp only: assms(1))
qed

lemma map_act_returns: "(\<And>x s. \<exists>s'. f x s = (Inr (), s')) \<Longrightarrow> \<exists>us s'. map_act f xs s = (Inr us, s')"
proof (induction xs arbitrary: s)
  case (Cons x xs)
  obtain s1 where x: "f x s = (Inr (), s1)" using Cons.prems by blast
  obtain us s2 where "map_act f xs s1 = (Inr us, s2)" using Cons by blast
  then show ?case by (simp add: bnd_Inr [where m = "f _", OF x] bnd_Inr [where m = "map_act _ _"])
qed simp

lemma upserts_return:
  "\<exists>us s'. map_act (upsert_balance u a) bs s = (Inr us, s')" "\<exists>us s'. map_act (upsert_position u a) ps s = (Inr us, s')"
proof -
  have "\<exists>s'. upsert_balance u a x s = (Inr (), s')" for x s
    by (simp add: upsert_balance_def split: option.split)
  then show "\<exists>us s'. map_act (upsert_balance u a) bs s = (Inr us, s')" by (rule map_act_returns)
  have "\<exists>s'. upsert_position u a x s = (Inr (), s')" for x s
    by (simp add: upsert_position_def split: option.split)
  then show "\<exists>us s'. map_act (upsert_position u a) ps s = (Inr us, s')" by (rule map_act_returns)
qed

lemma require_testnet_account_same: "require_testnet_account u a x s = (r, s') \<Longrightarrow> s' = s"
  by (auto simp: require_testnet_account_def split: option.splits if_splits)

lemma refused_sync:
  assumes run: "handle_event u a ev s = (Inl e, s')" and t: "ev_event_type ev \<noteq> ORDER_EVENT" and e: "e \<noteq> IntegrityError"
  shows "s' = s"
proof (cases "require_testnet_account u a (ev_exchange_name ev) s")
  case (Pair r s0)
  then have "s0 = s" by (rule require_testnet_account_same)
  show ?thesis
  proof (cases r)
    case (Inl x)
    with run t Pair \<open>s0 = s\<close> show ?thesis
      by (simp add: handle_event_def sync_testnet_account_state_event_def bnd_assoc bnd_Inl [where m = "require_testnet_account _ _ _"])
  next
    case (Inr acc)
    then have acc: "require_testnet_account u a (ev_exchange_name ev) s = (Inr acc, s)" using Pair \<open>s0 = s\<close> by simp
    note start = handle_event_def sync_testnet_account_state_event_def bnd_assoc bnd_Inr [where m = "require_testnet_account _ _ _", OF acc]
    show ?thesis
    proof (cases "ev_event_type ev")
      case BALANCE_EVENT
      then show ?thesis
      proof (cases "balance_updates (ev_exchange_name ev) (ev_raw_payload ev)")
        case (Inr ups)
        obtain us s1 where m: "map_act (upsert_balance u a) ups s = (Inr us, s1)" using upserts_return(1) by blast
        from run BALANCE_EVENT Inr e show ?thesis
          by (auto simp: start bnd_Inr [where m = "map_act _ _", OF m] bnd_flush bnd_commit split: if_splits)
      qed (use run in \<open>simp add: start\<close>)
    next
      case POSITION_EVENT
      then show ?thesis
      proof (cases "position_updates (ev_exchange_name ev) (ev_raw_payload ev)")
        case (Inr ups)
        obtain us s1 where m: "map_act (upsert_position u a) ups s = (Inr us, s1)" using upserts_return(2) by blast
        from run POSITION_EVENT Inr e show ?thesis
          by (auto simp: start bnd_Inr [where m = "map_act _ _", OF m] bnd_flush bnd_commit split: if_splits)
      qed (use run in \<open>simp add: start\<close>)
    qed (use run t in \<open>simp_all add: start\<close>)
  qed
qed

section \<open>Properties\<close>

text \<open>C31: A balance or position event of the user stream is a map update: after it the account holds exactly
  what the message says of the assets or symbols it names, and what it held before of every other. The change
  is committed, and no row of another account and no other table is touched.\<close>

theorem state_event_updates_book:
  assumes s: "settled (work s)" and ad: "admits_event u a (ev_exchange_name ev) (work s)"
    and b: "balances_ok u a (work s)" and p: "positions_ok u a (work s)"
  shows
    "(\<forall>ups. ev_event_type ev = BALANCE_EVENT \<and> balance_updates (ev_exchange_name ev) (ev_raw_payload ev) = Inr ups \<longrightarrow>
       (\<exists>r s'. handle_event u a ev s = (Inr r, s') \<and> hr_state_event_processed r \<and> saved s' = work s'
          \<and> balance_book u a (work s') = balance_book u a (work s) ++ map_of (map (\<lambda>b. (bu_asset b, update_holding b)) ups)
          \<and> (\<forall>v c. c \<noteq> a \<longrightarrow> balance_book v c (work s') = balance_book v c (work s))
          \<and> (work s')\<lparr>balances := t_empty\<rparr> = (work s)\<lparr>balances := t_empty\<rparr>)) \<and>
     (\<forall>ups. ev_event_type ev = POSITION_EVENT \<and> position_updates (ev_exchange_name ev) (ev_raw_payload ev) = Inr ups \<longrightarrow>
       (\<exists>r s'. handle_event u a ev s = (Inr r, s') \<and> hr_state_event_processed r \<and> saved s' = work s'
          \<and> position_book u a (work s') = position_book u a (work s) ++ map_of (map (\<lambda>p. (pu_symbol p, pu_quantity p)) ups)
          \<and> (\<forall>v c. c \<noteq> a \<longrightarrow> position_book v c (work s') = position_book v c (work s))
          \<and> (work s')\<lparr>positions := t_empty\<rparr> = (work s)\<lparr>positions := t_empty\<rparr>))"
proof (intro conjI allI impI; elim conjE)
  fix ups
  assume t: "ev_event_type ev = BALANCE_EVENT" and ups: "balance_updates (ev_exchange_name ev) (ev_raw_payload ev) = Inr ups"
  obtain s1 where r: "handle_event u a ev s = (Inr \<lparr>hr_order_result = None, hr_state_event_processed = True\<rparr>,
      s1\<lparr>work := db_flush (work s1), saved := db_flush (work s1)\<rparr>)" "db_unique (work s1)" "balances_kept a s s1"
    "balance_book u a (work s1) = balance_book u a (work s) ++ map_of (map (\<lambda>b. (bu_asset b, update_holding b)) ups)"
    by (rule handle_balance_run [OF s b ad t ups])
  have "balance_book v c (db_flush (work s1)) = balance_book v c (work s)" if "c \<noteq> a" for v c
    using r(3) unfolding balance_book_def by (intro book_of_other [OF _ that]) (simp add: balances_kept_def)
  with r(1,4) flush_erased(1) [OF s r(3)]
  show "\<exists>r s'. handle_event u a ev s = (Inr r, s') \<and> hr_state_event_processed r \<and> saved s' = work s'
      \<and> balance_book u a (work s') = balance_book u a (work s) ++ map_of (map (\<lambda>b. (bu_asset b, update_holding b)) ups)
      \<and> (\<forall>v c. c \<noteq> a \<longrightarrow> balance_book v c (work s') = balance_book v c (work s))
      \<and> (work s')\<lparr>balances := t_empty\<rparr> = (work s)\<lparr>balances := t_empty\<rparr>"
    by (simp add: balance_book_def)
next
  fix ups
  assume t: "ev_event_type ev = POSITION_EVENT" and ups: "position_updates (ev_exchange_name ev) (ev_raw_payload ev) = Inr ups"
  obtain s1 where r: "handle_event u a ev s = (Inr \<lparr>hr_order_result = None, hr_state_event_processed = True\<rparr>,
      s1\<lparr>work := db_flush (work s1), saved := db_flush (work s1)\<rparr>)" "db_unique (work s1)" "positions_kept a s s1"
    "position_book u a (work s1) = position_book u a (work s) ++ map_of (map (\<lambda>p. (pu_symbol p, pu_quantity p)) ups)"
    by (rule handle_position_run [OF s p ad t ups])
  have "position_book v c (db_flush (work s1)) = position_book v c (work s)" if "c \<noteq> a" for v c
    using r(3) unfolding position_book_def by (intro book_of_other [OF _ that]) (simp add: positions_kept_def)
  with r(1,4) flush_erased(2) [OF s r(3)]
  show "\<exists>r s'. handle_event u a ev s = (Inr r, s') \<and> hr_state_event_processed r \<and> saved s' = work s'
      \<and> position_book u a (work s') = position_book u a (work s) ++ map_of (map (\<lambda>p. (pu_symbol p, pu_quantity p)) ups)
      \<and> (\<forall>v c. c \<noteq> a \<longrightarrow> position_book v c (work s') = position_book v c (work s))
      \<and> (work s')\<lparr>positions := t_empty\<rparr> = (work s)\<lparr>positions := t_empty\<rparr>"
    by (simp add: position_book_def)
qed

definition bybit_sample_db :: db where
  "bybit_sample_db = sample_db\<lparr>accounts := \<lparr>rows = [testnet_account\<lparr>ea_exchange_name := BYBIT\<rparr>], pend = []\<rparr>\<rparr>"

definition wallet_event :: stream_event where
  "wallet_event = \<lparr>ev_exchange_name = BYBIT, ev_event_type = BALANCE_EVENT, ev_raw_payload =
     [(''topic'', PStr ''wallet''), (''data'', PList [PDict [(''coin'', PList [PDict
       [(''coin'', PStr ''usdt''), (''walletBalance'', PStr ''12.5''), (''locked'', PStr ''2'')]])]])]\<rparr>"

lemma wallet_event_updates:
  "balance_updates BYBIT (ev_raw_payload wallet_event) = Inr [\<lparr>bu_asset = ''USDT'', bu_available_quantity = Dec False 105 (-1),
     bu_locked_quantity = Dec False 2 0, bu_total_quantity = Dec False 125 (-1)\<rparr>]"
  by code_simp

theorem state_event_updates_book_witness:
  "\<exists>r s'. handle_event ''alice'' ''acct-2'' wallet_event (sample_session\<lparr>work := bybit_sample_db\<rparr>) = (Inr r, s')
     \<and> balance_book ''alice'' ''acct-2'' (saved s') =
        [''USDT'' \<mapsto> (Dec False 105 (-1), Dec False 2 0, Dec False 125 (-1))]"
proof -
  let ?s = "sample_session\<lparr>work := bybit_sample_db\<rparr>"
  have s: "settled (work ?s)"
    using sample_settled by (simp add: bybit_sample_db_def settled_def db_flush_update t_flush_def t_all_def)
  have ad: "admits_event ''alice'' ''acct-2'' (ev_exchange_name wallet_event) (work ?s)"
    by (simp add: admits_event_def wallet_event_def find_owned_account_def t_find_def bybit_sample_db_def testnet_account_def)
  have ok: "balances_ok ''alice'' ''acct-2'' (work ?s)" "positions_ok ''alice'' ''acct-2'' (work ?s)"
    using settledD(2) [OF s] by (simp_all add: balances_ok_def positions_ok_def owned_only_def bybit_sample_db_def)
  have "balance_book ''alice'' ''acct-2'' bybit_sample_db = Map.empty"
    by (simp add: balance_book_def book_of_def bybit_sample_db_def)
  moreover have *: "ev_exchange_name wallet_event = BYBIT" and "ev_event_type wallet_event = BALANCE_EVENT"
    by (simp_all add: wallet_event_def)
  ultimately show ?thesis
    using state_event_updates_book [OF s ad ok, THEN conjunct1, rule_format, OF conjI [OF _ wallet_event_updates [folded *]]]
    by (auto simp: update_holding_def)
qed

section \<open>Stored balances\<close>

text \<open>
  What is kept of a stored balance: its parts fit their columns, are not negative and do not exceed the
  total where the total fits its column. The total of an account that is not on Binance does fit. (Of a
  Binance account the total is a sum the code computes without a check.)
\<close>

definition sane_row :: "balance \<Rightarrow> bool" where
  "sane_row b \<longleftrightarrow> numeric_28_10 (ba_available_quantity b) \<and> numeric_28_10 (ba_locked_quantity b)
     \<and> 0 \<le> dval (ba_available_quantity b) \<and> 0 \<le> dval (ba_locked_quantity b)
     \<and> (numeric_28_10 (ba_total_quantity b) \<longrightarrow>
          dval (ba_available_quantity b) + dval (ba_locked_quantity b) \<le> dval (ba_total_quantity b))"

definition balances_sane :: db_pred where
  "balances_sane u n d \<longleftrightarrow> (\<forall>b \<in> set (t_all (balances d)). sane_row b
     \<and> (\<forall>a \<in> set (t_all (accounts d)). ea_id a = ba_exchange_account_id b \<longrightarrow> ea_exchange_name a \<noteq> BINANCE
          \<longrightarrow> numeric_28_10 (ba_total_quantity b)))
     \<and> distinct (map ea_id (t_all (accounts d)))"

interpretation sane: db_invariant balances_sane
  by unfold_locales (simp_all add: balances_sane_def)

lemma sane_frame:
  assumes "\<And>d. balances (f d) = balances d" and "\<And>d. accounts (f d) = accounts d"
  shows "preserves balances_sane (upd f)"
  by (rule preserves_upd) (simp add: balances_sane_def assms)

interpretation sane_orders: order_effects balances_sane
proof
  show "preserves balances_sane (transition_order_execution eid b reason details)" for eid b reason details
    unfolding transition_order_execution_def put_execution_def add_transition_def Let_def
    by (intro preserves_rules sane_frame) simp_all
  show "preserves balances_sane (modify_execution eid f)" for eid f
    unfolding modify_execution_def put_execution_def by (intro preserves_rules sane_frame) simp_all
  show "preserves balances_sane (upd (\<lambda>d. d\<lparr>audits := t_add l (audits d)\<rparr>))" for l
    by (rule sane_frame) simp_all
qed

text \<open>An update may be stored for account \<open>a\<close> on exchange \<open>x\<close>.\<close>

definition storable :: "exchange_name \<Rightarrow> balance_update \<Rightarrow> bool" where
  "storable x b \<longleftrightarrow> sane_balance b \<and> (x \<noteq> BINANCE \<longrightarrow> numeric_28_10 (bu_total_quantity b))"

definition account_is :: "string \<Rightarrow> exchange_name \<Rightarrow> db \<Rightarrow> bool" where
  "account_is a x d \<longleftrightarrow> (\<forall>acc \<in> set (t_all (accounts d)). ea_id acc = a \<longrightarrow> ea_exchange_name acc = x)"

lemma balances_sane_row:
  assumes "balances_sane u n d" and "account_is a x d" and "sane_row r" and "ba_exchange_account_id r = a"
    and "x \<noteq> BINANCE \<longrightarrow> numeric_28_10 (ba_total_quantity r)"
    and "set (t_all bs) \<subseteq> insert r (set (t_all (balances d)))"
  shows "balances_sane u n (d\<lparr>balances := bs\<rparr>)"
  using assms unfolding balances_sane_def account_is_def by auto

lemma upsert_sane:
  assumes st: "storable x b"
  shows "keeps (\<lambda>s s'. both balances_sane s \<and> account_is a x (work s) \<longrightarrow>
     both balances_sane s' \<and> account_is a x (work s')) (upsert_balance u a b)"
  unfolding keeps_def
proof (intro allI impI, elim conjE)
  fix s
  assume J: "both balances_sane s" and acc: "account_is a x (work s)"
  have row: "sane_row (set_balance b r) \<and> (x \<noteq> BINANCE \<longrightarrow> numeric_28_10 (ba_total_quantity (set_balance b r)))
      \<and> ba_exchange_account_id (set_balance b r) = ba_exchange_account_id r" for r
    using st by (simp add: storable_def sane_balance_def sane_row_def set_balance_def)
  note store = balances_sane_row [OF _ acc row [THEN conjunct1] _ row [THEN conjunct2, THEN conjunct1]]
  show "both balances_sane (snd (upsert_balance u a b s)) \<and> account_is a x (work (snd (upsert_balance u a b s)))"
  proof (cases "find_balance u a (bu_asset b) (work s)")
    case None
    with J acc row show ?thesis
      by (auto simp: upsert_balance_def both_def account_is_def sane.inv_more intro!: store)
  next
    case (Some r)
    then have "ba_exchange_account_id r = a" by (auto simp: find_balance_def dest: t_find_SomeD)
    moreover have "set (t_all (t_put balance_key (set_balance b r) (balances (work s)))) \<subseteq>
        insert (set_balance b r) (set (t_all (balances (work s))))" by (auto simp: t_all_put)
    ultimately show ?thesis
      using Some J acc row by (auto simp: upsert_balance_def both_def account_is_def intro!: store)
  qed
qed

lemma account_found:
  assumes "require_testnet_account u a x s = (Inr acc, s1)" and "distinct (map ea_id (t_all (accounts (work s))))"
  shows "account_is a x (work s)"
proof -
  have "find_owned_account u a (work s) = Some acc" and x: "ea_exchange_name acc = x"
    using assms(1) by (auto simp: require_testnet_account_def split: option.splits if_splits)
  then have "acc \<in> set (t_all (accounts (work s)))" "ea_id acc = a"
    by (auto simp: find_owned_account_def t_all_def dest: t_find_SomeD)
  with assms(2) x show ?thesis by (auto simp: account_is_def distinct_map dest: inj_onD)
qed

lemma balances_upserted:
  assumes "balance_updates x payload = Inr ups" and "map_act (upsert_balance u a) ups s = (r, s')"
    and "both balances_sane s" and "account_is a x (work s)"
  shows "both balances_sane s'"
proof -
  let ?R = "\<lambda>s s'. both balances_sane s \<and> account_is a x (work s) \<longrightarrow> both balances_sane s' \<and> account_is a x (work s')"
  have all: "keeps ?R (map_act (upsert_balance u a) bs)" if "set bs \<subseteq> set ups" for bs
    using that
  proof (induction bs)
    case (Cons b bs)
    have "keeps ?R (upsert_balance u a b)"
      using upsert_sane balance_updates_sane [OF assms(1), of b] Cons.prems by (simp add: storable_def)
    moreover have "keeps ?R (map_act (upsert_balance u a) bs)" using Cons by simp
    ultimately show ?case
      unfolding map_act.simps by (intro keeps_bnd keeps_ret) (auto intro: transpI reflpI)
  qed (auto simp: keeps_def)
  from keepsD [OF all [OF subset_refl] assms(2)] assms(3,4) show ?thesis by blast
qed

lemma preserves_sync: "preserves balances_sane (sync_testnet_account_state_event u a ev)"
proof (rule preservesI)
  fix s r s'
  assume run: "sync_testnet_account_state_event u a ev s = (r, s')" and J: "both balances_sane s"
  obtain r0 where q: "require_testnet_account u a (ev_exchange_name ev) s = (r0, s)"
    using require_testnet_account_same by (metis surj_pair)
  have tail: "preserves balances_sane (bnd flush (\<lambda>_. ret z))" for z :: sync_result
    by (intro preserves_rules)
  show "both balances_sane s'"
  proof (cases r0)
    case (Inl e)
    with run q J show ?thesis by (simp add: sync_testnet_account_state_event_def bnd_def)
  next
    case (Inr acc)
    note start = sync_testnet_account_state_event_def bnd_Inr [where m = "require_testnet_account _ _ _", OF q [unfolded Inr]]
    have is': "account_is a (ev_exchange_name ev) (work s)"
      using account_found [OF q [unfolded Inr]] J by (simp add: both_def balances_sane_def)
    have pos: "preserves balances_sane (map_act (upsert_position u a) ps)" for ps
    proof -
      have "preserves balances_sane (upsert_position u a p)" for p
        unfolding upsert_position_def by (intro preserves_rules sane_frame) simp_all
      then show ?thesis by (rule preserves_map_act)
    qed
    show ?thesis
    proof (cases "ev_event_type ev")
      case BALANCE_EVENT
      show ?thesis
      proof (cases "balance_updates (ev_exchange_name ev) (ev_raw_payload ev)")
        case (Inl e)
        with run J BALANCE_EVENT show ?thesis by (simp add: start)
      next
        case (Inr ups)
        obtain us s1 where m: "map_act (upsert_balance u a) ups s = (Inr us, s1)" using upserts_return by blast
        have "both balances_sane s1" by (rule balances_upserted [OF Inr m J is'])
        moreover have "bnd flush (\<lambda>_. ret \<lparr>sr_status = SYNCED, sr_balances_synced = length ups, sr_positions_synced = 0\<rparr>) s1
            = (r, s')"
          using run BALANCE_EVENT Inr by (simp add: start bnd_Inr [where m = "map_act _ _", OF m])
        ultimately show ?thesis using preservesD [OF tail] by blast
      qed
    next
      case POSITION_EVENT
      have "preserves balances_sane (bnd (lift_result (position_updates (ev_exchange_name ev) (ev_raw_payload ev))) (\<lambda>updates.
         bnd (map_act (upsert_position u a) updates) (\<lambda>_. bnd flush (\<lambda>_.
           ret \<lparr>sr_status = SYNCED, sr_balances_synced = 0, sr_positions_synced = length updates\<rparr>))))"
        by (intro preserves_rules pos)
      moreover have "bnd (lift_result (position_updates (ev_exchange_name ev) (ev_raw_payload ev))) (\<lambda>updates.
         bnd (map_act (upsert_position u a) updates) (\<lambda>_. bnd flush (\<lambda>_.
           ret \<lparr>sr_status = SYNCED, sr_balances_synced = 0, sr_positions_synced = length updates\<rparr>))) s = (r, s')"
        using run POSITION_EVENT by (simp only: start) simp
      ultimately show ?thesis using J by (blast dest: preservesD)
    qed (use run J in \<open>simp_all add: start\<close>)
  qed
qed

lemma preserves_sane_event: "preserves balances_sane (handle_event u a ev)"
  unfolding handle_event_def handle_user_stream_event_def
  by (intro preserves_rules preserves_sync sane_orders.kept_apply_event)

text \<open>Events handled one after the other, each for a user and an account.\<close>

definition handled :: "(string \<times> string \<times> stream_event) list \<Rightarrow> session \<Rightarrow> session" where
  "handled evs s = fold (\<lambda>(u, a, ev) s. snd (handle_event u a ev s)) evs s"

text \<open>C32: Whatever events are handled, in whatever order, for whichever users and accounts, and whether
  each succeeds or is refused: every row of the table of balances, in the transaction and on disk, keeps available
  and locked amounts that fit their columns and are not negative, whose exact sum does not exceed the
  total where the total fits its column; and the total of every account that is not on Binance fits it.\<close>

theorem stored_balances_are_sane:
  assumes "both balances_sane s"
  shows "both balances_sane (handled evs s)"
  unfolding handled_def using assms
proof (induction evs arbitrary: s)
  case (Cons e evs)
  obtain u a ev where e: "e = (u, a, ev)" by (cases e)
  have "both balances_sane (snd (handle_event u a ev s))"
    by (rule preservesD [OF preserves_sane_event prod.collapse [symmetric] Cons.prems])
  from Cons.IH [OF this] show ?case by (simp add: e)
qed simp

theorem stored_balances_are_sane_witness:
  "\<exists>b \<in> set (rows (balances (saved (handled [(''alice'', ''acct-2'', wallet_event)]
        (sample_session\<lparr>work := bybit_sample_db, saved := bybit_sample_db\<rparr>))))).
     ba_asset b = ''USDT'' \<and> sane_row b"
proof -
  let ?s = "sample_session\<lparr>work := bybit_sample_db, saved := bybit_sample_db\<rparr>"
  have s: "settled (work ?s)"
    using sample_settled by (simp add: bybit_sample_db_def settled_def db_flush_update t_flush_def t_all_def)
  have ad: "admits_event ''alice'' ''acct-2'' (ev_exchange_name wallet_event) (work ?s)"
    by (simp add: admits_event_def wallet_event_def find_owned_account_def t_find_def bybit_sample_db_def testnet_account_def)
  have ok: "balances_ok ''alice'' ''acct-2'' (work ?s)"
    using settledD(2) [OF s] by (simp add: balances_ok_def owned_only_def bybit_sample_db_def)
  have t: "ev_event_type wallet_event = BALANCE_EVENT" "ev_exchange_name wallet_event = BYBIT"
    by (simp_all add: wallet_event_def)
  obtain ups where ups: "balance_updates (ev_exchange_name wallet_event) (ev_raw_payload wallet_event) = Inr ups"
    and asset: "map bu_asset ups = [''USDT'']"
    using wallet_event_updates t(2) by simp
  obtain s1 where h: "handle_event ''alice'' ''acct-2'' wallet_event ?s =
      (Inr \<lparr>hr_order_result = None, hr_state_event_processed = True\<rparr>,
       s1\<lparr>work := db_flush (work s1), saved := db_flush (work s1)\<rparr>)"
    and book: "balance_book ''alice'' ''acct-2'' (work s1) = balance_book ''alice'' ''acct-2'' (work ?s) ++
      map_of (map (\<lambda>b. (bu_asset b, update_holding b)) ups)"
    by (rule handle_balance_run [OF s ok ad t(1) ups])
  obtain z where "ups = [z]" "bu_asset z = ''USDT''" using asset by auto
  then have "balance_book ''alice'' ''acct-2'' (work s1) ''USDT'' = Some (update_holding z)"
    by (simp add: book)
  then obtain b where b: "b \<in> set (t_all (balances (work s1)))" "ba_asset b = ''USDT''"
    by (auto simp: balance_book_def book_of_def dest!: map_of_SomeD)
  have J: "both balances_sane ?s"
    by (simp add: both_def balances_sane_def bybit_sample_db_def t_all_def)
  have "handled [(''alice'', ''acct-2'', wallet_event)] ?s = s1\<lparr>work := db_flush (work s1), saved := db_flush (work s1)\<rparr>"
    by (simp only: handled_def fold.simps prod.case h o_apply id_apply snd_conv)
  with stored_balances_are_sane [OF J, of "[(''alice'', ''acct-2'', wallet_event)]"] b
  have "b \<in> set (rows (balances (saved (handled [(''alice'', ''acct-2'', wallet_event)] ?s))))" and "sane_row b"
    by (simp_all add: both_def balances_sane_def t_flush_def t_all_def)
  with b(2) show ?thesis by blast
qed

text \<open>A balance or position event that is refused changes nothing: whatever is wrong with the message or
  the account is found before the first row is touched, and only a violated constraint of the database can stop
  the update later.\<close>

theorem refused_event_changes_nothing:
  assumes "handle_event u a ev s = (Inl e, s')" and "ev_event_type ev \<noteq> ORDER_EVENT" and "e \<noteq> IntegrityError"
  shows "s' = s"
  using refused_sync [OF assms] .

theorem refused_event_changes_nothing_witness:
  "\<exists>e. handle_event ''alice'' ''acct-2'' wallet_event sample_session = (Inl e, sample_session)"
proof -
  have t: "ev_event_type wallet_event = BALANCE_EVENT" "ev_exchange_name wallet_event = BYBIT" by (simp_all add: wallet_event_def)
  have "require_testnet_account ''alice'' ''acct-2'' BYBIT sample_session =
      (Inl (TestnetAccountStateSyncError ''event exchange does not match account''), sample_session)"
    by (simp add: require_testnet_account_def find_owned_account_def t_find_def sample_db_def sample_account_def testnet_account_def)
  then obtain s' where h: "handle_event ''alice'' ''acct-2'' wallet_event sample_session =
      (Inl (TestnetAccountStateSyncError ''event exchange does not match account''), s')"
    by (simp add: handle_event_def sync_testnet_account_state_event_def t bnd_assoc bnd_Inl [where m = "require_testnet_account _ _ _"])
  from refused_event_changes_nothing [OF h] h show ?thesis by (simp add: t)
qed

end
