(* ===== verification/User_Stream.thy ===== *)
theory User_Stream
  imports Account_Sync
begin

text \<open>
  The private user streams of the testnets: the plan of a connection (\<open>services/testnet_user_stream.py\<close>),
  its activation (\<open>services/testnet_user_stream_activation.py\<close>), the websocket transport
  (\<open>services/testnet_websocket_transport.py\<close>), opening a session (\<open>services/testnet_user_stream_runtime.py\<close>),
  the bounded loop with reconnects (\<open>services/testnet_user_stream_consumer.py\<close>), the service
  (\<open>services/testnet_user_stream_service.py\<close>) and the route that starts it
  (\<open>api/v1/admin_testnet_reconciliation.py\<close>).

  The websocket library and the peer are a parameter: \<open>dial n\<close> is what the \<open>n\<close>-th attempt to connect meets,
  either a failure or a peer with the frames it sends before the connection is lost. What the program does with
  the socket is recorded in the session's \<open>sockets\<close>.
\<close>

section \<open>Plans\<close>

datatype auth_method = BINANCE_LISTEN_KEY | BYBIT_AUTH | OKX_LOGIN

record connection_plan =
  cp_exchange_account_id :: string
  cp_exchange_name :: exchange_name
  cp_websocket_url :: string
  cp_auth_method :: auth_method
  cp_listen_key_request :: "prepared_request option"
  cp_websocket_login_message :: "pydict option"

definition binance_plan :: "string \<Rightarrow> exchange_credentials \<Rightarrow> endpoint_config \<Rightarrow> connection_plan result" where
  "binance_plan account_id credentials endpoint = (case ep_public_ws_url endpoint of
      None \<Rightarrow> Inl (TestnetUserStreamNotSupportedError ''Binance user stream endpoint is not configured'')
    | Some url \<Rightarrow> Inr \<lparr>cp_exchange_account_id = account_id, cp_exchange_name = BINANCE,
        cp_websocket_url = url @ ''/{listenKey}'', cp_auth_method = BINANCE_LISTEN_KEY,
        cp_listen_key_request = Some \<lparr>pr_method = ''POST'', pr_url = ep_rest_base_url endpoint @ ''/api/v3/userDataStream'',
          pr_path = ''/api/v3/userDataStream'', pr_params = [],
          pr_headers = [(''X-MBX-APIKEY'', ec_api_key credentials)], pr_body = None\<rparr>,
        cp_websocket_login_message = None\<rparr>)"

definition bybit_plan :: "string \<Rightarrow> exchange_credentials \<Rightarrow> endpoint_config \<Rightarrow> int \<Rightarrow> connection_plan result" where
  "bybit_plan account_id credentials endpoint timestamp_ms = (case ep_private_ws_url endpoint of
      None \<Rightarrow> Inl (TestnetUserStreamNotSupportedError ''Bybit private WebSocket endpoint is not configured'')
    | Some url \<Rightarrow>
        let expires = show_int (timestamp_ms + 10000)
        in Inr \<lparr>cp_exchange_account_id = account_id, cp_exchange_name = BYBIT, cp_websocket_url = url,
          cp_auth_method = BYBIT_AUTH, cp_listen_key_request = None,
          cp_websocket_login_message = Some [(''op'', PStr ''auth''),
            (''args'', PList [PStr (ec_api_key credentials), PStr expires,
              PStr (hmac_sha256_hex (ec_api_secret credentials) (''GET/realtime'' @ expires))])]\<rparr>)"

definition okx_plan :: "string \<Rightarrow> exchange_credentials \<Rightarrow> endpoint_config \<Rightarrow> string \<Rightarrow> connection_plan result" where
  "okx_plan account_id credentials endpoint unix_timestamp = (case ep_private_ws_url endpoint of
      None \<Rightarrow> Inl (TestnetUserStreamNotSupportedError ''OKX private WebSocket endpoint is not configured'')
    | Some url \<Rightarrow> (case ec_passphrase credentials of
        None \<Rightarrow> Inl (ValueError ''OKX WebSocket login requires an API passphrase'')
      | Some passphrase \<Rightarrow>
          Inr \<lparr>cp_exchange_account_id = account_id, cp_exchange_name = OKX, cp_websocket_url = url,
            cp_auth_method = OKX_LOGIN, cp_listen_key_request = None,
            cp_websocket_login_message = Some [(''op'', PStr ''login''),
              (''args'', PList [PDict [(''apiKey'', PStr (ec_api_key credentials)), (''passphrase'', PStr passphrase),
                (''timestamp'', PStr unix_timestamp),
                (''sign'', PStr (hmac_sha256_base64 (ec_api_secret credentials)
                   (unix_timestamp @ ''GET/users/self/verify'')))]])]\<rparr>))"

definition build_testnet_user_stream_connection_plan ::
    "string \<Rightarrow> exchange_name \<Rightarrow> exchange_credentials \<Rightarrow> int \<Rightarrow> string \<Rightarrow> connection_plan result" where
  "build_testnet_user_stream_connection_plan account_id x credentials timestamp_ms unix_timestamp =
     bndr (get_testnet_endpoint_config x) (\<lambda>endpoint. case x of
         BINANCE \<Rightarrow> binance_plan account_id credentials endpoint
       | BYBIT \<Rightarrow> bybit_plan account_id credentials endpoint timestamp_ms
       | OKX \<Rightarrow> okx_plan account_id credentials endpoint unix_timestamp
       | MOCK \<Rightarrow> Inl (TestnetUserStreamNotSupportedError (''testnet user stream is not supported for '' @ exchange_value MOCK)))"

definition listen_key :: "pyval \<Rightarrow> string result" where
  "listen_key response = (case dict_get (mapping_or_empty response) ''listenKey'' of
      PStr v \<Rightarrow>
        let key = strip v
        in if key = [] \<or> length key > 256 \<or> contains key ''/''
           then Inl (TestnetUserStreamActivationError ''testnet user stream listen key is invalid'') else Inr key
    | _ \<Rightarrow> Inl (TestnetUserStreamActivationError ''testnet user stream listen key is missing''))"

definition activate_testnet_user_stream_connection_plan :: "network \<Rightarrow> connection_plan \<Rightarrow> connection_plan op" where
  "activate_testnet_user_stream_connection_plan net plan = (case cp_listen_key_request plan of
      None \<Rightarrow> ret plan
    | Some request \<Rightarrow>
        bnd (execute_prepared_request net request) (\<lambda>response.
        bnd (lift_result (listen_key response)) (\<lambda>key.
          let url = replace ''{listenKey}'' key (cp_websocket_url plan)
          in if contains url ''{'' \<or> contains url ''}''
             then raise (TestnetUserStreamActivationError ''testnet user stream URL is invalid'')
             else ret (plan\<lparr>cp_websocket_url := url, cp_listen_key_request := None\<rparr>))))"

section \<open>Transport\<close>

text \<open>A frame with its length in bytes: lost on the way, not JSON, or a JSON value.\<close>

datatype frame = FrameLost | FrameInvalid nat | Frame nat pyval

record ws_peer =
  wp_accepts_messages :: bool
  wp_frames :: "frame list"

type_synonym dialer = "nat \<Rightarrow> ws_peer option"

definition MAX_MESSAGE_BYTES :: nat where
  "MAX_MESSAGE_BYTES = 1048576"

definition log_socket :: "socket_event \<Rightarrow> unit op" where
  "log_socket e = modify (\<lambda>s. s\<lparr>sockets := sockets s @ [e]\<rparr>)"

definition removeprefix :: "string \<Rightarrow> string \<Rightarrow> string" where
  "removeprefix s p = (if startswith s p then drop (length p) s else s)"

definition is_allowed_testnet_websocket_url :: "exchange_name \<Rightarrow> string \<Rightarrow> bool result" where
  "is_allowed_testnet_websocket_url x url =
     (if \<not> startswith url ''wss://'' then Inr False
      else bndr (get_testnet_endpoint_config x) (\<lambda>endpoint.
        if x = BINANCE
        then (case ep_public_ws_url endpoint of
            None \<Rightarrow> Inr False
          | Some base \<Rightarrow>
              let prefix = rstrip_char (CHR ''/'') base @ ''/''; key = removeprefix url prefix
              in Inr (startswith url prefix \<and> key \<noteq> [] \<and> \<not> contains key ''{'' \<and> \<not> contains key ''}'' \<and> \<not> contains key ''/''))
        else Inr (ep_private_ws_url endpoint = Some url)))"

definition transport_connect :: "exchange_name \<Rightarrow> ws_peer option \<Rightarrow> ws_peer option \<Rightarrow> string \<Rightarrow> ws_peer op" where
  "transport_connect x offered connection url =
     (if connection \<noteq> None then raise (TestnetWebSocketTransportError ''testnet WebSocket is already connected'')
      else bnd (lift_result (is_allowed_testnet_websocket_url x url)) (\<lambda>allowed.
        if \<not> allowed then raise (TestnetWebSocketTransportError ''testnet WebSocket endpoint is not allowed'')
        else bnd (log_socket (Dialed url)) (\<lambda>_. case offered of
            None \<Rightarrow> raise (TestnetWebSocketTransportError ''testnet WebSocket transport failed'')
          | Some peer \<Rightarrow> ret peer)))"

definition transport_send_json :: "ws_peer option \<Rightarrow> pydict \<Rightarrow> unit op" where
  "transport_send_json connection payload = (case connection of
      None \<Rightarrow> raise (TestnetWebSocketTransportError ''testnet WebSocket is not connected'')
    | Some peer \<Rightarrow> bnd (log_socket (SentJson payload)) (\<lambda>_.
        if wp_accepts_messages peer then ret ()
        else raise (TestnetWebSocketTransportError ''testnet WebSocket transport failed'')))"

definition receive_json :: "frame \<Rightarrow> pydict result" where
  "receive_json f = (case f of
      FrameLost \<Rightarrow> Inl (TestnetWebSocketTransportError ''testnet WebSocket transport failed'')
    | FrameInvalid n \<Rightarrow>
        if n > MAX_MESSAGE_BYTES then Inl (TestnetWebSocketTransportError ''testnet WebSocket message is too large'')
        else Inl (TestnetWebSocketTransportError ''testnet WebSocket message is invalid'')
    | Frame n v \<Rightarrow>
        if n > MAX_MESSAGE_BYTES then Inl (TestnetWebSocketTransportError ''testnet WebSocket message is too large'')
        else (case v of PDict d \<Rightarrow> Inr d
              | _ \<Rightarrow> Inl (TestnetWebSocketTransportError ''testnet WebSocket message must be a JSON object'')))"

text \<open>\<open>_close_transport\<close>: what the library raises on closing is suppressed.\<close>

definition close_transport :: "ws_peer option \<Rightarrow> unit op" where
  "close_transport connection = (case connection of None \<Rightarrow> ret () | Some _ \<Rightarrow> log_socket ClosedSocket)"

section \<open>Sessions\<close>

datatype connection_status = CONN_CREATED | CONNECTED | AUTHENTICATED | CLOSED | CONN_FAILED

record stream_session =
  ss_exchange_account_id :: string
  ss_exchange_name :: exchange_name
  ss_websocket_url :: string
  ss_status :: connection_status

definition session_of :: "connection_plan \<Rightarrow> connection_status \<Rightarrow> stream_session" where
  "session_of plan st = \<lparr>ss_exchange_account_id = cp_exchange_account_id plan, ss_exchange_name = cp_exchange_name plan,
     ss_websocket_url = cp_websocket_url plan, ss_status = st\<rparr>"

text \<open>The session and the connection the transport is left with.\<close>

definition open_session :: "exchange_name \<Rightarrow> ws_peer option \<Rightarrow> connection_plan \<Rightarrow> (stream_session \<times> ws_peer option) op" where
  "open_session x offered plan =
     try_except
       (bnd (transport_connect x offered None (cp_websocket_url plan)) (\<lambda>peer.
        case cp_websocket_login_message plan of
          None \<Rightarrow> ret (session_of plan CONNECTED, Some peer)
        | Some message \<Rightarrow>
            try_except (bnd (transport_send_json (Some peer) message) (\<lambda>_. ret (session_of plan AUTHENTICATED, Some peer)))
              (\<lambda>e. if is_RuntimeError e then Some (ret (session_of plan CONN_FAILED, Some peer)) else None)))
       (\<lambda>e. if is_RuntimeError e then Some (ret (session_of plan CONN_FAILED, None)) else None)"

section \<open>The consumer\<close>

datatype consumer_status = STOPPED | MESSAGE_LIMIT_REACHED | RECONNECT_EXHAUSTED

fun consumer_status_value :: "consumer_status \<Rightarrow> string" where
  "consumer_status_value STOPPED = ''STOPPED''"
| "consumer_status_value MESSAGE_LIMIT_REACHED = ''MESSAGE_LIMIT_REACHED''"
| "consumer_status_value RECONNECT_EXHAUSTED = ''RECONNECT_EXHAUSTED''"

record consumer_result =
  cr_status :: consumer_status
  cr_messages_processed :: nat
  cr_reconnect_attempts :: nat

record consumer =
  cn_should_stop :: "session \<Rightarrow> bool"
  cn_max_reconnect_attempts :: int
  cn_initial_backoff_seconds :: rat
  cn_max_backoff_seconds :: rat

definition new_consumer :: "(session \<Rightarrow> bool) \<Rightarrow> int \<Rightarrow> rat \<Rightarrow> rat \<Rightarrow> consumer result" where
  "new_consumer should_stop max_reconnect_attempts initial_backoff_seconds max_backoff_seconds =
     (if max_reconnect_attempts < 0 then Inl (ValueError ''max_reconnect_attempts must not be negative'')
      else if initial_backoff_seconds \<le> 0 \<or> max_backoff_seconds \<le> 0 then Inl (ValueError ''reconnect backoff must be positive'')
      else Inr \<lparr>cn_should_stop = should_stop, cn_max_reconnect_attempts = max_reconnect_attempts,
                cn_initial_backoff_seconds = initial_backoff_seconds, cn_max_backoff_seconds = max_backoff_seconds\<rparr>)"

definition consumed :: "consumer_status \<Rightarrow> nat \<Rightarrow> nat \<Rightarrow> consumer_result" where
  "consumed st processed attempts = \<lparr>cr_status = st, cr_messages_processed = processed, cr_reconnect_attempts = attempts\<rparr>"

definition sleep_before_reconnect :: "consumer \<Rightarrow> nat \<Rightarrow> unit op" where
  "sleep_before_reconnect cn reconnect_attempt =
     log_socket (Slept (min (cn_initial_backoff_seconds cn * 2 ^ (reconnect_attempt - 1)) (cn_max_backoff_seconds cn)))"

text \<open>How the loop over one connection ends, with the number of messages processed so far.\<close>

datatype loop_end = LimitReached nat | ConnectionLost nat | Interrupted nat

definition limit_reached :: "int option \<Rightarrow> nat \<Rightarrow> bool" where
  "limit_reached max_messages n = (case max_messages of None \<Rightarrow> False | Some m \<Rightarrow> int n \<ge> m)"

fun receive_loop ::
    "consumer \<Rightarrow> exchange_name \<Rightarrow> (stream_event \<Rightarrow> 'r op) \<Rightarrow> int option \<Rightarrow> nat \<Rightarrow> frame list \<Rightarrow> loop_end op" where
  "receive_loop cn x handler max_messages n [] = bnd (reads (cn_should_stop cn)) (\<lambda>stop.
     if stop then ret (Interrupted n) else ret (ConnectionLost n))"
| "receive_loop cn x handler max_messages n (f # fs) = bnd (reads (cn_should_stop cn)) (\<lambda>stop.
     if stop then ret (Interrupted n)
     else case receive_json f of
       Inl _ \<Rightarrow> ret (ConnectionLost n)
     | Inr payload \<Rightarrow>
         bnd (lift_result (parse_testnet_user_stream_event x payload)) (\<lambda>event.
         bnd (handler event) (\<lambda>_.
           if limit_reached max_messages (Suc n) then ret (LimitReached (Suc n))
           else receive_loop cn x handler max_messages (Suc n) fs)))"

text \<open>\<open>try: m finally: c\<close>, for a \<open>c\<close> that does not return.\<close>

definition try_finally :: "'a op \<Rightarrow> unit op \<Rightarrow> 'a op" where
  "try_finally m c s = (case m s of (r, s') \<Rightarrow> (case c s' of (Inl e, s'') \<Rightarrow> (Inl e, s'') | (Inr _, s'') \<Rightarrow> (r, s'')))"

text \<open>One round of the outer loop; \<open>retry\<close> is what follows when the connection failed or was lost.\<close>

definition consume_once ::
    "consumer \<Rightarrow> dialer \<Rightarrow> connection_plan \<Rightarrow> (stream_event \<Rightarrow> 'r op) \<Rightarrow> int option \<Rightarrow> nat \<Rightarrow> nat
     \<Rightarrow> (nat \<Rightarrow> consumer_result op) \<Rightarrow> consumer_result op" where
  "consume_once cn dial plan handler max_messages attempts n retry =
     bnd (reads (cn_should_stop cn)) (\<lambda>stop.
     if stop then ret (consumed STOPPED n attempts)
     else bnd (open_session (cp_exchange_name plan) (dial attempts) plan) (\<lambda>(sess, connection).
       if ss_status sess = CONN_FAILED then bnd (close_transport connection) (\<lambda>_. retry n)
       else bnd (try_finally
                  (receive_loop cn (cp_exchange_name plan) handler max_messages n
                     (case connection of None \<Rightarrow> [] | Some peer \<Rightarrow> wp_frames peer))
                  (close_transport connection)) (\<lambda>e. case e of
           LimitReached k \<Rightarrow> ret (consumed MESSAGE_LIMIT_REACHED k attempts)
         | Interrupted k \<Rightarrow> ret (consumed STOPPED k attempts)
         | ConnectionLost k \<Rightarrow> bnd (reads (cn_should_stop cn)) (\<lambda>stop.
             if stop then ret (consumed STOPPED k attempts) else retry k))))"

text \<open>The outer loop, with the number of reconnects that are left.\<close>

primrec consume_loop ::
    "consumer \<Rightarrow> dialer \<Rightarrow> connection_plan \<Rightarrow> (stream_event \<Rightarrow> 'r op) \<Rightarrow> int option \<Rightarrow> nat \<Rightarrow> nat \<Rightarrow> nat
     \<Rightarrow> consumer_result op" where
  "consume_loop cn dial plan handler max_messages 0 = (\<lambda>attempts n.
     consume_once cn dial plan handler max_messages attempts n (\<lambda>k. ret (consumed RECONNECT_EXHAUSTED k attempts)))"
| "consume_loop cn dial plan handler max_messages (Suc left) = (\<lambda>attempts n.
     consume_once cn dial plan handler max_messages attempts n (\<lambda>k.
       bnd (sleep_before_reconnect cn (Suc attempts)) (\<lambda>_.
         consume_loop cn dial plan handler max_messages left (Suc attempts) k)))"

definition consume ::
    "consumer \<Rightarrow> dialer \<Rightarrow> connection_plan \<Rightarrow> (stream_event \<Rightarrow> 'r op) \<Rightarrow> int option \<Rightarrow> consumer_result op" where
  "consume cn dial plan handler max_messages =
     (if (case max_messages of None \<Rightarrow> False | Some m \<Rightarrow> m \<le> 0) then raise (ValueError ''max_messages must be positive'')
      else consume_loop cn dial plan handler max_messages (nat (cn_max_reconnect_attempts cn)) 0 0)"

section \<open>Service and route\<close>

record consume_result =
  cz_exchange_account_id :: string
  cz_exchange_name :: exchange_name
  cz_status :: string
  cz_messages_processed :: nat
  cz_reconnect_attempts :: nat

definition consume_result_of :: "string \<Rightarrow> exchange_name \<Rightarrow> consumer_result \<Rightarrow> consume_result" where
  "consume_result_of account_id x result =
     \<lparr>cz_exchange_account_id = account_id, cz_exchange_name = x, cz_status = consumer_status_value (cr_status result),
      cz_messages_processed = cr_messages_processed result, cz_reconnect_attempts = cr_reconnect_attempts result\<rparr>"

definition write_stream_audit :: "string \<Rightarrow> consume_result \<Rightarrow> unit op" where
  "write_stream_audit user_id result =
     bnd (add_audit user_id (Some (cz_exchange_account_id result)) ''testnet.user_stream.consume.completed''
            (if cz_status result \<noteq> ''RECONNECT_EXHAUSTED'' then ''INFO'' else ''WARNING'')
            [(''exchange_name'', PStr (exchange_value (cz_exchange_name result))), (''account_mode'', PStr (mode_value TESTNET)),
             (''status'', PStr (cz_status result)), (''messages_processed'', PInt (int (cz_messages_processed result))),
             (''reconnect_attempts'', PInt (int (cz_reconnect_attempts result)))]) (\<lambda>_. commit)"

definition stream_account :: "string \<Rightarrow> string \<Rightarrow> bool \<Rightarrow> exchange_account op" where
  "stream_account user_id account_id adapters = bnd (get_owned_account user_id account_id) (\<lambda>account. case account of
      None \<Rightarrow> raise (TestnetUserStreamBlockedError ''testnet exchange account was not found'')
    | Some a \<Rightarrow>
        if \<not> ea_is_active a then raise (TestnetUserStreamBlockedError ''testnet exchange account was not found'')
        else if ea_account_mode a \<noteq> TESTNET then raise (TestnetUserStreamBlockedError ''account mode must be TESTNET'')
        else if ea_exchange_name a = MOCK then raise (TestnetUserStreamBlockedError ''mock exchange has no private user stream'')
        else if ea_trading_enabled a then raise (TestnetUserStreamBlockedError ''trading must remain disabled'')
        else if \<not> adapters then raise (TestnetUserStreamBlockedError ''testnet adapters must be explicitly enabled'')
        else ret a)"

definition consume_bounded_testnet_user_stream ::
    "cipher \<Rightarrow> network \<Rightarrow> dialer \<Rightarrow> string \<Rightarrow> string \<Rightarrow> bool \<Rightarrow> int \<Rightarrow> consume_result op" where
  "consume_bounded_testnet_user_stream c net dial user_id account_id adapters max_messages =
     (if max_messages < 1 \<or> max_messages > 20
      then raise (TestnetUserStreamBlockedError ''max_messages must be between 1 and 20'')
      else bnd (stream_account user_id account_id adapters) (\<lambda>account.
      bnd (get_exchange_credentials c user_id account_id) (\<lambda>credentials. case credentials of
        None \<Rightarrow> raise (TestnetUserStreamBlockedError ''testnet API credentials are not configured'')
      | Some cr \<Rightarrow>
          bnd (lift_result (create_testnet_signed_http_client (ea_exchange_name account))) (\<lambda>_.
          bnd (lift_result (build_testnet_user_stream_connection_plan (ea_id account) (ea_exchange_name account) cr
                 1700000000000 ''1700000000'')) (\<lambda>plan.
          bnd (activate_testnet_user_stream_connection_plan net plan) (\<lambda>plan.
          bnd (lift_result (new_consumer (\<lambda>_. False) 1 1 30)) (\<lambda>cn.
          bnd (consume cn dial plan (handle_event user_id (ea_id account)) (Some max_messages)) (\<lambda>consumer_result.
          let result = consume_result_of (ea_id account) (ea_exchange_name account) consumer_result
          in bnd (write_stream_audit user_id result) (\<lambda>_. ret result))))))))) "

definition stream_handlers :: "py_exc \<Rightarrow> consume_result op option" where
  "stream_handlers e = (case e of
      TestnetUserStreamBlockedError _ \<Rightarrow> Some (raise (HTTPException 400 [''testnet user stream consumption is blocked'']))
    | _ \<Rightarrow> if is_RuntimeError e then Some (raise (HTTPException 502 [''testnet user stream transport failed''])) else None)"

definition consume_testnet_user_stream ::
    "cipher \<Rightarrow> network \<Rightarrow> dialer \<Rightarrow> bool \<Rightarrow> string \<Rightarrow> int \<Rightarrow> string \<Rightarrow> user \<Rightarrow> consume_result op" where
  "consume_testnet_user_stream c net dial adapters account_id max_messages acknowledgement current_user =
     bnd (require_super_admin current_user) (\<lambda>_.
     bnd (require_testnet_enabled adapters) (\<lambda>_.
     if acknowledgement \<noteq> ''CONSUME_TESTNET_USER_STREAM_READ_ONLY''
     then raise (HTTPException 400 [''explicit user stream acknowledgement is required''])
     else try_except (consume_bounded_testnet_user_stream c net dial (u_id current_user) account_id adapters max_messages)
       stream_handlers))"

section \<open>The handler sends nothing and switches nothing\<close>

lemma silent_map_act [silent_rules]:
  assumes "\<And>x. silent (f x)"
  shows "silent (map_act f xs)"
proof (induction xs)
  case Nil
  show ?case unfolding map_act.simps by (intro silent_rules)
next
  case (Cons x xs)
  show ?case unfolding map_act.simps by (intro silent_rules assms Cons.IH)
qed

lemma silent_sync: "silent (sync_testnet_account_state_event u a ev)"
proof -
  have "silent (upsert_balance u a x)" "silent (upsert_position u a y)" for x y
    unfolding upsert_balance_def upsert_position_def by (intro silent_rules)+
  then show ?thesis
    unfolding sync_testnet_account_state_event_def require_testnet_account_def
    by (cases "ev_event_type ev") (auto intro!: silent_rules)
qed

lemma silent_handle_event: "silent (handle_event u a ev)"
  unfolding handle_event_def handle_user_stream_event_def
  by (intro silent_rules silent_sync silent_apply_event)

lemma flags_rows [preserves_rules]:
  "preserves (flags_are as rs ids) (upd (\<lambda>d. d\<lparr>balances := f (balances d)\<rparr>))"
  "preserves (flags_are as rs ids) (upd (\<lambda>d. d\<lparr>positions := g (positions d)\<rparr>))"
  by (rule preserves_upd; simp add: flags_are_def)+

lemma flags_sync: "preserves (flags_are as rs ids) (sync_testnet_account_state_event u a ev)"
proof -
  have "preserves (flags_are as rs ids) (upsert_balance u a x)" "preserves (flags_are as rs ids) (upsert_position u a y)" for x y
    unfolding upsert_balance_def upsert_position_def by (intro preserves_rules)+
  then show ?thesis
    unfolding sync_testnet_account_state_event_def require_testnet_account_def
    by (cases "ev_event_type ev") (auto intro!: preserves_rules)
qed

lemma trails_sync: "preserves trails_inv (sync_testnet_account_state_event u a ev)"
proof -
  have "preserves trails_inv (upsert_balance u a x)" "preserves trails_inv (upsert_position u a y)" for x y
    unfolding upsert_balance_def upsert_position_def by (intro preserves_rules preserves_trails_frame; simp)+
  then show ?thesis
    unfolding sync_testnet_account_state_event_def require_testnet_account_def
    by (cases "ev_event_type ev") (auto intro!: preserves_rules)
qed

section \<open>What goes over the socket\<close>

text \<open>The addresses of the testnet streams, and what may happen on the way.\<close>

definition testnet_stream_url :: "string \<Rightarrow> bool" where
  "testnet_stream_url url \<longleftrightarrow> url = ''wss://stream-testnet.bybit.com/v5/private'' \<or> url = ''wss://wspap.okx.com:8443/ws/v5/private''
     \<or> (\<exists>k. url = ''wss://stream.testnet.binance.vision/ws/'' @ k \<and> k \<noteq> [] \<and> CHR ''/'' \<notin> set k)"

fun stream_use :: "socket_event \<Rightarrow> bool" where
  "stream_use (Dialed url) = testnet_stream_url url"
| "stream_use (SentJson m) = (dict_get m ''op'' = PStr ''auth'' \<or> dict_get m ''op'' = PStr ''login'')"
| "stream_use ClosedSocket = True"
| "stream_use (Slept t) = (0 < t \<and> t \<le> 30)"

definition listen_key_request :: "http_request \<Rightarrow> bool" where
  "listen_key_request q \<longleftrightarrow> hq_method q = ''POST'' \<and> hq_data q = None
     \<and> hq_url q = ''https://testnet.binance.vision/api/v3/userDataStream''"

abbreviation listens :: "'a op \<Rightarrow> bool" where
  "listens \<equiv> emits listen_key_request stream_use"

lemma contains_char: "contains s [c] \<longleftrightarrow> c \<in> set s"
  by (auto simp: contains_iff in_set_conv_decomp)

lemma removeprefix_append: "removeprefix (p @ k) p = k"
  by (simp add: removeprefix_def)

lemma allowed_binance_url:
  assumes "startswith url p" and "removeprefix url p \<noteq> []" and "\<not> contains (removeprefix url p) ''/''"
  shows "\<exists>k. url = p @ k \<and> k \<noteq> [] \<and> CHR ''/'' \<notin> set k"
  using assms unfolding startswith_iff contains_char by (metis removeprefix_append)

lemma endpoints:
  "\<exists>e. get_testnet_endpoint_config BINANCE = Inr e \<and> ep_public_ws_url e = Some ''wss://stream.testnet.binance.vision/ws''
     \<and> ep_rest_base_url e = ''https://testnet.binance.vision''"
  "\<exists>e. get_testnet_endpoint_config BYBIT = Inr e \<and> ep_private_ws_url e = Some ''wss://stream-testnet.bybit.com/v5/private''"
  "\<exists>e. get_testnet_endpoint_config OKX = Inr e \<and> ep_private_ws_url e = Some ''wss://wspap.okx.com:8443/ws/v5/private''"
  "get_testnet_endpoint_config MOCK = Inl (KeyError ''mock'')"
  by (simp_all add: get_testnet_endpoint_config_def TESTNET_ENDPOINTS_def)

lemma allowed_url:
  assumes "is_allowed_testnet_websocket_url x url = Inr True"
  shows "testnet_stream_url url"
proof (cases x)
  case BINANCE
  let ?p = "''wss://stream.testnet.binance.vision/ws/''"
  have strip: "rstrip_char (CHR ''/'') ''wss://stream.testnet.binance.vision/ws'' @ ''/'' = ?p" by (simp add: rstrip_char_def)
  obtain e where "get_testnet_endpoint_config BINANCE = Inr e" "ep_public_ws_url e = Some ''wss://stream.testnet.binance.vision/ws''"
    using endpoints(1) by blast
  then have u: "startswith url ?p" "removeprefix url ?p \<noteq> []" "\<not> contains (removeprefix url ?p) ''/''"
    using assms BINANCE by (simp_all add: is_allowed_testnet_websocket_url_def Let_def strip split: if_splits)
  from allowed_binance_url [OF this] show ?thesis unfolding testnet_stream_url_def by blast
next
  case BYBIT
  then show ?thesis using assms endpoints(2) by (auto simp: is_allowed_testnet_websocket_url_def testnet_stream_url_def split: if_splits)
next
  case OKX
  then show ?thesis using assms endpoints(3) by (auto simp: is_allowed_testnet_websocket_url_def testnet_stream_url_def split: if_splits)
next
  case MOCK
  then show ?thesis using assms endpoints(4) by (auto simp: is_allowed_testnet_websocket_url_def split: if_splits)
qed

lemma listens_log: "stream_use e \<Longrightarrow> listens (log_socket e)"
  by (rule emitsI, unfold emitted_def, rule exI [of _ "[]"], rule exI [of _ "[e]"]) (auto simp: log_socket_def)

lemma listens_lift: "(\<And>a. r = Inr a \<Longrightarrow> listens (f a)) \<Longrightarrow> listens (bnd (lift_result r) f)"
proof (cases r)
  case (Inr a)
  assume "\<And>a. r = Inr a \<Longrightarrow> listens (f a)"
  then have "listens (f a)" using Inr by simp
  then show ?thesis using Inr by (intro emitsI) (auto dest: emitsD)
qed (auto intro!: emitsI simp: emitted_def)

lemma listens_finally: "listens m \<Longrightarrow> listens c \<Longrightarrow> listens (try_finally m c)"
proof (rule emitsI)
  fix s r s'
  assume m: "listens m" and c: "listens c" and run: "try_finally m c s = (r, s')"
  obtain r1 s1 r2 s2 where 1: "m s = (r1, s1)" and 2: "c s1 = (r2, s2)" by (metis surj_pair)
  then have "s' = s2" using run by (auto simp: try_finally_def split: sum.splits)
  then show "emitted listen_key_request stream_use s s'"
    using transpD [OF emitted_trans emitsD [OF m 1] emitsD [OF c 2]] by simp
qed

lemma listens_connect: "listens (transport_connect x offered connection url)"
  unfolding transport_connect_def
  by (intro emits_rules listens_lift listens_log emits_silent [OF silent_basic(2)] emits_silent [OF silent_basic(1)])
    (auto dest: allowed_url)

lemma listens_send: "stream_use (SentJson m) \<Longrightarrow> listens (transport_send_json connection m)"
  unfolding transport_send_json_def
  by (intro emits_rules listens_log emits_silent [OF silent_basic(2)] emits_silent [OF silent_basic(1)])

lemma listens_close: "listens (close_transport connection)"
  unfolding close_transport_def by (intro emits_rules listens_log emits_silent [OF silent_basic(1)]) simp

lemma listens_open:
  assumes "\<And>m. cp_websocket_login_message plan = Some m \<Longrightarrow> stream_use (SentJson m)"
  shows "listens (open_session x offered plan)"
proof -
  have failed: "listens k" if "(if is_RuntimeError e then Some (ret a) else None) = Some k" for e a k
    using that by (auto split: if_splits intro!: emits_silent silent_rules)
  have "listens (case cp_websocket_login_message plan of
          None \<Rightarrow> ret (session_of plan CONNECTED, Some peer)
        | Some message \<Rightarrow>
            try_except (bnd (transport_send_json (Some peer) message) (\<lambda>_. ret (session_of plan AUTHENTICATED, Some peer)))
              (\<lambda>e. if is_RuntimeError e then Some (ret (session_of plan CONN_FAILED, Some peer)) else None))" for peer
  proof (cases "cp_websocket_login_message plan")
    case None
    then show ?thesis by (simp only: option.case) (intro emits_silent silent_rules)
  next
    case (Some m)
    have "listens (transport_send_json (Some peer) m)" by (rule listens_send [OF assms [OF Some]])
    then show ?thesis unfolding Some option.case
      by (intro emits_try emits_bnd emits_silent [OF silent_basic(1)]) (assumption | erule failed)+
  qed
  then show ?thesis unfolding open_session_def by (intro emits_try emits_bnd listens_connect) (assumption | erule failed)+
qed

section \<open>The loops\<close>

lemma listens_receive_loop: "(\<And>ev. silent (handler ev)) \<Longrightarrow> listens (receive_loop cn x handler limit n fs)"
proof (induction fs arbitrary: n)
  case Nil
  show ?case unfolding receive_loop.simps by (intro emits_silent silent_rules)
next
  case (Cons f fs)
  then show ?case
    unfolding receive_loop.simps
    by (cases "receive_json f"; simp only: sum.case) (intro emits_rules emits_silent silent_rules Cons | blast)+
qed

lemma listens_once:
  assumes "\<And>ev. silent (handler ev)" and "\<And>m. cp_websocket_login_message plan = Some m \<Longrightarrow> stream_use (SentJson m)"
    and "\<And>k. listens (retry k)"
  shows "listens (consume_once cn dial plan handler limit attempts n retry)"
proof -
  have "listens (case e of LimitReached k \<Rightarrow> ret (consumed MESSAGE_LIMIT_REACHED k attempts)
         | Interrupted k \<Rightarrow> ret (consumed STOPPED k attempts)
         | ConnectionLost k \<Rightarrow> bnd (reads (cn_should_stop cn)) (\<lambda>stop.
             if stop then ret (consumed STOPPED k attempts) else retry k))" for e
    by (cases e; simp only: loop_end.case) (intro emits_rules emits_silent silent_rules assms(3))+
  then show ?thesis
    unfolding consume_once_def case_prod_beta
    by (intro emits_rules listens_open [OF assms(2)] listens_close listens_finally listens_receive_loop assms(1,3)
        emits_silent [OF silent_basic(1)] emits_silent [OF silent_basic(3)])
qed

lemma listens_loop:
  assumes "\<And>ev. silent (handler ev)" and "\<And>m. cp_websocket_login_message plan = Some m \<Longrightarrow> stream_use (SentJson m)"
    and "0 < cn_initial_backoff_seconds cn" "0 < cn_max_backoff_seconds cn" "cn_max_backoff_seconds cn \<le> 30"
  shows "listens (consume_loop cn dial plan handler limit left attempts n)"
proof (induction left arbitrary: attempts n)
  case 0
  show ?case unfolding consume_loop.simps
    by (rule listens_once [OF assms(1,2)]) (assumption | intro emits_silent silent_rules)+
next
  case (Suc left)
  have "listens (sleep_before_reconnect cn k)" for k
    unfolding sleep_before_reconnect_def using assms(3-5) by (intro listens_log) (simp add: min_def)
  then show ?case unfolding consume_loop.simps
    by (intro listens_once [OF assms(1,2)] emits_bnd Suc.IH)
qed

lemma try_finally_Inr:
  assumes "try_finally m c s = (Inr a, s')"
  obtains s1 where "m s = (Inr a, s1)"
  using assms by (auto simp: try_finally_def split: prod.splits sum.splits)

text \<open>Where a connection is lost before the limit, fewer messages than the limit have been processed.\<close>

definition before_limit :: "int \<Rightarrow> loop_end \<Rightarrow> bool" where
  "before_limit m e \<longleftrightarrow> (case e of LimitReached k \<Rightarrow> int k = m | ConnectionLost k \<Rightarrow> int k < m | Interrupted k \<Rightarrow> int k < m)"

lemma receive_loop_within:
  assumes "int n < m" and "receive_loop cn x handler (Some m) n fs s = (Inr e, s')"
  shows "before_limit m e"
  using assms
proof (induction fs arbitrary: n s)
  case Nil
  then show ?case by (auto simp: before_limit_def split: if_splits)
next
  case (Cons f fs)
  show ?case
  proof (cases "cn_should_stop cn s \<or> (\<exists>e. receive_json f = Inl e)")
    case True
    with Cons.prems show ?thesis by (auto simp: before_limit_def split: if_splits)
  next
    case False
    then obtain payload where p: "\<not> cn_should_stop cn s" "receive_json f = Inr payload" by (cases "receive_json f") auto
    with Cons.prems(2) obtain event where "parse_testnet_user_stream_event x payload = Inr event"
      and r: "bnd (handler event) (\<lambda>_. if limit_reached (Some m) (Suc n) then ret (LimitReached (Suc n))
           else receive_loop cn x handler (Some m) (Suc n) fs) s = (Inr e, s')"
      by (cases "parse_testnet_user_stream_event x payload") auto
    obtain s1 where s1: "(if limit_reached (Some m) (Suc n) then ret (LimitReached (Suc n))
           else receive_loop cn x handler (Some m) (Suc n) fs) s1 = (Inr e, s')"
      using r by (rule bnd_InrE)
    show ?thesis
    proof (cases "limit_reached (Some m) (Suc n)")
      case True
      with s1 Cons.prems(1) show ?thesis by (auto simp: before_limit_def limit_reached_def)
    next
      case False
      then have "int (Suc n) < m" by (simp add: limit_reached_def)
      from Cons.IH [OF this] s1 False show ?thesis by simp
    qed
  qed
qed

definition bounded_result :: "int \<Rightarrow> nat \<Rightarrow> consumer_result \<Rightarrow> bool" where
  "bounded_result m k r \<longleftrightarrow> int (cr_messages_processed r) \<le> m \<and> cr_reconnect_attempts r \<le> k
     \<and> (cr_status r = MESSAGE_LIMIT_REACHED \<longleftrightarrow> int (cr_messages_processed r) = m)"

lemma consume_once_bounded:
  assumes n: "int n < m" and at: "attempts \<le> b"
    and retry: "\<And>k s r s'. int k < m \<Longrightarrow> retry k s = (Inr r, s') \<Longrightarrow> bounded_result m b r"
    and run: "consume_once cn dial plan handler (Some m) attempts n retry s = (Inr r, s')"
  shows "bounded_result m b r"
proof (cases "cn_should_stop cn s")
  case True
  with run n at show ?thesis by (auto simp: consume_once_def consumed_def bounded_result_def)
next
  case False
  let ?fs = "\<lambda>connection. case connection of None \<Rightarrow> [] | Some peer \<Rightarrow> wp_frames peer"
  let ?after = "\<lambda>e. case e of LimitReached k \<Rightarrow> ret (consumed MESSAGE_LIMIT_REACHED k attempts)
     | Interrupted k \<Rightarrow> ret (consumed STOPPED k attempts)
     | ConnectionLost k \<Rightarrow> bnd (reads (cn_should_stop cn)) (\<lambda>stop.
         if stop then ret (consumed STOPPED k attempts) else retry k)"
  obtain sess connection s1 where o: "open_session (cp_exchange_name plan) (dial attempts) plan s = (Inr (sess, connection), s1)"
    and s1: "(if ss_status sess = CONN_FAILED then bnd (close_transport connection) (\<lambda>_. retry n)
       else bnd (try_finally (receive_loop cn (cp_exchange_name plan) handler (Some m) n (?fs connection))
              (close_transport connection)) ?after) s1 = (Inr r, s')"
    using run False by (auto simp: consume_once_def elim!: bnd_InrE)
  show ?thesis
  proof (cases "ss_status sess = CONN_FAILED")
    case True
    with s1 retry [OF n] show ?thesis by (auto elim!: bnd_InrE)
  next
    case False
    then obtain e s2 where e: "try_finally (receive_loop cn (cp_exchange_name plan) handler (Some m) n (?fs connection))
              (close_transport connection) s1 = (Inr e, s2)" "?after e s2 = (Inr r, s')"
      using s1 by (auto elim!: bnd_InrE)
    obtain s3 where "receive_loop cn (cp_exchange_name plan) handler (Some m) n (?fs connection) s1 = (Inr e, s3)"
      using e(1) by (rule try_finally_Inr)
    then have "before_limit m e" by (rule receive_loop_within [OF n])
    then show ?thesis using e(2) at retry
      by (cases e) (auto simp: before_limit_def consumed_def bounded_result_def split: if_splits)
  qed
qed

lemma consume_loop_bounded:
  assumes "int n < m" and "consume_loop cn dial plan handler (Some m) left attempts n s = (Inr r, s')"
  shows "bounded_result m (attempts + left) r"
  using assms
proof (induction left arbitrary: attempts n s r s')
  case 0
  show ?case
    by (rule consume_once_bounded [OF 0(1) _ _ 0(2) [unfolded consume_loop.simps]])
      (auto simp: bounded_result_def consumed_def)
next
  case (Suc left)
  have "bounded_result m (attempts + Suc left) r"
    if "int k < m" and "bnd (sleep_before_reconnect cn (Suc attempts)) (\<lambda>_.
         consume_loop cn dial plan handler (Some m) left (Suc attempts) k) s = (Inr r, s')" for k s r s'
    using that(2) Suc.IH [OF that(1), of "Suc attempts"] by (auto elim!: bnd_InrE)
  from consume_once_bounded [OF Suc.prems(1) _ this Suc.prems(2) [unfolded consume_loop.simps]] show ?case by simp
qed

section \<open>How often it dials\<close>

fun is_dial :: "socket_event \<Rightarrow> bool" where
  "is_dial (Dialed _) = True"
| "is_dial _ = False"

definition dials :: "session \<Rightarrow> nat" where
  "dials s = length (filter is_dial (sockets s))"

definition dials_at_most :: "nat \<Rightarrow> 'a op \<Rightarrow> bool" where
  "dials_at_most b m \<longleftrightarrow> (\<forall>s. dials (snd (m s)) \<le> dials s + b)"

lemma dials_silent: "silent m \<Longrightarrow> dials_at_most 0 m"
  unfolding dials_at_most_def dials_def by (metis add_0_right order_refl prod.collapse silent_sockets)

lemma dials_mono: "dials_at_most a m \<Longrightarrow> a \<le> b \<Longrightarrow> dials_at_most b m"
  unfolding dials_at_most_def by (meson add_left_mono order_trans)

lemma dials_bnd:
  assumes "dials_at_most a m" and "\<And>x. dials_at_most b (f x)"
  shows "dials_at_most (a + b) (bnd m f)"
  unfolding dials_at_most_def
proof
  fix s
  obtain r s1 where m: "m s = (r, s1)" by fastforce
  then have 1: "dials s1 \<le> dials s + a" using assms(1) by (metis dials_at_most_def snd_conv)
  show "dials (snd (bnd m f s)) \<le> dials s + (a + b)"
  proof (cases r)
    case (Inl e)
    with m 1 show ?thesis by (simp add: bnd_def)
  next
    case (Inr x)
    have "dials (snd (f x s1)) \<le> dials s1 + b" using assms(2) by (simp add: dials_at_most_def)
    with m Inr 1 show ?thesis by (simp add: bnd_def)
  qed
qed

lemma dials_bnd0: "dials_at_most 0 m \<Longrightarrow> (\<And>x. dials_at_most b (f x)) \<Longrightarrow> dials_at_most b (bnd m f)"
  using dials_bnd [of 0 m b f] by simp

lemma dials_try:
  assumes "dials_at_most a m" and "\<And>e k. h e = Some k \<Longrightarrow> dials_at_most 0 k"
  shows "dials_at_most a (try_except m h)"
  unfolding dials_at_most_def
proof
  fix s
  obtain r s1 where m: "m s = (r, s1)" by fastforce
  then have 1: "dials s1 \<le> dials s + a" using assms(1) by (metis dials_at_most_def snd_conv)
  show "dials (snd (try_except m h s)) \<le> dials s + a"
  proof (cases "\<exists>e k. r = Inl e \<and> h e = Some k")
    case True
    then obtain e k where k: "r = Inl e" "h e = Some k" by blast
    then have "dials (snd (k s1)) \<le> dials s1" using assms(2) by (fastforce simp: dials_at_most_def)
    with m k 1 show ?thesis by (simp add: try_except_def)
  next
    case False
    with m 1 show ?thesis by (cases r) (auto simp: try_except_def split: option.split)
  qed
qed

lemma dials_log: "dials_at_most (if is_dial e then 1 else 0) (log_socket e)"
  by (simp add: dials_at_most_def dials_def log_socket_def)

lemma dials_basic: "dials_at_most 0 (ret a)" "dials_at_most 0 (raise e)" "dials_at_most 0 (reads f)" "dials_at_most 0 (lift_result r)"
  by (auto intro!: dials_silent silent_rules)

lemma dials_raise: "dials_at_most b (raise e)"
  by (rule dials_mono [OF dials_basic(2)]) simp

lemma dials_if: "dials_at_most b m \<Longrightarrow> dials_at_most b m' \<Longrightarrow> dials_at_most b (if c then m else m')"
  by simp

lemma dials_case_option:
  "dials_at_most b m \<Longrightarrow> (\<And>a. dials_at_most b (f a)) \<Longrightarrow> dials_at_most b (case x of None \<Rightarrow> m | Some a \<Rightarrow> f a)"
  by (simp split: option.split)

lemma dials_finally: "dials_at_most 0 m \<Longrightarrow> dials_at_most 0 c \<Longrightarrow> dials_at_most 0 (try_finally m c)"
proof -
  assume m: "dials_at_most 0 m" and c: "dials_at_most 0 c"
  show ?thesis
    unfolding dials_at_most_def
  proof
    fix s
    obtain r1 s1 r2 s2 where 1: "m s = (r1, s1)" and 2: "c s1 = (r2, s2)" by (metis surj_pair)
    have "dials s1 \<le> dials s" "dials s2 \<le> dials s1" using m c 1 2 by (metis add_0_right dials_at_most_def snd_conv)+
    then show "dials (snd (try_finally m c s)) \<le> dials s + 0"
      using 1 2 by (auto simp: try_finally_def split: sum.splits)
  qed
qed

lemma dials_close: "dials_at_most 0 (close_transport connection)"
  using dials_log [of ClosedSocket] by (cases connection) (simp_all add: close_transport_def dials_basic)

lemma dials_open: "dials_at_most 1 (open_session x offered plan)"
proof -
  have failed: "dials_at_most 0 k" if "(if is_RuntimeError e then Some (ret a) else None) = Some k" for e a k
    using that by (auto split: if_splits intro: dials_basic)
  have "dials_at_most 1 (transport_connect x offered connection url)" for connection url
  proof -
    have "dials_at_most 0 (case offered of None \<Rightarrow> raise e | Some peer \<Rightarrow> ret peer)" for e
      by (cases offered) (simp_all add: dials_basic)
    then have "dials_at_most 1 (bnd (log_socket (Dialed url)) (\<lambda>_. case offered of None \<Rightarrow> raise e | Some peer \<Rightarrow> ret peer))" for e
      using dials_bnd [OF dials_log [of "Dialed url"]] by fastforce
    then show ?thesis
      unfolding transport_connect_def
      by (auto intro!: dials_bnd0 dials_basic dials_raise)
  qed
  moreover have "dials_at_most 0 (case cp_websocket_login_message plan of
          None \<Rightarrow> ret (session_of plan CONNECTED, Some peer)
        | Some message \<Rightarrow>
            try_except (bnd (transport_send_json (Some peer) message) (\<lambda>_. ret (session_of plan AUTHENTICATED, Some peer)))
              (\<lambda>e. if is_RuntimeError e then Some (ret (session_of plan CONN_FAILED, Some peer)) else None))" for peer
  proof (cases "cp_websocket_login_message plan")
    case (Some m)
    have "dials_at_most 0 (transport_send_json (Some peer) m)"
      using dials_log [of "SentJson m"] by (auto simp: transport_send_json_def intro!: dials_bnd0 dials_basic)
    then show ?thesis unfolding Some option.case
      by (intro dials_try dials_bnd0 dials_basic) (assumption | erule failed)+
  qed (simp add: dials_basic)
  ultimately have "dials_at_most (1 + 0) (bnd (transport_connect x offered None (cp_websocket_url plan)) (\<lambda>peer.
        case cp_websocket_login_message plan of
          None \<Rightarrow> ret (session_of plan CONNECTED, Some peer)
        | Some message \<Rightarrow>
            try_except (bnd (transport_send_json (Some peer) message) (\<lambda>_. ret (session_of plan AUTHENTICATED, Some peer)))
              (\<lambda>e. if is_RuntimeError e then Some (ret (session_of plan CONN_FAILED, Some peer)) else None)))"
    by (rule dials_bnd)
  then show ?thesis unfolding open_session_def by (intro dials_try) (simp | erule failed)+
qed

lemma dials_receive_loop: "(\<And>ev. silent (handler ev)) \<Longrightarrow> dials_at_most 0 (receive_loop cn x handler limit n fs)"
proof (induction fs arbitrary: n)
  case Nil
  show ?case unfolding receive_loop.simps by (intro dials_silent silent_rules)
next
  case (Cons f fs)
  show ?case
    unfolding receive_loop.simps
  proof (cases "receive_json f"; simp only: sum.case)
    case (Inl e)
    show "dials_at_most 0 (bnd (reads (cn_should_stop cn)) (\<lambda>stop. if stop then ret (Interrupted n) else ret (ConnectionLost n)))"
      by (intro dials_silent silent_rules)
  next
    case (Inr payload)
    have "dials_at_most 0 (if limit_reached limit (Suc n) then ret (LimitReached (Suc n))
        else receive_loop cn x handler limit (Suc n) fs)"
      using Cons by (simp add: dials_basic)
    then have "dials_at_most 0 (bnd (lift_result (parse_testnet_user_stream_event x payload)) (\<lambda>event.
         bnd (handler event) (\<lambda>_. if limit_reached limit (Suc n) then ret (LimitReached (Suc n))
           else receive_loop cn x handler limit (Suc n) fs)))"
      using Cons.prems by (intro dials_bnd0 dials_basic dials_silent [of "handler _"])
    then show "dials_at_most 0 (bnd (reads (cn_should_stop cn)) (\<lambda>stop. if stop then ret (Interrupted n)
        else bnd (lift_result (parse_testnet_user_stream_event x payload)) (\<lambda>event.
         bnd (handler event) (\<lambda>_. if limit_reached limit (Suc n) then ret (LimitReached (Suc n))
           else receive_loop cn x handler limit (Suc n) fs))))"
      by (intro dials_bnd0 dials_basic) (simp add: dials_basic)
  qed
qed

lemma dials_once:
  assumes h: "\<And>ev. silent (handler ev)" and retry: "\<And>k. dials_at_most b (retry k)"
  shows "dials_at_most (1 + b) (consume_once cn dial plan handler limit attempts n retry)"
proof -
  note z = dials_basic [THEN dials_mono]
  have "dials_at_most b (case e of LimitReached k \<Rightarrow> ret (consumed MESSAGE_LIMIT_REACHED k attempts)
         | Interrupted k \<Rightarrow> ret (consumed STOPPED k attempts)
         | ConnectionLost k \<Rightarrow> bnd (reads (cn_should_stop cn)) (\<lambda>stop.
             if stop then ret (consumed STOPPED k attempts) else retry k))" for e
    by (cases e) (auto intro!: z dials_bnd0 dials_basic retry)
  then have after: "dials_at_most b (if ss_status sess = CONN_FAILED then bnd (close_transport connection) (\<lambda>_. retry n)
       else bnd (try_finally
                  (receive_loop cn (cp_exchange_name plan) handler limit n
                     (case connection of None \<Rightarrow> [] | Some peer \<Rightarrow> wp_frames peer))
                  (close_transport connection)) (\<lambda>e. case e of
           LimitReached k \<Rightarrow> ret (consumed MESSAGE_LIMIT_REACHED k attempts)
         | Interrupted k \<Rightarrow> ret (consumed STOPPED k attempts)
         | ConnectionLost k \<Rightarrow> bnd (reads (cn_should_stop cn)) (\<lambda>stop.
             if stop then ret (consumed STOPPED k attempts) else retry k)))" for sess connection
    by (simp add: dials_bnd0 [OF dials_close retry] dials_bnd0 [OF dials_finally [OF dials_receive_loop [OF h] dials_close]])
  show ?thesis
    unfolding consume_once_def case_prod_beta
    by (rule dials_bnd0 [OF dials_basic(3)], simp only: split: if_split, intro conjI impI z(1) dials_bnd dials_open after) simp
qed

lemma dials_loop:
  assumes h: "\<And>ev. silent (handler ev)"
  shows "dials_at_most (Suc left) (consume_loop cn dial plan handler limit left attempts n)"
proof (induction left arbitrary: attempts n)
  case 0
  show ?case using dials_once [OF h, of 0] by (simp add: dials_basic)
next
  case (Suc left)
  have "dials_at_most 0 (sleep_before_reconnect cn k)" for k
    using dials_log [of "Slept _"] by (simp add: sleep_before_reconnect_def)
  then have "dials_at_most (Suc left) (bnd (sleep_before_reconnect cn (Suc attempts)) (\<lambda>_.
         consume_loop cn dial plan handler limit left (Suc attempts) k))" for k
    by (intro dials_bnd0 Suc.IH)
  then show ?case using dials_once [OF h, of "Suc left"] by simp
qed

section \<open>The database sees only the handler\<close>

lemma preserves_log [preserves_rules]: "preserves J (log_socket e)"
  by (rule preservesI) (auto simp: log_socket_def both_def)

lemma preserves_finally [preserves_rules]:
  "preserves J m \<Longrightarrow> preserves J c \<Longrightarrow> preserves J (try_finally m c)"
proof (rule preservesI)
  fix s r s'
  assume m: "preserves J m" and c: "preserves J c"
    and run: "try_finally m c s = (r, s')" and J: "both J s"
  obtain r1 s1 r2 s2 where 1: "m s = (r1, s1)" and 2: "c s1 = (r2, s2)" by (metis surj_pair)
  then have "s' = s2" using run by (auto simp: try_finally_def split: sum.splits)
  then show "both J s'"
    using preservesD [OF c 2 preservesD [OF m 1 J]] by simp
qed

lemma preserves_open [preserves_rules]: "preserves J (open_session x offered plan)"
  unfolding open_session_def transport_connect_def transport_send_json_def
  by (rule preserves_try_except, intro preserves_rules preserves_try_except)
    (auto split: if_splits option.splits intro!: preserves_rules)

lemma preserves_close [preserves_rules]: "preserves J (close_transport connection)"
  unfolding close_transport_def by (intro preserves_rules)

lemma preserves_receive_loop [preserves_rules]:
  assumes h: "\<And>ev. preserves J (handler ev)"
  shows "preserves J (receive_loop cn x handler limit n fs)"
proof (induction fs arbitrary: n)
  case Nil
  show ?case unfolding receive_loop.simps by (intro preserves_rules)
next
  case (Cons f fs)
  show ?case unfolding receive_loop.simps by (intro preserves_rules h Cons.IH)
qed

lemma preserves_once:
  assumes "\<And>ev. preserves J (handler ev)" and "\<And>k. preserves J (retry k)"
  shows "preserves J (consume_once cn dial plan handler limit attempts n retry)"
proof -
  have "preserves J (case e of LimitReached k \<Rightarrow> ret (consumed MESSAGE_LIMIT_REACHED k attempts)
         | Interrupted k \<Rightarrow> ret (consumed STOPPED k attempts)
         | ConnectionLost k \<Rightarrow> bnd (reads (cn_should_stop cn)) (\<lambda>stop.
             if stop then ret (consumed STOPPED k attempts) else retry k))" for e
    by (cases e; simp only: loop_end.case) (intro preserves_rules assms)+
  then show ?thesis unfolding consume_once_def by (intro preserves_rules assms)
qed

lemma preserves_loop:
  assumes "\<And>ev. preserves J (handler ev)"
  shows "preserves J (consume_loop cn dial plan handler limit left attempts n)"
proof (induction left arbitrary: attempts n)
  case 0
  show ?case unfolding consume_loop.simps by (intro preserves_once assms preserves_rules)
next
  case (Suc left)
  show ?case unfolding consume_loop.simps sleep_before_reconnect_def by (intro preserves_once assms preserves_rules Suc.IH)
qed

section \<open>Plans hold no order\<close>

definition harmless_plan :: "connection_plan \<Rightarrow> bool" where
  "harmless_plan plan \<longleftrightarrow> (\<forall>m. cp_websocket_login_message plan = Some m \<longrightarrow> stream_use (SentJson m))
     \<and> (\<forall>q. cp_listen_key_request plan = Some q \<longrightarrow> pr_method q = ''POST'' \<and> pr_params q = [] \<and> pr_body q = None
          \<and> pr_url q = ''https://testnet.binance.vision/api/v3/userDataStream'')"

lemma built_plan_harmless:
  assumes "build_testnet_user_stream_connection_plan account_id x cr t u = Inr plan"
  shows "harmless_plan plan"
proof (cases x)
  case BINANCE
  obtain e where "get_testnet_endpoint_config BINANCE = Inr e" "ep_public_ws_url e = Some ''wss://stream.testnet.binance.vision/ws''"
     "ep_rest_base_url e = ''https://testnet.binance.vision''" using endpoints(1) by blast
  then show ?thesis using assms BINANCE
    by (auto simp: build_testnet_user_stream_connection_plan_def binance_plan_def harmless_plan_def)
next
  case BYBIT
  then show ?thesis using assms endpoints(2)
    by (auto simp: build_testnet_user_stream_connection_plan_def bybit_plan_def harmless_plan_def Let_def dict_get_def)
next
  case OKX
  obtain e url where "get_testnet_endpoint_config OKX = Inr e" "ep_private_ws_url e = Some url" using endpoints(3) by blast
  then show ?thesis using assms OKX
    by (cases "ec_passphrase cr") (auto simp: build_testnet_user_stream_connection_plan_def okx_plan_def harmless_plan_def dict_get_def)
next
  case MOCK
  then show ?thesis using assms endpoints(4) by (simp add: build_testnet_user_stream_connection_plan_def)
qed

lemma listens_activate:
  assumes "harmless_plan plan"
  shows "listens (activate_testnet_user_stream_connection_plan net plan)"
proof (cases "cp_listen_key_request plan")
  case (Some q)
  have "listens (execute_prepared_request net q)"
  proof (rule emitsI)
    fix s r s'
    assume run: "execute_prepared_request net q s = (r, s')"
    obtain w where w: "wire_request q = Inr w" "listen_key_request w"
      using assms Some by (auto simp: harmless_plan_def wire_request_def canonical_query_def urlencode_def listen_key_request_def Let_def)
    with transport_sends_one [OF run [unfolded execute_prepared_request_def]]
    have "wire s' = wire s @ [w]" "sockets s' = sockets s" by auto
    with w(2) show "emitted listen_key_request stream_use s s'"
      unfolding emitted_def by (intro exI [of _ "[w]"] exI [of _ "[]"]) simp
  qed
  then show ?thesis
    unfolding activate_testnet_user_stream_connection_plan_def Some option.case
    by (intro emits_rules emits_silent [OF silent_basic(1)] emits_silent [OF silent_basic(2)] emits_silent [OF silent_basic(5)])
qed (auto simp: activate_testnet_user_stream_connection_plan_def intro!: emits_silent silent_rules)

lemma activated_login:
  assumes "activate_testnet_user_stream_connection_plan net plan s = (Inr plan', s')"
  shows "cp_websocket_login_message plan' = cp_websocket_login_message plan"
  using assms
  by (auto simp: activate_testnet_user_stream_connection_plan_def Let_def split: option.splits if_splits elim!: bnd_InrE)

section \<open>The service\<close>

definition stream_consumer :: consumer where
  "stream_consumer = \<lparr>cn_should_stop = (\<lambda>_. False), cn_max_reconnect_attempts = 1,
     cn_initial_backoff_seconds = 1, cn_max_backoff_seconds = 30\<rparr>"

lemma stream_consumer_new: "bnd (lift_result (new_consumer (\<lambda>_. False) 1 1 30)) f = f stream_consumer"
  by (rule ext) (simp add: new_consumer_def stream_consumer_def)

lemma stream_consume:
  "consume stream_consumer dial plan handler (Some m) =
     (if m \<le> 0 then raise (ValueError ''max_messages must be positive'')
      else consume_loop stream_consumer dial plan handler (Some m) 1 0 0)"
  by (simp add: consume_def stream_consumer_def)

lemma listens_bnd_dep:
  assumes "listens m" and "\<And>s a s'. m s = (Inr a, s') \<Longrightarrow> listens (f a)"
  shows "listens (bnd m f)"
proof (rule emitsI)
  fix s r s'
  assume run: "bnd m f s = (r, s')"
  obtain r1 s1 where 1: "m s = (r1, s1)" by fastforce
  show "emitted listen_key_request stream_use s s'"
  proof (cases r1)
    case (Inl e)
    with 1 run emitsD [OF assms(1) 1] show ?thesis by (auto simp: bnd_def)
  next
    case (Inr a)
    with 1 run have "f a s1 = (r, s')" by (simp add: bnd_def)
    from transpD [OF emitted_trans emitsD [OF assms(1) 1] emitsD [OF assms(2) this]] 1 Inr show ?thesis by simp
  qed
qed

lemma listens_consume:
  assumes "\<And>m. cp_websocket_login_message plan = Some m \<Longrightarrow> stream_use (SentJson m)"
  shows "listens (consume stream_consumer dial plan (handle_event u a) (Some m))"
  unfolding stream_consume
  by (intro emits_if emits_silent [OF silent_basic(2)] listens_loop silent_handle_event assms) (simp_all add: stream_consumer_def)

lemma dials_consume: "dials_at_most 2 (consume stream_consumer dial plan (handle_event u a) (Some m))"
proof -
  have "dials_at_most (Suc 1) (consume_loop stream_consumer dial plan (handle_event u a) (Some m) 1 0 0)"
    by (rule dials_loop [OF silent_handle_event])
  then show ?thesis by (auto simp: stream_consume numeral_2_eq_2 simp del: consume_loop.simps intro: dials_raise)
qed

lemma consume_bounded:
  assumes "consume stream_consumer dial plan handler (Some m) s = (Inr r, s')"
  shows "bounded_result m 1 r"
  using assms consume_loop_bounded [of 0 m stream_consumer dial plan handler 1 0 s r s']
  by (auto simp: stream_consume split: if_splits)

lemma silent_stream_account: "silent (stream_account u i adapters)"
  unfolding stream_account_def get_owned_account_def by (intro silent_rules)

lemma silent_stream_audit: "silent (write_stream_audit u z)"
  unfolding write_stream_audit_def add_audit_def by (intro silent_rules)

lemma preserves_activate [preserves_rules]:
  "preserves J (activate_testnet_user_stream_connection_plan net plan)"
proof -
  have "preserves J (execute_prepared_request net q)" for q
  proof (rule preservesI)
    fix s r s'
    assume "execute_prepared_request net q s = (r, s')" and J: "both J s"
    with transport_sends_one [of net q s r s'] show "both J s'"
      by (auto simp: execute_prepared_request_def both_def)
  qed
  then show ?thesis unfolding activate_testnet_user_stream_connection_plan_def by (intro preserves_rules)
qed

lemma dials_activate: "dials_at_most 0 (activate_testnet_user_stream_connection_plan net plan)"
proof -
  have "dials_at_most 0 (execute_prepared_request net q)" for q
    unfolding dials_at_most_def dials_def
  proof
    fix s
    obtain r s' where "transport_request net q s = (r, s')" by fastforce
    with transport_sends_one [OF this]
    show "length (filter is_dial (sockets (snd (execute_prepared_request net q s)))) \<le> length (filter is_dial (sockets s)) + 0"
      by (auto simp: execute_prepared_request_def)
  qed
  then show ?thesis
    unfolding activate_testnet_user_stream_connection_plan_def
    by (cases "cp_listen_key_request plan") (auto intro!: dials_bnd0 dials_basic simp: Let_def)
qed

lemma stream_service_rules:
  "listens (consume_bounded_testnet_user_stream c net dial u i adapters m)"
  "dials_at_most 2 (consume_bounded_testnet_user_stream c net dial u i adapters m)"
proof -
  note quiet = emits_silent [OF silent_basic(1)] emits_silent [OF silent_basic(2)] emits_silent [OF silent_stream_account]
    emits_silent [OF silent_stream_audit] emits_silent [OF silent_reads(5)]
  have tail: "listens (bnd (activate_testnet_user_stream_connection_plan net plan) (\<lambda>plan.
        bnd (consume stream_consumer dial plan (handle_event u (ea_id account)) (Some m)) (\<lambda>consumer_result.
          let result = consume_result_of (ea_id account) (ea_exchange_name account) consumer_result
          in bnd (write_stream_audit u result) (\<lambda>_. ret result))))"
    if "build_testnet_user_stream_connection_plan (ea_id account) (ea_exchange_name account) cr 1700000000000 ''1700000000'' = Inr plan"
    for account plan cr
  proof -
    have plan: "harmless_plan plan" using that by (rule built_plan_harmless)
    have consume: "listens (consume stream_consumer dial plan' (handle_event u (ea_id account)) (Some m))"
      if "activate_testnet_user_stream_connection_plan net plan s = (Inr plan', s')" for s plan' s'
      using plan activated_login [OF that] by (intro listens_consume) (simp add: harmless_plan_def)
    show ?thesis
      by (rule listens_bnd_dep [OF listens_activate [OF plan]]) (intro emits_rules quiet, erule consume)
  qed
  show "listens (consume_bounded_testnet_user_stream c net dial u i adapters m)"
    unfolding consume_bounded_testnet_user_stream_def stream_consumer_new
    by (erule tail | rule listens_lift | rule quiet emits_if emits_case_option emits_bnd)+
  have audit: "dials_at_most 0 (let result = consume_result_of a x r in bnd (write_stream_audit u result) (\<lambda>_. ret result))" for a x r
    unfolding Let_def by (intro dials_bnd0 dials_silent silent_stream_audit dials_basic)
  have run: "dials_at_most 2 (bnd (consume stream_consumer dial plan (handle_event u a) (Some m)) (\<lambda>consumer_result.
          let result = consume_result_of a x consumer_result in bnd (write_stream_audit u result) (\<lambda>_. ret result)))" for plan a x
    using dials_bnd [OF dials_consume audit] by simp
  show "dials_at_most 2 (consume_bounded_testnet_user_stream c net dial u i adapters m)"
    unfolding consume_bounded_testnet_user_stream_def stream_consumer_new
    by (rule run dials_raise dials_basic(4) dials_activate dials_silent [OF silent_stream_account] dials_silent [OF silent_reads(5)]
        dials_if dials_case_option dials_bnd0)+
qed

lemma handled_stream_error: "stream_handlers e = Some k \<Longrightarrow> \<exists>x. k = raise x"
  by (auto simp: stream_handlers_def split: py_exc.splits if_splits)

lemma stream_route_rules:
  "listens (consume_testnet_user_stream c net dial adapters i m ack user)"
  "dials_at_most 2 (consume_testnet_user_stream c net dial adapters i m ack user)"
proof -
  show "listens (consume_testnet_user_stream c net dial adapters i m ack user)"
    unfolding consume_testnet_user_stream_def require_super_admin_def require_testnet_enabled_def
    by (intro emits_rules stream_service_rules emits_silent) (auto dest!: handled_stream_error intro!: silent_rules)
  show "dials_at_most 2 (consume_testnet_user_stream c net dial adapters i m ack user)"
    unfolding consume_testnet_user_stream_def require_super_admin_def require_testnet_enabled_def
    by (intro dials_bnd0 dials_if dials_try stream_service_rules dials_basic dials_raise) (auto dest!: handled_stream_error intro: dials_basic)
qed

text \<open>
  What the whole route does to the database is what its handler does: a property that order events
  and the sync of balances and positions keep, the route keeps.
\<close>

locale stream_effects = order_effects J for J +
  assumes sync_law: "preserves J (sync_testnet_account_state_event user_id account_id event)"
begin

lemma kept_handle_event: "preserves J (handle_event u a ev)"
  unfolding handle_event_def handle_user_stream_event_def
  by (intro preserves_rules sync_law kept_apply_event)

lemma kept_consume: "preserves J (consume stream_consumer dial plan (handle_event u a) (Some m))"
  unfolding stream_consume by (intro preserves_rules preserves_loop kept_handle_event)

lemma kept_stream_service: "preserves J (consume_bounded_testnet_user_stream c net dial u i adapters m)"
  unfolding consume_bounded_testnet_user_stream_def stream_consumer_new stream_account_def get_owned_account_def
    get_exchange_credentials_def get_api_key_secret_metadata_def write_stream_audit_def add_audit_def
  by (intro preserves_rules audits_law kept_consume)

lemma kept_stream_route: "preserves J (consume_testnet_user_stream c net dial adapters i m ack user)"
  unfolding consume_testnet_user_stream_def require_super_admin_def require_testnet_enabled_def
  by (intro preserves_rules preserves_try_except kept_stream_service)
    (auto dest!: handled_stream_error intro!: preserves_rules)

end

interpretation flag_streams: stream_effects "flags_are as rs ids" for as rs ids
  by unfold_locales (rule flags_sync)

interpretation sane_streams: stream_effects balances_sane
  by unfold_locales (rule preserves_sync)

interpretation trail_streams: stream_effects trails_inv
  by unfold_locales (rule trails_sync)

lemma stream_result_bounded:
  assumes "consume_testnet_user_stream c net dial adapters i m ack user s = (Inr z, s')"
  shows "1 \<le> m \<and> m \<le> 20 \<and> int (cz_messages_processed z) \<le> m \<and> cz_reconnect_attempts z \<le> 1
    \<and> (cz_status z = ''MESSAGE_LIMIT_REACHED'' \<longleftrightarrow> int (cz_messages_processed z) = m)"
proof -
  have "try_except (consume_bounded_testnet_user_stream c net dial (u_id user) i adapters m) stream_handlers s = (Inr z, s')"
    using assms by (auto simp: consume_testnet_user_stream_def require_super_admin_def require_testnet_enabled_def split: if_splits)
  then have run: "consume_bounded_testnet_user_stream c net dial (u_id user) i adapters m s = (Inr z, s')"
    by (auto simp: try_except_def stream_handlers_def split: prod.splits sum.splits option.splits py_exc.splits if_splits)
  then obtain plan a x r s1 s2 where "consume stream_consumer dial plan (handle_event (u_id user) a) (Some m) s1 = (Inr r, s2)"
    and z: "z = consume_result_of a x r" and m: "1 \<le> m" "m \<le> 20"
    by (auto simp: consume_bounded_testnet_user_stream_def stream_consumer_new Let_def split: if_splits option.splits sum.splits elim!: bnd_InrE)
  from consume_bounded [OF this(1)] z m show ?thesis
    by (cases "cr_status r") (auto simp: bounded_result_def consume_result_of_def)
qed

section \<open>Properties\<close>

text \<open>C33: Listening to a private stream is bounded: whatever the peer sends, at most two connections are opened.
  Where the route answers, between one and twenty messages were asked for, no more were processed, one
  reconnect was tried at most, and the status tells whether the limit was reached.\<close>

theorem stream_is_bounded:
  assumes "consume_testnet_user_stream c net dial adapters account_id max_messages ack user s = (r, s')"
  shows "dials s' \<le> dials s + 2 \<and>
    (\<forall>z. r = Inr z \<longrightarrow> 1 \<le> max_messages \<and> max_messages \<le> 20 \<and> int (cz_messages_processed z) \<le> max_messages
       \<and> cz_reconnect_attempts z \<le> 1
       \<and> (cz_status z = ''MESSAGE_LIMIT_REACHED'' \<longleftrightarrow> int (cz_messages_processed z) = max_messages))"
proof -
  have "dials s' \<le> dials s + 2"
    using stream_route_rules(2) assms unfolding dials_at_most_def by (metis snd_conv)
  moreover have "1 \<le> max_messages \<and> max_messages \<le> 20 \<and> int (cz_messages_processed z) \<le> max_messages \<and> cz_reconnect_attempts z \<le> 1
       \<and> (cz_status z = ''MESSAGE_LIMIT_REACHED'' \<longleftrightarrow> int (cz_messages_processed z) = max_messages)" if "r = Inr z" for z
    using stream_result_bounded [OF assms [unfolded that]] .
  ultimately show ?thesis by blast
qed

text \<open>A listen key is handed out and every connection fails.\<close>

definition key_network :: network where
  "key_network q = Reply (PDict [(''listenKey'', PStr ''k1'')])"

lemma refused_open:
  assumes "is_allowed_testnet_websocket_url x (cp_websocket_url plan) = Inr True"
  shows "open_session x None plan s = (Inr (session_of plan CONN_FAILED, None), s\<lparr>sockets := sockets s @ [Dialed (cp_websocket_url plan)]\<rparr>)"
  using assms by (simp add: open_session_def transport_connect_def try_except_def bnd_def log_socket_def modify_def lift_result_def)

lemma refused_stream:
  assumes "is_allowed_testnet_websocket_url (cp_exchange_name plan) (cp_websocket_url plan) = Inr True" and "0 < m"
  shows "consume stream_consumer (\<lambda>_. None) plan handler (Some m) s = (Inr (consumed RECONNECT_EXHAUSTED 0 1),
     s\<lparr>sockets := sockets s @ [Dialed (cp_websocket_url plan), Slept 1, Dialed (cp_websocket_url plan)]\<rparr>)"
  using assms(2)
  by (simp add: stream_consume consume_once_def bnd_Inr [where m = "open_session _ _ _", OF refused_open [OF assms(1)]]
      session_of_def close_transport_def sleep_before_reconnect_def log_socket_def) (simp add: stream_consumer_def)

definition key_plan :: connection_plan where
  "key_plan = \<lparr>cp_exchange_account_id = ''acct-2'', cp_exchange_name = BINANCE,
     cp_websocket_url = ''wss://stream.testnet.binance.vision/ws/k1'', cp_auth_method = BINANCE_LISTEN_KEY,
     cp_listen_key_request = None, cp_websocket_login_message = None\<rparr>"

lemma key_plan_allowed: "is_allowed_testnet_websocket_url (cp_exchange_name key_plan) (cp_websocket_url key_plan) = Inr True"
  by (simp add: key_plan_def is_allowed_testnet_websocket_url_def get_testnet_endpoint_config_def TESTNET_ENDPOINTS_def
      rstrip_char_def removeprefix_def startswith_def contains_char Let_def)

definition key_request :: prepared_request where
  "key_request = \<lparr>pr_method = ''POST'', pr_url = ''https://testnet.binance.vision/api/v3/userDataStream'',
     pr_path = ''/api/v3/userDataStream'', pr_params = [], pr_headers = [(''X-MBX-APIKEY'', [])], pr_body = None\<rparr>"

definition unopened_plan :: connection_plan where
  "unopened_plan = key_plan\<lparr>cp_websocket_url := ''wss://stream.testnet.binance.vision/ws/{listenKey}'',
     cp_listen_key_request := Some key_request\<rparr>"

lemma unopened_plan_built: "build_testnet_user_stream_connection_plan ''acct-2'' BINANCE
    \<lparr>ec_api_key = [], ec_api_secret = [], ec_passphrase = None\<rparr> t u = Inr unopened_plan"
  by (simp add: build_testnet_user_stream_connection_plan_def binance_plan_def get_testnet_endpoint_config_def TESTNET_ENDPOINTS_def
      unopened_plan_def key_plan_def key_request_def)

lemma unopened_plan_activated:
  "\<exists>qs. activate_testnet_user_stream_connection_plan key_network unopened_plan s = (Inr key_plan, s\<lparr>wire := wire s @ qs\<rparr>)"
proof -
  have url: "replace ''{listenKey}'' ''k1'' ''wss://stream.testnet.binance.vision/ws/{listenKey}'' = ''wss://stream.testnet.binance.vision/ws/k1''"
    by (simp add: replace.simps startswith_def)
  obtain w where w: "wire_request key_request = Inr w" by (simp add: wire_request_def key_request_def Let_def)
  have sent: "execute_prepared_request key_network key_request s =
      (Inr (PDict [(''listenKey'', PStr ''k1'')]), s\<lparr>wire := wire s @ [w]\<rparr>)"
    by (simp add: execute_prepared_request_def transport_request_def w key_network_def)
  have key: "listen_key (PDict [(''listenKey'', PStr ''k1'')]) = Inr ''k1''"
    by (simp add: listen_key_def dict_get_def mapping_or_empty_def strip_def lstrip_def is_space_def contains_char)
  have "activate_testnet_user_stream_connection_plan key_network unopened_plan s = (Inr key_plan, s\<lparr>wire := wire s @ [w]\<rparr>)"
    by (simp add: activate_testnet_user_stream_connection_plan_def unopened_plan_def bnd_Inr [where m = "execute_prepared_request _ _", OF sent]
        key url contains_char key_plan_def)
  then show ?thesis by blast
qed

lemma refused_service:
  "\<exists>s'. consume_bounded_testnet_user_stream demo_cipher key_network (\<lambda>_. None) ''alice'' ''acct-2'' True 5 pending_session =
     (Inr (consume_result_of ''acct-2'' BINANCE (consumed RECONNECT_EXHAUSTED 0 1)), s')"
proof -
  have q: "ea_id quiet_account = ''acct-2''" "ea_exchange_name quiet_account = BINANCE"
    by (simp_all add: quiet_account_def testnet_account_def)
  have a: "stream_account ''alice'' ''acct-2'' True pending_session = (Inr quiet_account, pending_session)"
    using pending_account by (simp add: stream_account_def get_owned_account_def reconcilable_def)
  obtain cl where cl: "create_testnet_signed_http_client BINANCE = Inr cl"
    using testnet_client_exists [of BINANCE] by auto
  obtain qs where act: "activate_testnet_user_stream_connection_plan key_network unopened_plan pending_session =
      (Inr key_plan, pending_session\<lparr>wire := wire pending_session @ qs\<rparr>)"
    using unopened_plan_activated by blast
  have "db_unique (pending_db\<lparr>audits := t\<rparr>)" if "audits pending_db = t" for t
    using that settledD(2) [OF pending_settled] by (simp add: db_unique_update)
  then have audit: "\<exists>s'. write_stream_audit ''alice'' z (pending_session\<lparr>wire := w, sockets := es\<rparr>) = (Inr (), s')" for z w es
    using settledD(2) [OF pending_settled]
    by (simp add: write_stream_audit_def add_audit_apply Let_def commit_apply db_unique_update)
  show ?thesis
    using audit
    by (simp add: consume_bounded_testnet_user_stream_def stream_consumer_new bnd_Inr [where m = "stream_account _ _ _", OF a]
        bnd_Inr [where m = "get_exchange_credentials _ _ _", OF pending_credentials] q cl
        unopened_plan_built bnd_Inr [where m = "activate_testnet_user_stream_connection_plan _ _", OF act]
        bnd_Inr [where m = "consume _ _ _ _ _", OF refused_stream [OF key_plan_allowed]] bnd_eq_Inr Let_def)
qed

theorem stream_is_bounded_witness:
  "\<exists>z s'. consume_testnet_user_stream demo_cipher key_network (\<lambda>_. None) True ''acct-2'' 5
       ''CONSUME_TESTNET_USER_STREAM_READ_ONLY'' sample_user pending_session = (Inr z, s')
     \<and> cz_status z = ''RECONNECT_EXHAUSTED'' \<and> cz_messages_processed z \<le> 5 \<and> dials s' \<le> 2"
proof -
  have "\<exists>z s'. consume_testnet_user_stream demo_cipher key_network (\<lambda>_. None) True ''acct-2'' 5
       ''CONSUME_TESTNET_USER_STREAM_READ_ONLY'' sample_user pending_session = (Inr z, s')
     \<and> cz_status z = ''RECONNECT_EXHAUSTED''"
    using refused_service
    by (auto simp: consume_testnet_user_stream_def require_super_admin_def require_testnet_enabled_def sample_user_def
        try_except_def consume_result_of_def consumed_def)
  then obtain z s' where run: "consume_testnet_user_stream demo_cipher key_network (\<lambda>_. None) True ''acct-2'' 5
       ''CONSUME_TESTNET_USER_STREAM_READ_ONLY'' sample_user pending_session = (Inr z, s')"
     and "cz_status z = ''RECONNECT_EXHAUSTED''" by blast
  moreover have "dials pending_session = 0" by (simp add: dials_def pending_session_def sample_session_def)
  ultimately show ?thesis using stream_is_bounded [OF run] by auto
qed

text \<open>C34: Listening to a private stream never trades: the only request it can send is the one for a listen key,
  the only messages are logins, the only addresses are those of the testnet streams, and it waits thirty seconds
  at most. No account, no risk setting and no set of orders changes, neither in the session nor in the database.\<close>

theorem stream_only_listens:
  assumes "consume_testnet_user_stream c net dial adapters account_id max_messages ack user s = (r, s')" and "saved s = work s"
  shows "(\<exists>qs es. wire s' = wire s @ qs \<and> sockets s' = sockets s @ es
        \<and> (\<forall>q \<in> set qs. listen_key_request q) \<and> (\<forall>e \<in> set es. stream_use e))
     \<and> t_all (accounts (work s')) = t_all (accounts (work s)) \<and> t_all (risks (work s')) = t_all (risks (work s))
     \<and> map oe_id (t_all (executions (work s'))) = map oe_id (t_all (executions (work s)))
     \<and> t_all (accounts (saved s')) = t_all (accounts (work s)) \<and> t_all (risks (saved s')) = t_all (risks (work s))
     \<and> map oe_id (t_all (executions (saved s'))) = map oe_id (t_all (executions (work s)))"
proof -
  let ?J = "flags_are (t_all (accounts (work s))) (t_all (risks (work s))) (map oe_id (t_all (executions (work s))))"
  have "both ?J s" using assms(2) by (simp add: both_def flags_are_def)
  then have "both ?J s'" by (rule preservesD [OF flag_streams.kept_stream_route assms(1)])
  moreover have "emitted listen_key_request stream_use s s'" by (rule emitsD [OF stream_route_rules(1) assms(1)])
  ultimately show ?thesis by (auto simp: both_def flags_are_def emitted_def)
qed

theorem stream_only_listens_witness:
  "\<exists>r s'. consume_testnet_user_stream demo_cipher key_network (\<lambda>_. None) True ''acct-2'' 5
       ''CONSUME_TESTNET_USER_STREAM_READ_ONLY'' sample_user pending_session = (r, s')
     \<and> t_all (accounts (saved s')) = [sample_account, quiet_account] \<and> (\<forall>e \<in> set (sockets s'). stream_use e)"
proof -
  obtain r s' where "consume_testnet_user_stream demo_cipher key_network (\<lambda>_. None) True ''acct-2'' 5
       ''CONSUME_TESTNET_USER_STREAM_READ_ONLY'' sample_user pending_session = (r, s')"
    by fastforce
  with stream_only_listens [OF this] show ?thesis
    by (auto simp: pending_session_def sample_session_def pending_db_def t_all_def)
qed

end
