(* ===== verification/Order_Trails.thy ===== *)
theory Order_Trails
  imports Testnet_Submission User_Stream
begin

text \<open>
  The life of orders over all requests. Four services write orders and their trails: the order engine,
  the submission of testnet orders, the reconciliation and the private user streams. This theory runs
  their routes in any sequence, between steps that leave the two tables alone, and states what
  is on record for every order that is ever reached.
\<close>

section \<open>The routes keep the trails\<close>

lemma preserves_transport [preserves_rules]: "preserves J (execute_prepared_request net q)"
proof (rule preservesI)
  fix s r s'
  assume "execute_prepared_request net q s = (r, s')" and "both J s"
  with transport_sends_one [of net q s r s'] show "both J s'"
    by (auto simp: execute_prepared_request_def both_def)
qed

lemma preserves_execute_testnet_order [preserves_rules]:
  "preserves J (execute_testnet_order net o' gate cl cred limiter account_id)"
  unfolding execute_testnet_order_def prepare_testnet_order_request_def prepare_private_post_request_def
  by (cases "ri_exchange_name o'") (auto intro!: preserves_rules)

lemma preserves_trails_open [preserves_rules]: "preserves trails_inv (open_submission c adapters payload user)"
proof -
  have "preserves trails_inv (try_except (require_valid_testnet_order_window_authorization u i y sd q p n) authorization_blocked)"
    for u i y sd q p n
    unfolding require_valid_testnet_order_window_authorization_def Let_def
    by (rule preserves_try_except)
      (auto simp: authorization_blocked_def split: py_exc.splits option.splits intro!: preserves_rules)
  then show ?thesis
    unfolding open_submission_def build_testnet_order_api_context_def authorized_context_def account_or_value_error_def
      get_owned_account_def get_api_key_secret_metadata_def get_exchange_credentials_def
      create_or_get_testnet_submission_execution_def new_submission_def reject_submission_def start_submission_def
    by (intro preserves_rules preserves_trails_frame) (simp_all add: submission_execution_def)
qed

lemma preserves_trails_record [preserves_rules]:
  "preserves trails_inv (record_testnet_submission_accepted e r)"
  "preserves trails_inv (record_failure_of sm f)"
  unfolding record_testnet_submission_accepted_def record_failure_of_def record_testnet_submission_failure_def Let_def
  by (intro preserves_rules; simp)+

lemma preserves_trails_handler: "submit_handlers sm e = Some k \<Longrightarrow> preserves trails_inv k"
  by (cases e) (auto simp: submit_handlers_def intro!: preserves_rules)

lemma preserves_trails_submit:
  "preserves trails_inv (submit_testnet_order c net limiter adapters payload user)"
  unfolding submit_testnet_order_def send_submission_def
  by (intro preserves_rules preserves_try_except) (erule preserves_trails_handler)+

lemma preserves_trails_execute_route: "preserves trails_inv (execute_signal signal_id account_id user)"
  unfolding execute_signal_def
  by (intro preserves_try_except preserves_rules preserves_trails_execute)
    (auto split: py_exc.splits intro!: preserves_rules)

section \<open>Sequences of requests\<close>

text \<open>A step that leaves the orders and their trails alone; it may draw ids and change any other table.\<close>

definition leaves_orders :: "session \<Rightarrow> session \<Rightarrow> bool" where
  "leaves_orders t t' \<longleftrightarrow>
     executions (work t') = executions (work t) \<and> transitions (work t') = transitions (work t)
     \<and> executions (saved t') = executions (saved t) \<and> transitions (saved t') = transitions (saved t)
     \<and> uuid_src t' = uuid_src t \<and> uuid_next t \<le> uuid_next t'"

text \<open>Every request runs in a session of its own, which is closed when it ends.\<close>

inductive order_traffic :: "session \<Rightarrow> session \<Rightarrow> bool" where
  traffic_start: "order_traffic s s"
| traffic_execute: "order_traffic s t \<Longrightarrow> execute_signal signal_id account_id user t = (r, t') \<Longrightarrow>
    order_traffic s (close t')"
| traffic_submit: "order_traffic s t \<Longrightarrow> submit_testnet_order c net limiter adapters payload user t = (r', t') \<Longrightarrow>
    order_traffic s (close t')"
| traffic_reconcile: "order_traffic s t \<Longrightarrow>
    reconcile_testnet_order_statuses c net adapters account_id user t = (r'', t') \<Longrightarrow> order_traffic s (close t')"
| traffic_stream: "order_traffic s t \<Longrightarrow>
    consume_testnet_user_stream c net dial adapters account_id max_messages ack user t = (r''', t') \<Longrightarrow>
    order_traffic s (close t')"
| traffic_other: "order_traffic s t \<Longrightarrow> leaves_orders t t' \<Longrightarrow> order_traffic s t'"

lemma trails_inv_later: "trails_inv u n d \<Longrightarrow> n \<le> m \<Longrightarrow> trails_inv u m d"
  unfolding trails_inv_def by (meson image_mono lessThan_subset_iff subset_iff)

lemma trails_other:
  assumes "both trails_inv t" and "leaves_orders t t'"
  shows "both trails_inv t'"
  using assms trails_inv_later trails_inv_frame unfolding both_def leaves_orders_def by metis

theorem order_traffic_trails: "order_traffic s t \<Longrightarrow> both trails_inv s \<Longrightarrow> both trails_inv t"
proof (induction rule: order_traffic.induct)
  case (traffic_execute s t signal_id account_id user r t')
  then show ?case by (blast intro: trails.inv_close dest: preservesD [OF preserves_trails_execute_route])
next
  case (traffic_submit s t c net limiter adapters payload user r' t')
  then show ?case by (blast intro: trails.inv_close dest: preservesD [OF preserves_trails_submit])
next
  case (traffic_reconcile s t c net adapters account_id user r'' t')
  then show ?case by (blast intro: trails.inv_close dest: preservesD [OF trail_orders.kept_reconcile_route])
next
  case (traffic_stream s t c net dial adapters account_id max_messages ack user r''' t')
  then show ?case by (blast intro: trails.inv_close dest: preservesD [OF trail_streams.kept_stream_route])
next
  case (traffic_other s t t')
  then show ?case by (blast intro: trails_other)
qed

section \<open>What a trail shows\<close>

text \<open>Two statuses were reached one before the other.\<close>

definition reached_in_order :: "order_status \<Rightarrow> order_status \<Rightarrow> order_transition list \<Rightarrow> bool" where
  "reached_in_order a b ts \<longleftrightarrow> (\<exists>i j. i < j \<and> j < length ts
     \<and> tr_to_status (ts ! i) = status_value a \<and> tr_to_status (ts ! j) = status_value b)"

lemma reached_in_order_more:
  assumes "reached_in_order a b ts"
  shows "reached_in_order a b (ts @ [t])"
proof -
  obtain i j where "i < j" "j < length ts"
    "tr_to_status (ts ! i) = status_value a" "tr_to_status (ts ! j) = status_value b"
    using assms by (auto simp: reached_in_order_def)
  then show ?thesis
    unfolding reached_in_order_def by (intro exI [of _ i] exI [of _ j]) (simp add: nth_append)
qed

lemma reached_last:
  assumes "tr_to_status t' = status_value a" and "t' \<in> set ts" and "tr_to_status t = status_value b"
  shows "reached_in_order a b (ts @ [t])"
proof -
  obtain i where "i < length ts" "ts ! i = t'" using assms(2) by (auto simp: in_set_conv_nth)
  with assms(1,3) show ?thesis
    unfolding reached_in_order_def by (intro exI [of _ i] exI [of _ "length ts"]) (simp add: nth_append)
qed

lemma valid_trail_order:
  assumes "valid_trail st ts" and "st = SUBMITTED \<or> exchange_side st"
  shows "reached_in_order RISK_PASSED SUBMITTED ts"
  using assms
proof (induction rule: valid_trail.induct)
  case (trail_start t)
  then show ?case by (simp add: exchange_side_def)
next
  case (trail_step a ts b t)
  show ?case
  proof (cases "b = SUBMITTED")
    case True
    with exchange_side_allowed(1) [OF trail_step.hyps(2)] valid_trail_visits [OF trail_step.hyps(1)]
    obtain t' where "t' \<in> set ts" "tr_to_status t' = status_value RISK_PASSED" by auto
    with True trail_step.hyps show ?thesis by (intro reached_last) simp_all
  next
    case False
    with exchange_side_allowed(3) [OF trail_step.hyps(2)] trail_step.prems trail_step.IH
    show ?thesis by (blast intro: reached_in_order_more)
  qed
qed

section \<open>Properties\<close>

text \<open>C4: Start from a database without orders and let any requests run in any sequence: executions of
  signals, submissions of testnet orders, reconciliations and private streams, with any answers of
  exchanges and limiters, between them anything that leaves orders and trails alone. Then every order
  that is found, in the transaction or on disk, in a status an exchange reports (accepted, partially filled, filled,
  cancelled, timed out) has an unbroken trail from its creation to that status in which the risk check passed
  before the order was submitted.\<close>

theorem exchange_side_orders_were_checked:
  assumes "order_traffic s t" and "inj (uuid_src s)" and "\<forall>k. uuid_src s k \<noteq> []"
    and "\<forall>d \<in> {work s, saved s}. t_all (executions d) = [] \<and> t_all (transitions d) = []"
    and "d \<in> {work t, saved t}" and "e \<in> set (t_all (executions d))" and "exchange_side (oe_status e)"
  shows "valid_trail (oe_status e) (trail_of d (oe_id e))
     \<and> reached_in_order RISK_PASSED SUBMITTED (trail_of d (oe_id e))"
proof -
  have "both trails_inv s" using assms(2-4) by (simp add: both_def trails_inv_def)
  then have "both trails_inv t" by (rule order_traffic_trails [OF assms(1)])
  then have "valid_trail (oe_status e) (trail_of d (oe_id e))"
    using assms(5,6) by (auto simp: both_def trails_inv_def)
  with valid_trail_order assms(7) show ?thesis by blast
qed

text \<open>A signal is executed on the sample account; its order is filled.\<close>

theorem exchange_side_orders_were_checked_witness:
  "\<exists>t e. order_traffic sample_session t \<and> e \<in> set (t_all (executions (saved t))) \<and> oe_status e = FILLED
     \<and> reached_in_order RISK_PASSED SUBMITTED (trail_of (saved t) (oe_id e))"
proof -
  have u: "u_id sample_user = ''alice''" by (simp add: sample_user_def)
  obtain e x' s' where r: "execute_signal_for_account ''alice'' ''sig-1'' ''acct-1'' MockExchange True sample_session
      = (Inr (e, x'), s')" and s': "saved s' = work s'"
      "engine_outcome ''alice'' ''acct-1'' sample_signal sample_account (work sample_session) e (work s')"
    using execute_run [OF sample_ready, of MockExchange True] by blast
  have "execute_signal ''sig-1'' ''acct-1'' sample_user sample_session = (Inr e, s')"
    by (simp add: execute_signal_def try_except_def bnd_def r u)
  then have t: "order_traffic sample_session (close s')" by (rule traffic_execute [OF traffic_start])
  have e: "find_execution (oe_id e) (work s') = Some e"
    and st: "oe_status e = (if signal_accepted ''alice'' ''acct-1'' sample_signal sample_account sample_db then FILLED else FAILED)"
    using s'(2) by (simp_all add: engine_outcome_def)
  note acc = sample_accepted
  have in': "e \<in> set (t_all (executions (saved (close s'))))"
    using e s'(1) by (auto simp: find_execution_def close_def t_all_def dest: t_find_SomeD)
  have "exchange_side (oe_status e)" using st acc by (simp add: exchange_side_def)
  with exchange_side_orders_were_checked [OF t _ _ _ _ in'] t in' st acc show ?thesis
    by (auto simp: sample_uuid_inj sample_uuid_ne t_all_def t_empty_def)
qed

end
