(* ===== verification/Notifications.thy ===== *)
theory Notifications
  imports Samples "HOL-Library.List_Lexorder" "HOL-Library.Char_ord" "HOL-Library.Product_Lexorder"
begin

text \<open>
  In-app notifications and the preferences of a user (\<open>services/notification_service.py\<close>) with their
  routes (\<open>api/v1/notifications.py\<close>). A payload is copied key by key and refused when a key looks like the
  name of a credential; delivery outside the application cannot be switched on.
\<close>

section \<open>Payloads\<close>

definition SENSITIVE_PAYLOAD_KEY_FRAGMENTS :: "string list" where
  "SENSITIVE_PAYLOAD_KEY_FRAGMENTS = [''api_key'', ''passphrase'', ''password'', ''secret'', ''signature'', ''token'']"

definition MAX_NOTIFICATION_PAGE_SIZE :: int where
  "MAX_NOTIFICATION_PAGE_SIZE = 100"

definition sensitive_key :: "string \<Rightarrow> bool" where
  "sensitive_key key \<longleftrightarrow> list_ex (contains (lower key)) SENSITIVE_PAYLOAD_KEY_FRAGMENTS"

definition raise_if_sensitive_key :: "string \<Rightarrow> string list \<Rightarrow> unit result" where
  "raise_if_sensitive_key key key_path =
     (if sensitive_key key then Inl (SensitiveNotificationPayloadError (join ''.'' (key_path @ [key]))) else Inr ())"

lemma map_res_cong [fundef_cong]:
  "xs = ys \<Longrightarrow> (\<And>x. x \<in> set ys \<Longrightarrow> f x = g x) \<Longrightarrow> map_res f xs = map_res g ys"
  by (induction ys arbitrary: xs) (auto simp: bndr_def)

lemma bndr_cong [fundef_cong]: "r = r' \<Longrightarrow> (\<And>a. r' = Inr a \<Longrightarrow> f a = g a) \<Longrightarrow> bndr r f = bndr r' g"
  by (cases r') auto

text \<open>The keys of a dictionary are distinct, so each assignment to the copy appends an entry.\<close>

function copy_safe_value :: "string list \<Rightarrow> pyval \<Rightarrow> pyval result" where
  "copy_safe_value key_path (PDict d) =
     bndr (map_res (\<lambda>kv. bndr (raise_if_sensitive_key (fst kv) key_path) (\<lambda>_.
             bndr (copy_safe_value (key_path @ [fst kv]) (snd kv)) (\<lambda>v. Inr (fst kv, v)))) d) (\<lambda>d'. Inr (PDict d'))"
| "copy_safe_value key_path (PList xs) = bndr (map_res (copy_safe_value key_path) xs) (\<lambda>ys. Inr (PList ys))"
| "copy_safe_value key_path PNone = Inr PNone"
| "copy_safe_value key_path (PBool b) = Inr (PBool b)"
| "copy_safe_value key_path (PInt i) = Inr (PInt i)"
| "copy_safe_value key_path (PFloat r) = Inr (PFloat r)"
| "copy_safe_value key_path (PDec q) = Inr (PDec q)"
| "copy_safe_value key_path (PStr t) = Inr (PStr t)"
  by pat_completeness auto
termination
proof (relation "measure (\<lambda>(p, v). size v)", goal_cases)
  case 1
  show ?case by simp
next
  case (2 p d kv)
  from this(1) show ?case by (induction d) auto
next
  case (3 p xs x)
  from this(1) show ?case by (induction xs) auto
qed

definition copy_safe_mapping :: "string list \<Rightarrow> pydict \<Rightarrow> pydict result" where
  "copy_safe_mapping key_path payload =
     map_res (\<lambda>kv. bndr (raise_if_sensitive_key (fst kv) key_path) (\<lambda>_.
       bndr (copy_safe_value (key_path @ [fst kv]) (snd kv)) (\<lambda>v. Inr (fst kv, v)))) payload"

definition safe_payload :: "pydict \<Rightarrow> pydict result" where
  "safe_payload payload = copy_safe_mapping [] payload"

section \<open>Notifications and preferences\<close>

datatype notification_event_type = POSITION_DRIFT | RISK_REJECTION | ORDER_FAILURE

record notification_input =
  ni_user_id :: string
  ni_exchange_account_id :: "string option"
  ni_severity :: string
  ni_title :: string
  ni_message :: string
  ni_payload :: pydict
  ni_channel :: notification_channel
  ni_event_type :: "notification_event_type option"

record preference_update =
  pf_internal_enabled :: "bool option"
  pf_telegram_enabled :: "bool option"
  pf_email_enabled :: "bool option"
  pf_webhook_enabled :: "bool option"
  pf_position_drift_enabled :: "bool option"
  pf_risk_rejection_enabled :: "bool option"
  pf_order_failure_enabled :: "bool option"

definition create_internal_notification :: "notification_input \<Rightarrow> internal_notification op" where
  "create_internal_notification n =
     (if ni_channel n \<noteq> INTERNAL then raise (ExternalNotificationChannelDisabledError (channel_value (ni_channel n)))
      else bnd (lift_result (safe_payload (ni_payload n))) (\<lambda>payload.
        bnd new_uuid (\<lambda>i. bnd (reads now_utc) (\<lambda>t.
          let r = \<lparr>nt_id = i, nt_user_id = ni_user_id n, nt_exchange_account_id = ni_exchange_account_id n,
                   nt_channel = channel_value INTERNAL, nt_severity = ni_severity n, nt_title = ni_title n,
                   nt_message = ni_message n, nt_payload = payload, nt_is_read = False, nt_created_at = t, nt_read_at = None\<rparr>
          in bnd (upd (\<lambda>d. d\<lparr>notifications := t_add r (notifications d)\<rparr>)) (\<lambda>_. bnd flush (\<lambda>_. ret r))))))"

definition create_internal_notifications :: "notification_input list \<Rightarrow> internal_notification list op" where
  "create_internal_notifications ns = map_act create_internal_notification (filter (\<lambda>n. ni_channel n = INTERNAL) ns)"

definition find_preferences :: "string \<Rightarrow> db \<Rightarrow> notification_preference option" where
  "find_preferences user_id d = t_find (\<lambda>p. np_user_id p = user_id) (preferences d)"

definition get_or_create_preferences :: "string \<Rightarrow> notification_preference op" where
  "get_or_create_preferences user_id =
     bnd (query (find_preferences user_id)) (\<lambda>found. case found of
       Some p \<Rightarrow> ret p
     | None \<Rightarrow> bnd new_uuid (\<lambda>i.
         let p = \<lparr>np_id = i, np_user_id = user_id, np_internal_enabled = True, np_telegram_enabled = False,
                  np_email_enabled = False, np_webhook_enabled = False, np_position_drift_enabled = True,
                  np_risk_rejection_enabled = True, np_order_failure_enabled = True\<rparr>
         in bnd (upd (\<lambda>d. d\<lparr>preferences := t_add p (preferences d)\<rparr>)) (\<lambda>_. bnd flush (\<lambda>_. ret p))))"

definition preferences_allow_internal_notification :: "notification_preference \<Rightarrow> notification_event_type option \<Rightarrow> bool" where
  "preferences_allow_internal_notification p event_type =
     (if \<not> np_internal_enabled p then False
      else case event_type of
          None \<Rightarrow> True
        | Some POSITION_DRIFT \<Rightarrow> np_position_drift_enabled p
        | Some RISK_REJECTION \<Rightarrow> np_risk_rejection_enabled p
        | Some ORDER_FAILURE \<Rightarrow> np_order_failure_enabled p)"

definition create_preference_aware_internal_notification :: "notification_input \<Rightarrow> internal_notification option op" where
  "create_preference_aware_internal_notification n =
     (if ni_channel n \<noteq> INTERNAL then raise (ExternalNotificationChannelDisabledError (channel_value (ni_channel n)))
      else bnd (get_or_create_preferences (ni_user_id n)) (\<lambda>p.
        if \<not> preferences_allow_internal_notification p (ni_event_type n) then ret None
        else bnd (create_internal_notification n) (\<lambda>r. ret (Some r))))"

fun create_preference_aware_internal_notifications :: "notification_input list \<Rightarrow> internal_notification list op" where
  "create_preference_aware_internal_notifications [] = ret []"
| "create_preference_aware_internal_notifications (n # ns) =
     (if ni_channel n \<noteq> INTERNAL then create_preference_aware_internal_notifications ns
      else bnd (create_preference_aware_internal_notification n) (\<lambda>r.
        bnd (create_preference_aware_internal_notifications ns) (\<lambda>rs.
          ret (case r of None \<Rightarrow> rs | Some x \<Rightarrow> x # rs))))"

definition list_internal_notifications :: "string \<Rightarrow> bool \<Rightarrow> int \<Rightarrow> internal_notification list op" where
  "list_internal_notifications user_id unread_only limit =
     (let bounded_limit = min (max limit 1) MAX_NOTIFICATION_PAGE_SIZE
      in query (\<lambda>d. take (nat bounded_limit)
           (rev (sort_key (\<lambda>n. (dt_wall (nt_created_at n), nt_id n))
             (t_select (\<lambda>n. nt_user_id n = user_id \<and> (unread_only \<longrightarrow> \<not> nt_is_read n)) (notifications d))))))"

definition find_owned_notification :: "string \<Rightarrow> string \<Rightarrow> db \<Rightarrow> internal_notification option" where
  "find_owned_notification user_id notification_id d =
     t_find (\<lambda>n. nt_id n = notification_id \<and> nt_user_id n = user_id) (notifications d)"

definition get_owned_internal_notification :: "string \<Rightarrow> string \<Rightarrow> internal_notification option op" where
  "get_owned_internal_notification user_id notification_id = query (find_owned_notification user_id notification_id)"

definition mark_internal_notification_read :: "string \<Rightarrow> string \<Rightarrow> internal_notification option op" where
  "mark_internal_notification_read user_id notification_id =
     bnd (get_owned_internal_notification user_id notification_id) (\<lambda>found. case found of
       None \<Rightarrow> ret None
     | Some n \<Rightarrow>
         if nt_is_read n then ret (Some n)
         else bnd (reads now_utc) (\<lambda>t.
           let n' = n\<lparr>nt_is_read := True, nt_read_at := Some t\<rparr>
           in bnd (upd (\<lambda>d. d\<lparr>notifications := t_put nt_id n' (notifications d)\<rparr>)) (\<lambda>_.
              bnd flush (\<lambda>_. ret (Some n')))))"

definition reject_external_delivery_enablement :: "preference_update \<Rightarrow> unit op" where
  "reject_external_delivery_enablement u =
     (if pf_telegram_enabled u = Some True then raise (ExternalNotificationPreferenceDisabledError (channel_value TELEGRAM))
      else if pf_email_enabled u = Some True then raise (ExternalNotificationPreferenceDisabledError (channel_value EMAIL))
      else if pf_webhook_enabled u = Some True then raise (ExternalNotificationPreferenceDisabledError (channel_value WEBHOOK_CHANNEL))
      else ret ())"

definition given :: "'a option \<Rightarrow> 'a \<Rightarrow> 'a" where
  "given v old = (case v of None \<Rightarrow> old | Some x \<Rightarrow> x)"

definition apply_preference_update :: "preference_update \<Rightarrow> notification_preference \<Rightarrow> notification_preference" where
  "apply_preference_update u p = p\<lparr>
     np_internal_enabled := given (pf_internal_enabled u) (np_internal_enabled p),
     np_telegram_enabled := given (pf_telegram_enabled u) (np_telegram_enabled p),
     np_email_enabled := given (pf_email_enabled u) (np_email_enabled p),
     np_webhook_enabled := given (pf_webhook_enabled u) (np_webhook_enabled p),
     np_position_drift_enabled := given (pf_position_drift_enabled u) (np_position_drift_enabled p),
     np_risk_rejection_enabled := given (pf_risk_rejection_enabled u) (np_risk_rejection_enabled p),
     np_order_failure_enabled := given (pf_order_failure_enabled u) (np_order_failure_enabled p)\<rparr>"

definition update_preferences :: "string \<Rightarrow> preference_update \<Rightarrow> notification_preference op" where
  "update_preferences user_id u =
     bnd (reject_external_delivery_enablement u) (\<lambda>_.
     bnd (get_or_create_preferences user_id) (\<lambda>p.
       let p' = apply_preference_update u p
       in bnd (upd (\<lambda>d. d\<lparr>preferences := t_put np_id p' (preferences d)\<rparr>)) (\<lambda>_.
          bnd flush (\<lambda>_. ret p'))))"

section \<open>Routes\<close>

definition list_notifications :: "bool \<Rightarrow> int \<Rightarrow> user \<Rightarrow> internal_notification list op" where
  "list_notifications unread_only limit current_user = list_internal_notifications (u_id current_user) unread_only limit"

definition get_notification_preferences :: "user \<Rightarrow> notification_preference op" where
  "get_notification_preferences current_user = get_or_create_preferences (u_id current_user)"

definition update_notification_preferences :: "preference_update \<Rightarrow> user \<Rightarrow> notification_preference op" where
  "update_notification_preferences request current_user =
     try_except (update_preferences (u_id current_user) request)
       (\<lambda>e. case e of
          ExternalNotificationPreferenceDisabledError channel \<Rightarrow>
            Some (raise (HTTPException 400 [channel @ '' delivery is not enabled in this phase'']))
        | _ \<Rightarrow> None)"

definition mark_notification_read :: "string \<Rightarrow> user \<Rightarrow> internal_notification op" where
  "mark_notification_read notification_id current_user =
     bnd (mark_internal_notification_read (u_id current_user) notification_id) (\<lambda>found. case found of
       None \<Rightarrow> raise (HTTPException 404 [''notification not found''])
     | Some n \<Rightarrow> ret n)"

section \<open>Clean payloads\<close>

text \<open>No key at any depth looks like the name of a credential.\<close>

function clean_value :: "pyval \<Rightarrow> bool" where
  "clean_value (PDict d) = list_all (\<lambda>kv. \<not> sensitive_key (fst kv) \<and> clean_value (snd kv)) d"
| "clean_value (PList xs) = list_all clean_value xs"
| "clean_value PNone = True"
| "clean_value (PBool b) = True"
| "clean_value (PInt i) = True"
| "clean_value (PFloat r) = True"
| "clean_value (PDec q) = True"
| "clean_value (PStr t) = True"
  by pat_completeness auto
termination
proof (relation "measure size", goal_cases)
  case 1
  show ?case by simp
next
  case (2 d kv)
  then show ?case by (induction d) auto
next
  case (3 xs x)
  then show ?case by (induction xs) auto
qed

definition clean_payload :: "pydict \<Rightarrow> bool" where
  "clean_payload d \<longleftrightarrow> clean_value (PDict d)"

lemma map_res_same: "(\<And>x. x \<in> set xs \<Longrightarrow> f x = Inr x) \<Longrightarrow> map_res f xs = Inr xs"
  by (induction xs) simp_all

lemma map_res_InlD: "map_res f xs = Inl e \<Longrightarrow> \<exists>x \<in> set xs. f x = Inl e"
  by (induction xs) (auto simp: bndr_def split: sum.splits)

lemma map_res_InrD: "map_res f xs = Inr ys \<Longrightarrow> x \<in> set xs \<Longrightarrow> \<exists>y. f x = Inr y"
  by (induction xs arbitrary: ys) auto

text \<open>The copy of one entry of a dictionary.\<close>

abbreviation copy_entry :: "string list \<Rightarrow> string \<times> pyval \<Rightarrow> (string \<times> pyval) result" where
  "copy_entry p kv \<equiv> bndr (raise_if_sensitive_key (fst kv) p) (\<lambda>_.
     bndr (copy_safe_value (p @ [fst kv]) (snd kv)) (\<lambda>v. Inr (fst kv, v)))"

lemma copy_clean: "clean_value v \<Longrightarrow> copy_safe_value p v = Inr v"
proof (induction p v rule: copy_safe_value.induct)
  case (1 p d)
  then have "copy_entry p kv = Inr kv" if "kv \<in> set d" for kv
    using that by (auto simp: list_all_iff raise_if_sensitive_key_def)
  then show ?case by (simp add: map_res_same)
next
  case (2 p xs)
  then have "copy_safe_value p x = Inr x" if "x \<in> set xs" for x
    using that by (auto simp: list_all_iff)
  then show ?case by (simp add: map_res_same)
qed simp_all

lemma copy_error: "copy_safe_value p v = Inl e \<Longrightarrow> \<exists>q. e = SensitiveNotificationPayloadError q"
proof (induction p v arbitrary: e rule: copy_safe_value.induct)
  case (1 p d)
  from 1(2) have "map_res (copy_entry p) d = Inl e" by (simp add: bndr_def split: sum.splits)
  then obtain kv where "kv \<in> set d" "copy_entry p kv = Inl e" by (blast dest: map_res_InlD)
  with 1(1) show ?case
    by (cases "copy_safe_value (p @ [fst kv]) (snd kv)") (auto simp: raise_if_sensitive_key_def split: if_splits)
next
  case (2 p xs)
  from 2(2) have "map_res (copy_safe_value p) xs = Inl e" by (simp add: bndr_def split: sum.splits)
  then obtain x where "x \<in> set xs" "copy_safe_value p x = Inl e" by (blast dest: map_res_InlD)
  with 2(1) show ?case by blast
qed simp_all

lemma copied_clean: "copy_safe_value p v = Inr w \<Longrightarrow> clean_value v"
proof (induction p v arbitrary: w rule: copy_safe_value.induct)
  case (1 p d)
  from 1(2) obtain d' where d': "map_res (copy_entry p) d = Inr d'" by auto
  have "\<not> sensitive_key (fst kv) \<and> clean_value (snd kv)" if kv: "kv \<in> set d" for kv
  proof -
    have "\<exists>y. copy_entry p kv = Inr y" by (rule map_res_InrD [OF d' kv])
    then obtain v where "\<not> sensitive_key (fst kv)" "copy_safe_value (p @ [fst kv]) (snd kv) = Inr v"
      by (auto simp: raise_if_sensitive_key_def split: if_splits)
    with 1(1) [OF kv] show ?thesis by (auto simp: raise_if_sensitive_key_def)
  qed
  then show ?case by (simp add: list_all_iff)
next
  case (2 p xs)
  from 2(2) obtain ys where ys: "map_res (copy_safe_value p) xs = Inr ys" by auto
  have "clean_value x" if x: "x \<in> set xs" for x
    using 2(1) [OF x] map_res_InrD [OF ys x] by blast
  then show ?case by (simp add: list_all_iff)
qed simp_all

lemma safe_payload_cases:
  "clean_payload d \<Longrightarrow> safe_payload d = Inr d"
  "\<not> clean_payload d \<Longrightarrow> \<exists>q. safe_payload d = Inl (SensitiveNotificationPayloadError q)"
proof -
  have copy: "copy_safe_value [] (PDict d) = bndr (safe_payload d) (\<lambda>d'. Inr (PDict d'))"
    by (simp add: safe_payload_def copy_safe_mapping_def)
  show "clean_payload d \<Longrightarrow> safe_payload d = Inr d"
    using copy copy_clean [of "PDict d" "[]"] by (cases "safe_payload d") (auto simp: clean_payload_def simp del: copy_safe_value.simps)
  show "\<not> clean_payload d \<Longrightarrow> \<exists>q. safe_payload d = Inl (SensitiveNotificationPayloadError q)"
    using copy copied_clean [of "[]" "PDict d"] copy_error [of "[]" "PDict d"]
    by (cases "safe_payload d") (auto simp: clean_payload_def simp del: copy_safe_value.simps)
qed

section \<open>Only flushed, never committed\<close>

named_theorems unsaved_rules \<open>operations that save nothing\<close>

definition unsaved :: "'a op \<Rightarrow> bool" where
  "unsaved m \<longleftrightarrow> keeps (\<lambda>s s'. saved s' = saved s) m"

lemma unsavedD: "unsaved m \<Longrightarrow> m s = (r, s') \<Longrightarrow> saved s' = saved s"
  unfolding unsaved_def by (drule keepsD)

lemma unsaved_basic [unsaved_rules]:
  "unsaved (ret a)" "unsaved (raise e)" "unsaved (reads f)" "unsaved (query g)" "unsaved (lift_result r)"
  "unsaved (upd h)" "unsaved new_uuid" "unsaved flush" "unsaved (send_alert al)"
  by (auto simp: unsaved_def keeps_def new_uuid_def flush_def send_alert_def)

lemma unsaved_bnd [unsaved_rules]: "unsaved m \<Longrightarrow> (\<And>a. unsaved (f a)) \<Longrightarrow> unsaved (bnd m f)"
  unfolding unsaved_def by (rule keeps_bnd) (auto intro: transpI)

lemma unsaved_if [unsaved_rules]: "(c \<Longrightarrow> unsaved m) \<Longrightarrow> (\<not> c \<Longrightarrow> unsaved m') \<Longrightarrow> unsaved (if c then m else m')"
  by simp

lemma unsaved_case_option [unsaved_rules]:
  "unsaved m \<Longrightarrow> (\<And>a. unsaved (f a)) \<Longrightarrow> unsaved (case x of None \<Rightarrow> m | Some a \<Rightarrow> f a)"
  by (simp split: option.split)

lemma unsaved_Let [unsaved_rules]: "unsaved (f x) \<Longrightarrow> unsaved (let y = x in f y)"
  by simp

lemma unsaved_try: "unsaved m \<Longrightarrow> (\<And>e k. h e = Some k \<Longrightarrow> unsaved k) \<Longrightarrow> unsaved (try_except m h)"
  unfolding unsaved_def by (rule keeps_try_except) (auto intro: transpI)

lemma unsaved_service [unsaved_rules]:
  "unsaved (get_or_create_preferences u)" "unsaved (update_preferences u f)" "unsaved (mark_internal_notification_read u i)"
  "unsaved (create_internal_notification n)" "unsaved (create_preference_aware_internal_notification n)"
proof -
  show g: "unsaved (get_or_create_preferences v)" for v unfolding get_or_create_preferences_def by (intro unsaved_rules)
  show "unsaved (update_preferences u f)"
    unfolding update_preferences_def reject_external_delivery_enablement_def by (intro unsaved_rules g)
  show "unsaved (mark_internal_notification_read u i)"
    unfolding mark_internal_notification_read_def get_owned_internal_notification_def by (intro unsaved_rules)
  show c: "unsaved (create_internal_notification n)" for n unfolding create_internal_notification_def by (intro unsaved_rules)
  show "unsaved (create_preference_aware_internal_notification n)"
    unfolding create_preference_aware_internal_notification_def by (intro unsaved_rules g c)
qed

lemma unsaved_routes:
  "unsaved (update_notification_preferences f user)" "unsaved (mark_notification_read i user)" "unsaved (get_notification_preferences user)"
proof -
  show "unsaved (update_notification_preferences f user)"
    unfolding update_notification_preferences_def
    by (rule unsaved_try [OF unsaved_service(2)]) (auto split: py_exc.splits intro: unsaved_rules)
  show "unsaved (mark_notification_read i user)" unfolding mark_notification_read_def by (intro unsaved_rules)
  show "unsaved (get_notification_preferences user)" unfolding get_notification_preferences_def by (intro unsaved_rules)
qed

section \<open>The invariant of the tables\<close>

text \<open>Stored payloads are clean, and nobody has delivery outside the application switched on.\<close>

definition notifications_ok :: db_pred where
  "notifications_ok u n d \<longleftrightarrow> (\<forall>x \<in> set (t_all (notifications d)). clean_payload (nt_payload x) \<and> nt_channel x = ''INTERNAL'')
     \<and> (\<forall>p \<in> set (t_all (preferences d)). \<not> np_telegram_enabled p \<and> \<not> np_email_enabled p \<and> \<not> np_webhook_enabled p)"

interpretation notification_tables: db_invariant notifications_ok
  by unfold_locales (simp_all add: notifications_ok_def)

lemma ok_add_notification:
  "clean_payload (nt_payload r) \<Longrightarrow> nt_channel r = ''INTERNAL''
     \<Longrightarrow> preserves notifications_ok (upd (\<lambda>d. d\<lparr>notifications := t_add r (notifications d)\<rparr>))"
  by (rule preserves_upd) (simp add: notifications_ok_def)

lemma ok_add_preference:
  "\<not> np_telegram_enabled p \<Longrightarrow> \<not> np_email_enabled p \<Longrightarrow> \<not> np_webhook_enabled p
     \<Longrightarrow> preserves notifications_ok (upd (\<lambda>d. d\<lparr>preferences := t_add p (preferences d)\<rparr>))"
  by (rule preserves_upd) (simp add: notifications_ok_def)

lemma lift_result_Inr: "lift_result (Inr a) = ret a"
  by (rule ext) simp

lemma set_t_put: "set (t_all (t_put key r t)) \<subseteq> insert r (set (t_all t))"
  by (auto simp: t_put_def)

lemma ok_create: "preserves notifications_ok (create_internal_notification n)"
proof (cases "clean_payload (ni_payload n)")
  case True
  show ?thesis
    unfolding create_internal_notification_def safe_payload_cases(1) [OF True] Let_def lift_result_Inr bnd_ret
    by (intro preserves_rules ok_add_notification) (simp_all add: True)
next
  case False
  then obtain q where "safe_payload (ni_payload n) = Inl (SensitiveNotificationPayloadError q)"
    using safe_payload_cases(2) by blast
  then show ?thesis
    unfolding create_internal_notification_def by (intro preservesI) (auto split: if_splits)
qed

lemma ok_goc: "preserves notifications_ok (get_or_create_preferences u)"
  unfolding get_or_create_preferences_def Let_def
  by (intro preserves_rules ok_add_preference) simp_all

lemma ok_aware: "preserves notifications_ok (create_preference_aware_internal_notifications ns)"
proof (induction ns)
  case Nil
  show ?case unfolding create_preference_aware_internal_notifications.simps by (intro preserves_rules)
next
  case (Cons n ns)
  show ?case
    unfolding create_preference_aware_internal_notifications.simps create_preference_aware_internal_notification_def
    by (intro preserves_rules ok_goc ok_create Cons.IH)
qed

lemma find_preferences_row: "find_preferences u d = Some p \<Longrightarrow> p \<in> set (t_all (preferences d))"
  by (auto simp: find_preferences_def t_all_def dest: t_find_SomeD)

interpretation preference_goc: get_or_create "\<lambda>u s. find_preferences u (work s)" get_or_create_preferences
proof
  fix u and s :: session and r
  assume "find_preferences u (work s) = Some r"
  then show "get_or_create_preferences u s = (Inr r, s)" by (simp add: get_or_create_preferences_def)
next
  fix u and s :: session and r s'
  assume none: "find_preferences u (work s) = None" and run: "get_or_create_preferences u s = (Inr r, s')"
  have r: "np_user_id r = u" and s': "preferences (work s') = t_flush (t_add r (preferences (work s)))"
    and uniq: "distinct (map np_user_id (t_all (preferences (work s)) @ [r]))"
    using none run by (auto simp: get_or_create_preferences_def Let_def bnd_flush db_unique_def split: if_splits)
  then have "u \<notin> np_user_id ` set (t_all (preferences (work s)))" by simp
  then have "find (\<lambda>p. np_user_id p = u) (t_all (preferences (work s))) = None" by (auto simp: find_None_iff)
  with r s' show "find_preferences u (work s') = Some r" by (simp add: find_preferences_def t_find_flush_add)
qed

lemma ok_preference:
  assumes "both notifications_ok s" and "find_preferences u (work s) = Some p"
  shows "\<not> np_telegram_enabled p \<and> \<not> np_email_enabled p \<and> \<not> np_webhook_enabled p"
  using assms find_preferences_row [OF assms(2)] by (auto simp: both_def notifications_ok_def)

lemma ok_put_preference:
  "\<not> np_telegram_enabled p \<and> \<not> np_email_enabled p \<and> \<not> np_webhook_enabled p
     \<Longrightarrow> preserves notifications_ok (upd (\<lambda>d. d\<lparr>preferences := t_put np_id p (preferences d)\<rparr>))"
  by (rule preserves_upd) (use set_t_put in \<open>fastforce simp: notifications_ok_def\<close>)

lemma ok_update: "preserves notifications_ok (update_preferences u f)"
proof (cases "pf_telegram_enabled f = Some True \<or> pf_email_enabled f = Some True \<or> pf_webhook_enabled f = Some True")
  case True
  then have "\<exists>e. reject_external_delivery_enablement f = raise e" by (auto simp: reject_external_delivery_enablement_def)
  then show ?thesis unfolding update_preferences_def by (auto intro: preserves_rules)
next
  case False
  then have "reject_external_delivery_enablement f = ret ()" by (simp add: reject_external_delivery_enablement_def)
  moreover have "preserves notifications_ok (bnd (get_or_create_preferences u) (\<lambda>p.
      let p' = apply_preference_update f p
      in bnd (upd (\<lambda>d. d\<lparr>preferences := t_put np_id p' (preferences d)\<rparr>)) (\<lambda>_. bnd flush (\<lambda>_. ret p'))))"
  proof (rule preserves_bnd_dep [OF ok_goc], goal_cases)
    case (1 s p s')
    have "\<not> np_telegram_enabled p \<and> \<not> np_email_enabled p \<and> \<not> np_webhook_enabled p"
      by (rule ok_preference [OF 1(2) preference_goc.goc_lookup [OF 1(1)]])
    then have "\<not> np_telegram_enabled (apply_preference_update f p) \<and> \<not> np_email_enabled (apply_preference_update f p)
        \<and> \<not> np_webhook_enabled (apply_preference_update f p)"
      using False by (auto simp: apply_preference_update_def given_def split: option.split)
    then show ?case unfolding Let_def by (intro preserves_rules ok_put_preference)
  qed
  ultimately show ?thesis by (simp add: update_preferences_def)
qed

lemma ok_mark: "preserves notifications_ok (mark_internal_notification_read u i)"
  unfolding mark_internal_notification_read_def get_owned_internal_notification_def
proof (rule preserves_bnd_dep [OF preserves_query], goal_cases)
  case (1 s found s')
  have ok: "clean_payload (nt_payload n) \<and> nt_channel n = ''INTERNAL''" if "found = Some n" for n
    using 1 that by (auto simp: find_owned_notification_def both_def notifications_ok_def t_all_def dest!: t_find_SomeD)
  have put: "preserves notifications_ok (upd (\<lambda>d. d\<lparr>notifications := t_put nt_id n (notifications d)\<rparr>))"
    if "clean_payload (nt_payload n) \<and> nt_channel n = ''INTERNAL''" for n
    by (rule preserves_upd) (use set_t_put that in \<open>fastforce simp: notifications_ok_def\<close>)
  show ?case
  proof (cases found)
    case None
    show ?thesis unfolding None option.case by (intro preserves_rules)
  next
    case (Some n)
    show ?thesis
      unfolding Some option.case Let_def using ok [OF Some] by (intro preserves_rules put) simp
  qed
qed

lemma ok_routes:
  "preserves notifications_ok (update_notification_preferences f user)" "preserves notifications_ok (mark_notification_read i user)"
proof -
  show "preserves notifications_ok (update_notification_preferences f user)"
    unfolding update_notification_preferences_def
    by (rule preserves_try_except [OF ok_update]) (auto split: py_exc.splits intro: preserves_rules)
  show "preserves notifications_ok (mark_notification_read i user)"
    unfolding mark_notification_read_def by (intro preserves_rules ok_mark)
qed

section \<open>Properties\<close>


text \<open>A notification with a clean payload is stored as given and can be read back; one with a key that looks like
  the name of a credential, at any depth, is refused and nothing changes.\<close>

theorem notification_stored_or_refused:
  assumes "ni_channel n = INTERNAL" and "db_unique (work s)"
  shows "if clean_payload (ni_payload n)
     then \<exists>r s'. create_internal_notification n s = (Inr r, s') \<and> nt_payload r = ni_payload n \<and> \<not> nt_is_read r
       \<and> nt_user_id r = ni_user_id n \<and> r \<in> set (rows (notifications (work s')))
     else \<exists>q. create_internal_notification n s = (Inl (SensitiveNotificationPayloadError q), s)"
proof (cases "clean_payload (ni_payload n)")
  case True
  then show ?thesis
    using assms by (simp add: create_internal_notification_def safe_payload_cases(1) [OF True] Let_def bnd_flush)
next
  case False
  then show ?thesis
    using assms safe_payload_cases(2) [OF False] by (auto simp: create_internal_notification_def)
qed

definition drift_note :: "pydict \<Rightarrow> notification_input" where
  "drift_note payload = \<lparr>ni_user_id = ''alice'', ni_exchange_account_id = None, ni_severity = ''WARNING'', ni_title = ''Drift'',
     ni_message = ''m'', ni_payload = payload, ni_channel = INTERNAL, ni_event_type = Some POSITION_DRIFT\<rparr>"

theorem notification_stored_or_refused_witness:
  "\<exists>q. create_internal_notification (drift_note [(''outer'', PList [PDict [(''My_API_Key'', PNone)]])]) sample_session =
     (Inl (SensitiveNotificationPayloadError q), sample_session)"
proof -
  have k: "sensitive_key ''My_API_Key''" by code_simp
  have d: "\<not> clean_payload [(''outer'', PList [PDict [(''My_API_Key'', PNone)]])]"
    using k by (simp add: clean_payload_def)
  show ?thesis
    using notification_stored_or_refused [of "drift_note [(''outer'', PList [PDict [(''My_API_Key'', PNone)]])]" sample_session] d
      settledD(2) [OF sample_settled] by (simp add: drift_note_def)
qed

text \<open>The routes that mark a notification as read and that change preferences answer with the new value but
  never commit it: the session flushes only and is closed at the end of the request, so the next request finds
  everything as it was.\<close>

theorem notification_changes_are_lost:
  "(\<forall>n s'. mark_notification_read i user s = (Inr n, s') \<longrightarrow> nt_is_read n \<and> work (close s') = saved s)
     \<and> (\<forall>p s'. update_notification_preferences f user s = (Inr p, s') \<longrightarrow>
          (\<forall>b. pf_internal_enabled f = Some b \<longrightarrow> np_internal_enabled p = b) \<and> work (close s') = saved s)"
proof (intro conjI allI impI)
  fix n s'
  assume run: "mark_notification_read i user s = (Inr n, s')"
  show "work (close s') = saved s" using unsavedD [OF unsaved_routes(2) run] by (simp add: close_def)
  from run show "nt_is_read n"
    by (auto simp: mark_notification_read_def mark_internal_notification_read_def get_owned_internal_notification_def Let_def
        bnd_assoc bnd_flush split: option.splits if_splits)
next
  fix p s'
  assume run: "update_notification_preferences f user s = (Inr p, s')"
  show "work (close s') = saved s" using unsavedD [OF unsaved_routes(1) run] by (simp add: close_def)
  fix b
  assume b: "pf_internal_enabled f = Some b"
  from run have "update_preferences (u_id user) f s = (Inr p, s')"
    by (auto simp: update_notification_preferences_def try_except_def split: prod.splits sum.splits option.splits py_exc.splits)
  then obtain q where "p = apply_preference_update f q"
    by (auto simp: update_preferences_def Let_def bnd_flush elim!: bnd_InrE split: if_splits)
  with b show "np_internal_enabled p = b" by (simp add: apply_preference_update_def given_def)
qed

definition unread_note :: internal_notification where
  "unread_note = \<lparr>nt_id = ''n1'', nt_user_id = ''alice'', nt_exchange_account_id = None, nt_channel = ''INTERNAL'',
     nt_severity = ''WARNING'', nt_title = ''Drift'', nt_message = ''m'', nt_payload = [], nt_is_read = False,
     nt_created_at = \<lparr>dt_wall = 0, dt_offset = Some 0\<rparr>, nt_read_at = None\<rparr>"

definition unread_db :: db where
  "unread_db = sample_db\<lparr>notifications := \<lparr>rows = [unread_note], pend = []\<rparr>\<rparr>"

theorem notification_changes_are_lost_witness:
  "\<exists>n s'. mark_notification_read ''n1'' sample_user (sample_session\<lparr>work := unread_db, saved := unread_db\<rparr>) = (Inr n, s')
     \<and> nt_is_read n \<and> work (close s') = unread_db"
proof -
  let ?s = "sample_session\<lparr>work := unread_db, saved := unread_db\<rparr>"
  have "db_unique unread_db" using settledD(2) [OF sample_settled] by (simp add: unread_db_def)
  moreover have "find_owned_notification ''alice'' ''n1'' unread_db = Some unread_note"
    by (simp add: find_owned_notification_def t_find_def unread_db_def unread_note_def)
  moreover have "\<not> nt_is_read unread_note" by (simp add: unread_note_def)
  ultimately have "\<exists>n s'. mark_notification_read ''n1'' sample_user ?s = (Inr n, s')"
    by (simp add: mark_notification_read_def mark_internal_notification_read_def get_owned_internal_notification_def
        sample_user_def Let_def bnd_assoc bnd_flush)
  then show ?thesis using notification_changes_are_lost [of "''n1''" sample_user ?s] by fastforce
qed

end
