(* ===== verification/Position_Reconciliation.thy ===== *)
theory Position_Reconciliation
  imports Notifications Position_Engine "HOL-Library.AList"
begin

text \<open>
  Reconciliation of positions: what the exchange, the database and the targets say about an account is compared
  symbol by symbol (\<open>services/position_reconciliation.py\<close>), a drift is planned as an audit entry, a system event,
  notifications and an alert (\<open>services/reconciliation_hooks.py\<close>) and stored
  (\<open>services/reconciliation_persistence.py\<close>); a worker puts this together
  (\<open>services/reconciliation_worker.py\<close>), and orders that would repair the drift are proposed but never executed
  (\<open>services/reconciliation_repair.py\<close>). The providers of the exchange's positions and of the targets are
  parameters of the worker.
\<close>

section \<open>Comparison\<close>

datatype reconciliation_status = MATCHED | DRIFT_DETECTED
datatype reconciliation_severity = SEV_OK | SEV_WARNING | SEV_CRITICAL

fun reconciliation_status_value :: "reconciliation_status \<Rightarrow> string" where
  "reconciliation_status_value MATCHED = ''MATCHED''"
| "reconciliation_status_value DRIFT_DETECTED = ''DRIFT_DETECTED''"

fun severity_value :: "reconciliation_severity \<Rightarrow> string" where
  "severity_value SEV_OK = ''OK''"
| "severity_value SEV_WARNING = ''WARNING''"
| "severity_value SEV_CRITICAL = ''CRITICAL''"

record position_snapshot =
  ps_symbol :: string
  ps_quantity :: dec

record position_difference =
  df_symbol :: string
  df_exchange_quantity :: dec
  df_database_quantity :: dec
  df_target_quantity :: dec
  df_exchange_database_delta :: dec
  df_exchange_target_delta :: dec
  df_database_target_delta :: dec
  df_severity :: reconciliation_severity
  df_reasons :: "string list"

record position_report =
  rr_user_id :: string
  rr_exchange_account_id :: string
  rr_status :: reconciliation_status
  rr_severity :: reconciliation_severity
  rr_differences :: "position_difference list"
  rr_auto_fix_allowed :: bool

definition quantity_of :: "(string \<times> dec) list \<Rightarrow> string \<Rightarrow> dec" where
  "quantity_of normalized symbol = (case map_of normalized symbol of None \<Rightarrow> dzero | Some q \<Rightarrow> q)"

definition add_snapshot :: "(string \<times> dec) list \<Rightarrow> position_snapshot \<Rightarrow> (string \<times> dec) list" where
  "add_snapshot normalized snapshot =
     (let symbol = upper (ps_symbol snapshot)
      in AList.update symbol (dadd (quantity_of normalized symbol) (ps_quantity snapshot)) normalized)"

definition normalize_snapshots :: "position_snapshot list \<Rightarrow> (string \<times> dec) list" where
  "normalize_snapshots snapshots = foldl add_snapshot [] snapshots"

definition outside_tolerance :: "dec \<Rightarrow> dec \<Rightarrow> bool" where
  "outside_tolerance delta tolerance \<longleftrightarrow> dlt tolerance (dabs delta)"

definition difference_reasons :: "dec \<Rightarrow> dec \<Rightarrow> dec \<Rightarrow> dec \<Rightarrow> string list" where
  "difference_reasons exchange_database_delta exchange_target_delta database_target_delta tolerance = collect_reasons
     [(outside_tolerance exchange_database_delta tolerance, ''exchange position differs from database position''),
      (outside_tolerance exchange_target_delta tolerance, ''exchange position differs from target position''),
      (outside_tolerance database_target_delta tolerance, ''database position differs from target position'')]"

definition difference_severity :: "dec list \<Rightarrow> string list \<Rightarrow> dec \<Rightarrow> reconciliation_severity" where
  "difference_severity deltas reasons critical_threshold =
     (if reasons = [] then SEV_OK
      else if list_ex (\<lambda>delta. dle critical_threshold (dabs delta)) deltas then SEV_CRITICAL
      else SEV_WARNING)"

definition difference_for_symbol :: "string \<Rightarrow> dec \<Rightarrow> dec \<Rightarrow> dec \<Rightarrow> dec \<Rightarrow> dec \<Rightarrow> position_difference" where
  "difference_for_symbol symbol exchange_quantity database_quantity target_quantity tolerance critical_threshold =
     (let exchange_database_delta = dsub exchange_quantity database_quantity;
          exchange_target_delta = dsub exchange_quantity target_quantity;
          database_target_delta = dsub database_quantity target_quantity;
          reasons = difference_reasons exchange_database_delta exchange_target_delta database_target_delta tolerance;
          severity = difference_severity [exchange_database_delta, exchange_target_delta, database_target_delta]
                       reasons critical_threshold
      in \<lparr>df_symbol = symbol, df_exchange_quantity = exchange_quantity, df_database_quantity = database_quantity,
          df_target_quantity = target_quantity, df_exchange_database_delta = exchange_database_delta,
          df_exchange_target_delta = exchange_target_delta, df_database_target_delta = database_target_delta,
          df_severity = severity, df_reasons = reasons\<rparr>)"

definition report_severity :: "position_difference list \<Rightarrow> reconciliation_severity" where
  "report_severity differences =
     (if list_ex (\<lambda>d. df_severity d = SEV_CRITICAL) differences then SEV_CRITICAL
      else if differences \<noteq> [] then SEV_WARNING else SEV_OK)"

definition reconcile_position_snapshots ::
    "string \<Rightarrow> string \<Rightarrow> position_snapshot list \<Rightarrow> position_snapshot list \<Rightarrow> position_snapshot list \<Rightarrow> dec \<Rightarrow> dec
     \<Rightarrow> position_report" where
  "reconcile_position_snapshots user_id account_id exchange_positions database_positions target_positions tolerance
     critical_threshold =
     (let exchange_by_symbol = normalize_snapshots exchange_positions;
          database_by_symbol = normalize_snapshots database_positions;
          target_by_symbol = normalize_snapshots target_positions;
          symbols = sort (remdups (map fst exchange_by_symbol @ map fst database_by_symbol @ map fst target_by_symbol));
          differences = map (\<lambda>symbol. difference_for_symbol symbol (quantity_of exchange_by_symbol symbol)
            (quantity_of database_by_symbol symbol) (quantity_of target_by_symbol symbol) tolerance critical_threshold) symbols;
          drifted = filter (\<lambda>d. df_severity d \<noteq> SEV_OK) differences
      in \<lparr>rr_user_id = user_id, rr_exchange_account_id = account_id,
          rr_status = (if drifted \<noteq> [] then DRIFT_DETECTED else MATCHED), rr_severity = report_severity drifted,
          rr_differences = drifted, rr_auto_fix_allowed = False\<rparr>)"

section \<open>Hooks\<close>

datatype reconciliation_channel = RC_INTERNAL | RC_TELEGRAM | RC_EMAIL | RC_WEBHOOK

fun notification_channel_of :: "reconciliation_channel \<Rightarrow> notification_channel" where
  "notification_channel_of RC_INTERNAL = INTERNAL"
| "notification_channel_of RC_TELEGRAM = TELEGRAM"
| "notification_channel_of RC_EMAIL = EMAIL"
| "notification_channel_of RC_WEBHOOK = WEBHOOK_CHANNEL"

record audit_entry_plan =
  ae_user_id :: string
  ae_exchange_account_id :: string
  ae_action :: string
  ae_severity :: reconciliation_severity
  ae_payload :: pydict

record system_event_plan =
  sp_event_type :: string
  sp_severity :: reconciliation_severity
  sp_payload :: pydict

record notification_plan =
  nn_channel :: reconciliation_channel
  nn_severity :: reconciliation_severity
  nn_title :: string
  nn_message :: string
  nn_payload :: pydict

record hook_plan =
  hp_audit_entry :: audit_entry_plan
  hp_system_event :: "system_event_plan option"
  hp_notifications :: "notification_plan list"
  hp_auto_fix_allowed :: bool

definition difference_payload :: "position_difference \<Rightarrow> pyval" where
  "difference_payload d = PDict
     [(''symbol'', PStr (df_symbol d)), (''exchange_quantity'', PStr (dec_str (df_exchange_quantity d))),
      (''database_quantity'', PStr (dec_str (df_database_quantity d))), (''target_quantity'', PStr (dec_str (df_target_quantity d))),
      (''exchange_database_delta'', PStr (dec_str (df_exchange_database_delta d))),
      (''exchange_target_delta'', PStr (dec_str (df_exchange_target_delta d))),
      (''database_target_delta'', PStr (dec_str (df_database_target_delta d))),
      (''severity'', PStr (severity_value (df_severity d))), (''reasons'', PList (map PStr (df_reasons d)))]"

definition report_payload :: "position_report \<Rightarrow> pydict" where
  "report_payload report =
     [(''user_id'', PStr (rr_user_id report)), (''exchange_account_id'', PStr (rr_exchange_account_id report)),
      (''status'', PStr (reconciliation_status_value (rr_status report))), (''severity'', PStr (severity_value (rr_severity report))),
      (''difference_count'', PInt (int (length (rr_differences report)))), (''auto_fix_allowed'', PBool False),
      (''differences'', PList (map difference_payload (rr_differences report)))]"

definition notification_for_channel :: "reconciliation_channel \<Rightarrow> position_report \<Rightarrow> pydict \<Rightarrow> notification_plan" where
  "notification_for_channel channel report payload =
     \<lparr>nn_channel = channel, nn_severity = rr_severity report,
      nn_title = ''Position reconciliation '' @ severity_value (rr_severity report),
      nn_message = ''Position reconciliation detected '' @ show_int (int (length (rr_differences report))) @
        '' drifted symbol(s) for account '' @ rr_exchange_account_id report @ ''.'',
      nn_payload = payload\<rparr>"

definition system_event_for_drift :: "position_report \<Rightarrow> pydict \<Rightarrow> system_event_plan" where
  "system_event_for_drift report payload =
     \<lparr>sp_event_type = ''position_reconciliation.drift_detected'', sp_severity = rr_severity report, sp_payload = payload\<rparr>"

text \<open>\<open>runtime\<close>: whether an alert runtime is configured.\<close>

definition notify_reconciliation_drift :: "bool \<Rightarrow> position_report \<Rightarrow> unit op" where
  "notify_reconciliation_drift runtime report =
     (if \<not> runtime then ret ()
      else send_alert (ReconciliationDriftAlert (reconciliation_status_value (rr_status report))
             (severity_value (rr_severity report)) (int (length (rr_differences report)))))"

definition build_reconciliation_hook_plan :: "position_report \<Rightarrow> reconciliation_channel list \<Rightarrow> bool \<Rightarrow> hook_plan op" where
  "build_reconciliation_hook_plan report channels runtime =
     (let payload = report_payload report;
          is_drift = (rr_status report = DRIFT_DETECTED);
          action = (if is_drift then ''position_reconciliation.drift_detected'' else ''position_reconciliation.matched'');
          audit_entry = \<lparr>ae_user_id = rr_user_id report, ae_exchange_account_id = rr_exchange_account_id report,
            ae_action = action, ae_severity = rr_severity report, ae_payload = payload\<rparr>;
          system_event = (if is_drift then Some (system_event_for_drift report payload) else None);
          notifications = (if is_drift then map (\<lambda>channel. notification_for_channel channel report payload) channels else [])
      in bnd (if is_drift then notify_reconciliation_drift runtime report else ret ()) (\<lambda>_.
         ret \<lparr>hp_audit_entry = audit_entry, hp_system_event = system_event, hp_notifications = notifications,
              hp_auto_fix_allowed = False\<rparr>))"

section \<open>Persistence\<close>

record persisted_plan =
  pp_audit_log :: audit_log
  pp_system_event :: "system_event option"
  pp_internal_notifications :: "internal_notification list"

definition notification_input_of :: "hook_plan \<Rightarrow> notification_plan \<Rightarrow> notification_input" where
  "notification_input_of plan n =
     \<lparr>ni_user_id = ae_user_id (hp_audit_entry plan), ni_exchange_account_id = Some (ae_exchange_account_id (hp_audit_entry plan)),
      ni_severity = severity_value (nn_severity n), ni_title = nn_title n, ni_message = nn_message n, ni_payload = nn_payload n,
      ni_channel = notification_channel_of (nn_channel n), ni_event_type = Some POSITION_DRIFT\<rparr>"

definition persist_reconciliation_hook_plan :: "hook_plan \<Rightarrow> persisted_plan op" where
  "persist_reconciliation_hook_plan plan =
     (let entry = hp_audit_entry plan in
      bnd (add_audit (ae_user_id entry) (Some (ae_exchange_account_id entry)) (ae_action entry)
             (severity_value (ae_severity entry)) (ae_payload entry)) (\<lambda>audit.
      bnd (case hp_system_event plan of
             None \<Rightarrow> ret None
           | Some e \<Rightarrow> bnd (add_system_event (Some (ae_user_id entry)) (Some (ae_exchange_account_id entry)) (sp_event_type e)
               (severity_value (sp_severity e)) (sp_payload e)) (\<lambda>r. ret (Some r))) (\<lambda>event.
      bnd (create_preference_aware_internal_notifications (map (notification_input_of plan) (hp_notifications plan))) (\<lambda>notes.
      bnd flush (\<lambda>_.
        ret \<lparr>pp_audit_log = audit, pp_system_event = event, pp_internal_notifications = notes\<rparr>)))))"

section \<open>Worker\<close>

type_synonym snapshot_provider = "string \<Rightarrow> string \<Rightarrow> position_snapshot list op"

record snapshot_providers =
  pv_exchange :: snapshot_provider
  pv_database :: snapshot_provider
  pv_target :: snapshot_provider

record worker_result =
  wr_report :: position_report
  wr_hook_plan :: hook_plan
  wr_persisted :: persisted_plan
  wr_auto_fix_allowed :: bool

record reconciliation_worker =
  wk_providers :: snapshot_providers
  wk_quantity_tolerance :: dec
  wk_critical_threshold :: dec
  wk_notification_channels :: "reconciliation_channel list"
  wk_alert_runtime :: bool

definition database_load_positions :: snapshot_provider where
  "database_load_positions user_id account_id = query (\<lambda>d.
     map (\<lambda>p. \<lparr>ps_symbol = po_symbol p, ps_quantity = po_quantity p\<rparr>)
       (sort_key po_symbol (t_select (\<lambda>p. po_user_id p = user_id \<and> po_exchange_account_id p = account_id) (positions d))))"

definition run_account :: "reconciliation_worker \<Rightarrow> string \<Rightarrow> string \<Rightarrow> worker_result op" where
  "run_account worker user_id account_id =
     bnd (pv_exchange (wk_providers worker) user_id account_id) (\<lambda>exchange_positions.
     bnd (pv_database (wk_providers worker) user_id account_id) (\<lambda>database_positions.
     bnd (pv_target (wk_providers worker) user_id account_id) (\<lambda>target_positions.
       let report = reconcile_position_snapshots user_id account_id exchange_positions database_positions target_positions
             (wk_quantity_tolerance worker) (wk_critical_threshold worker)
       in bnd (build_reconciliation_hook_plan report (wk_notification_channels worker) (wk_alert_runtime worker)) (\<lambda>plan.
          bnd (persist_reconciliation_hook_plan plan) (\<lambda>persisted.
            ret \<lparr>wr_report = report, wr_hook_plan = plan, wr_persisted = persisted, wr_auto_fix_allowed = False\<rparr>)))))"

section \<open>Repair\<close>

datatype repair_status = DISABLED | NO_DRIFT | PROPOSAL_CREATED | EXECUTION_BLOCKED
datatype repair_action = BUY_TO_TARGET | SELL_TO_TARGET | REVIEW_DATABASE_POSITION

record repair_settings =
  rx_proposal_generation_enabled :: bool
  rx_execution_enabled :: bool

record repair_proposal =
  rq_symbol :: string
  rq_action :: repair_action
  rq_quantity_delta :: dec
  rq_exchange_quantity :: dec
  rq_database_quantity :: dec
  rq_target_quantity :: dec
  rq_severity :: reconciliation_severity
  rq_reasons :: "string list"

record repair_plan =
  ry_user_id :: string
  ry_exchange_account_id :: string
  ry_status :: repair_status
  ry_proposals :: "repair_proposal list"
  ry_auto_fix_allowed :: bool
  ry_execution_allowed :: bool

definition repair_plan_of :: "position_report \<Rightarrow> repair_status \<Rightarrow> repair_proposal list \<Rightarrow> repair_plan" where
  "repair_plan_of report status proposals =
     \<lparr>ry_user_id = rr_user_id report, ry_exchange_account_id = rr_exchange_account_id report, ry_status = status,
      ry_proposals = proposals, ry_auto_fix_allowed = False, ry_execution_allowed = False\<rparr>"

definition proposal :: "position_difference \<Rightarrow> repair_action \<Rightarrow> dec \<Rightarrow> repair_proposal" where
  "proposal d action quantity_delta =
     \<lparr>rq_symbol = df_symbol d, rq_action = action, rq_quantity_delta = quantity_delta,
      rq_exchange_quantity = df_exchange_quantity d, rq_database_quantity = df_database_quantity d,
      rq_target_quantity = df_target_quantity d, rq_severity = df_severity d, rq_reasons = df_reasons d\<rparr>"

definition proposal_for_difference :: "position_difference \<Rightarrow> repair_proposal option" where
  "proposal_for_difference d =
     (let target_exchange_delta = dsub (df_target_quantity d) (df_exchange_quantity d) in
      if dlt dzero target_exchange_delta then Some (proposal d BUY_TO_TARGET target_exchange_delta)
      else if dlt target_exchange_delta dzero then Some (proposal d SELL_TO_TARGET (dabs target_exchange_delta))
      else if \<not> deq (df_database_target_delta d) dzero
        then Some (proposal d REVIEW_DATABASE_POSITION (dabs (df_database_target_delta d)))
      else None)"

definition build_reconciliation_repair_plan :: "position_report \<Rightarrow> repair_settings option \<Rightarrow> repair_plan" where
  "build_reconciliation_repair_plan report settings =
     (let repair_settings = (case settings of
            None \<Rightarrow> \<lparr>rx_proposal_generation_enabled = False, rx_execution_enabled = False\<rparr> | Some x \<Rightarrow> x) in
      if \<not> rx_proposal_generation_enabled repair_settings then repair_plan_of report DISABLED []
      else if rr_status report = MATCHED then repair_plan_of report NO_DRIFT []
      else let proposals = List.map_filter proposal_for_difference (rr_differences report) in
        if rx_execution_enabled repair_settings then repair_plan_of report EXECUTION_BLOCKED proposals
        else repair_plan_of report PROPOSAL_CREATED proposals)"

section \<open>What is held\<close>

text \<open>The specification: the sum of the quantities of a symbol as rationals, upper and lower case taken together.\<close>

definition held :: "position_snapshot list \<Rightarrow> string \<Rightarrow> rat" where
  "held xs y = (\<Sum>x \<leftarrow> xs. if upper (ps_symbol x) = y then dval (ps_quantity x) else 0)"

definition volume :: "position_snapshot list \<Rightarrow> rat" where
  "volume xs = (\<Sum>x \<leftarrow> xs. \<bar>dval (ps_quantity x)\<bar>)"

definition storable :: "position_snapshot list \<Rightarrow> bool" where
  "storable xs \<longleftrightarrow> list_all (\<lambda>x. numeric_28_10 (ps_quantity x)) xs"

lemma held_snoc: "held (xs @ [x]) y = held xs y + (if upper (ps_symbol x) = y then dval (ps_quantity x) else 0)"
  by (simp add: held_def)

lemma volume_snoc: "volume (xs @ [x]) = volume xs + \<bar>dval (ps_quantity x)\<bar>"
  by (simp add: volume_def)

lemma held_le_volume: "\<bar>held xs y\<bar> \<le> volume xs"
proof (induction xs rule: rev_induct)
  case Nil
  show ?case by (simp add: held_def volume_def)
next
  case (snoc x xs)
  then show ?case by (auto simp: held_snoc volume_snoc)
qed

lemma volume_nonneg: "0 \<le> volume xs"
  using held_le_volume [of xs "[]"] by linarith

lemma normalize_snoc: "normalize_snapshots (xs @ [x]) = add_snapshot (normalize_snapshots xs) x"
  by (simp add: normalize_snapshots_def)

lemma quantity_of_add:
  "quantity_of (add_snapshot m x) y =
     (if upper (ps_symbol x) = y then dadd (quantity_of m y) (ps_quantity x) else quantity_of m y)"
  by (simp add: add_snapshot_def quantity_of_def update_conv Let_def)

lemma dzero_numeric: "numeric_28_10 dzero"
  by (simp add: numeric_28_10_def dzero_def coef_at_def signed_coef_def)

lemma normalized_quantity:
  assumes "storable xs" and "volume xs < 10 ^ 18"
  shows "numeric_28_10 (quantity_of (normalize_snapshots xs) y) \<and> dval (quantity_of (normalize_snapshots xs) y) = held xs y"
  using assms
proof (induction xs rule: rev_induct)
  case Nil
  show ?case by (simp add: normalize_snapshots_def quantity_of_def held_def dzero_numeric)
next
  case (snoc x xs)
  have v: "volume xs < 10 ^ 18" using snoc.prems(2) by (simp add: volume_snoc)
  have x: "numeric_28_10 (ps_quantity x)" and xs: "storable xs" using snoc.prems(1) by (simp_all add: storable_def)
  let ?q = "quantity_of (normalize_snapshots xs) y"
  have q: "numeric_28_10 ?q" "dval ?q = held xs y" using snoc.IH [OF xs v] by simp_all
  have "\<bar>dval ?q + dval (ps_quantity x)\<bar> < 10 ^ 18"
    using held_le_volume [of xs y] snoc.prems(2) by (simp add: q(2) volume_snoc)
  note sum = dadd_numeric [OF _ _ this]
  have e: "dexp ?q \<ge> -10" "dexp (ps_quantity x) \<ge> -10" using q x by (simp_all add: numeric_28_10_def)
  show ?case using q sum [OF e] by (simp add: normalize_snoc quantity_of_add held_snoc)
qed

lemma normalized_keys: "fst ` set (normalize_snapshots xs) = (\<lambda>x. upper (ps_symbol x)) ` set xs"
proof (induction xs rule: rev_induct)
  case Nil
  show ?case by (simp add: normalize_snapshots_def)
next
  case (snoc x xs)
  then show ?case by (simp add: normalize_snoc add_snapshot_def Let_def dom_update)
qed

lemma held_unknown: "y \<notin> fst ` set (normalize_snapshots xs) \<Longrightarrow> held xs y = 0"
  unfolding normalized_keys held_def by (induction xs) auto

section \<open>Drift\<close>

text \<open>The three views of a symbol differ by more than the tolerance, or by at least the threshold.\<close>

definition drifts :: "rat \<Rightarrow> rat \<Rightarrow> rat \<Rightarrow> rat \<Rightarrow> bool" where
  "drifts e d t tolerance \<longleftrightarrow> tolerance < \<bar>e - d\<bar> \<or> tolerance < \<bar>e - t\<bar> \<or> tolerance < \<bar>d - t\<bar>"

definition far_apart :: "rat \<Rightarrow> rat \<Rightarrow> rat \<Rightarrow> rat \<Rightarrow> bool" where
  "far_apart e d t threshold \<longleftrightarrow> threshold \<le> \<bar>e - d\<bar> \<or> threshold \<le> \<bar>e - t\<bar> \<or> threshold \<le> \<bar>d - t\<bar>"

lemma difference_fields:
  "df_symbol (difference_for_symbol y e d t tol thr) = y"
  "df_exchange_quantity (difference_for_symbol y e d t tol thr) = e"
  "df_database_quantity (difference_for_symbol y e d t tol thr) = d"
  "df_target_quantity (difference_for_symbol y e d t tol thr) = t"
  "df_database_target_delta (difference_for_symbol y e d t tol thr) = dsub d t"
  by (simp_all add: difference_for_symbol_def Let_def)

lemma difference_severity_iff:
  assumes "numeric_28_10 e" "numeric_28_10 d" "numeric_28_10 t"
    and "\<bar>dval e - dval d\<bar> < 10 ^ 18" "\<bar>dval e - dval t\<bar> < 10 ^ 18" "\<bar>dval d - dval t\<bar> < 10 ^ 18"
  shows "df_severity (difference_for_symbol y e d t tol thr) =
    (if \<not> drifts (dval e) (dval d) (dval t) (dval tol) then SEV_OK
     else if far_apart (dval e) (dval d) (dval t) (dval thr) then SEV_CRITICAL else SEV_WARNING)"
proof -
  have x: "dexp e \<ge> -10" "dexp d \<ge> -10" "dexp t \<ge> -10" using assms by (simp_all add: numeric_28_10_def)
  have "dval (dabs (dsub e d)) = \<bar>dval e - dval d\<bar>" "dval (dabs (dsub e t)) = \<bar>dval e - dval t\<bar>" "dval (dabs (dsub d t)) = \<bar>dval d - dval t\<bar>"
    using dsub_numeric [OF x(1,2) assms(4)] dsub_numeric [OF x(1,3) assms(5)] dsub_numeric [OF x(2,3) assms(6)]
    by (simp_all add: dabs_numeric)
  then show ?thesis
    by (simp add: difference_for_symbol_def difference_severity_def difference_reasons_def outside_tolerance_def dcmp_dval
        drifts_def far_apart_def Let_def)
qed

text \<open>The snapshots of an account: quantities the columns can hold, and a total volume they can hold.\<close>

definition comparable :: "position_snapshot list \<Rightarrow> position_snapshot list \<Rightarrow> position_snapshot list \<Rightarrow> bool" where
  "comparable es ds ts \<longleftrightarrow> storable es \<and> storable ds \<and> storable ts \<and> volume es + volume ds + volume ts < 10 ^ 18"

abbreviation symbol_difference where
  "symbol_difference es ds ts tol thr y \<equiv> difference_for_symbol y (quantity_of (normalize_snapshots es) y)
     (quantity_of (normalize_snapshots ds) y) (quantity_of (normalize_snapshots ts) y) tol thr"

lemma comparable_quantities:
  assumes "comparable es ds ts"
  shows "numeric_28_10 (quantity_of (normalize_snapshots es) y)" "dval (quantity_of (normalize_snapshots es) y) = held es y"
    "numeric_28_10 (quantity_of (normalize_snapshots ds) y)" "dval (quantity_of (normalize_snapshots ds) y) = held ds y"
    "numeric_28_10 (quantity_of (normalize_snapshots ts) y)" "dval (quantity_of (normalize_snapshots ts) y) = held ts y"
    "\<bar>held es y - held ds y\<bar> < 10 ^ 18" "\<bar>held es y - held ts y\<bar> < 10 ^ 18" "\<bar>held ds y - held ts y\<bar> < 10 ^ 18"
proof -
  note v = volume_nonneg [of es] volume_nonneg [of ds] volume_nonneg [of ts]
  have s: "storable es" "storable ds" "storable ts" "volume es + volume ds + volume ts < 10 ^ 18"
    using assms by (simp_all add: comparable_def)
  have "volume es < 10 ^ 18" "volume ds < 10 ^ 18" "volume ts < 10 ^ 18" using s(4) v by linarith+
  then show "numeric_28_10 (quantity_of (normalize_snapshots es) y)" "dval (quantity_of (normalize_snapshots es) y) = held es y"
    "numeric_28_10 (quantity_of (normalize_snapshots ds) y)" "dval (quantity_of (normalize_snapshots ds) y) = held ds y"
    "numeric_28_10 (quantity_of (normalize_snapshots ts) y)" "dval (quantity_of (normalize_snapshots ts) y) = held ts y"
    using normalized_quantity s(1-3) by blast+
  show "\<bar>held es y - held ds y\<bar> < 10 ^ 18" "\<bar>held es y - held ts y\<bar> < 10 ^ 18" "\<bar>held ds y - held ts y\<bar> < 10 ^ 18"
    using held_le_volume [of es y] held_le_volume [of ds y] held_le_volume [of ts y] s(4) v by linarith+
qed

lemma symbol_severity:
  assumes "comparable es ds ts"
  shows "df_severity (symbol_difference es ds ts tol thr y) =
    (if \<not> drifts (held es y) (held ds y) (held ts y) (dval tol) then SEV_OK
     else if far_apart (held es y) (held ds y) (held ts y) (dval thr) then SEV_CRITICAL else SEV_WARNING)"
  using difference_severity_iff [of "quantity_of (normalize_snapshots es) y" "quantity_of (normalize_snapshots ds) y"
      "quantity_of (normalize_snapshots ts) y" y tol thr] comparable_quantities [OF assms, of y] by simp

lemma report_differences:
  assumes "comparable es ds ts"
  shows "rr_differences (reconcile_position_snapshots u a es ds ts tol thr) =
    map (symbol_difference es ds ts tol thr)
      (filter (\<lambda>y. drifts (held es y) (held ds y) (held ts y) (dval tol))
        (sort (remdups (map fst (normalize_snapshots es) @ map fst (normalize_snapshots ds) @ map fst (normalize_snapshots ts)))))"
  by (simp add: reconcile_position_snapshots_def Let_def filter_map comp_def symbol_severity [OF assms])

lemma drifting_symbols:
  assumes c: "comparable es ds ts" and "0 \<le> dval tol"
  shows "set (map df_symbol (rr_differences (reconcile_position_snapshots u a es ds ts tol thr))) =
    {y. drifts (held es y) (held ds y) (held ts y) (dval tol)}"
proof -
  have "y \<in> fst ` set (normalize_snapshots es) \<or> y \<in> fst ` set (normalize_snapshots ds) \<or> y \<in> fst ` set (normalize_snapshots ts)"
    if "drifts (held es y) (held ds y) (held ts y) (dval tol)" for y
    using that assms(2) held_unknown [of y es] held_unknown [of y ds] held_unknown [of y ts] by (auto simp: drifts_def)
  then show ?thesis unfolding report_differences [OF c] by (force simp: difference_fields)
qed

section \<open>Repair proposals\<close>

text \<open>What a proposal promises.\<close>

definition repairs :: "position_snapshot list \<Rightarrow> position_snapshot list \<Rightarrow> position_snapshot list \<Rightarrow> repair_proposal \<Rightarrow> bool" where
  "repairs es ds ts p \<longleftrightarrow> 0 < dval (rq_quantity_delta p) \<and> (case rq_action p of
      BUY_TO_TARGET \<Rightarrow> held es (rq_symbol p) + dval (rq_quantity_delta p) = held ts (rq_symbol p)
    | SELL_TO_TARGET \<Rightarrow> held es (rq_symbol p) - dval (rq_quantity_delta p) = held ts (rq_symbol p)
    | REVIEW_DATABASE_POSITION \<Rightarrow> held es (rq_symbol p) = held ts (rq_symbol p)
        \<and> dval (rq_quantity_delta p) = \<bar>held ds (rq_symbol p) - held ts (rq_symbol p)\<bar>)"

lemma proposal_repairs:
  assumes c: "comparable es ds ts" and "0 \<le> dval tol"
    and drift: "drifts (held es y) (held ds y) (held ts y) (dval tol)"
  shows "\<exists>p. proposal_for_difference (symbol_difference es ds ts tol thr y) = Some p \<and> rq_symbol p = y \<and> repairs es ds ts p"
proof -
  let ?e = "quantity_of (normalize_snapshots es) y" and ?d = "quantity_of (normalize_snapshots ds) y"
    and ?t = "quantity_of (normalize_snapshots ts) y"
  note q = comparable_quantities [OF c, of y]
  have x: "dexp ?e \<ge> -10" "dexp ?d \<ge> -10" "dexp ?t \<ge> -10" using q by (simp_all add: numeric_28_10_def)
  have "\<bar>dval ?t - dval ?e\<bar> < 10 ^ 18" "\<bar>dval ?d - dval ?t\<bar> < 10 ^ 18" using q by (simp_all add: abs_minus_commute)
  then have te: "dval (dsub ?t ?e) = held ts y - held es y" "dval (dabs (dsub ?t ?e)) = \<bar>held ts y - held es y\<bar>"
    and dt: "dval (dsub ?d ?t) = held ds y - held ts y" "dval (dabs (dsub ?d ?t)) = \<bar>held ds y - held ts y\<bar>"
    using dsub_numeric [OF x(3,1)] dsub_numeric [OF x(2,3)] q by (simp_all add: dabs_numeric)
  have "held es y \<noteq> held ts y \<or> held ds y \<noteq> held ts y" using drift assms(2) by (auto simp: drifts_def)
  then show ?thesis
    using te dt by (auto simp: proposal_for_difference_def Let_def difference_fields dcmp_dval proposal_def repairs_def)
qed

section \<open>The worker\<close>

text \<open>What storing notifications leaves alone.\<close>

definition noted :: "session \<Rightarrow> session \<Rightarrow> bool" where
  "noted s s' \<longleftrightarrow> db_unique (work s') \<and> pend (preferences (work s')) = [] \<and> saved s' = saved s \<and> outbox s' = outbox s
     \<and> wire s' = wire s \<and> t_all (audits (work s')) = t_all (audits (work s)) \<and> t_all (events (work s')) = t_all (events (work s))
     \<and> t_all (positions (work s')) = t_all (positions (work s)) \<and> t_all (executions (work s')) = t_all (executions (work s))"

lemma noted_trans: "noted s1 s2 \<Longrightarrow> noted s2 s3 \<Longrightarrow> noted s1 s3"
  by (simp add: noted_def)

lemma goc_run:
  assumes "db_unique (work s)" and "pend (preferences (work s)) = []"
  shows "\<exists>p s'. get_or_create_preferences u s = (Inr p, s') \<and> noted s s'"
proof (cases "find_preferences u (work s)")
  case (Some p)
  then show ?thesis using assms by (simp add: get_or_create_preferences_def noted_def)
next
  case None
  then have "u \<notin> np_user_id ` set (t_all (preferences (work s)))"
    using assms(2) by (auto simp: find_preferences_def t_find_def find_None_iff t_all_def)
  moreover have "distinct (map np_user_id (t_all (preferences (work s))))" using assms(1) by (simp add: db_unique_def)
  ultimately show ?thesis
    using None assms by (simp add: get_or_create_preferences_def Let_def bnd_flush db_unique_update noted_def)
qed

lemma create_notification_run:
  assumes "db_unique (work s)" and "pend (preferences (work s)) = []" and "clean_payload (ni_payload n)" and "ni_channel n = INTERNAL"
  shows "\<exists>r s'. create_internal_notification n s = (Inr r, s') \<and> noted s s'"
  using assms by (simp add: create_internal_notification_def safe_payload_cases(1) Let_def bnd_flush noted_def)

lemma aware_run:
  assumes "db_unique (work s)" and "pend (preferences (work s)) = []" and "list_all (\<lambda>n. clean_payload (ni_payload n)) ns"
  shows "\<exists>rs s'. create_preference_aware_internal_notifications ns s = (Inr rs, s') \<and> noted s s'"
  using assms
proof (induction ns arbitrary: s)
  case Nil
  then show ?case by (simp add: noted_def)
next
  case (Cons n ns)
  show ?case
  proof (cases "ni_channel n = INTERNAL")
    case False
    with Cons show ?thesis by simp
  next
    case True
    obtain p s1 where p: "get_or_create_preferences (ni_user_id n) s = (Inr p, s1)" and s1: "noted s s1"
      using goc_run [OF Cons.prems(1,2)] by blast
    obtain r s2 where r: "create_preference_aware_internal_notification n s = (Inr r, s2)" and s2: "noted s s2"
    proof (cases "preferences_allow_internal_notification p (ni_event_type n)")
      case True
      obtain x s2 where "create_internal_notification n s1 = (Inr x, s2)" "noted s1 s2"
        using create_notification_run [of s1 n] s1 Cons.prems(3) \<open>ni_channel n = INTERNAL\<close> by (auto simp: noted_def)
      then show ?thesis
        using that [of "Some x" s2] noted_trans [OF s1] p True \<open>ni_channel n = INTERNAL\<close>
        by (simp add: create_preference_aware_internal_notification_def bnd_Inr [where m = "get_or_create_preferences _"]
            bnd_Inr [where m = "create_internal_notification _"])
    next
      case False
      then show ?thesis
        using that [of None s1] s1 p \<open>ni_channel n = INTERNAL\<close>
        by (simp add: create_preference_aware_internal_notification_def bnd_Inr [where m = "get_or_create_preferences _"])
    qed
    obtain rs s3 where "create_preference_aware_internal_notifications ns s2 = (Inr rs, s3)" "noted s2 s3"
      using Cons.IH [of s2] s2 Cons.prems(3) by (auto simp: noted_def)
    with r noted_trans [OF s2] True show ?thesis
      by (auto simp: bnd_Inr [where m = "create_preference_aware_internal_notification _"]
          bnd_Inr [where m = "create_preference_aware_internal_notifications _"])
  qed
qed

lemma report_payload_clean: "clean_payload (report_payload report)"
proof -
  have keys: "\<not> list_ex sensitive_key [''user_id'', ''exchange_account_id'', ''status'', ''severity'', ''difference_count'',
      ''auto_fix_allowed'', ''differences'', ''symbol'', ''exchange_quantity'', ''database_quantity'', ''target_quantity'',
      ''exchange_database_delta'', ''exchange_target_delta'', ''database_target_delta'', ''reasons'']"
    by code_simp
  have "clean_value (difference_payload d)" for d
    using keys by (simp add: difference_payload_def list_all_iff)
  with keys show ?thesis by (simp add: clean_payload_def report_payload_def list_all_iff)
qed

lemma database_load:
  "database_load_positions u a s = (Inr (map (\<lambda>p. \<lparr>ps_symbol = po_symbol p, ps_quantity = po_quantity p\<rparr>)
     (sort_key po_symbol (t_select (\<lambda>p. po_user_id p = u \<and> po_exchange_account_id p = a) (positions (work s))))), s)"
  by (simp add: database_load_positions_def)

lemma run_mono:
  "\<exists>r s'. run = (Inr r, s') \<and> P r s' \<Longrightarrow> (\<And>r s'. P r s' \<Longrightarrow> Q r s') \<Longrightarrow> \<exists>r s'. run = (Inr r, s') \<and> Q r s'"
  by blast

lemma persist_run:
  assumes "db_unique (work s)" and "pend (preferences (work s)) = []" and "list_all (\<lambda>n. clean_payload (nn_payload n)) (hp_notifications plan)"
  shows "\<exists>r s'. persist_reconciliation_hook_plan plan s = (Inr r, s') \<and> saved s' = saved s \<and> outbox s' = outbox s
    \<and> t_all (audits (work s')) = t_all (audits (work s)) @ [pp_audit_log r]
    \<and> t_all (events (work s')) = t_all (events (work s)) @ (case pp_system_event r of None \<Rightarrow> [] | Some e \<Rightarrow> [e])
    \<and> al_action (pp_audit_log r) = ae_action (hp_audit_entry plan) \<and> (pp_system_event r = None \<longleftrightarrow> hp_system_event plan = None)
    \<and> t_all (positions (work s')) = t_all (positions (work s)) \<and> t_all (executions (work s')) = t_all (executions (work s))"
proof -
  let ?ns = "map (notification_input_of plan) (hp_notifications plan)"
  have ns: "list_all (\<lambda>n. clean_payload (ni_payload n)) ?ns" using assms(3) by (simp add: list_all_iff notification_input_of_def)
  have tail: "\<exists>r s'. bnd (create_preference_aware_internal_notifications ?ns) (\<lambda>notes. bnd flush (\<lambda>_.
        ret \<lparr>pp_audit_log = audit, pp_system_event = event, pp_internal_notifications = notes\<rparr>)) t = (Inr r, s')
      \<and> noted t s' \<and> pp_audit_log r = audit \<and> pp_system_event r = event"
    if t: "db_unique (work t)" "pend (preferences (work t)) = []" for t audit event
  proof -
    obtain rs s' where "create_preference_aware_internal_notifications ?ns t = (Inr rs, s')" "noted t s'"
      using aware_run [OF t ns] by blast
    then show ?thesis by (simp add: bnd_Inr [where m = "create_preference_aware_internal_notifications _"] bnd_flush noted_def)
  qed
  show ?thesis
  proof (cases "hp_system_event plan")
    case None
    show ?thesis
      unfolding persist_reconciliation_hook_plan_def None Let_def option.case bnd_ret add_audit_apply
      by (rule run_mono, rule tail) (use assms(1,2) in \<open>auto simp: noted_def\<close>)
  next
    case (Some e)
    show ?thesis
      unfolding persist_reconciliation_hook_plan_def Some Let_def option.case add_audit_apply bnd_assoc add_system_event_apply bnd_ret
      by (rule run_mono, rule tail) (use assms(1,2) in \<open>auto simp: noted_def\<close>)
  qed
qed

text \<open>The alerts a report causes.\<close>

definition drift_alerts :: "bool \<Rightarrow> position_report \<Rightarrow> alert list" where
  "drift_alerts runtime r = (if rr_status r = DRIFT_DETECTED \<and> runtime
     then [ReconciliationDriftAlert ''DRIFT_DETECTED'' (severity_value (rr_severity r)) (int (length (rr_differences r)))] else [])"

lemma hook_plan_run:
  "\<exists>plan. build_reconciliation_hook_plan r channels runtime s = (Inr plan, s\<lparr>outbox := outbox s @ drift_alerts runtime r\<rparr>)
     \<and> (hp_system_event plan = None \<longleftrightarrow> rr_status r = MATCHED) \<and> list_all (\<lambda>n. clean_payload (nn_payload n)) (hp_notifications plan)"
proof (cases "rr_status r")
  case MATCHED
  then show ?thesis by (simp add: build_reconciliation_hook_plan_def drift_alerts_def Let_def)
next
  case DRIFT_DETECTED
  have "notify_reconciliation_drift runtime r s = (Inr (), s\<lparr>outbox := outbox s @ drift_alerts runtime r\<rparr>)"
    using DRIFT_DETECTED by (simp add: notify_reconciliation_drift_def send_alert_def drift_alerts_def)
  then show ?thesis
    using DRIFT_DETECTED
    by (simp add: build_reconciliation_hook_plan_def Let_def bnd_Inr [where m = "notify_reconciliation_drift _ _"] list_all_iff
        notification_for_channel_def report_payload_clean)
qed

section \<open>Properties\<close>

text \<open>C35: The report of a reconciliation is right: it names exactly the symbols for which the positions of the
  exchange, of the database and the targets differ by more than the tolerance, in order and once each, computed as
  sums of rationals; it is critical exactly when such a symbol differs by at least the threshold. It never allows an
  automatic repair.\<close>

theorem drift_report_correct:
  assumes c: "comparable es ds ts" and tol: "0 \<le> dval tol"
  shows "set (map df_symbol (rr_differences (reconcile_position_snapshots u a es ds ts tol thr))) =
        {y. drifts (held es y) (held ds y) (held ts y) (dval tol)}
     \<and> sorted (map df_symbol (rr_differences (reconcile_position_snapshots u a es ds ts tol thr)))
     \<and> distinct (map df_symbol (rr_differences (reconcile_position_snapshots u a es ds ts tol thr)))
     \<and> rr_severity (reconcile_position_snapshots u a es ds ts tol thr) =
        (if \<nexists>y. drifts (held es y) (held ds y) (held ts y) (dval tol) then SEV_OK
         else if \<exists>y. drifts (held es y) (held ds y) (held ts y) (dval tol) \<and> far_apart (held es y) (held ds y) (held ts y) (dval thr)
         then SEV_CRITICAL else SEV_WARNING)
     \<and> (rr_status (reconcile_position_snapshots u a es ds ts tol thr) = MATCHED \<longleftrightarrow>
        (\<nexists>y. drifts (held es y) (held ds y) (held ts y) (dval tol)))
     \<and> \<not> rr_auto_fix_allowed (reconcile_position_snapshots u a es ds ts tol thr)"
proof -
  let ?r = "reconcile_position_snapshots u a es ds ts tol thr"
  let ?drift = "\<lambda>y. drifts (held es y) (held ds y) (held ts y) (dval tol)"
  have ys: "set (map df_symbol (rr_differences ?r)) = {y. ?drift y}" by (rule drifting_symbols [OF c tol])
  have syms: "map df_symbol (rr_differences ?r) = filter ?drift
      (sort (remdups (map fst (normalize_snapshots es) @ map fst (normalize_snapshots ds) @ map fst (normalize_snapshots ts))))"
    unfolding report_differences [OF c] by (simp add: comp_def difference_fields)
  have "sorted (map df_symbol (rr_differences ?r))" "distinct (map df_symbol (rr_differences ?r))"
    unfolding syms by (simp_all add: sorted_wrt_filter distinct_filter)
  moreover have "rr_status ?r = (if rr_differences ?r = [] then MATCHED else DRIFT_DETECTED)"
    "rr_severity ?r = report_severity (rr_differences ?r)" "\<not> rr_auto_fix_allowed ?r"
    by (simp_all add: reconcile_position_snapshots_def Let_def)
  moreover have "rr_differences ?r = [] \<longleftrightarrow> (\<nexists>y. ?drift y)" using ys by auto
  moreover have "list_ex (\<lambda>d. df_severity d = SEV_CRITICAL) (rr_differences ?r) \<longleftrightarrow>
      (\<exists>y. ?drift y \<and> far_apart (held es y) (held ds y) (held ts y) (dval thr))"
  proof -
    have "list_ex (\<lambda>d. df_severity d = SEV_CRITICAL) (rr_differences ?r) \<longleftrightarrow>
        (\<exists>y \<in> set (map df_symbol (rr_differences ?r)). df_severity (symbol_difference es ds ts tol thr y) = SEV_CRITICAL)"
      unfolding syms unfolding report_differences [OF c] by (auto simp: list_ex_iff)
    then show ?thesis unfolding ys by (auto simp: symbol_severity [OF c])
  qed
  ultimately show ?thesis using ys by (auto simp: report_severity_def)
qed

text \<open>C36: Where proposals are enabled, there is one for every drifting symbol and it repairs the drift: buying or selling
  the quantity brings the exchange's position to the target, or the position is at the target and the database is off
  by the quantity. No plan allows an execution.\<close>

theorem proposals_repair_drift:
  assumes c: "comparable es ds ts" and tol: "0 \<le> dval tol"
  shows "let r = reconcile_position_snapshots u a es ds ts tol thr;
             plan = build_reconciliation_repair_plan r (Some \<lparr>rx_proposal_generation_enabled = True, rx_execution_enabled = ex\<rparr>)
    in map rq_symbol (ry_proposals plan) = map df_symbol (rr_differences r) \<and> (\<forall>p \<in> set (ry_proposals plan). repairs es ds ts p)
       \<and> \<not> ry_execution_allowed plan \<and> \<not> ry_auto_fix_allowed plan"
proof -
  let ?r = "reconcile_position_snapshots u a es ds ts tol thr"
  let ?plan = "build_reconciliation_repair_plan ?r (Some \<lparr>rx_proposal_generation_enabled = True, rx_execution_enabled = ex\<rparr>)"
  have "rr_status ?r = MATCHED \<longleftrightarrow> rr_differences ?r = []" by (simp add: reconcile_position_snapshots_def Let_def)
  then have plan: "ry_proposals ?plan = List.map_filter proposal_for_difference (rr_differences ?r)"
    "\<not> ry_execution_allowed ?plan" "\<not> ry_auto_fix_allowed ?plan"
    by (auto simp: build_reconciliation_repair_plan_def repair_plan_of_def Let_def map_filter_simps)
  have each: "\<exists>p. proposal_for_difference d = Some p \<and> rq_symbol p = df_symbol d \<and> repairs es ds ts p"
    if d: "d \<in> set (rr_differences ?r)" for d
  proof -
    obtain y where y: "d = symbol_difference es ds ts tol thr y" "drifts (held es y) (held ds y) (held ts y) (dval tol)"
      using d unfolding report_differences [OF c] by auto
    with proposal_repairs [OF c tol y(2)] show ?thesis by (simp add: difference_fields)
  qed
  have "map rq_symbol (List.map_filter proposal_for_difference xs) = map df_symbol xs
      \<and> (\<forall>p \<in> set (List.map_filter proposal_for_difference xs). repairs es ds ts p)" if "set xs \<subseteq> set (rr_differences ?r)" for xs
    using that
  proof (induction xs)
    case (Cons d xs)
    with each [of d] show ?case by (auto simp: map_filter_simps)
  qed (simp add: map_filter_simps)
  from this [OF subset_refl] plan show ?thesis by (simp add: Let_def)
qed

text \<open>A worker that is given the exchange's positions and the targets and reads the database.\<close>

definition account_worker :: "position_snapshot list \<Rightarrow> position_snapshot list \<Rightarrow> dec \<Rightarrow> dec \<Rightarrow> reconciliation_channel list \<Rightarrow> bool
    \<Rightarrow> reconciliation_worker" where
  "account_worker es ts tol thr channels runtime =
     \<lparr>wk_providers = \<lparr>pv_exchange = (\<lambda>_ _. ret es), pv_database = database_load_positions, pv_target = (\<lambda>_ _. ret ts)\<rparr>,
      wk_quantity_tolerance = tol, wk_critical_threshold = thr, wk_notification_channels = channels, wk_alert_runtime = runtime\<rparr>"

text \<open>A run of the worker always ends with a stored report: one audit entry, a system event exactly when there is a
  drift, an alert exactly when there is a drift and a runtime to send it. It changes no position and no order.\<close>

theorem worker_stores_report:
  assumes "db_unique (work s)" and "pend (preferences (work s)) = []"
  shows "\<exists>r s'. run_account (account_worker es ts tol thr channels runtime) u a s = (Inr r, s') \<and> \<not> wr_auto_fix_allowed r
    \<and> t_all (audits (work s')) = t_all (audits (work s)) @ [pp_audit_log (wr_persisted r)]
    \<and> (pp_system_event (wr_persisted r) = None \<longleftrightarrow> rr_status (wr_report r) = MATCHED)
    \<and> outbox s' = outbox s @ drift_alerts runtime (wr_report r)
    \<and> t_all (positions (work s')) = t_all (positions (work s)) \<and> t_all (executions (work s')) = t_all (executions (work s))"
proof -
  let ?w = "account_worker es ts tol thr channels runtime"
  obtain ds where ds: "database_load_positions u a s = (Inr ds, s)" using database_load by (rule that)
  let ?r = "reconcile_position_snapshots u a es ds ts tol thr"
  define s1 where "s1 = s\<lparr>outbox := outbox s @ drift_alerts runtime ?r\<rparr>"
  obtain plan where plan: "build_reconciliation_hook_plan ?r channels runtime s = (Inr plan, s1)"
    and ev: "hp_system_event plan = None \<longleftrightarrow> rr_status ?r = MATCHED"
    and clean: "list_all (\<lambda>n. clean_payload (nn_payload n)) (hp_notifications plan)"
    using hook_plan_run [of ?r channels runtime s, folded s1_def] by (elim exE conjE) (rule that)
  have u1: "db_unique (work s1)" "pend (preferences (work s1)) = []" using assms by (simp_all add: s1_def)
  obtain p s' where p: "persist_reconciliation_hook_plan plan s1 = (Inr p, s')" "outbox s' = outbox s1"
    "t_all (audits (work s')) = t_all (audits (work s1)) @ [pp_audit_log p]" "pp_system_event p = None \<longleftrightarrow> hp_system_event plan = None"
    "t_all (positions (work s')) = t_all (positions (work s1))" "t_all (executions (work s')) = t_all (executions (work s1))"
    using persist_run [OF u1 clean] by (elim exE conjE) (rule that)
  have "run_account ?w u a s = (Inr \<lparr>wr_report = ?r, wr_hook_plan = plan, wr_persisted = p, wr_auto_fix_allowed = False\<rparr>, s')"
    by (simp add: run_account_def account_worker_def bnd_Inr [where m = "database_load_positions _ _", OF ds] Let_def
        bnd_Inr [where m = "build_reconciliation_hook_plan _ _ _", OF plan] bnd_Inr [where m = "persist_reconciliation_hook_plan _", OF p(1)])
  with p(2-) ev show ?thesis by (simp add: s1_def)
qed

lemma distinct_singleton_list: "distinct xs \<Longrightarrow> set xs = {a} \<Longrightarrow> xs = [a]"
  by (cases xs; cases "tl xs") auto

text \<open>One coin too many on the exchange.\<close>

definition btc :: "nat \<Rightarrow> position_snapshot list" where
  "btc n = [\<lparr>ps_symbol = ''btcusdt'', ps_quantity = Dec False n 0\<rparr>]"

lemma btc_comparable: "comparable (btc 3) (btc 2) (btc 2)"
  by (simp add: comparable_def storable_def btc_def volume_def numeric_28_10_def coef_at_def signed_coef_def dval_Dec_False)

lemma btc_held: "held (btc n) y = (if y = ''BTCUSDT'' then of_nat n else 0)"
proof -
  have "upper ''btcusdt'' = ''BTCUSDT''" by code_simp
  then show ?thesis by (auto simp: held_def btc_def dval_Dec_False)
qed

theorem drift_report_correct_witness:
  "rr_severity (reconcile_position_snapshots ''alice'' ''acct-1'' (btc 3) (btc 2) (btc 2) dzero done1) = SEV_CRITICAL"
proof -
  have "drifts (held (btc 3) ''BTCUSDT'') (held (btc 2) ''BTCUSDT'') (held (btc 2) ''BTCUSDT'') 0"
    "far_apart (held (btc 3) ''BTCUSDT'') (held (btc 2) ''BTCUSDT'') (held (btc 2) ''BTCUSDT'') 1"
    by (simp_all add: btc_held drifts_def far_apart_def)
  with drift_report_correct [OF btc_comparable, of dzero "''alice''" "''acct-1''" done1] show ?thesis by auto
qed

theorem proposals_repair_drift_witness:
  "\<exists>p. ry_proposals (build_reconciliation_repair_plan
        (reconcile_position_snapshots ''alice'' ''acct-1'' (btc 3) (btc 2) (btc 2) dzero done1)
        (Some \<lparr>rx_proposal_generation_enabled = True, rx_execution_enabled = True\<rparr>)) = [p]
     \<and> repairs (btc 3) (btc 2) (btc 2) p \<and> rq_symbol p = ''BTCUSDT''"
proof -
  let ?r = "reconcile_position_snapshots ''alice'' ''acct-1'' (btc 3) (btc 2) (btc 2) dzero done1"
  have "set (map df_symbol (rr_differences ?r)) = {''BTCUSDT''}"
    using drifting_symbols [OF btc_comparable, of dzero "''alice''" "''acct-1''" done1] by (auto simp: btc_held drifts_def)
  moreover have "distinct (map df_symbol (rr_differences ?r))"
    unfolding report_differences [OF btc_comparable] by (simp add: comp_def difference_fields distinct_filter)
  ultimately have "map df_symbol (rr_differences ?r) = [''BTCUSDT'']"
    by (intro distinct_singleton_list)
  with proposals_repair_drift [OF btc_comparable, of dzero "''alice''" "''acct-1''" done1 True]
  show ?thesis by (auto simp: Let_def map_eq_Cons_conv)
qed

theorem worker_stores_report_witness:
  "\<exists>r s'. run_account (account_worker (btc 3) (btc 2) dzero done1 [RC_INTERNAL, RC_EMAIL] True) ''alice'' ''acct-1'' sample_session = (Inr r, s')
     \<and> t_all (positions (work s')) = t_all (positions sample_db)"
  using worker_stores_report [of sample_session "btc 3" "btc 2" dzero done1 "[RC_INTERNAL, RC_EMAIL]" True "''alice''" "''acct-1''"]
    settledD(2) [OF sample_settled] settled_pend(14) [OF sample_settled] by auto

end
