(* ===== verification/Exchange_Adapters.thy ===== *)
theory Exchange_Adapters
  imports Account_Sync Rate_Limit
begin

text \<open>
  The adapters that read from an exchange (\<open>exchanges/read_only.py\<close>, \<open>exchanges/binance.py\<close>,
  \<open>exchanges/bybit.py\<close>, \<open>exchanges/okx.py\<close>) and their factory (\<open>exchanges/factory.py\<close>). The three subclasses
  differ in the attributes and in the methods that read an answer, which are functions of the exchange here.

  An answer is a value of any shape: \<open>v.get(k)\<close> raises \<open>AttributeError\<close> where \<open>v\<close> is not a dictionary, a loop over a
  value raises \<open>TypeError\<close> where it cannot be iterated.
\<close>

section \<open>Reading answers\<close>

fun py_iter :: "pyval \<Rightarrow> pyval list result" where
  "py_iter (PList xs) = Inr xs"
| "py_iter (PStr t) = Inr (map (\<lambda>c. PStr [c]) t)"
| "py_iter (PDict d) = Inr (map (\<lambda>kv. PStr (fst kv)) d)"
| "py_iter _ = Inl TypeError"

definition iter_of :: "pyval \<Rightarrow> string \<Rightarrow> pyval list result" where
  "iter_of v k = bndr (val_get_or v k (PList [])) py_iter"

text \<open>\<open>next((item for item in items if item.get(k) == expected), None)\<close>\<close>

fun next_with :: "string \<Rightarrow> string \<Rightarrow> pyval list \<Rightarrow> pyval option result" where
  "next_with k expected [] = Inr None"
| "next_with k expected (item # items) =
     bndr (val_get item k) (\<lambda>v. if v = PStr expected then Inr (Some item) else next_with k expected items)"

text \<open>An entry of a result, read from the named fields of an item.\<close>

fun fields_of :: "pyval \<Rightarrow> (string \<times> string) list \<Rightarrow> pydict result" where
  "fields_of item [] = Inr []"
| "fields_of item ((name, k) # rest) =
     bndr (val_get item k) (\<lambda>v. bndr (fields_of item rest) (\<lambda>d. Inr ((name, v) # d)))"

fun concat_res :: "'a list result list \<Rightarrow> 'a list result" where
  "concat_res [] = Inr []"
| "concat_res (r # rs) = bndr r (\<lambda>xs. bndr (concat_res rs) (\<lambda>ys. Inr (xs @ ys)))"

section \<open>The adapters\<close>

record adapter =
  ad_exchange_name :: exchange_name
  ad_endpoint_config :: endpoint_config
  ad_rate_limit_config :: exchange_rate_limit_config
  ad_adapters_enabled :: bool
  ad_http_client :: "http_client option"
  ad_credentials :: "exchange_credentials option"
  ad_private_security_type :: security_type

definition new_adapter ::
    "exchange_name \<Rightarrow> bool \<Rightarrow> http_client option \<Rightarrow> exchange_credentials option \<Rightarrow> security_type \<Rightarrow> adapter result" where
  "new_adapter x adapters_enabled http_client credentials security =
     bndr (get_testnet_endpoint_config x) (\<lambda>endpoint.
     bndr (get_exchange_rate_limit_config (ep_exchange_name endpoint)) (\<lambda>limits.
       Inr \<lparr>ad_exchange_name = x, ad_endpoint_config = endpoint, ad_rate_limit_config = limits,
            ad_adapters_enabled = adapters_enabled, ad_http_client = http_client, ad_credentials = credentials,
            ad_private_security_type = security\<rparr>))"

definition BinanceAdapter :: "bool \<Rightarrow> http_client option \<Rightarrow> exchange_credentials option \<Rightarrow> adapter result" where
  "BinanceAdapter enabled client credentials = new_adapter BINANCE enabled client credentials SIGNED"

definition BybitAdapter :: "bool \<Rightarrow> http_client option \<Rightarrow> exchange_credentials option \<Rightarrow> adapter result" where
  "BybitAdapter enabled client credentials = new_adapter BYBIT enabled client credentials SIGNED"

definition OKXAdapter :: "bool \<Rightarrow> http_client option \<Rightarrow> exchange_credentials option \<Rightarrow> bool \<Rightarrow> adapter result" where
  "OKXAdapter enabled client credentials demo_trading =
     new_adapter OKX enabled client credentials (if demo_trading then OKX_DEMO_SIGNED else SIGNED)"

fun server_time_path :: "exchange_name \<Rightarrow> string" where
  "server_time_path BINANCE = ''/api/v3/time''"
| "server_time_path BYBIT = ''/v5/market/time''"
| "server_time_path OKX = ''/api/v5/public/time''"
| "server_time_path MOCK = []"

fun exchange_info_path :: "exchange_name \<Rightarrow> string" where
  "exchange_info_path BINANCE = ''/api/v3/exchangeInfo''"
| "exchange_info_path BYBIT = ''/v5/market/instruments-info''"
| "exchange_info_path OKX = ''/api/v5/public/instruments''"
| "exchange_info_path MOCK = []"

fun balances_path :: "exchange_name \<Rightarrow> string" where
  "balances_path BINANCE = ''/api/v3/account''"
| "balances_path BYBIT = ''/v5/account/wallet-balance''"
| "balances_path OKX = ''/api/v5/account/balance''"
| "balances_path MOCK = []"

fun positions_path :: "exchange_name \<Rightarrow> string" where
  "positions_path BINANCE = ''/api/v3/account''"
| "positions_path BYBIT = ''/v5/position/list''"
| "positions_path OKX = ''/api/v5/account/positions''"
| "positions_path MOCK = []"

definition open_orders_path :: string where
  "open_orders_path = ''/api/v5/trade/orders-pending''"

definition balances_params :: "exchange_name \<Rightarrow> (string \<times> string) list" where
  "balances_params x = (if x = BYBIT then [(''accountType'', ''UNIFIED'')] else [])"

definition positions_params :: "exchange_name \<Rightarrow> (string \<times> string) list" where
  "positions_params x = (if x = BYBIT then [(''category'', ''linear''), (''settleCoin'', ''USDT'')] else [])"

definition okx_symbol_of :: "string \<Rightarrow> string" where
  "okx_symbol_of symbol = replace ''USDT'' ''-USDT'' symbol"

fun symbol_rules_params :: "exchange_name \<Rightarrow> string \<Rightarrow> (string \<times> string) list" where
  "symbol_rules_params BYBIT symbol = [(''category'', ''spot''), (''symbol'', symbol)]"
| "symbol_rules_params OKX symbol = [(''instType'', ''SPOT''), (''instId'', okx_symbol_of symbol)]"
| "symbol_rules_params _ symbol = [(''symbol'', symbol)]"

definition ensure_enabled :: "adapter \<Rightarrow> unit op" where
  "ensure_enabled ad = (if \<not> ad_adapters_enabled ad
     then raise (TestnetAdapterDisabledError ''testnet adapters are disabled by configuration'') else ret ())"

definition require_credentials :: "adapter \<Rightarrow> exchange_credentials op" where
  "require_credentials ad = (case ad_credentials ad of
      None \<Rightarrow> raise (TestnetAdapterCredentialsError ''exchange credentials are not configured'')
    | Some c \<Rightarrow> ret c)"

text \<open>The calls on \<open>self.http_client\<close>: a signed client, or the one that is not configured.\<close>

definition client_get_public :: "network \<Rightarrow> adapter \<Rightarrow> string \<Rightarrow> (string \<times> string) list \<Rightarrow> pyval op" where
  "client_get_public net ad path params = (case ad_http_client ad of
      None \<Rightarrow> noop_get_public path params | Some cl \<Rightarrow> get_public net cl path params)"

definition client_get_private ::
    "network \<Rightarrow> adapter \<Rightarrow> string \<Rightarrow> exchange_credentials \<Rightarrow> (string \<times> string) list \<Rightarrow> security_type \<Rightarrow> pyval op" where
  "client_get_private net ad path credentials params security = (case ad_http_client ad of
      None \<Rightarrow> noop_get_private path credentials params security
    | Some cl \<Rightarrow> get_private net cl path credentials params security)"

section \<open>Normalization\<close>

definition binance_symbol_rules :: "string \<Rightarrow> pyval \<Rightarrow> pydict result" where
  "binance_symbol_rules symbol response =
     bndr (iter_of response ''symbols'') (\<lambda>symbols.
     bndr (next_with ''symbol'' symbol symbols) (\<lambda>found. case found of
       None \<Rightarrow> Inl (ValueError (''symbol rules not found: '' @ symbol))
     | Some symbol_data \<Rightarrow>
         bndr (iter_of symbol_data ''filters'') (\<lambda>items.
         bndr (map_res (\<lambda>item. bndr (val_get item ''filterType'') (\<lambda>k.
                 if hashable k then Inr (k, item) else Inl TypeError)) items) (\<lambda>pairs.
           let filters = (\<lambda>k v0. case map_of (rev pairs) (PStr k) of None \<Rightarrow> v0 | Some v \<Rightarrow> v);
               lot_size = filters ''LOT_SIZE'' (PDict []);
               min_notional = filters ''MIN_NOTIONAL'' (filters ''NOTIONAL'' (PDict []))
           in bndr (fields_of symbol_data [(''base_asset'', ''baseAsset''), (''quote_asset'', ''quoteAsset'')]) (\<lambda>assets.
              bndr (fields_of lot_size [(''min_quantity'', ''minQty''), (''max_quantity'', ''maxQty''), (''quantity_step'', ''stepSize'')]) (\<lambda>lot.
              bndr (fields_of min_notional [(''min_notional'', ''minNotional'')]) (\<lambda>notional.
                Inr ([(''exchange'', PStr (exchange_value BINANCE)), (''symbol'', PStr symbol)] @ assets @ lot @ notional
                     @ [(''raw'', symbol_data)]))))))))"

definition bybit_symbol_rules :: "string \<Rightarrow> pyval \<Rightarrow> pydict result" where
  "bybit_symbol_rules symbol response =
     bndr (val_get_or response ''result'' (PDict [])) (\<lambda>result.
     bndr (iter_of result ''list'') (\<lambda>instruments.
     bndr (next_with ''symbol'' symbol instruments) (\<lambda>found. case found of
       None \<Rightarrow> Inl (ValueError (''symbol rules not found: '' @ symbol))
     | Some symbol_data \<Rightarrow>
         bndr (val_get_or symbol_data ''lotSizeFilter'' (PDict [])) (\<lambda>lot_filter.
         bndr (val_get_or symbol_data ''priceFilter'' (PDict [])) (\<lambda>price_filter.
         bndr (fields_of symbol_data [(''base_asset'', ''baseCoin''), (''quote_asset'', ''quoteCoin'')]) (\<lambda>assets.
         bndr (fields_of lot_filter [(''min_quantity'', ''minOrderQty''), (''max_quantity'', ''maxOrderQty''),
                 (''quantity_step'', ''basePrecision''), (''min_notional'', ''minOrderAmt'')]) (\<lambda>lot.
         bndr (fields_of price_filter [(''tick_size'', ''tickSize'')]) (\<lambda>price.
           Inr ([(''exchange'', PStr (exchange_value BYBIT)), (''symbol'', PStr symbol)] @ assets @ lot @ price
                @ [(''raw'', symbol_data)])))))))))"

definition okx_symbol_rules :: "string \<Rightarrow> pyval \<Rightarrow> pydict result" where
  "okx_symbol_rules symbol response =
     bndr (iter_of response ''data'') (\<lambda>instruments.
     bndr (next_with ''instId'' (okx_symbol_of symbol) instruments) (\<lambda>found. case found of
       None \<Rightarrow> Inl (ValueError (''symbol rules not found: '' @ symbol))
     | Some symbol_data \<Rightarrow>
         bndr (fields_of symbol_data [(''exchange_symbol'', ''instId''), (''base_asset'', ''baseCcy''), (''quote_asset'', ''quoteCcy''),
                 (''min_quantity'', ''minSz''), (''quantity_step'', ''lotSz''), (''tick_size'', ''tickSz'')]) (\<lambda>fields.
           Inr ([(''exchange'', PStr (exchange_value OKX)), (''symbol'', PStr symbol)] @ fields @ [(''raw'', symbol_data)]))))"

definition normalize_symbol_rules :: "exchange_name \<Rightarrow> string \<Rightarrow> pyval \<Rightarrow> pydict result" where
  "normalize_symbol_rules x symbol response = (case x of
      BINANCE \<Rightarrow> binance_symbol_rules symbol response
    | BYBIT \<Rightarrow> bybit_symbol_rules symbol response
    | OKX \<Rightarrow> okx_symbol_rules symbol response
    | MOCK \<Rightarrow> Inl (NotImplementedError []))"

definition balance_entry :: "exchange_name \<Rightarrow> (string \<times> string) list \<Rightarrow> pyval \<Rightarrow> pydict result" where
  "balance_entry x keys item = bndr (fields_of item keys) (\<lambda>d.
     Inr ((''exchange'', PStr (exchange_value x)) # d @ (if x = BINANCE then [(''total'', PNone)] else []) @ [(''raw'', item)]))"

definition binance_balances :: "pyval \<Rightarrow> pydict list result" where
  "binance_balances response = bndr (iter_of response ''balances'')
     (map_res (balance_entry BINANCE [(''asset'', ''asset''), (''free'', ''free''), (''locked'', ''locked'')]))"

definition bybit_balances :: "pyval \<Rightarrow> pydict list result" where
  "bybit_balances response =
     bndr (val_get_or response ''result'' (PDict [])) (\<lambda>result.
     bndr (iter_of result ''list'') (\<lambda>accounts.
       concat_res (map (\<lambda>account. bndr (iter_of account ''coin'')
         (map_res (balance_entry BYBIT [(''asset'', ''coin''), (''free'', ''walletBalance''), (''locked'', ''locked''),
            (''total'', ''walletBalance'')]))) accounts)))"

definition okx_balances :: "pyval \<Rightarrow> pydict list result" where
  "okx_balances response =
     bndr (iter_of response ''data'') (\<lambda>accounts.
       concat_res (map (\<lambda>account. bndr (iter_of account ''details'')
         (map_res (balance_entry OKX [(''asset'', ''ccy''), (''free'', ''availBal''), (''locked'', ''frozenBal''),
            (''total'', ''cashBal'')]))) accounts))"

definition normalize_balances :: "exchange_name \<Rightarrow> pyval \<Rightarrow> pydict list result" where
  "normalize_balances x response = (case x of
      BINANCE \<Rightarrow> binance_balances response
    | BYBIT \<Rightarrow> bybit_balances response
    | OKX \<Rightarrow> okx_balances response
    | MOCK \<Rightarrow> Inl (NotImplementedError []))"

definition position_entry :: "exchange_name \<Rightarrow> (string \<times> string) list \<Rightarrow> pyval \<Rightarrow> pydict result" where
  "position_entry x keys item = bndr (fields_of item keys) (\<lambda>d.
     Inr ((''exchange'', PStr (exchange_value x)) # d @ [(''raw'', item)]))"

definition bybit_positions :: "pyval \<Rightarrow> pydict list result" where
  "bybit_positions response =
     bndr (val_get_or response ''result'' (PDict [])) (\<lambda>result.
     bndr (iter_of result ''list'')
       (map_res (position_entry BYBIT [(''symbol'', ''symbol''), (''side'', ''side''), (''quantity'', ''size''),
          (''entry_price'', ''avgPrice''), (''unrealized_pnl'', ''unrealisedPnl'')])))"

definition okx_positions :: "pyval \<Rightarrow> pydict list result" where
  "okx_positions response = bndr (iter_of response ''data'')
     (map_res (position_entry OKX [(''symbol'', ''instId''), (''side'', ''posSide''), (''quantity'', ''pos''),
        (''entry_price'', ''avgPx''), (''unrealized_pnl'', ''upl'')]))"

definition normalize_positions :: "exchange_name \<Rightarrow> pyval \<Rightarrow> pydict list result" where
  "normalize_positions x response = (case x of
      BINANCE \<Rightarrow> Inr []
    | BYBIT \<Rightarrow> bybit_positions response
    | OKX \<Rightarrow> okx_positions response
    | MOCK \<Rightarrow> Inl (NotImplementedError []))"

definition okx_open_order :: "pyval \<Rightarrow> pydict result" where
  "okx_open_order item = bndr (fields_of item [(''order_id'', ''ordId''), (''symbol'', ''instId''), (''side'', ''side''),
       (''order_type'', ''ordType''), (''status'', ''state''), (''price'', ''px''), (''quantity'', ''sz''),
       (''filled_quantity'', ''accFillSz''), (''created_at'', ''cTime'')]) (\<lambda>d.
     Inr ((''exchange'', PStr (exchange_value OKX)) # d))"

section \<open>Operations\<close>

definition adapter_get_server_time :: "network \<Rightarrow> adapter \<Rightarrow> pyval op" where
  "adapter_get_server_time net ad = bnd (ensure_enabled ad) (\<lambda>_. client_get_public net ad (server_time_path (ad_exchange_name ad)) [])"

definition adapter_get_exchange_info :: "network \<Rightarrow> adapter \<Rightarrow> pyval op" where
  "adapter_get_exchange_info net ad = bnd (ensure_enabled ad) (\<lambda>_. client_get_public net ad (exchange_info_path (ad_exchange_name ad)) [])"

definition adapter_get_balances :: "network \<Rightarrow> adapter \<Rightarrow> pydict list op" where
  "adapter_get_balances net ad =
     bnd (ensure_enabled ad) (\<lambda>_.
     bnd (require_credentials ad) (\<lambda>credentials.
     bnd (client_get_private net ad (balances_path (ad_exchange_name ad)) credentials (balances_params (ad_exchange_name ad))
            (ad_private_security_type ad)) (\<lambda>response.
       lift_result (normalize_balances (ad_exchange_name ad) response))))"

definition adapter_get_positions :: "network \<Rightarrow> adapter \<Rightarrow> pydict list op" where
  "adapter_get_positions net ad =
     bnd (ensure_enabled ad) (\<lambda>_.
     bnd (require_credentials ad) (\<lambda>credentials.
     bnd (client_get_private net ad (positions_path (ad_exchange_name ad)) credentials (positions_params (ad_exchange_name ad))
            (ad_private_security_type ad)) (\<lambda>response.
       lift_result (normalize_positions (ad_exchange_name ad) response))))"

definition adapter_get_open_orders :: "network \<Rightarrow> adapter \<Rightarrow> pydict list op" where
  "adapter_get_open_orders net ad =
     bnd (ensure_enabled ad) (\<lambda>_.
     if ad_exchange_name ad \<noteq> OKX
     then raise (TestnetAdapterNotImplementedError ''authenticated open orders are not implemented in phase 3 step 4'')
     else bnd (require_credentials ad) (\<lambda>credentials.
       bnd (client_get_private net ad open_orders_path credentials [(''instType'', ''SPOT'')] (ad_private_security_type ad)) (\<lambda>response.
         lift_result (bndr (iter_of response ''data'') (map_res okx_open_order)))))"

definition adapter_get_symbol_rules :: "network \<Rightarrow> adapter \<Rightarrow> string \<Rightarrow> pydict op" where
  "adapter_get_symbol_rules net ad symbol =
     bnd (ensure_enabled ad) (\<lambda>_.
     bnd (client_get_public net ad (exchange_info_path (ad_exchange_name ad))
            (symbol_rules_params (ad_exchange_name ad) (upper symbol))) (\<lambda>response.
       lift_result (normalize_symbol_rules (ad_exchange_name ad) (upper symbol) response)))"

definition adapter_get_order_status :: "adapter \<Rightarrow> string \<Rightarrow> pydict op" where
  "adapter_get_order_status ad exchange_order_id =
     bnd (ensure_enabled ad) (\<lambda>_.
       raise (TestnetAdapterNotImplementedError ''authenticated order status is not implemented in phase 3 step 4''))"

definition adapter_place_order ::
    "adapter \<Rightarrow> string \<Rightarrow> string \<Rightarrow> order_side \<Rightarrow> order_type \<Rightarrow> dec \<Rightarrow> dec option \<Rightarrow> pydict op" where
  "adapter_place_order ad client_order_id symbol side order_type quantity price =
     raise (TestnetTradingNotSupportedError ''testnet order placement is not implemented in phase 3 step 4'')"

definition adapter_cancel_order :: "adapter \<Rightarrow> string \<Rightarrow> pydict op" where
  "adapter_cancel_order ad exchange_order_id =
     raise (TestnetTradingNotSupportedError ''testnet order cancellation is not implemented in phase 3 step 4'')"

section \<open>The factory\<close>

datatype any_adapter = MockAdapter mock_exchange | ReadOnlyAdapter adapter

definition create_exchange_adapter ::
    "exchange_name \<Rightarrow> bool \<Rightarrow> http_client option \<Rightarrow> exchange_credentials option \<Rightarrow> bool \<Rightarrow> any_adapter result" where
  "create_exchange_adapter x testnet_adapters_enabled http_client credentials okx_demo_trading = (case x of
      MOCK \<Rightarrow> Inr (MockAdapter MockExchange)
    | BINANCE \<Rightarrow> bndr (BinanceAdapter testnet_adapters_enabled http_client credentials) (\<lambda>a. Inr (ReadOnlyAdapter a))
    | BYBIT \<Rightarrow> bndr (BybitAdapter testnet_adapters_enabled http_client credentials) (\<lambda>a. Inr (ReadOnlyAdapter a))
    | OKX \<Rightarrow> bndr (OKXAdapter testnet_adapters_enabled http_client credentials okx_demo_trading) (\<lambda>a. Inr (ReadOnlyAdapter a)))"

definition any_get_balances :: "network \<Rightarrow> any_adapter \<Rightarrow> pydict list op" where
  "any_get_balances net a = (case a of
      MockAdapter m \<Rightarrow> ret (get_balances m) | ReadOnlyAdapter ad \<Rightarrow> adapter_get_balances net ad)"

definition any_get_open_orders :: "network \<Rightarrow> any_adapter \<Rightarrow> pydict list op" where
  "any_get_open_orders net a = (case a of
      MockAdapter m \<Rightarrow> ret (get_open_orders m) | ReadOnlyAdapter ad \<Rightarrow> adapter_get_open_orders net ad)"

section \<open>Adapters only read\<close>

text \<open>The whole effect of an operation is a number of GET requests.\<close>

definition only_gets :: "session \<Rightarrow> session \<Rightarrow> bool" where
  "only_gets s s' \<longleftrightarrow> (\<exists>qs. s' = s\<lparr>wire := wire s @ qs\<rparr> \<and> (\<forall>q \<in> set qs. plain_get q))"

lemma only_gets_refl: "reflp only_gets"
  by (rule reflpI) (auto simp: only_gets_def intro: exI [of _ "[]"])

lemma only_gets_trans: "transp only_gets"
proof (rule transpI)
  fix s1 s2 s3
  assume "only_gets s1 s2" "only_gets s2 s3"
  then obtain qs rs where "s2 = s1\<lparr>wire := wire s1 @ qs\<rparr>" "\<forall>q \<in> set qs. plain_get q"
    "s3 = s2\<lparr>wire := wire s2 @ rs\<rparr>" "\<forall>q \<in> set rs. plain_get q"
    by (auto simp: only_gets_def)
  then show "only_gets s1 s3" unfolding only_gets_def by (intro exI [of _ "qs @ rs"]) auto
qed

lemma only_gets_public: "keeps only_gets (get_public net cl path params)"
  unfolding keeps_def
proof
  fix s
  obtain r s' where run: "get_public net cl path params s = (r, s')" by fastforce
  obtain q where q: "wire_request (prepare_public_request cl path params) = Inr q" "plain_get q"
    by (auto simp: wire_request_def prepare_public_request_def plain_get_def Let_def)
  with transport_sends_one [OF run [unfolded get_public_def]] have "s' = s\<lparr>wire := wire s @ [q]\<rparr>" by simp
  with run q(2) show "only_gets s (snd (get_public net cl path params s))" by (auto simp: only_gets_def)
qed

lemma only_gets_private: "keeps only_gets (get_private net cl path cred params security)"
  unfolding keeps_def
proof
  fix s
  have refl: "only_gets s s" using only_gets_refl by (rule reflpD)
  show "only_gets s (snd (get_private net cl path cred params security s))"
    by (cases rule: get_private_cases [of cl s path cred params security net])
      (simp add: refl, auto simp: only_gets_def plain_get_def split: http_reply.split)
qed

lemmas only_gets_rules = keeps_ret [OF only_gets_refl] keeps_raise [OF only_gets_refl] keeps_lift_result [OF only_gets_refl]
  keeps_bnd [OF only_gets_trans] keeps_if keeps_case_option only_gets_public only_gets_private

lemma adapter_keeps:
  "keeps only_gets (adapter_get_server_time net ad)" "keeps only_gets (adapter_get_exchange_info net ad)"
  "keeps only_gets (adapter_get_balances net ad)" "keeps only_gets (adapter_get_positions net ad)"
  "keeps only_gets (adapter_get_open_orders net ad)" "keeps only_gets (adapter_get_symbol_rules net ad symbol)"
  unfolding adapter_get_server_time_def adapter_get_exchange_info_def adapter_get_balances_def adapter_get_positions_def
    adapter_get_open_orders_def adapter_get_symbol_rules_def ensure_enabled_def require_credentials_def
    client_get_public_def client_get_private_def noop_get_public_def noop_get_private_def
  by (intro only_gets_rules)+

lemma any_keeps: "keeps only_gets (any_get_balances net a)" "keeps only_gets (any_get_open_orders net a)"
  by (cases a; simp add: any_get_balances_def any_get_open_orders_def adapter_keeps keeps_ret [OF only_gets_refl])+

section \<open>The balances that are read\<close>

text \<open>
  What the answers mean: where each exchange lists its balances, and the row an item stands for.
  A field that is missing reads as \<open>None\<close>.
\<close>

fun items_under :: "pyval \<Rightarrow> string \<Rightarrow> pyval list" where
  "items_under (PDict d) k = (case dict_get d k of PList xs \<Rightarrow> xs | _ \<Rightarrow> [])"
| "items_under _ k = []"

fun field :: "pyval \<Rightarrow> string \<Rightarrow> pyval" where
  "field (PDict d) k = dict_get d k"
| "field _ k = PNone"

fun listed_balances :: "exchange_name \<Rightarrow> pyval \<Rightarrow> pyval list" where
  "listed_balances BINANCE v = items_under v ''balances''"
| "listed_balances BYBIT v =
     concat (map (\<lambda>account. items_under account ''coin'') (items_under (field v ''result'') ''list''))"
| "listed_balances OKX v = concat (map (\<lambda>account. items_under account ''details'') (items_under v ''data''))"
| "listed_balances MOCK v = []"

fun balance_row :: "exchange_name \<Rightarrow> pyval \<Rightarrow> pydict" where
  "balance_row BINANCE item =
     [(''exchange'', PStr ''binance''), (''asset'', field item ''asset''), (''free'', field item ''free''),
      (''locked'', field item ''locked''), (''total'', PNone), (''raw'', item)]"
| "balance_row BYBIT item =
     [(''exchange'', PStr ''bybit''), (''asset'', field item ''coin''), (''free'', field item ''walletBalance''),
      (''locked'', field item ''locked''), (''total'', field item ''walletBalance''), (''raw'', item)]"
| "balance_row OKX item =
     [(''exchange'', PStr ''okx''), (''asset'', field item ''ccy''), (''free'', field item ''availBal''),
      (''locked'', field item ''frozenBal''), (''total'', field item ''cashBal''), (''raw'', item)]"
| "balance_row MOCK item = []"

definition is_dict :: "pyval \<Rightarrow> bool" where
  "is_dict v \<longleftrightarrow> (\<exists>d. v = PDict d)"

lemma val_get_field: "val_get v k = Inr x \<longleftrightarrow> is_dict v \<and> x = field v k"
  by (cases v) (auto simp: is_dict_def)

lemma balance_entry_value:
  "balance_entry BINANCE [(''asset'', ''asset''), (''free'', ''free''), (''locked'', ''locked'')] item = Inr b
     \<Longrightarrow> is_dict item \<and> b = balance_row BINANCE item"
  "balance_entry BYBIT [(''asset'', ''coin''), (''free'', ''walletBalance''), (''locked'', ''locked''),
     (''total'', ''walletBalance'')] item = Inr b \<Longrightarrow> is_dict item \<and> b = balance_row BYBIT item"
  "balance_entry OKX [(''asset'', ''ccy''), (''free'', ''availBal''), (''locked'', ''frozenBal''),
     (''total'', ''cashBal'')] item = Inr b \<Longrightarrow> is_dict item \<and> b = balance_row OKX item"
  by (auto simp: balance_entry_def val_get_field)

lemma py_iter_dicts:
  assumes "py_iter w = Inr items" and "list_all is_dict items"
  shows "items = (case w of PList xs \<Rightarrow> xs | _ \<Rightarrow> [])"
proof (cases w)
  case (PStr t)
  with assms show ?thesis by (cases t) (auto simp: is_dict_def)
next
  case (PDict d)
  with assms show ?thesis by (cases d) (auto simp: is_dict_def)
qed (use assms in auto)

lemma iter_of_items:
  assumes "iter_of v k = Inr items"
  shows "is_dict v" and "list_all is_dict items \<Longrightarrow> items = items_under v k"
proof -
  obtain d w where v: "v = PDict d" and w: "w = dict_get_or d k (PList [])" "py_iter w = Inr items"
    using assms by (cases v) (auto simp: iter_of_def)
  show "is_dict v" by (simp add: v is_dict_def)
  show "items = items_under v k" if "list_all is_dict items"
    using py_iter_dicts [OF w(2) that] w by (auto simp: v dict_get_def dict_get_or_def split: option.splits)
qed

lemma map_res_rows:
  assumes "map_res f items = Inr bs" and "\<And>item b. f item = Inr b \<Longrightarrow> is_dict item \<and> b = row item"
  shows "list_all is_dict items \<and> bs = map row items"
  using assms(1) by (induction items arbitrary: bs) (auto dest: assms(2))

lemma concat_res_rows:
  assumes "concat_res (map (\<lambda>a. bndr (iter_of a k) (map_res f)) as) = Inr bs"
    and f: "\<And>item b. f item = Inr b \<Longrightarrow> is_dict item \<and> b = row item"
  shows "list_all is_dict as \<and> bs = map row (concat (map (\<lambda>a. items_under a k) as))"
  using assms(1)
proof (induction as arbitrary: bs)
  case (Cons a as)
  then obtain items xs zs where i: "iter_of a k = Inr items" and x: "map_res f items = Inr xs"
    and z: "concat_res (map (\<lambda>a. bndr (iter_of a k) (map_res f)) as) = Inr zs" and bs: "bs = xs @ zs"
    by auto
  from map_res_rows [OF x f] iter_of_items [OF i] Cons.IH [OF z] bs show ?case by simp
qed simp

text \<open>Whatever was normalized is the listed items, row by row.\<close>

lemma normalized_balances:
  assumes "normalize_balances x v = Inr bs"
  shows "bs = map (balance_row x) (listed_balances x v)"
proof (cases x)
  case BINANCE
  with assms obtain items where i: "iter_of v ''balances'' = Inr items" and m: "map_res (balance_entry BINANCE
      [(''asset'', ''asset''), (''free'', ''free''), (''locked'', ''locked'')]) items = Inr bs"
    by (auto simp: normalize_balances_def binance_balances_def)
  from map_res_rows [OF m balance_entry_value(1)] iter_of_items [OF i] BINANCE show ?thesis by simp
next
  case BYBIT
  with assms obtain r rs where r: "val_get_or v ''result'' (PDict []) = Inr r" and i: "iter_of r ''list'' = Inr rs"
    and c: "concat_res (map (\<lambda>account. bndr (iter_of account ''coin'') (map_res (balance_entry BYBIT
      [(''asset'', ''coin''), (''free'', ''walletBalance''), (''locked'', ''locked''),
       (''total'', ''walletBalance'')]))) rs) = Inr bs"
    by (auto simp: normalize_balances_def bybit_balances_def)
  note rows = concat_res_rows [OF c balance_entry_value(2)]
  have "items_under r ''list'' = items_under (field v ''result'') ''list''"
    using r by (cases v) (auto simp: dict_get_def dict_get_or_def split: option.splits)
  with rows iter_of_items [OF i] BYBIT show ?thesis by simp
next
  case OKX
  with assms obtain rs where i: "iter_of v ''data'' = Inr rs"
    and c: "concat_res (map (\<lambda>account. bndr (iter_of account ''details'') (map_res (balance_entry OKX
      [(''asset'', ''ccy''), (''free'', ''availBal''), (''locked'', ''frozenBal''), (''total'', ''cashBal'')]))) rs)
      = Inr bs"
    by (auto simp: normalize_balances_def okx_balances_def)
  from concat_res_rows [OF c balance_entry_value(3)] iter_of_items [OF i] OKX show ?thesis by simp
next
  case MOCK
  with assms show ?thesis by (simp add: normalize_balances_def)
qed

section \<open>Properties\<close>

text \<open>An adapter only reads: whatever it is asked, its whole effect is a number of GET requests without a body. A
  disabled adapter sends nothing, and placing or cancelling an order is refused without any effect.\<close>

theorem adapters_only_read:
  "keeps only_gets (adapter_get_server_time net ad) \<and> keeps only_gets (adapter_get_exchange_info net ad)
     \<and> keeps only_gets (adapter_get_balances net ad) \<and> keeps only_gets (adapter_get_positions net ad)
     \<and> keeps only_gets (adapter_get_open_orders net ad) \<and> keeps only_gets (adapter_get_symbol_rules net ad symbol)
     \<and> (\<exists>e. adapter_get_balances net (ad\<lparr>ad_adapters_enabled := False\<rparr>) s = (Inl e, s))
     \<and> (\<exists>e. adapter_place_order ad cid symbol side ot q p s = (Inl e, s)) \<and> (\<exists>e. adapter_cancel_order ad oid s = (Inl e, s))"
  using adapter_keeps by (simp add: adapter_get_balances_def ensure_enabled_def adapter_place_order_def adapter_cancel_order_def)

text \<open>C39: When a read-only adapter returns balances, it has sent one GET request without a body, and the balances are
  the items the answer lists, one row for each in their order, with asset, free, locked and total read from the fields
  of that exchange (Binance reports no total) and the item itself under \<open>raw\<close>.\<close>

theorem balances_read_the_answer:
  assumes "adapter_get_balances net ad s = (Inr bs, s')"
  shows "\<exists>q answer. s' = s\<lparr>wire := wire s @ [q]\<rparr> \<and> hq_method q = ''GET'' \<and> hq_data q = None
    \<and> (net q = Reply answer \<or> net q = ReplyEmpty \<and> answer = PDict [])
    \<and> bs = map (balance_row (ad_exchange_name ad)) (listed_balances (ad_exchange_name ad) answer)"
proof -
  let ?x = "ad_exchange_name ad"
  obtain cl cred answer where g: "get_private net cl (balances_path ?x) cred (balances_params ?x)
      (ad_private_security_type ad) s = (Inr answer, s')" and n: "normalize_balances ?x answer = Inr bs"
    using assms
    by (auto simp: adapter_get_balances_def ensure_enabled_def require_credentials_def client_get_private_def
        noop_get_private_def bnd_def split: if_splits option.splits sum.splits prod.splits)
  have "\<exists>q. s' = s\<lparr>wire := wire s @ [q]\<rparr> \<and> hq_method q = ''GET'' \<and> hq_data q = None
    \<and> (net q = Reply answer \<or> net q = ReplyEmpty \<and> answer = PDict [])"
    by (cases rule: get_private_cases [of cl s "balances_path ?x" cred "balances_params ?x" "ad_private_security_type ad" net])
      (use g in \<open>auto split: http_reply.splits\<close>)
  with normalized_balances [OF n] show ?thesis by blast
qed

definition balances_network :: network where
  "balances_network q = Reply (PDict [(''balances'', PList [PDict [(''asset'', PStr ''BTC''), (''free'', PStr ''1'')]])])"

theorem balances_read_the_answer_witness:
  "\<exists>ad s'. adapter_get_balances balances_network ad sample_session =
     (Inr [[(''exchange'', PStr ''binance''), (''asset'', PStr ''BTC''), (''free'', PStr ''1''), (''locked'', PNone),
            (''total'', PNone), (''raw'', PDict [(''asset'', PStr ''BTC''), (''free'', PStr ''1'')])]], s')"
proof -
  let ?cr = "\<lparr>ec_api_key = ''k'', ec_api_secret = ''s'', ec_passphrase = None\<rparr>"
  let ?cl = "signed_http_client BINANCE ''https://testnet.binance.vision''"
  let ?v = "PDict [(''balances'', PList [PDict [(''asset'', PStr ''BTC''), (''free'', PStr ''1'')]])]"
  obtain ad where ad: "BinanceAdapter True (Some ?cl) (Some ?cr) = Inr ad"
    and f: "ad_exchange_name ad = BINANCE" "ad_adapters_enabled ad" "ad_http_client ad = Some ?cl" "ad_credentials ad = Some ?cr"
    by (simp add: BinanceAdapter_def new_adapter_def get_testnet_endpoint_config_def TESTNET_ENDPOINTS_def
        get_exchange_rate_limit_config_def EXCHANGE_RATE_LIMITS_def)
  obtain s' where g: "get_private balances_network ?cl ''/api/v3/account'' ?cr [] (ad_private_security_type ad) sample_session = (Inr ?v, s')"
    by (cases rule: get_private_cases [of ?cl sample_session "''/api/v3/account''" ?cr "[]" "ad_private_security_type ad" balances_network])
      (auto simp: balances_network_def prepare_private_any_def signed_http_client_def)
  have n: "\<exists>b. normalize_balances BINANCE ?v = Inr [b]"
    by (simp add: normalize_balances_def binance_balances_def iter_of_def dict_get_or_def balance_entry_def)
  then obtain b where run: "adapter_get_balances balances_network ad sample_session = (Inr [b], s')"
    using g by (auto simp: adapter_get_balances_def ensure_enabled_def require_credentials_def client_get_private_def f balances_params_def
        bnd_Inr [where m = "get_private _ _ _ _ _ _"])
  have "[b] = map (balance_row BINANCE) (listed_balances BINANCE ?v)"
    using balances_read_the_answer [OF run] by (auto simp: f balances_network_def)
  with run show ?thesis by auto
qed

end
