(* ===== verification/Read_Only_Checks.thy ===== *)
theory Read_Only_Checks
  imports Exchange_Adapters
begin

text \<open>
  The checks of stored credentials and the reading of production accounts: the testnet check
  (\<open>services/testnet_read_only_check.py\<close>), the production check (\<open>services/real_read_only_check.py\<close>), balances
  (\<open>services/real_balances.py\<close>) and open orders (\<open>services/real_open_orders.py\<close>), with their four routes
  (\<open>api/v1/exchange_accounts.py\<close>). The \<open>http_client\<close> argument of the services, which only tests use, is left out:
  the client is the default one.
\<close>

section \<open>Testnet credentials\<close>

record check_result =
  ck_exchange_account_id :: string
  ck_exchange_name :: exchange_name
  ck_authenticated :: bool
  ck_balance_asset_count :: nat

definition optional_entry :: "string \<Rightarrow> pyval option \<Rightarrow> pydict" where
  "optional_entry k v = (case v of None \<Rightarrow> [] | Some x \<Rightarrow> [(k, x)])"

definition reasons_entry :: "string list \<Rightarrow> pydict" where
  "reasons_entry reasons = (if reasons = [] then [] else [(''reasons'', PList (map PStr reasons))])"

definition write_testnet_check_audit ::
    "string \<Rightarrow> string \<Rightarrow> exchange_name \<Rightarrow> bool \<Rightarrow> string list \<Rightarrow> nat option \<Rightarrow> unit op" where
  "write_testnet_check_audit user_id account_id x authenticated reasons balance_asset_count =
     bnd (add_audit user_id (Some account_id) ''testnet.read_only.authentication.checked''
            (if authenticated then ''INFO'' else ''WARNING'')
            ([(''exchange_name'', PStr (exchange_value x)), (''authenticated'', PBool authenticated)]
             @ reasons_entry reasons
             @ optional_entry ''balance_asset_count'' (map_option (\<lambda>n. PInt (int n)) balance_asset_count))) (\<lambda>_. commit)"

definition run_testnet_read_only_check :: "cipher \<Rightarrow> network \<Rightarrow> string \<Rightarrow> string \<Rightarrow> bool \<Rightarrow> check_result op" where
  "run_testnet_read_only_check c net user_id account_id adapters =
     bnd (get_owned_account user_id account_id) (\<lambda>found. case found of
       None \<Rightarrow> raise (TestnetReadOnlyAccountNotFoundError ''account not found'')
     | Some account \<Rightarrow>
         bnd (get_exchange_credentials c user_id (ea_id account)) (\<lambda>credentials.
           let reasons = collect_reasons
                 [(\<not> ea_is_active account, ''exchange account must be active''),
                  (ea_account_mode account \<noteq> TESTNET, ''account mode must be TESTNET''),
                  (ea_exchange_name account = MOCK, ''mock exchange does not support testnet authentication''),
                  (ea_trading_enabled account, ''trading must remain disabled during read-only checks''),
                  (\<not> adapters, ''testnet adapters must be explicitly enabled''),
                  (credentials = None, ''testnet API credentials must be configured'')]
           in if reasons \<noteq> []
              then bnd (write_testnet_check_audit user_id (ea_id account) (ea_exchange_name account) False reasons None)
                     (\<lambda>_. raise (TestnetReadOnlyCheckBlockedError reasons))
              else
                bnd (lift_result (create_testnet_signed_http_client (ea_exchange_name account))) (\<lambda>client.
                bnd (lift_result (create_exchange_adapter (ea_exchange_name account) True (Some client) credentials True)) (\<lambda>adapter.
                bnd (try_except (any_get_balances net adapter) (\<lambda>e. Some (
                       bnd (write_testnet_check_audit user_id (ea_id account) (ea_exchange_name account) False
                              [''exchange authentication failed''] None)
                         (\<lambda>_. raise (TestnetReadOnlyAuthenticationError ''exchange authentication failed''))))) (\<lambda>balances.
                bnd (write_testnet_check_audit user_id (ea_id account) (ea_exchange_name account) True [] (Some (length balances))) (\<lambda>_.
                  ret \<lparr>ck_exchange_account_id = ea_id account, ck_exchange_name = ea_exchange_name account,
                       ck_authenticated = True, ck_balance_asset_count = length balances\<rparr>))))))"

section \<open>Production credentials\<close>

definition okx_production_client :: http_client where
  "okx_production_client = signed_http_client OKX ''https://www.okx.com''"

text \<open>The two \<open>except\<close> clauses of the production services: a failed request with its type and code, and everything else.\<close>

definition on_exchange_failure :: "(string \<Rightarrow> string option \<Rightarrow> 'a op) \<Rightarrow> py_exc \<Rightarrow> 'a op option" where
  "on_exchange_failure fail e = (case e of
      ExchangeHttpRequestError failure_type status_code exchange_code \<Rightarrow> Some (fail failure_type exchange_code)
    | _ \<Rightarrow> Some (fail ''unexpected_error'' None))"

lemma on_exchange_failure_cases: "\<exists>f ec. on_exchange_failure fail e = Some (fail f ec)"
  by (cases e) (auto simp: on_exchange_failure_def)

definition write_real_check_audit ::
    "string \<Rightarrow> string \<Rightarrow> exchange_name \<Rightarrow> bool \<Rightarrow> string list \<Rightarrow> nat option \<Rightarrow> string option \<Rightarrow> string option \<Rightarrow> unit op" where
  "write_real_check_audit user_id account_id x authenticated reasons balance_asset_count failure_type exchange_code =
     bnd (add_audit user_id (Some account_id) ''real.read_only.authentication.checked''
            (if authenticated then ''INFO'' else ''WARNING'')
            ([(''exchange_name'', PStr (exchange_value x)), (''authenticated'', PBool authenticated), (''account_mode'', PStr (mode_value REAL))]
             @ reasons_entry reasons
             @ optional_entry ''balance_asset_count'' (map_option (\<lambda>n. PInt (int n)) balance_asset_count)
             @ optional_entry ''failure_type'' (map_option PStr failure_type)
             @ optional_entry ''exchange_code'' (map_option PStr exchange_code))) (\<lambda>_. commit)"

definition run_real_read_only_check :: "cipher \<Rightarrow> network \<Rightarrow> string \<Rightarrow> string \<Rightarrow> check_result op" where
  "run_real_read_only_check c net user_id account_id =
     bnd (get_owned_account user_id account_id) (\<lambda>found. case found of
       None \<Rightarrow> raise (RealReadOnlyAccountNotFoundError ''account not found'')
     | Some account \<Rightarrow>
         bnd (get_exchange_credentials c user_id (ea_id account)) (\<lambda>credentials.
           let reasons = collect_reasons
                 [(\<not> ea_is_active account, ''exchange account must be active''),
                  (ea_account_mode account \<noteq> REAL, ''account mode must be REAL''),
                  (ea_exchange_name account \<noteq> OKX, ''only OKX production read-only authentication is enabled''),
                  (ea_trading_enabled account, ''trading must remain disabled during production read-only checks''),
                  (credentials = None, ''production API credentials must be configured'')];
               audit = write_real_check_audit user_id (ea_id account) (ea_exchange_name account)
           in if reasons \<noteq> []
              then bnd (audit False reasons None None None) (\<lambda>_. raise (RealReadOnlyCheckBlockedError reasons))
              else
                bnd (lift_result (create_exchange_adapter (ea_exchange_name account) True (Some okx_production_client) credentials False)) (\<lambda>adapter.
                bnd (try_except (any_get_balances net adapter) (on_exchange_failure (\<lambda>failure_type exchange_code.
                       bnd (audit False [''exchange authentication failed''] None (Some failure_type) exchange_code)
                         (\<lambda>_. raise (RealReadOnlyAuthenticationError failure_type exchange_code))))) (\<lambda>balances.
                bnd (audit True [] (Some (length balances)) None None) (\<lambda>_.
                  ret \<lparr>ck_exchange_account_id = ea_id account, ck_exchange_name = ea_exchange_name account,
                       ck_authenticated = True, ck_balance_asset_count = length balances\<rparr>)))))"

section \<open>Production balances and orders\<close>

record real_balance =
  rb_asset :: string
  rb_free :: "string option"
  rb_locked :: "string option"
  rb_total :: "string option"

record 'i loaded_result =
  ld_exchange_account_id :: string
  ld_exchange_name :: exchange_name
  ld_items :: "'i list"

definition text_or_none :: "pyval \<Rightarrow> string option" where
  "text_or_none v = (if v = PNone then None else Some (py_str v))"

definition sanitize_balance :: "pydict \<Rightarrow> real_balance result" where
  "sanitize_balance item = (case dict_get item ''asset'' of
      PStr asset \<Rightarrow>
        if strip asset = [] then Inl (ValueError ''exchange balance asset is missing'')
        else Inr \<lparr>rb_asset = upper (strip asset), rb_free = text_or_none (dict_get item ''free''),
                  rb_locked = text_or_none (dict_get item ''locked''), rb_total = text_or_none (dict_get item ''total'')\<rparr>
    | _ \<Rightarrow> Inl (ValueError ''exchange balance asset is missing''))"

definition write_loaded_audit ::
    "string \<Rightarrow> string \<Rightarrow> string \<Rightarrow> string \<Rightarrow> exchange_name \<Rightarrow> bool \<Rightarrow> nat option \<Rightarrow> string option \<Rightarrow> string option \<Rightarrow> unit op" where
  "write_loaded_audit action count_key user_id account_id x loaded item_count failure_type exchange_code =
     bnd (add_audit user_id (Some account_id) action (if loaded then ''INFO'' else ''WARNING'')
            ([(''exchange_name'', PStr (exchange_value x)), (''account_mode'', PStr (mode_value REAL)), (''read_only'', PBool True),
              (''loaded'', PBool loaded)]
             @ optional_entry count_key (map_option (\<lambda>n. PInt (int n)) item_count)
             @ optional_entry ''failure_type'' (map_option PStr failure_type)
             @ optional_entry ''exchange_code'' (map_option PStr exchange_code))) (\<lambda>_. commit)"

text \<open>The conditions of both services, which differ in two texts, and the account with its credentials.\<close>

definition production_account ::
    "cipher \<Rightarrow> string \<Rightarrow> string \<Rightarrow> string \<Rightarrow> string \<Rightarrow> (string list \<Rightarrow> py_exc) \<Rightarrow> (exchange_account \<times> exchange_credentials option) op" where
  "production_account c user_id account_id only_okx no_trading blocked =
     bnd (get_owned_account user_id account_id) (\<lambda>found. case found of
       None \<Rightarrow> raise (blocked [''account not found''])
     | Some account \<Rightarrow>
         bnd (get_exchange_credentials c user_id (ea_id account)) (\<lambda>credentials.
           let reasons = collect_reasons
                 [(\<not> ea_is_active account, ''exchange account must be active''),
                  (ea_account_mode account \<noteq> REAL, ''account mode must be REAL''),
                  (ea_exchange_name account \<noteq> OKX, only_okx),
                  (ea_trading_enabled account, no_trading),
                  (credentials = None, ''production API credentials must be configured'')]
           in if reasons \<noteq> [] then raise (blocked reasons) else ret (account, credentials)))"

definition read_real_balances :: "cipher \<Rightarrow> network \<Rightarrow> string \<Rightarrow> string \<Rightarrow> real_balance loaded_result op" where
  "read_real_balances c net user_id account_id =
     bnd (production_account c user_id account_id ''only OKX production balances are enabled''
            ''trading must remain disabled for balance display'' RealBalancesBlockedError) (\<lambda>(account, credentials).
     bnd (lift_result (create_exchange_adapter OKX True (Some okx_production_client) credentials False)) (\<lambda>adapter.
       let audit = write_loaded_audit ''real.read_only.balances.loaded'' ''asset_count'' user_id (ea_id account) (ea_exchange_name account)
       in bnd (try_except (bnd (any_get_balances net adapter) (\<lambda>items. lift_result (map_res sanitize_balance items))) (on_exchange_failure (\<lambda>failure_type exchange_code.
              bnd (audit False None (Some failure_type) exchange_code)
                (\<lambda>_. raise (RealBalancesAuthenticationError failure_type exchange_code))))) (\<lambda>balances.
          bnd (audit True (Some (length balances)) None None) (\<lambda>_.
            ret \<lparr>ld_exchange_account_id = ea_id account, ld_exchange_name = ea_exchange_name account, ld_items = balances\<rparr>))))"

definition read_real_open_orders :: "cipher \<Rightarrow> network \<Rightarrow> string \<Rightarrow> string \<Rightarrow> pydict loaded_result op" where
  "read_real_open_orders c net user_id account_id =
     bnd (production_account c user_id account_id ''only OKX production open orders are enabled''
            ''trading must remain disabled for order display'' RealOpenOrdersBlockedError) (\<lambda>(account, credentials).
     bnd (lift_result (create_exchange_adapter OKX True (Some okx_production_client) credentials False)) (\<lambda>adapter.
       let audit = write_loaded_audit ''real.read_only.open_orders.loaded'' ''order_count'' user_id (ea_id account) (ea_exchange_name account)
       in bnd (try_except (any_get_open_orders net adapter) (on_exchange_failure (\<lambda>failure_type exchange_code.
              bnd (audit False None (Some failure_type) exchange_code)
                (\<lambda>_. raise (RealOpenOrdersAuthenticationError failure_type exchange_code))))) (\<lambda>orders.
          bnd (audit True (Some (length orders)) None None) (\<lambda>_.
            ret \<lparr>ld_exchange_account_id = ea_id account, ld_exchange_name = ea_exchange_name account, ld_items = orders\<rparr>))))"

section \<open>Routes\<close>

definition failure_detail :: "string \<Rightarrow> string \<Rightarrow> string option \<Rightarrow> string list" where
  "failure_detail reason failure_type exchange_code =
     [reason, failure_type] @ (case exchange_code of None \<Rightarrow> [] | Some code \<Rightarrow> [code])"

definition check_testnet_read_only_credentials :: "cipher \<Rightarrow> network \<Rightarrow> bool \<Rightarrow> string \<Rightarrow> user \<Rightarrow> check_result op" where
  "check_testnet_read_only_credentials c net adapters account_id current_user =
     try_except (run_testnet_read_only_check c net (u_id current_user) account_id adapters) (\<lambda>e. case e of
         TestnetReadOnlyAccountNotFoundError _ \<Rightarrow> Some (raise (HTTPException 404 [''account not found'']))
       | TestnetReadOnlyCheckBlockedError reasons \<Rightarrow> Some (raise (HTTPException 400 reasons))
       | TestnetReadOnlyAuthenticationError _ \<Rightarrow> Some (raise (HTTPException 502 [''testnet read-only authentication failed'']))
       | _ \<Rightarrow> None)"

definition check_real_read_only_credentials :: "cipher \<Rightarrow> network \<Rightarrow> string \<Rightarrow> user \<Rightarrow> check_result op" where
  "check_real_read_only_credentials c net account_id current_user =
     try_except (run_real_read_only_check c net (u_id current_user) account_id) (\<lambda>e. case e of
         RealReadOnlyAccountNotFoundError _ \<Rightarrow> Some (raise (HTTPException 404 [''account not found'']))
       | RealReadOnlyCheckBlockedError reasons \<Rightarrow> Some (raise (HTTPException 400 reasons))
       | RealReadOnlyAuthenticationError failure_type exchange_code \<Rightarrow>
           Some (raise (HTTPException 502 (failure_detail ''production read-only authentication failed'' failure_type exchange_code)))
       | _ \<Rightarrow> None)"

definition read_real_open_orders_endpoint :: "cipher \<Rightarrow> network \<Rightarrow> string \<Rightarrow> user \<Rightarrow> pydict loaded_result op" where
  "read_real_open_orders_endpoint c net account_id current_user =
     try_except (read_real_open_orders c net (u_id current_user) account_id) (\<lambda>e. case e of
         RealOpenOrdersBlockedError reasons \<Rightarrow>
           Some (raise (HTTPException (if ''account not found'' \<in> set reasons then 404 else 400) reasons))
       | RealOpenOrdersAuthenticationError failure_type exchange_code \<Rightarrow>
           Some (raise (HTTPException 502 (failure_detail ''production open orders request failed'' failure_type exchange_code)))
       | _ \<Rightarrow> None)"

definition read_real_balances_endpoint :: "cipher \<Rightarrow> network \<Rightarrow> string \<Rightarrow> user \<Rightarrow> real_balance loaded_result op" where
  "read_real_balances_endpoint c net account_id current_user =
     try_except (read_real_balances c net (u_id current_user) account_id) (\<lambda>e. case e of
         RealBalancesBlockedError reasons \<Rightarrow>
           Some (raise (HTTPException (if ''account not found'' \<in> set reasons then 404 else 400) reasons))
       | RealBalancesAuthenticationError failure_type exchange_code \<Rightarrow>
           Some (raise (HTTPException 502 (failure_detail ''production balances request failed'' failure_type exchange_code)))
       | _ \<Rightarrow> None)"

section \<open>Everything only reads\<close>

lemma only_gets_emits: "keeps only_gets m \<Longrightarrow> reads_only m"
proof (rule emitsI)
  fix s r s'
  assume "keeps only_gets m" "m s = (r, s')"
  then have "only_gets s s'" by (rule keepsD)
  then show "emitted plain_get (\<lambda>_. False) s s'" by (auto simp: only_gets_def emitted_def)
qed

lemma only_gets_preserves: "keeps only_gets m \<Longrightarrow> preserves J m"
proof (rule preservesI)
  fix s r s'
  assume "keeps only_gets m" "m s = (r, s')" and J: "both J s"
  then have "only_gets s s'" by (metis keepsD)
  with J show "both J s'" by (auto simp: only_gets_def both_def)
qed

lemma silent_audits [silent_rules]:
  "silent (write_testnet_check_audit u i x b rs n)" "silent (write_real_check_audit u i x b rs n f ec)"
  "silent (write_loaded_audit act k u i x b n f ec)"
  unfolding write_testnet_check_audit_def write_real_check_audit_def write_loaded_audit_def add_audit_def
  by (intro silent_rules)+

lemma flags_audits [preserves_rules]:
  "preserves (flags_are as rs ids) (write_testnet_check_audit u i x b ws n)"
  "preserves (flags_are as rs ids) (write_real_check_audit u i x b ws n f ec)"
  "preserves (flags_are as rs ids) (write_loaded_audit act k u i x b n f ec)"
  unfolding write_testnet_check_audit_def write_real_check_audit_def write_loaded_audit_def add_audit_def
  by (intro preserves_rules)+

lemmas adapter_calls = any_keeps [THEN only_gets_emits] any_keeps [THEN only_gets_preserves]

lemma services_only_read:
  "reads_only (run_testnet_read_only_check c net u i adapters)" "reads_only (run_real_read_only_check c net u i)"
  "reads_only (read_real_balances c net u i)" "reads_only (read_real_open_orders c net u i)"
proof -
  note q = emits_silent [OF silent_basic(1)] emits_silent [OF silent_basic(2)] emits_silent [OF silent_basic(4)]
    emits_silent [OF silent_basic(5)] emits_silent [OF silent_audits(1)] emits_silent [OF silent_audits(2)]
    emits_silent [OF silent_audits(3)] emits_silent [OF silent_reads(5)]
  show "reads_only (run_testnet_read_only_check c net u i adapters)"
    unfolding run_testnet_read_only_check_def get_owned_account_def
    by (intro emits_rules adapter_calls q) (auto intro!: emits_bnd q)
  have failed: "on_exchange_failure fail e = Some k \<Longrightarrow> (\<And>f ec. reads_only (fail f ec)) \<Longrightarrow> reads_only k"
    for e k and fail :: "string \<Rightarrow> string option \<Rightarrow> 'x op"
    using on_exchange_failure_cases [of fail e] by auto
  show "reads_only (run_real_read_only_check c net u i)"
    unfolding run_real_read_only_check_def get_owned_account_def Let_def
    by (intro emits_rules adapter_calls q) (erule failed; intro emits_bnd q)+
  have account: "reads_only (production_account c u i o' n b)" for o' n b
    unfolding production_account_def get_owned_account_def by (intro emits_rules q)
  show "reads_only (read_real_balances c net u i)"
    unfolding read_real_balances_def Let_def case_prod_beta
    by (intro emits_rules adapter_calls q account) (erule failed; intro emits_bnd q)+
  show "reads_only (read_real_open_orders c net u i)"
    unfolding read_real_open_orders_def Let_def case_prod_beta
    by (intro emits_rules adapter_calls q account) (erule failed; intro emits_bnd q)+
qed

lemma services_keep_flags:
  "preserves (flags_are as rs ids) (run_testnet_read_only_check c net u i adapters)"
  "preserves (flags_are as rs ids) (run_real_read_only_check c net u i)"
  "preserves (flags_are as rs ids) (read_real_balances c net u i)" "preserves (flags_are as rs ids) (read_real_open_orders c net u i)"
proof -
  show "preserves (flags_are as rs ids) (run_testnet_read_only_check c net u i adapters)"
    unfolding run_testnet_read_only_check_def get_owned_account_def get_exchange_credentials_def get_api_key_secret_metadata_def
    by (intro preserves_rules preserves_try_except adapter_calls) (auto intro!: preserves_rules)
  have failed: "on_exchange_failure fail e = Some k \<Longrightarrow> (\<And>f ec. preserves (flags_are as rs ids) (fail f ec))
      \<Longrightarrow> preserves (flags_are as rs ids) k" for e k and fail :: "string \<Rightarrow> string option \<Rightarrow> 'x op"
    using on_exchange_failure_cases [of fail e] by auto
  show "preserves (flags_are as rs ids) (run_real_read_only_check c net u i)"
    unfolding run_real_read_only_check_def get_owned_account_def get_exchange_credentials_def get_api_key_secret_metadata_def Let_def
    by (intro preserves_rules preserves_try_except adapter_calls) (erule failed; intro preserves_rules)+
  have account: "preserves (flags_are as rs ids) (production_account c u i o' n b)" for o' n b
    unfolding production_account_def get_owned_account_def get_exchange_credentials_def get_api_key_secret_metadata_def
    by (intro preserves_rules)
  show "preserves (flags_are as rs ids) (read_real_balances c net u i)"
    unfolding read_real_balances_def Let_def case_prod_beta
    by (intro preserves_rules preserves_try_except adapter_calls account) (erule failed; intro preserves_rules)+
  show "preserves (flags_are as rs ids) (read_real_open_orders c net u i)"
    unfolding read_real_open_orders_def Let_def case_prod_beta
    by (intro preserves_rules preserves_try_except adapter_calls account) (erule failed; intro preserves_rules)+
qed

lemma emits_answer: "reads_only m \<Longrightarrow> (\<And>e k. h e = Some k \<Longrightarrow> \<exists>x. k = raise x) \<Longrightarrow> reads_only (try_except m h)"
  by (rule emits_try) (auto intro!: emits_silent silent_rules dest!: meta_spec)

lemma preserves_answer: "preserves J m \<Longrightarrow> (\<And>e k. h e = Some k \<Longrightarrow> \<exists>x. k = raise x) \<Longrightarrow> preserves J (try_except m h)"
  by (rule preserves_try_except) (auto intro!: preserves_rules dest!: meta_spec)

lemma routes_only_read:
  "reads_only (check_testnet_read_only_credentials c net adapters i user)" "reads_only (check_real_read_only_credentials c net i user)"
  "reads_only (read_real_balances_endpoint c net i user)" "reads_only (read_real_open_orders_endpoint c net i user)"
  unfolding check_testnet_read_only_credentials_def check_real_read_only_credentials_def read_real_balances_endpoint_def
    read_real_open_orders_endpoint_def
  by (rule emits_answer, rule services_only_read, auto split: py_exc.splits)+

lemma routes_keep_flags:
  "preserves (flags_are as rs ids) (check_testnet_read_only_credentials c net adapters i user)"
  "preserves (flags_are as rs ids) (check_real_read_only_credentials c net i user)"
  "preserves (flags_are as rs ids) (read_real_balances_endpoint c net i user)"
  "preserves (flags_are as rs ids) (read_real_open_orders_endpoint c net i user)"
  unfolding check_testnet_read_only_credentials_def check_real_read_only_credentials_def read_real_balances_endpoint_def
    read_real_open_orders_endpoint_def
  by (rule preserves_answer, rule services_keep_flags, auto split: py_exc.splits)+

section \<open>Every attempt is audited\<close>

definition audited :: "string \<Rightarrow> bool \<Rightarrow> session \<Rightarrow> session \<Rightarrow> bool" where
  "audited action success s s' \<longleftrightarrow> saved s' = work s' \<and>
     (\<exists>l. t_all (audits (work s')) = t_all (audits (work s)) @ [l] \<and> al_action l = action
        \<and> al_severity l = (if success then ''INFO'' else ''WARNING''))"

lemma testnet_audit_run:
  assumes "db_unique (work s)"
  shows "\<exists>s'. write_testnet_check_audit u i x b rs n s = (Inr (), s') \<and> audited ''testnet.read_only.authentication.checked'' b s s'"
  using assms by (simp add: write_testnet_check_audit_def add_audit_apply Let_def commit_apply audited_def)

lemma real_audit_run:
  assumes "db_unique (work s)"
  shows "\<exists>s'. write_real_check_audit u i x b rs n f ec s = (Inr (), s') \<and> audited ''real.read_only.authentication.checked'' b s s'"
  using assms by (simp add: write_real_check_audit_def add_audit_apply Let_def commit_apply audited_def)

lemma audited_gets: "only_gets s s1 \<Longrightarrow> audited action b s1 s' \<Longrightarrow> audited action b s s'"
  by (auto simp: only_gets_def audited_def)

lemma adapter_exists: "x \<noteq> MOCK \<Longrightarrow> \<exists>ad. create_exchange_adapter x b cl cr demo = Inr (ReadOnlyAdapter ad) \<and> ad_exchange_name ad = x
    \<and> ad_adapters_enabled ad = b \<and> ad_http_client ad = cl \<and> ad_credentials ad = cr"
  by (cases x) (simp_all add: create_exchange_adapter_def BinanceAdapter_def BybitAdapter_def OKXAdapter_def new_adapter_def
      get_testnet_endpoint_config_def TESTNET_ENDPOINTS_def get_exchange_rate_limit_config_def EXCHANGE_RATE_LIMITS_def)

text \<open>A call under a handler that audits the failure, followed by the audit of the success.\<close>

lemma audited_call:
  assumes m: "keeps only_gets m" and u: "db_unique (work s)"
    and h: "\<And>e t. db_unique (work t) \<Longrightarrow> \<exists>k x t'. h e = Some k \<and> k t = (Inl x, t') \<and> audited action False t t'"
    and ok: "\<And>bs t. db_unique (work t) \<Longrightarrow> \<exists>z t'. f bs t = (Inr z, t') \<and> audited action True t t'"
  shows "\<exists>r s'. bnd (try_except m h) f s = (r, s') \<and> audited action (\<exists>z. r = Inr z) s s'"
proof -
  obtain r1 s1 where 1: "m s = (r1, s1)" by fastforce
  have g: "only_gets s s1" by (rule keepsD [OF m 1])
  then have u1: "db_unique (work s1)" using u by (auto simp: only_gets_def)
  show ?thesis
  proof (cases r1)
    case (Inl e)
    obtain k x t' where "h e = Some k" "k s1 = (Inl x, t')" "audited action False s1 t'" using h [OF u1] by blast
    with 1 Inl audited_gets [OF g] show ?thesis by (auto simp: try_except_def bnd_def)
  next
    case (Inr bs)
    obtain z t' where "f bs s1 = (Inr z, t')" "audited action True s1 t'" using ok [OF u1] by blast
    with 1 Inr audited_gets [OF g] show ?thesis by (auto simp: try_except_def bnd_def)
  qed
qed

lemma testnet_check_audited:
  assumes a: "find_owned_account u i (work s) = Some a" and cr: "get_exchange_credentials c u (ea_id a) s = (Inr cr, s)"
    and uq: "db_unique (work s)"
  shows "\<exists>r s'. run_testnet_read_only_check c net u i adapters s = (r, s')
    \<and> audited ''testnet.read_only.authentication.checked'' (\<exists>z. r = Inr z) s s'"
proof (cases "ea_is_active a \<and> ea_account_mode a = TESTNET \<and> ea_exchange_name a \<noteq> MOCK \<and> \<not> ea_trading_enabled a \<and> adapters \<and> cr \<noteq> None")
  case True
  obtain cl where cl: "create_testnet_signed_http_client (ea_exchange_name a) = Inr cl" using testnet_client_exists True by auto
  obtain ad where ad: "create_exchange_adapter (ea_exchange_name a) True (Some cl) cr True = Inr (ReadOnlyAdapter ad)"
    using adapter_exists True by blast
  let ?audit = "write_testnet_check_audit u (ea_id a) (ea_exchange_name a)"
  have "\<exists>r s'. bnd (try_except (any_get_balances net (ReadOnlyAdapter ad)) (\<lambda>e. Some (
         bnd (?audit False [''exchange authentication failed''] None)
           (\<lambda>_. raise (TestnetReadOnlyAuthenticationError ''exchange authentication failed''))))) (\<lambda>balances.
      bnd (?audit True [] (Some (length balances))) (\<lambda>_.
        ret \<lparr>ck_exchange_account_id = ea_id a, ck_exchange_name = ea_exchange_name a,
             ck_authenticated = True, ck_balance_asset_count = length balances\<rparr>)) s = (r, s')
      \<and> audited ''testnet.read_only.authentication.checked'' (\<exists>z. r = Inr z) s s'"
  proof (rule audited_call [OF any_keeps(1) uq], goal_cases)
    case (1 e t)
    from testnet_audit_run [OF 1] obtain t' where
      "?audit False [''exchange authentication failed''] None t = (Inr (), t')" "audited ''testnet.read_only.authentication.checked'' False t t'"
      by blast
    then show ?case by (simp add: bnd_Inr [where m = "write_testnet_check_audit _ _ _ _ _ _"])
  next
    case (2 bs t)
    from testnet_audit_run [OF 2] obtain t' where
      "?audit True [] (Some (length bs)) t = (Inr (), t')" "audited ''testnet.read_only.authentication.checked'' True t t'"
      by blast
    then show ?case by (simp add: bnd_Inr [where m = "write_testnet_check_audit _ _ _ _ _ _"])
  qed
  then show ?thesis
    using True a by (auto simp: run_testnet_read_only_check_def get_owned_account_def bnd_Inr [where m = "get_exchange_credentials _ _ _", OF cr]
        cl ad)
next
  case False
  then have "collect_reasons
                 [(\<not> ea_is_active a, ''exchange account must be active''),
                  (ea_account_mode a \<noteq> TESTNET, ''account mode must be TESTNET''),
                  (ea_exchange_name a = MOCK, ''mock exchange does not support testnet authentication''),
                  (ea_trading_enabled a, ''trading must remain disabled during read-only checks''),
                  (\<not> adapters, ''testnet adapters must be explicitly enabled''),
                  (cr = None, ''testnet API credentials must be configured'')] \<noteq> []" (is "?rs \<noteq> []")
    by (auto simp: collect_reasons_empty)
  moreover obtain s' where "write_testnet_check_audit u (ea_id a) (ea_exchange_name a) False ?rs None s = (Inr (), s')"
      "audited ''testnet.read_only.authentication.checked'' False s s'"
    using testnet_audit_run [OF uq] by blast
  ultimately show ?thesis
    using a by (simp add: run_testnet_read_only_check_def get_owned_account_def bnd_Inr [where m = "get_exchange_credentials _ _ _", OF cr]
        bnd_Inr [where m = "write_testnet_check_audit _ _ _ _ _ _"] Let_def del: collect_reasons.simps)
qed

lemma real_check_audited:
  assumes a: "find_owned_account u i (work s) = Some a" and cr: "get_exchange_credentials c u (ea_id a) s = (Inr cr, s)"
    and uq: "db_unique (work s)"
  shows "\<exists>r s'. run_real_read_only_check c net u i s = (r, s')
    \<and> audited ''real.read_only.authentication.checked'' (\<exists>z. r = Inr z) s s'"
proof (cases "ea_is_active a \<and> ea_account_mode a = REAL \<and> ea_exchange_name a = OKX \<and> \<not> ea_trading_enabled a \<and> cr \<noteq> None")
  case True
  then obtain y where y: "cr = Some y" by blast
  have x: "ea_exchange_name a = OKX" using True by simp
  obtain ad where ad: "create_exchange_adapter OKX True (Some okx_production_client) (Some y) False = Inr (ReadOnlyAdapter ad)"
    using adapter_exists [of OKX True "Some okx_production_client" "Some y" False] by auto
  let ?audit = "write_real_check_audit u (ea_id a) (ea_exchange_name a)"
  have fail: "\<exists>x t'. bnd (?audit False rs None f ec) (\<lambda>_. raise e) t = (Inl x, t')
      \<and> audited ''real.read_only.authentication.checked'' False t t'" if ut: "db_unique (work t)" for rs f ec e t
  proof -
    obtain t' where "?audit False rs None f ec t = (Inr (), t')" "audited ''real.read_only.authentication.checked'' False t t'"
      using real_audit_run [OF ut] by blast
    then show ?thesis by (simp add: bnd_Inr [where m = "write_real_check_audit _ _ _ _ _ _ _ _"])
  qed
  have "\<exists>r s'. bnd (try_except (any_get_balances net (ReadOnlyAdapter ad)) (on_exchange_failure (\<lambda>failure_type exchange_code.
             bnd (?audit False [''exchange authentication failed''] None (Some failure_type) exchange_code)
               (\<lambda>_. raise (RealReadOnlyAuthenticationError failure_type exchange_code))))) (\<lambda>balances.
      bnd (?audit True [] (Some (length balances)) None None) (\<lambda>_.
        ret \<lparr>ck_exchange_account_id = ea_id a, ck_exchange_name = ea_exchange_name a,
             ck_authenticated = True, ck_balance_asset_count = length balances\<rparr>)) s = (r, s')
      \<and> audited ''real.read_only.authentication.checked'' (\<exists>z. r = Inr z) s s'" (is "\<exists>r s'. ?run = (r, s') \<and> _")
  proof (rule audited_call [OF any_keeps(1) uq], goal_cases)
    case (1 e t)
    show ?case
      using on_exchange_failure_cases [of "\<lambda>failure_type exchange_code.
             bnd (?audit False [''exchange authentication failed''] None (Some failure_type) exchange_code)
               (\<lambda>_. raise (RealReadOnlyAuthenticationError failure_type exchange_code))" e] fail [OF 1] by fastforce
  next
    case (2 bs t)
    from real_audit_run [OF 2] obtain t' where
      "?audit True [] (Some (length bs)) None None t = (Inr (), t')" "audited ''real.read_only.authentication.checked'' True t t'"
      by blast
    then show ?case by (simp add: bnd_Inr [where m = "write_real_check_audit _ _ _ _ _ _ _ _"])
  qed
  moreover have "run_real_read_only_check c net u i s = ?run"
    using True a ad by (simp add: run_real_read_only_check_def get_owned_account_def
        bnd_Inr [where m = "get_exchange_credentials _ _ _", OF cr] Let_def y x)
  ultimately show ?thesis by simp
next
  case False
  then have "collect_reasons
                 [(\<not> ea_is_active a, ''exchange account must be active''),
                  (ea_account_mode a \<noteq> REAL, ''account mode must be REAL''),
                  (ea_exchange_name a \<noteq> OKX, ''only OKX production read-only authentication is enabled''),
                  (ea_trading_enabled a, ''trading must remain disabled during production read-only checks''),
                  (cr = None, ''production API credentials must be configured'')] \<noteq> []" (is "?rs \<noteq> []")
    by (auto simp: collect_reasons_empty)
  moreover obtain s' where "write_real_check_audit u (ea_id a) (ea_exchange_name a) False ?rs None None None s = (Inr (), s')"
      "audited ''real.read_only.authentication.checked'' False s s'"
    using real_audit_run [OF uq] by blast
  ultimately show ?thesis
    using a by (simp add: run_real_read_only_check_def get_owned_account_def bnd_Inr [where m = "get_exchange_credentials _ _ _", OF cr]
        bnd_Inr [where m = "write_real_check_audit _ _ _ _ _ _ _ _"] Let_def del: collect_reasons.simps)
qed

section \<open>Properties\<close>

text \<open>C38: The checks of credentials and the reading of production accounts never trade: their routes send nothing but GET
  requests without a body, and leave every account, every risk setting and the set of orders as they were, in the
  session and in the database.\<close>

theorem read_only_routes_only_read:
  assumes "saved s = work s"
    and "s' \<in> {snd (check_testnet_read_only_credentials c net adapters i user s), snd (check_real_read_only_credentials c net i user s),
      snd (read_real_balances_endpoint c net i user s), snd (read_real_open_orders_endpoint c net i user s)}"
  shows "(\<exists>qs. wire s' = wire s @ qs \<and> (\<forall>q \<in> set qs. hq_method q = ''GET'' \<and> hq_data q = None)) \<and> sockets s' = sockets s
     \<and> t_all (accounts (work s')) = t_all (accounts (work s)) \<and> t_all (risks (work s')) = t_all (risks (work s))
     \<and> map oe_id (t_all (executions (work s'))) = map oe_id (t_all (executions (work s)))
     \<and> t_all (accounts (saved s')) = t_all (accounts (work s)) \<and> t_all (risks (saved s')) = t_all (risks (work s))
     \<and> map oe_id (t_all (executions (saved s'))) = map oe_id (t_all (executions (work s)))"
proof -
  let ?J = "flags_are (t_all (accounts (work s))) (t_all (risks (work s))) (map oe_id (t_all (executions (work s))))"
  have J: "both ?J s" using assms(1) by (simp add: both_def flags_are_def)
  have e: "reads_only m \<Longrightarrow> preserves ?J m \<Longrightarrow> emitted plain_get (\<lambda>_. False) s (snd (m s)) \<and> both ?J (snd (m s))" for m :: "'x op"
    using J by (metis emitsD preservesD prod.collapse)
  have "emitted plain_get (\<lambda>_. False) s s' \<and> both ?J s'"
    using assms(2) e [OF routes_only_read(1) routes_keep_flags(1)] e [OF routes_only_read(2) routes_keep_flags(2)]
      e [OF routes_only_read(3) routes_keep_flags(3)] e [OF routes_only_read(4) routes_keep_flags(4)]
    by (elim insertE emptyE) (simp_all only:)
  then show ?thesis by (auto simp: both_def flags_are_def emitted_def plain_get_def)
qed

theorem read_only_routes_only_read_witness:
  "t_all (accounts (saved (snd (check_real_read_only_credentials demo_cipher (\<lambda>_. NoReply) ''acct-2'' sample_user pending_session))))
     = [sample_account, quiet_account]"
  using read_only_routes_only_read [of pending_session
      "snd (check_real_read_only_credentials demo_cipher (\<lambda>_. NoReply) ''acct-2'' sample_user pending_session)"
      demo_cipher "\<lambda>_. NoReply" True "''acct-2''" sample_user]
  by (simp add: pending_db_def t_all_def)

text \<open>Every check of the credentials of an account leaves exactly one audit entry, and it is committed: with severity
  \<open>INFO\<close> when the check succeeds, \<open>WARNING\<close> when it is blocked or the exchange fails in any way.\<close>

theorem checks_are_audited:
  assumes "find_owned_account u i (work s) = Some a" and "get_exchange_credentials c u (ea_id a) s = (Inr cr, s)"
    and "db_unique (work s)"
  shows "(\<exists>r s'. run_testnet_read_only_check c net u i adapters s = (r, s')
        \<and> audited ''testnet.read_only.authentication.checked'' (\<exists>z. r = Inr z) s s')
     \<and> (\<exists>r s'. run_real_read_only_check c net u i s = (r, s')
        \<and> audited ''real.read_only.authentication.checked'' (\<exists>z. r = Inr z) s s')"
  using testnet_check_audited [OF assms] real_check_audited [OF assms] by blast

theorem checks_are_audited_witness:
  "\<exists>r s'. run_testnet_read_only_check demo_cipher (\<lambda>_. NoReply) ''alice'' ''acct-2'' True pending_session = (r, s')
     \<and> audited ''testnet.read_only.authentication.checked'' (\<exists>z. r = Inr z) pending_session s'"
proof -
  have "ea_id quiet_account = ''acct-2''" by (simp add: quiet_account_def testnet_account_def)
  then show ?thesis
    using checks_are_audited [of "''alice''" "''acct-2''" pending_session quiet_account demo_cipher _ "\<lambda>_. NoReply" True]
      pending_account(1) pending_credentials settledD(2) [OF pending_settled] by simp
qed

text \<open>The testnet check takes any answer of Bybit without a list of accounts for a successful authentication, also one
  that reports an error: Bybit answers a rejected key with status 200, an error code and an empty result.\<close>

theorem bybit_error_counts_as_authenticated:
  assumes a: "find_owned_account u i (work s) = Some a" and cr: "get_exchange_credentials c u (ea_id a) s = (Inr (Some cred), s)"
    and uq: "db_unique (work s)" and ok: "reconcilable a" "ea_exchange_name a = BYBIT"
    and net: "\<And>q. net q = Reply (PDict ((''retCode'', PInt code) # (''retMsg'', PStr msg) # [(''result'', PDict [])]))"
  shows "\<exists>z s'. run_testnet_read_only_check c net u i True s = (Inr z, s') \<and> ck_authenticated z \<and> ck_balance_asset_count z = 0"
proof -
  let ?v = "PDict ((''retCode'', PInt code) # (''retMsg'', PStr msg) # [(''result'', PDict [])])"
  obtain cl where cl: "create_testnet_signed_http_client BYBIT = Inr cl" "cl_exchange_name cl = BYBIT"
    by (simp add: create_testnet_signed_http_client_def get_testnet_endpoint_config_def TESTNET_ENDPOINTS_def signed_http_client_def)
  obtain ad where ad: "create_exchange_adapter BYBIT True (Some cl) (Some cred) True = Inr (ReadOnlyAdapter ad)"
    and f: "ad_exchange_name ad = BYBIT" "ad_adapters_enabled ad" "ad_http_client ad = Some cl" "ad_credentials ad = Some cred"
    using adapter_exists [of BYBIT True "Some cl" "Some cred" True] by auto
  obtain s1 where g: "get_private net cl ''/v5/account/wallet-balance'' cred (balances_params BYBIT) (ad_private_security_type ad) s = (Inr ?v, s1)"
    by (cases rule: get_private_cases [of cl s "''/v5/account/wallet-balance''" cred "balances_params BYBIT" "ad_private_security_type ad" net])
      (auto simp: net prepare_private_any_def cl(2) prepare_bybit_request_def request_body_of_def Let_def)
  have n: "normalize_balances BYBIT ?v = Inr []"
    by (simp add: normalize_balances_def bybit_balances_def iter_of_def dict_get_or_def)
  have run: "any_get_balances net (ReadOnlyAdapter ad) s = (Inr [], s1)"
    by (simp add: any_get_balances_def adapter_get_balances_def ensure_enabled_def require_credentials_def client_get_private_def f
        bnd_Inr [where m = "get_private _ _ _ _ _ _", OF g] n)
  have t: "try_except (any_get_balances net (ReadOnlyAdapter ad)) h s = (Inr [], s1)" for h by (simp add: try_except_def run)
  have u1: "db_unique (work s1)" using keepsD [OF any_keeps(1) run] uq by (auto simp: only_gets_def)
  obtain s' where "write_testnet_check_audit u (ea_id a) BYBIT True [] (Some (length [])) s1 = (Inr (), s')"
    using testnet_audit_run [OF u1] by blast
  then show ?thesis
    using a ok by (simp add: run_testnet_read_only_check_def get_owned_account_def bnd_Inr [where m = "get_exchange_credentials _ _ _", OF cr]
        reconcilable_def cl ad bnd_Inr [where m = "try_except _ _", OF t] bnd_Inr [where m = "write_testnet_check_audit _ _ _ _ _ _"])
qed

definition bybit_quiet_db :: db where
  "bybit_quiet_db = pending_db\<lparr>accounts := \<lparr>rows = [sample_account, quiet_account\<lparr>ea_exchange_name := BYBIT\<rparr>], pend = []\<rparr>\<rparr>"

definition rejected_key :: network where
  "rejected_key q = Reply (PDict ((''retCode'', PInt 10003) # (''retMsg'', PStr ''API key is invalid.'') # [(''result'', PDict [])]))"

theorem bybit_error_counts_as_authenticated_witness:
  "\<exists>z s'. run_testnet_read_only_check demo_cipher rejected_key ''alice'' ''acct-2'' True (pending_session\<lparr>work := bybit_quiet_db\<rparr>) = (Inr z, s')
     \<and> ck_authenticated z"
proof -
  let ?s = "pending_session\<lparr>work := bybit_quiet_db\<rparr>" and ?a = "quiet_account\<lparr>ea_exchange_name := BYBIT\<rparr>"
  have a: "find_owned_account ''alice'' ''acct-2'' (work ?s) = Some ?a"
    by (simp add: find_owned_account_def t_find_def bybit_quiet_db_def sample_account_def quiet_account_def testnet_account_def)
  have cr: "get_exchange_credentials demo_cipher ''alice'' (ea_id ?a) ?s = (Inr (Some \<lparr>ec_api_key = [], ec_api_secret = [], ec_passphrase = None\<rparr>), ?s)"
    by (simp add: get_exchange_credentials_def get_api_key_secret_metadata_def find_secret_metadata_def t_find_def bybit_quiet_db_def
        pending_db_def sample_db_def sample_secret_def demo_cipher_def quiet_account_def testnet_account_def)
  have uq: "db_unique (work ?s)" using settledD(2) [OF pending_settled] by (simp add: bybit_quiet_db_def)
  have ok: "reconcilable ?a" "ea_exchange_name ?a = BYBIT" by (simp_all add: reconcilable_def quiet_account_def testnet_account_def)
  from bybit_error_counts_as_authenticated [where net = rejected_key, OF a cr uq ok rejected_key_def] show ?thesis
    by (elim exE conjE) (intro exI conjI)
qed

end
