(* ===== verification/Phase4_Reviews.thy ===== *)
theory Phase4_Reviews
  imports Read_Only_Checks
begin

text \<open>
  The phase 4 gates of a production account: the readiness report (\<open>services/phase4_readiness.py\<close>), the
  small-fund review (\<open>services/phase4_small_fund_review.py\<close>), the approval of an order window
  (\<open>services/phase4_small_fund_order_window.py\<close>) and the final release check
  (\<open>services/phase4_final_release_check.py\<close>), with their routes (\<open>api/v1/exchange_accounts.py\<close>). Each decision is an
  entry of the audit log that later decisions read back; the invariant \<open>decisions\<close> says what a recorded
  decision rests on.
\<close>

section \<open>Readiness\<close>

datatype phase4_status = PASS | BLOCKED

record phase4_check =
  pc_name :: string
  pc_status :: phase4_status
  pc_required :: bool
  pc_detail :: string

record phase4_report =
  pr_exchange_account_id :: string
  pr_exchange_name :: exchange_name
  pr_account_mode :: account_mode
  pr_overall_status :: phase4_status
  pr_read_only :: bool
  pr_order_submission_authorized :: bool
  pr_checks :: "phase4_check list"
  pr_gate_reasons :: "string list"

definition readiness_check :: "string \<Rightarrow> bool \<Rightarrow> string \<Rightarrow> phase4_check" where
  "readiness_check name passed detail =
     \<lparr>pc_name = name, pc_status = (if passed then PASS else BLOCKED), pc_required = True, pc_detail = detail\<rparr>"

definition readiness_checks ::
    "user \<Rightarrow> exchange_account \<Rightarrow> risk_setting option \<Rightarrow> api_key_secret option \<Rightarrow> phase4_check list" where
  "readiness_checks user account risk_settings secret =
     [readiness_check ''operator_is_super_admin'' (u_role user = SUPER_ADMIN)
        ''Phase 4 readiness checks require a super administrator session.'',
      readiness_check ''operator_mfa_enabled'' (u_mfa_enabled user)
        ''Super administrator MFA must be enabled before any real-account gate.'',
      readiness_check ''account_is_real_okx'' (ea_account_mode account = REAL \<and> ea_exchange_name account = OKX)
        ''The selected account must be an OKX REAL account.'',
      readiness_check ''exchange_account_active'' (ea_is_active account)
        ''The selected exchange account must be active.'',
      readiness_check ''exchange_trading_disabled'' (\<not> ea_trading_enabled account)
        ''Exchange account trading_enabled must remain false.'',
      readiness_check ''risk_settings_exist'' (risk_settings \<noteq> None)
        ''Risk settings must exist before Phase 4 can be proposed.'',
      readiness_check ''risk_trading_disabled'' (risk_settings \<noteq> None \<and> \<not> risk_enabled risk_settings)
        ''Risk settings trading_enabled must remain false.'',
      readiness_check ''api_key_metadata_configured'' (secret \<noteq> None)
        ''Encrypted API key metadata must be configured.'',
      readiness_check ''api_key_passphrase_configured''
        (case secret of None \<Rightarrow> False | Some k \<Rightarrow> ks_encrypted_passphrase k \<noteq> None)
        ''OKX REAL validation requires an encrypted passphrase.'']"

definition build_phase4_readiness_report :: "user \<Rightarrow> string \<Rightarrow> phase4_report op" where
  "build_phase4_readiness_report user exchange_account_id =
     bnd (account_or_value_error (u_id user) exchange_account_id) (\<lambda>account.
     bnd (query (find_risk_settings (u_id user) (ea_id account))) (\<lambda>risk_settings.
     bnd (get_api_key_secret_metadata (u_id user) (ea_id account)) (\<lambda>secret.
       let checks = readiness_checks user account risk_settings secret;
           gate_reasons = map pc_name (filter (\<lambda>c. pc_status c = BLOCKED) checks)
       in ret \<lparr>pr_exchange_account_id = ea_id account, pr_exchange_name = ea_exchange_name account,
               pr_account_mode = ea_account_mode account,
               pr_overall_status = (if gate_reasons = [] then PASS else BLOCKED),
               pr_read_only = True, pr_order_submission_authorized = False,
               pr_checks = checks, pr_gate_reasons = gate_reasons\<rparr>)))"

section \<open>Reading the audit log\<close>

definition audits_matching :: "string \<Rightarrow> string \<Rightarrow> string \<Rightarrow> string \<Rightarrow> db \<Rightarrow> audit_log list" where
  "audits_matching user_id account_id action severity d =
     t_select (\<lambda>l. al_user_id l = user_id \<and> al_exchange_account_id l = Some account_id
                    \<and> al_action l = action \<and> al_severity l = severity) (audits d)"

definition READ_ONLY_ACTION :: string where
  "READ_ONLY_ACTION = ''real.read_only.authentication.checked''"

definition REVIEW_ACTION :: string where
  "REVIEW_ACTION = ''real.small_fund.review_recorded''"

definition WINDOW_ACTION :: string where
  "WINDOW_ACTION = ''real.small_fund.order_window.approval_recorded''"

definition FINAL_ACTION :: string where
  "FINAL_ACTION = ''real.small_fund.final_release_check_recorded''"

definition latest_successful_real_read_only_audit :: "string \<Rightarrow> string \<Rightarrow> db \<Rightarrow> audit_log option" where
  "latest_successful_real_read_only_audit user_id account_id d =
     latest (audits_matching user_id account_id READ_ONLY_ACTION ''INFO'' d)"

definition latest_phase4_review_audit :: "string \<Rightarrow> string \<Rightarrow> db \<Rightarrow> audit_log option" where
  "latest_phase4_review_audit user_id account_id d =
     latest (audits_matching user_id account_id REVIEW_ACTION ''CRITICAL'' d)"

definition latest_required_audit :: "string \<Rightarrow> string \<Rightarrow> string \<Rightarrow> db \<Rightarrow> audit_log option" where
  "latest_required_audit user_id account_id action d =
     latest (audits_matching user_id account_id action ''CRITICAL'' d)"

text \<open>\<open>Decimal(str(payload.get(key, "")))\<close>, where every exception counts as no value.\<close>

definition review_max_notional :: "audit_log option \<Rightarrow> decimal option" where
  "review_max_notional review_audit = (case review_audit of
      None \<Rightarrow> None
    | Some l \<Rightarrow> decimal_from_payload (dict_get_or (al_payload l) ''max_notional'' (PStr '''')))"

definition audit_decimal :: "audit_log option \<Rightarrow> string \<Rightarrow> decimal option" where
  "audit_decimal audit_log key = (case audit_log of
      None \<Rightarrow> None
    | Some l \<Rightarrow> decimal_from_payload (dict_get_or (al_payload l) key (PStr '''')))"

definition audit_id :: "audit_log option \<Rightarrow> string" where
  "audit_id audit_log = (case audit_log of None \<Rightarrow> '''' | Some l \<Rightarrow> al_id l)"

text \<open>\<open>cap is not None and n > cap\<close>; a stored value that is not a number raises \<open>InvalidOperation\<close>.\<close>

definition over_cap :: "dec \<Rightarrow> decimal option \<Rightarrow> bool result" where
  "over_cap n cap = (case cap of None \<Rightarrow> Inr False | Some c \<Rightarrow> dec_gt n c)"

section \<open>Small-fund review\<close>

definition PHASE4_SMALL_FUND_REVIEW_ACK :: string where
  "PHASE4_SMALL_FUND_REVIEW_ACK = ''ACKNOWLEDGE_SMALL_FUND_REVIEW_ONLY''"

definition PHASE4_SMALL_FUND_MAX_NOTIONAL_CAP :: dec where
  "PHASE4_SMALL_FUND_MAX_NOTIONAL_CAP = Dec False 100 0"

abbreviation zero_dec :: dec where
  "zero_dec \<equiv> Dec False 0 0"

record small_fund_review =
  fr_audit_log_id :: string
  fr_exchange_account_id :: string
  fr_exchange_name :: exchange_name
  fr_max_notional :: dec
  fr_read_only_audit_log_id :: string
  fr_order_submission_authorized :: bool
  fr_trading_flags_changed :: bool

text \<open>The validated body \<open>Phase4SmallFundReviewRequest\<close>.\<close>

record review_request =
  rq_max_notional :: dec
  rq_acknowledgement :: string

definition review_conds ::
    "user_role \<Rightarrow> exchange_account \<Rightarrow> risk_setting option \<Rightarrow> api_key_secret option \<Rightarrow> bool
     \<Rightarrow> review_request \<Rightarrow> (bool \<times> string) list" where
  "review_conds role account risk_settings secret read_only r =
     [(role \<noteq> SUPER_ADMIN, ''super administrator privileges are required for Phase 4 review''),
      (ea_exchange_name account \<noteq> OKX, ''Phase 4 review currently supports OKX REAL accounts only''),
      (\<not> ea_is_active account, ''exchange account must be active before Phase 4 review''),
      (ea_account_mode account \<noteq> REAL, ''account mode must be REAL before Phase 4 review''),
      (ea_trading_enabled account, ''exchange account trading_enabled must remain false''),
      (risk_settings = None, ''risk settings must exist before Phase 4 review''),
      (risk_enabled risk_settings, ''risk settings trading_enabled must remain false''),
      (secret = None, ''encrypted API key metadata must exist before Phase 4 review''),
      (\<not> (case secret of None \<Rightarrow> False | Some k \<Rightarrow> ks_encrypted_passphrase k \<noteq> None),
       ''OKX REAL API passphrase metadata must exist before Phase 4 review''),
      (\<not> read_only, ''successful REAL read-only authentication audit is required''),
      (dle (rq_max_notional r) zero_dec, ''small-fund max_notional must be greater than zero''),
      (dlt PHASE4_SMALL_FUND_MAX_NOTIONAL_CAP (rq_max_notional r), ''small-fund max_notional exceeds the Phase 4 cap''),
      (rq_acknowledgement r \<noteq> PHASE4_SMALL_FUND_REVIEW_ACK,
       ''explicit Phase 4 small-fund review acknowledgement is required'')]"

definition review_blocked_reasons ::
    "user_role \<Rightarrow> exchange_account \<Rightarrow> risk_setting option \<Rightarrow> api_key_secret option \<Rightarrow> bool
     \<Rightarrow> review_request \<Rightarrow> string list" where
  "review_blocked_reasons role account risk_settings secret read_only r =
     collect_reasons (review_conds role account risk_settings secret read_only r)"

definition review_payload :: "exchange_account \<Rightarrow> audit_log option \<Rightarrow> review_request \<Rightarrow> pydict" where
  "review_payload account read_only_audit r =
     [(''exchange_name'', PStr (exchange_value (ea_exchange_name account))),
      (''account_mode'', PStr (mode_value (ea_account_mode account))),
      (''max_notional'', PStr (dec_str (rq_max_notional r))),
      (''max_notional_cap'', PStr (dec_str PHASE4_SMALL_FUND_MAX_NOTIONAL_CAP)),
      (''acknowledgement'', PStr (rq_acknowledgement r)),
      (''read_only_audit_log_id'', PStr (audit_id read_only_audit)),
      (''order_submission_authorized'', PBool False), (''trading_flags_changed'', PBool False)]"

definition record_phase4_small_fund_review ::
    "string \<Rightarrow> user_role \<Rightarrow> string \<Rightarrow> review_request \<Rightarrow> small_fund_review op" where
  "record_phase4_small_fund_review user_id user_role exchange_account_id r =
     bnd (account_or_value_error user_id exchange_account_id) (\<lambda>account.
     bnd (query (find_risk_settings user_id (ea_id account))) (\<lambda>risk_settings.
     bnd (get_api_key_secret_metadata user_id (ea_id account)) (\<lambda>secret_metadata.
     bnd (query (latest_successful_real_read_only_audit user_id (ea_id account))) (\<lambda>read_only_audit.
       let reasons = review_blocked_reasons user_role account risk_settings secret_metadata (read_only_audit \<noteq> None) r
       in if reasons \<noteq> [] then raise (Phase4SmallFundReviewBlockedError reasons)
          else bnd (add_audit user_id (Some (ea_id account)) REVIEW_ACTION ''CRITICAL''
                      (review_payload account read_only_audit r)) (\<lambda>audit_log.
               bnd commit (\<lambda>_.
                 ret \<lparr>fr_audit_log_id = al_id audit_log, fr_exchange_account_id = ea_id account,
                      fr_exchange_name = ea_exchange_name account, fr_max_notional = rq_max_notional r,
                      fr_read_only_audit_log_id = audit_id read_only_audit,
                      fr_order_submission_authorized = False, fr_trading_flags_changed = False\<rparr>))))))"

section \<open>Order window\<close>

definition PHASE4_SMALL_FUND_ORDER_WINDOW_ACK :: string where
  "PHASE4_SMALL_FUND_ORDER_WINDOW_ACK = ''APPROVE_REAL_SMALL_FUND_ORDER_WINDOW_ONLY''"

record fund_window =
  fw_audit_log_id :: string
  fw_exchange_account_id :: string
  fw_exchange_name :: exchange_name
  fw_symbol :: string
  fw_side :: order_side
  fw_max_quantity :: dec
  fw_limit_price :: dec
  fw_max_notional :: dec
  fw_duration_minutes :: int
  fw_review_audit_log_id :: string
  fw_read_only_audit_log_id :: string
  fw_order_submission_authorized :: bool
  fw_trading_flags_changed :: bool

text \<open>The validated body \<open>Phase4SmallFundOrderWindowApprovalRequest\<close>.\<close>

record fund_window_request =
  wq_symbol :: string
  wq_side :: order_side
  wq_max_quantity :: dec
  wq_limit_price :: dec
  wq_max_notional :: dec
  wq_duration_minutes :: int
  wq_acknowledgement :: string

definition fund_window_conds ::
    "user_role \<Rightarrow> exchange_account \<Rightarrow> risk_setting option \<Rightarrow> api_key_secret option \<Rightarrow> bool \<Rightarrow> bool
     \<Rightarrow> decimal option \<Rightarrow> bool \<Rightarrow> fund_window_request \<Rightarrow> (bool \<times> string) list" where
  "fund_window_conds role account risk_settings secret read_only review reviewed over_review r =
     [(role \<noteq> SUPER_ADMIN, ''super administrator privileges are required for Phase 4 order window''),
      (ea_exchange_name account \<noteq> OKX, ''Phase 4 order window currently supports OKX REAL accounts only''),
      (\<not> ea_is_active account, ''exchange account must be active before Phase 4 order window''),
      (ea_account_mode account \<noteq> REAL, ''account mode must be REAL before Phase 4 order window''),
      (ea_trading_enabled account, ''exchange account trading_enabled must remain false''),
      (risk_settings = None, ''risk settings must exist before Phase 4 order window''),
      (risk_enabled risk_settings, ''risk settings trading_enabled must remain false''),
      (secret = None, ''encrypted API key metadata must exist before Phase 4 order window''),
      (\<not> (case secret of None \<Rightarrow> False | Some k \<Rightarrow> ks_encrypted_passphrase k \<noteq> None),
       ''OKX REAL API passphrase metadata must exist before Phase 4 order window''),
      (\<not> read_only, ''successful REAL read-only authentication audit is required''),
      (\<not> review, ''Phase 4 small-fund review audit is required''),
      (reviewed = None, ''Phase 4 small-fund review max_notional is invalid''),
      (strip (wq_symbol r) = [], ''order window symbol is required''),
      (dle (wq_max_quantity r) zero_dec, ''order window max_quantity must be greater than zero''),
      (dle (wq_limit_price r) zero_dec, ''order window limit_price must be greater than zero''),
      (dle (wq_max_notional r) zero_dec, ''order window max_notional must be greater than zero''),
      (dlt PHASE4_SMALL_FUND_MAX_NOTIONAL_CAP (wq_max_notional r), ''order window max_notional exceeds the Phase 4 cap''),
      (over_review, ''order window max_notional exceeds the reviewed small-fund cap''),
      (dlt zero_dec (wq_max_quantity r) \<and> dlt zero_dec (wq_limit_price r)
         \<and> dlt (wq_max_notional r) (dmul (wq_max_quantity r) (wq_limit_price r)),
       ''order window quantity multiplied by limit_price exceeds max_notional''),
      (wq_duration_minutes r < 1 \<or> wq_duration_minutes r > 10,
       ''Phase 4 order window duration must be between 1 and 10 minutes''),
      (wq_acknowledgement r \<noteq> PHASE4_SMALL_FUND_ORDER_WINDOW_ACK,
       ''explicit Phase 4 small-fund order window acknowledgement is required'')]"

definition fund_window_blocked_reasons ::
    "user_role \<Rightarrow> exchange_account \<Rightarrow> risk_setting option \<Rightarrow> api_key_secret option \<Rightarrow> bool \<Rightarrow> bool
     \<Rightarrow> decimal option \<Rightarrow> bool \<Rightarrow> fund_window_request \<Rightarrow> string list" where
  "fund_window_blocked_reasons role account risk_settings secret read_only review reviewed over_review r =
     collect_reasons (fund_window_conds role account risk_settings secret read_only review reviewed over_review r)"

definition fund_window_payload ::
    "exchange_account \<Rightarrow> audit_log option \<Rightarrow> audit_log option \<Rightarrow> fund_window_request \<Rightarrow> pydict" where
  "fund_window_payload account review_audit read_only_audit r =
     [(''exchange_name'', PStr (exchange_value (ea_exchange_name account))),
      (''account_mode'', PStr (mode_value (ea_account_mode account))),
      (''symbol'', PStr (upper (strip (wq_symbol r)))), (''side'', PStr (side_value (wq_side r))),
      (''max_quantity'', PStr (dec_str (wq_max_quantity r))),
      (''limit_price'', PStr (dec_str (wq_limit_price r))),
      (''max_notional'', PStr (dec_str (wq_max_notional r))),
      (''duration_minutes'', PInt (wq_duration_minutes r)),
      (''acknowledgement'', PStr (wq_acknowledgement r)),
      (''review_audit_log_id'', PStr (audit_id review_audit)),
      (''read_only_audit_log_id'', PStr (audit_id read_only_audit)),
      (''order_submission_authorized'', PBool False), (''trading_flags_changed'', PBool False)]"

definition record_phase4_small_fund_order_window_approval ::
    "string \<Rightarrow> user_role \<Rightarrow> string \<Rightarrow> fund_window_request \<Rightarrow> fund_window op" where
  "record_phase4_small_fund_order_window_approval user_id user_role exchange_account_id r =
     bnd (account_or_value_error user_id exchange_account_id) (\<lambda>account.
     bnd (query (find_risk_settings user_id (ea_id account))) (\<lambda>risk_settings.
     bnd (get_api_key_secret_metadata user_id (ea_id account)) (\<lambda>secret_metadata.
     bnd (query (latest_successful_real_read_only_audit user_id (ea_id account))) (\<lambda>read_only_audit.
     bnd (query (latest_phase4_review_audit user_id (ea_id account))) (\<lambda>review_audit.
     bnd (lift_result (over_cap (wq_max_notional r) (review_max_notional review_audit))) (\<lambda>over_review.
       let reasons = fund_window_blocked_reasons user_role account risk_settings secret_metadata
             (read_only_audit \<noteq> None) (review_audit \<noteq> None) (review_max_notional review_audit) over_review r
       in if reasons \<noteq> [] then raise (Phase4SmallFundOrderWindowBlockedError reasons)
          else bnd (add_audit user_id (Some (ea_id account)) WINDOW_ACTION ''CRITICAL''
                      (fund_window_payload account review_audit read_only_audit r)) (\<lambda>audit_log.
               bnd commit (\<lambda>_.
                 ret \<lparr>fw_audit_log_id = al_id audit_log, fw_exchange_account_id = ea_id account,
                      fw_exchange_name = ea_exchange_name account, fw_symbol = upper (strip (wq_symbol r)),
                      fw_side = wq_side r, fw_max_quantity = wq_max_quantity r,
                      fw_limit_price = wq_limit_price r, fw_max_notional = wq_max_notional r,
                      fw_duration_minutes = wq_duration_minutes r,
                      fw_review_audit_log_id = audit_id review_audit,
                      fw_read_only_audit_log_id = audit_id read_only_audit,
                      fw_order_submission_authorized = False, fw_trading_flags_changed = False\<rparr>))))))))"

section \<open>Final release check\<close>

definition PHASE4_FINAL_RELEASE_CHECK_ACK :: string where
  "PHASE4_FINAL_RELEASE_CHECK_ACK = ''RECORD_PHASE4_FINAL_RELEASE_CHECK_ONLY''"

record final_check =
  fc_audit_log_id :: string
  fc_exchange_account_id :: string
  fc_exchange_name :: exchange_name
  fc_max_notional :: dec
  fc_review_audit_log_id :: string
  fc_order_window_audit_log_id :: string
  fc_order_submission_authorized :: bool
  fc_trading_flags_changed :: bool

text \<open>The validated body \<open>Phase4FinalReleaseCheckRequest\<close>.\<close>

record final_request =
  cq_max_notional :: dec
  cq_dedicated_account_confirmed :: bool
  cq_account_empty_confirmed :: bool
  cq_withdrawals_disabled_confirmed :: bool
  cq_delete_api_key_after_test_confirmed :: bool
  cq_first_order_stop_review_confirmed :: bool
  cq_no_live_order_submission_confirmed :: bool
  cq_acknowledgement :: string

definition final_conds ::
    "user_role \<Rightarrow> exchange_account \<Rightarrow> risk_setting option \<Rightarrow> bool \<Rightarrow> bool \<Rightarrow> decimal option \<Rightarrow> decimal option
     \<Rightarrow> bool \<Rightarrow> bool \<Rightarrow> final_request \<Rightarrow> (bool \<times> string) list" where
  "final_conds role account risk_settings review window reviewed windowed over_review over_window r =
     [(role \<noteq> SUPER_ADMIN, ''super administrator privileges are required for Phase 4 final check''),
      (ea_exchange_name account \<noteq> OKX, ''Phase 4 final check currently supports OKX REAL accounts only''),
      (\<not> ea_is_active account, ''exchange account must be active before Phase 4 final check''),
      (ea_account_mode account \<noteq> REAL, ''account mode must be REAL before Phase 4 final check''),
      (ea_trading_enabled account, ''exchange account trading_enabled must remain false''),
      (risk_settings = None, ''risk settings must exist before Phase 4 final check''),
      (risk_enabled risk_settings, ''risk settings trading_enabled must remain false''),
      (\<not> review, ''Phase 4 small-fund review audit is required''),
      (\<not> window, ''Phase 4 order-window audit is required''),
      (reviewed = None, ''Phase 4 small-fund review max_notional is invalid''),
      (windowed = None, ''Phase 4 order-window max_notional is invalid''),
      (dle (cq_max_notional r) zero_dec, ''final check max_notional must be greater than zero''),
      (dlt PHASE4_SMALL_FUND_MAX_NOTIONAL_CAP (cq_max_notional r), ''final check max_notional exceeds the Phase 4 cap''),
      (over_review, ''final check max_notional exceeds the reviewed small-fund cap''),
      (over_window, ''final check max_notional exceeds the order-window cap''),
      (\<not> cq_dedicated_account_confirmed r, ''dedicated test account confirmation is required''),
      (\<not> cq_account_empty_confirmed r, ''empty-account confirmation is required''),
      (\<not> cq_withdrawals_disabled_confirmed r, ''withdrawal-disabled confirmation is required''),
      (\<not> cq_delete_api_key_after_test_confirmed r, ''API-key deletion-after-test confirmation is required''),
      (\<not> cq_first_order_stop_review_confirmed r, ''first-order stop-and-review confirmation is required''),
      (\<not> cq_no_live_order_submission_confirmed r, ''no-live-order-submission confirmation is required''),
      (cq_acknowledgement r \<noteq> PHASE4_FINAL_RELEASE_CHECK_ACK,
       ''explicit Phase 4 final release-check acknowledgement is required'')]"

definition final_blocked_reasons ::
    "user_role \<Rightarrow> exchange_account \<Rightarrow> risk_setting option \<Rightarrow> bool \<Rightarrow> bool \<Rightarrow> decimal option \<Rightarrow> decimal option
     \<Rightarrow> bool \<Rightarrow> bool \<Rightarrow> final_request \<Rightarrow> string list" where
  "final_blocked_reasons role account risk_settings review window reviewed windowed over_review over_window r =
     collect_reasons (final_conds role account risk_settings review window reviewed windowed over_review over_window r)"

definition final_payload ::
    "exchange_account \<Rightarrow> audit_log option \<Rightarrow> audit_log option \<Rightarrow> final_request \<Rightarrow> pydict" where
  "final_payload account review_audit order_window_audit r =
     [(''exchange_name'', PStr (exchange_value (ea_exchange_name account))),
      (''account_mode'', PStr (mode_value (ea_account_mode account))),
      (''max_notional'', PStr (dec_str (cq_max_notional r))),
      (''max_notional_cap'', PStr (dec_str PHASE4_SMALL_FUND_MAX_NOTIONAL_CAP)),
      (''review_audit_log_id'', PStr (audit_id review_audit)),
      (''order_window_audit_log_id'', PStr (audit_id order_window_audit)),
      (''dedicated_account_confirmed'', PBool (cq_dedicated_account_confirmed r)),
      (''account_empty_confirmed'', PBool (cq_account_empty_confirmed r)),
      (''withdrawals_disabled_confirmed'', PBool (cq_withdrawals_disabled_confirmed r)),
      (''delete_api_key_after_test_confirmed'', PBool (cq_delete_api_key_after_test_confirmed r)),
      (''first_order_stop_review_confirmed'', PBool (cq_first_order_stop_review_confirmed r)),
      (''no_live_order_submission_confirmed'', PBool (cq_no_live_order_submission_confirmed r)),
      (''acknowledgement'', PStr (cq_acknowledgement r)),
      (''order_submission_authorized'', PBool False), (''trading_flags_changed'', PBool False)]"

definition record_phase4_final_release_check ::
    "string \<Rightarrow> user_role \<Rightarrow> string \<Rightarrow> final_request \<Rightarrow> final_check op" where
  "record_phase4_final_release_check user_id user_role exchange_account_id r =
     bnd (account_or_value_error user_id exchange_account_id) (\<lambda>account.
     bnd (query (find_risk_settings user_id (ea_id account))) (\<lambda>risk_settings.
     bnd (query (latest_required_audit user_id (ea_id account) REVIEW_ACTION)) (\<lambda>review_audit.
     bnd (query (latest_required_audit user_id (ea_id account) WINDOW_ACTION)) (\<lambda>order_window_audit.
       let reviewed = audit_decimal review_audit ''max_notional'';
           windowed = audit_decimal order_window_audit ''max_notional''
       in bnd (lift_result (over_cap (cq_max_notional r) reviewed)) (\<lambda>over_review.
          bnd (lift_result (over_cap (cq_max_notional r) windowed)) (\<lambda>over_window.
            let reasons = final_blocked_reasons user_role account risk_settings (review_audit \<noteq> None)
                  (order_window_audit \<noteq> None) reviewed windowed over_review over_window r
            in if reasons \<noteq> [] then raise (Phase4FinalReleaseCheckBlockedError reasons)
               else bnd (add_audit user_id (Some (ea_id account)) FINAL_ACTION ''CRITICAL''
                           (final_payload account review_audit order_window_audit r)) (\<lambda>audit_log.
                    bnd commit (\<lambda>_.
                      ret \<lparr>fc_audit_log_id = al_id audit_log, fc_exchange_account_id = ea_id account,
                           fc_exchange_name = ea_exchange_name account, fc_max_notional = cq_max_notional r,
                           fc_review_audit_log_id = audit_id review_audit,
                           fc_order_window_audit_log_id = audit_id order_window_audit,
                           fc_order_submission_authorized = False, fc_trading_flags_changed = False\<rparr>))))))))"

section \<open>Routes\<close>

definition read_phase4_readiness :: "string \<Rightarrow> user \<Rightarrow> phase4_report op" where
  "read_phase4_readiness account_id current_user =
     try_except (build_phase4_readiness_report current_user account_id) (\<lambda>e. case e of
         ValueError _ \<Rightarrow> Some (raise (HTTPException 404 [''account not found'']))
       | _ \<Rightarrow> None)"

definition record_small_fund_review :: "string \<Rightarrow> review_request \<Rightarrow> user \<Rightarrow> small_fund_review op" where
  "record_small_fund_review account_id payload current_user =
     try_except (record_phase4_small_fund_review (u_id current_user) (u_role current_user) account_id payload) (\<lambda>e. case e of
         ValueError _ \<Rightarrow> Some (raise (HTTPException 404 [''account not found'']))
       | Phase4SmallFundReviewBlockedError reasons \<Rightarrow> Some (raise (HTTPException 400 reasons))
       | _ \<Rightarrow> None)"

definition record_small_fund_order_window_approval ::
    "string \<Rightarrow> fund_window_request \<Rightarrow> user \<Rightarrow> fund_window op" where
  "record_small_fund_order_window_approval account_id payload current_user =
     try_except (record_phase4_small_fund_order_window_approval (u_id current_user) (u_role current_user) account_id payload)
       (\<lambda>e. case e of
         ValueError _ \<Rightarrow> Some (raise (HTTPException 404 [''account not found'']))
       | Phase4SmallFundOrderWindowBlockedError reasons \<Rightarrow> Some (raise (HTTPException 400 reasons))
       | _ \<Rightarrow> None)"

definition record_final_release_check :: "string \<Rightarrow> final_request \<Rightarrow> user \<Rightarrow> final_check op" where
  "record_final_release_check account_id payload current_user =
     try_except (record_phase4_final_release_check (u_id current_user) (u_role current_user) account_id payload)
       (\<lambda>e. case e of
         ValueError _ \<Rightarrow> Some (raise (HTTPException 404 [''account not found'']))
       | Phase4FinalReleaseCheckBlockedError reasons \<Rightarrow> Some (raise (HTTPException 400 reasons))
       | _ \<Rightarrow> None)"

section \<open>What a decision rests on\<close>

interpretation review_gate: reason_gate
  "\<lambda>(role, a, rs, k, ro, r). review_conds role a rs k ro r"
  "\<lambda>(role, a, rs, k, ro, r). review_blocked_reasons role a rs k ro r"
  "\<lambda>(role, a, rs, k, ro, r). review_blocked_reasons role a rs k ro r = []"
  by unfold_locales (auto simp: review_blocked_reasons_def split: prod.splits)

interpretation fund_window_gate: reason_gate
  "\<lambda>(role, a, rs, k, ro, v, mv, over, r). fund_window_conds role a rs k ro v mv over r"
  "\<lambda>(role, a, rs, k, ro, v, mv, over, r). fund_window_blocked_reasons role a rs k ro v mv over r"
  "\<lambda>(role, a, rs, k, ro, v, mv, over, r). fund_window_blocked_reasons role a rs k ro v mv over r = []"
  by unfold_locales (auto simp: fund_window_blocked_reasons_def split: prod.splits)

interpretation final_gate: reason_gate
  "\<lambda>(role, a, rs, v, w, mv, mw, ov, ow, r). final_conds role a rs v w mv mw ov ow r"
  "\<lambda>(role, a, rs, v, w, mv, mw, ov, ow, r). final_blocked_reasons role a rs v w mv mw ov ow r"
  "\<lambda>(role, a, rs, v, w, mv, mw, ov, ow, r). final_blocked_reasons role a rs v w mv mw ov ow r = []"
  by unfold_locales (auto simp: final_blocked_reasons_def split: prod.splits)

definition small_fund :: "dec \<Rightarrow> bool" where
  "small_fund m \<longleftrightarrow> 0 < dval m \<and> dval m \<le> 100"

text \<open>What the three gates demand of the account.\<close>

definition release_candidate :: "user_role \<Rightarrow> exchange_account \<Rightarrow> risk_setting option \<Rightarrow> bool" where
  "release_candidate role a rs \<longleftrightarrow> role = SUPER_ADMIN \<and> ea_exchange_name a = OKX \<and> ea_account_mode a = REAL
     \<and> ea_is_active a \<and> \<not> ea_trading_enabled a \<and> (\<exists>st. rs = Some st \<and> \<not> rs_trading_enabled st)"

lemma small_fund_conds: "(\<not> dle m zero_dec \<and> \<not> dlt PHASE4_SMALL_FUND_MAX_NOTIONAL_CAP m) \<longleftrightarrow> small_fund m"
  by (auto simp: small_fund_def dle_dval dlt_dval PHASE4_SMALL_FUND_MAX_NOTIONAL_CAP_def dval_Dec_False not_le not_less)

lemma candidate_conds:
  "(\<not> role \<noteq> SUPER_ADMIN \<and> \<not> ea_exchange_name a \<noteq> OKX \<and> \<not> \<not> ea_is_active a \<and> \<not> ea_account_mode a \<noteq> REAL
     \<and> \<not> ea_trading_enabled a \<and> \<not> rs = None \<and> \<not> risk_enabled rs) \<longleftrightarrow> release_candidate role a rs"
  by (cases rs) (auto simp: release_candidate_def risk_enabled_def)

lemma review_reasons_empty:
  "review_blocked_reasons role a rs k ro r = [] \<longleftrightarrow> release_candidate role a rs
     \<and> (\<exists>s. k = Some s \<and> ks_encrypted_passphrase s \<noteq> None) \<and> ro \<and> small_fund (rq_max_notional r)
     \<and> rq_acknowledgement r = PHASE4_SMALL_FUND_REVIEW_ACK"
  using review_gate.approves_iff [of "(role, a, rs, k, ro, r)"]
  by (auto simp: review_conds_def small_fund_conds [symmetric] candidate_conds [symmetric] split: option.splits)

lemma fund_window_reasons_empty:
  "fund_window_blocked_reasons role a rs k ro v mv over r = [] \<longleftrightarrow> release_candidate role a rs
     \<and> (\<exists>s. k = Some s \<and> ks_encrypted_passphrase s \<noteq> None) \<and> ro \<and> v \<and> mv \<noteq> None \<and> \<not> over
     \<and> strip (wq_symbol r) \<noteq> [] \<and> small_fund (wq_max_notional r)
     \<and> 0 < dval (wq_max_quantity r) \<and> 0 < dval (wq_limit_price r)
     \<and> dval (dmul (wq_max_quantity r) (wq_limit_price r)) \<le> dval (wq_max_notional r)
     \<and> 1 \<le> wq_duration_minutes r \<and> wq_duration_minutes r \<le> 10
     \<and> wq_acknowledgement r = PHASE4_SMALL_FUND_ORDER_WINDOW_ACK"
  using fund_window_gate.approves_iff [of "(role, a, rs, k, ro, v, mv, over, r)"]
  by (auto simp: fund_window_conds_def small_fund_conds [symmetric] candidate_conds [symmetric] dle_dval dlt_dval
      dval_Dec_False not_le not_less split: option.splits)

definition confirmed :: "final_request \<Rightarrow> bool" where
  "confirmed r \<longleftrightarrow> cq_dedicated_account_confirmed r \<and> cq_account_empty_confirmed r
     \<and> cq_withdrawals_disabled_confirmed r \<and> cq_delete_api_key_after_test_confirmed r
     \<and> cq_first_order_stop_review_confirmed r \<and> cq_no_live_order_submission_confirmed r
     \<and> cq_acknowledgement r = PHASE4_FINAL_RELEASE_CHECK_ACK"

lemma final_reasons_empty:
  "final_blocked_reasons role a rs v w mv mw ov ow r = [] \<longleftrightarrow> release_candidate role a rs
     \<and> v \<and> w \<and> mv \<noteq> None \<and> mw \<noteq> None \<and> \<not> ov \<and> \<not> ow \<and> small_fund (cq_max_notional r) \<and> confirmed r"
  using final_gate.approves_iff [of "(role, a, rs, v, w, mv, mw, ov, ow, r)"]
  by (auto simp: final_conds_def small_fund_conds [symmetric] candidate_conds [symmetric] confirmed_def)

section \<open>The audit log as a trail of decisions\<close>

abbreviation decision_actions :: "string set" where
  "decision_actions \<equiv> {REVIEW_ACTION, WINDOW_ACTION, FINAL_ACTION}"

lemma actions_distinct [simp]:
  "READ_ONLY_ACTION \<noteq> REVIEW_ACTION" "READ_ONLY_ACTION \<noteq> WINDOW_ACTION" "READ_ONLY_ACTION \<noteq> FINAL_ACTION"
  "REVIEW_ACTION \<noteq> WINDOW_ACTION" "REVIEW_ACTION \<noteq> FINAL_ACTION" "WINDOW_ACTION \<noteq> FINAL_ACTION"
  "REVIEW_ACTION \<noteq> READ_ONLY_ACTION" "WINDOW_ACTION \<noteq> READ_ONLY_ACTION" "FINAL_ACTION \<noteq> READ_ONLY_ACTION"
  "WINDOW_ACTION \<noteq> REVIEW_ACTION" "FINAL_ACTION \<noteq> REVIEW_ACTION" "FINAL_ACTION \<noteq> WINDOW_ACTION"
  by (simp_all add: READ_ONLY_ACTION_def REVIEW_ACTION_def WINDOW_ACTION_def FINAL_ACTION_def)

definition recorded_notional :: "audit_log \<Rightarrow> decimal option" where
  "recorded_notional l = decimal_from_payload (dict_get_or (al_payload l) ''max_notional'' (PStr ''''))"

lemma read_back [simp]:
  "review_max_notional (Some l) = recorded_notional l" "audit_decimal (Some l) ''max_notional'' = recorded_notional l"
  "review_max_notional None = None" "audit_decimal None k = None" "audit_id (Some l) = al_id l"
  by (simp_all add: review_max_notional_def audit_decimal_def recorded_notional_def audit_id_def)

text \<open>The entry \<open>e\<close> of the log so far is the one that \<open>l\<close> names under a key, of the same user and account.\<close>

definition cites :: "audit_log list \<Rightarrow> audit_log \<Rightarrow> string \<Rightarrow> string \<Rightarrow> string \<Rightarrow> audit_log \<Rightarrow> bool" where
  "cites before l key action severity e \<longleftrightarrow> e \<in> set before \<and> al_action e = action \<and> al_severity e = severity
     \<and> al_user_id e = al_user_id l \<and> al_exchange_account_id e = al_exchange_account_id l
     \<and> dict_get (al_payload l) key = PStr (al_id e)"

text \<open>An earlier decision of an amount that covers \<open>m\<close>.\<close>

definition covered :: "audit_log list \<Rightarrow> audit_log \<Rightarrow> dec \<Rightarrow> string \<Rightarrow> string \<Rightarrow> audit_log \<Rightarrow> bool" where
  "covered before l m key action e \<longleftrightarrow> cites before l key action ''CRITICAL'' e
     \<and> (\<exists>c. recorded_notional e = Some c \<and> dec_gt m c = Inr False)"

definition window_terms :: "pydict \<Rightarrow> dec \<Rightarrow> bool" where
  "window_terms p m \<longleftrightarrow> (\<exists>q x n. decimal_from_payload (dict_get p ''max_quantity'') = Some (Finite q)
     \<and> decimal_from_payload (dict_get p ''limit_price'') = Some (Finite x) \<and> 0 < dval q \<and> 0 < dval x
     \<and> dval (dmul q x) \<le> dval m \<and> dict_get p ''duration_minutes'' = PInt n \<and> 1 \<le> n \<and> n \<le> 10)"

definition rests :: "audit_log list \<Rightarrow> audit_log \<Rightarrow> bool" where
  "rests before l \<longleftrightarrow> (al_action l \<in> decision_actions \<longrightarrow> (\<exists>m. recorded_notional l = Some (Finite m) \<and> small_fund m
     \<and> (al_action l = REVIEW_ACTION \<longrightarrow> (\<exists>e. cites before l ''read_only_audit_log_id'' READ_ONLY_ACTION ''INFO'' e))
     \<and> (al_action l = WINDOW_ACTION \<longrightarrow> window_terms (al_payload l) m
          \<and> (\<exists>e. cites before l ''read_only_audit_log_id'' READ_ONLY_ACTION ''INFO'' e)
          \<and> (\<exists>v. covered before l m ''review_audit_log_id'' REVIEW_ACTION v))
     \<and> (al_action l = FINAL_ACTION \<longrightarrow> (\<exists>v. covered before l m ''review_audit_log_id'' REVIEW_ACTION v)
          \<and> (\<exists>w. covered before l m ''order_window_audit_log_id'' WINDOW_ACTION w))))"

inductive decisions :: "audit_log list \<Rightarrow> bool" where
  no_entry: "decisions []"
| entry: "decisions ls \<Longrightarrow> rests ls l \<Longrightarrow> decisions (ls @ [l])"

inductive_simps decisions_snoc [simp]: "decisions (ls @ [l])"

lemma rests_other: "al_action l \<notin> decision_actions \<Longrightarrow> rests before l"
  by (simp add: rests_def)

lemma decisions_append: "decisions ls \<Longrightarrow> \<forall>l \<in> set xs. al_action l \<notin> decision_actions \<Longrightarrow> decisions (ls @ xs)"
proof (induction xs rule: rev_induct)
  case (snoc x xs)
  then have "decisions (ls @ xs)" "rests (ls @ xs) x" by (auto intro: rests_other)
  then show ?case by (metis append_assoc decisions.entry)
qed simp

lemma decisions_split: "decisions ls \<Longrightarrow> ls = before @ l # after \<Longrightarrow> rests before l \<and> decisions before"
proof (induction arbitrary: after rule: decisions.induct)
  case (entry ls x)
  then show ?case by (cases after rule: rev_cases) auto
qed simp

definition decisions_kept :: db_pred where
  "decisions_kept src n d \<longleftrightarrow> decisions (t_all (audits d))"

interpretation decisions_kept: db_invariant decisions_kept
  by unfold_locales (simp_all add: decisions_kept_def)

section \<open>The services step by step\<close>

text \<open>The three services end alike: the entry is added and committed.\<close>

definition recorded :: "string \<Rightarrow> string \<Rightarrow> string \<Rightarrow> pydict \<Rightarrow> session \<Rightarrow> audit_log" where
  "recorded u i action payload s = \<lparr>al_id = uuid_src s (uuid_next s), al_user_id = u,
     al_exchange_account_id = Some i, al_action = action, al_severity = ''CRITICAL'', al_payload = payload,
     al_created_at = now_utc s\<rparr>"

definition recording :: "audit_log \<Rightarrow> 'a \<Rightarrow> session \<Rightarrow> (py_exc + 'a) \<times> session" where
  "recording l z s = (let d = db_flush ((work s)\<lparr>audits := t_add l (audits (work s))\<rparr>) in
     if db_unique (work s) then (Inr z, s\<lparr>uuid_next := Suc (uuid_next s), work := d, saved := d\<rparr>)
     else (Inl IntegrityError, s\<lparr>uuid_next := Suc (uuid_next s), work := saved s\<rparr>))"

lemma recording_result: "snd (recording l z s) = snd (recording l () s)"
  by (simp add: recording_def Let_def)

lemma record_and_commit:
  "bnd (add_audit u (Some i) action ''CRITICAL'' payload) (\<lambda>l. bnd commit (\<lambda>_. ret (k l))) s =
     recording (recorded u i action payload s) (k (recorded u i action payload s)) s"
  by (simp add: add_audit_apply bnd_commit recorded_def recording_def Let_def)

lemma review_apply:
  "record_phase4_small_fund_review u role i r s = (case find_owned_account u i (work s) of
      None \<Rightarrow> (Inl (ValueError ''account not found''), s)
    | Some a \<Rightarrow>
        let ro = latest_successful_real_read_only_audit u (ea_id a) (work s);
            reasons = review_blocked_reasons role a (find_risk_settings u (ea_id a) (work s))
              (find_secret_metadata u (ea_id a) (work s)) (ro \<noteq> None) r;
            l = recorded u (ea_id a) REVIEW_ACTION (review_payload a ro r) s
        in if reasons \<noteq> [] then (Inl (Phase4SmallFundReviewBlockedError reasons), s)
           else recording l \<lparr>fr_audit_log_id = al_id l, fr_exchange_account_id = ea_id a,
                  fr_exchange_name = ea_exchange_name a, fr_max_notional = rq_max_notional r,
                  fr_read_only_audit_log_id = audit_id ro,
                  fr_order_submission_authorized = False, fr_trading_flags_changed = False\<rparr> s)"
  by (simp add: record_phase4_small_fund_review_def account_or_value_error_apply get_api_key_secret_metadata_def
      record_and_commit Let_def split: option.split)

lemma fund_window_apply:
  "record_phase4_small_fund_order_window_approval u role i r s = (case find_owned_account u i (work s) of
      None \<Rightarrow> (Inl (ValueError ''account not found''), s)
    | Some a \<Rightarrow>
        let ro = latest_successful_real_read_only_audit u (ea_id a) (work s);
            v = latest_phase4_review_audit u (ea_id a) (work s);
            l = recorded u (ea_id a) WINDOW_ACTION (fund_window_payload a v ro r) s
        in case over_cap (wq_max_notional r) (review_max_notional v) of
             Inl e \<Rightarrow> (Inl e, s)
           | Inr over \<Rightarrow>
               let reasons = fund_window_blocked_reasons role a (find_risk_settings u (ea_id a) (work s))
                     (find_secret_metadata u (ea_id a) (work s)) (ro \<noteq> None) (v \<noteq> None) (review_max_notional v) over r
               in if reasons \<noteq> [] then (Inl (Phase4SmallFundOrderWindowBlockedError reasons), s)
                  else recording l \<lparr>fw_audit_log_id = al_id l, fw_exchange_account_id = ea_id a,
                         fw_exchange_name = ea_exchange_name a, fw_symbol = upper (strip (wq_symbol r)),
                         fw_side = wq_side r, fw_max_quantity = wq_max_quantity r,
                         fw_limit_price = wq_limit_price r, fw_max_notional = wq_max_notional r,
                         fw_duration_minutes = wq_duration_minutes r, fw_review_audit_log_id = audit_id v,
                         fw_read_only_audit_log_id = audit_id ro,
                         fw_order_submission_authorized = False, fw_trading_flags_changed = False\<rparr> s)"
  by (simp add: record_phase4_small_fund_order_window_approval_def account_or_value_error_apply
      get_api_key_secret_metadata_def record_and_commit Let_def split: option.split sum.split)

lemma final_apply:
  "record_phase4_final_release_check u role i r s = (case find_owned_account u i (work s) of
      None \<Rightarrow> (Inl (ValueError ''account not found''), s)
    | Some a \<Rightarrow>
        let v = latest_required_audit u (ea_id a) REVIEW_ACTION (work s);
            w = latest_required_audit u (ea_id a) WINDOW_ACTION (work s);
            mv = audit_decimal v ''max_notional''; mw = audit_decimal w ''max_notional'';
            l = recorded u (ea_id a) FINAL_ACTION (final_payload a v w r) s
        in case over_cap (cq_max_notional r) mv of
             Inl e \<Rightarrow> (Inl e, s)
           | Inr over_review \<Rightarrow> (case over_cap (cq_max_notional r) mw of
               Inl e \<Rightarrow> (Inl e, s)
             | Inr over_window \<Rightarrow>
                 let reasons = final_blocked_reasons role a (find_risk_settings u (ea_id a) (work s)) (v \<noteq> None)
                       (w \<noteq> None) mv mw over_review over_window r
                 in if reasons \<noteq> [] then (Inl (Phase4FinalReleaseCheckBlockedError reasons), s)
                    else recording l \<lparr>fc_audit_log_id = al_id l, fc_exchange_account_id = ea_id a,
                           fc_exchange_name = ea_exchange_name a, fc_max_notional = cq_max_notional r,
                           fc_review_audit_log_id = audit_id v, fc_order_window_audit_log_id = audit_id w,
                           fc_order_submission_authorized = False, fc_trading_flags_changed = False\<rparr> s))"
  by (simp add: record_phase4_final_release_check_def account_or_value_error_apply record_and_commit Let_def
      split: option.split sum.split)

section \<open>Every decision rests on earlier ones\<close>

lemma found_audit:
  "latest (audits_matching u i action severity d) = Some l \<Longrightarrow>
     l \<in> set (t_all (audits d)) \<and> al_user_id l = u \<and> al_exchange_account_id l = Some i
       \<and> al_action l = action \<and> al_severity l = severity"
  by (drule latest_mem) (auto simp: audits_matching_def t_select_def t_all_def)

lemma payload_values:
  "dict_get_or (review_payload a ro r) ''max_notional'' x = PStr (dec_str (rq_max_notional r))"
  "dict_get (review_payload a ro r) ''read_only_audit_log_id'' = PStr (audit_id ro)"
  "dict_get_or (fund_window_payload a v ro q) ''max_notional'' x = PStr (dec_str (wq_max_notional q))"
  "dict_get (fund_window_payload a v ro q) ''max_quantity'' = PStr (dec_str (wq_max_quantity q))"
  "dict_get (fund_window_payload a v ro q) ''limit_price'' = PStr (dec_str (wq_limit_price q))"
  "dict_get (fund_window_payload a v ro q) ''duration_minutes'' = PInt (wq_duration_minutes q)"
  "dict_get (fund_window_payload a v ro q) ''review_audit_log_id'' = PStr (audit_id v)"
  "dict_get (fund_window_payload a v ro q) ''read_only_audit_log_id'' = PStr (audit_id ro)"
  "dict_get_or (final_payload a v w c) ''max_notional'' x = PStr (dec_str (cq_max_notional c))"
  "dict_get (final_payload a v w c) ''review_audit_log_id'' = PStr (audit_id v)"
  "dict_get (final_payload a v w c) ''order_window_audit_log_id'' = PStr (audit_id w)"
  by (simp_all add: review_payload_def fund_window_payload_def final_payload_def dict_get_or_def)

lemma decimal_of_str: "decimal_from_payload (PStr (dec_str d)) = Some (Finite d)"
  by (simp add: decimal_from_payload_def dec_parse_dec_str)

lemma recorded_sel [simp]:
  "al_action (recorded u i action p s) = action" "al_user_id (recorded u i action p s) = u"
  "al_exchange_account_id (recorded u i action p s) = Some i" "al_payload (recorded u i action p s) = p"
  "al_severity (recorded u i action p s) = ''CRITICAL''" "al_id (recorded u i action p s) = uuid_src s (uuid_next s)"
  by (simp_all add: recorded_def)

lemma recorded_amounts [simp]:
  "recorded_notional (recorded u i action (review_payload a ro r) s) = Some (Finite (rq_max_notional r))"
  "recorded_notional (recorded u i action (fund_window_payload a v ro q) s) = Some (Finite (wq_max_notional q))"
  "recorded_notional (recorded u i action (final_payload a v w c) s) = Some (Finite (cq_max_notional c))"
  by (simp_all add: recorded_notional_def payload_values decimal_of_str)

lemma over_cap_None: "over_cap m c = Inr False \<Longrightarrow> c \<noteq> None \<Longrightarrow> \<exists>x. c = Some x \<and> dec_gt m x = Inr False"
  by (cases c) (auto simp: over_cap_def)

lemma review_rests:
  assumes "review_blocked_reasons role a rs k (latest_successful_real_read_only_audit u i (work s) \<noteq> None) r = []"
  shows "rests (t_all (audits (work s)))
     (recorded u i REVIEW_ACTION (review_payload a (latest_successful_real_read_only_audit u i (work s)) r) s)"
proof -
  note ok = assms [unfolded review_reasons_empty]
  obtain ro where ro: "latest_successful_real_read_only_audit u i (work s) = Some ro" using ok by blast
  have "cites (t_all (audits (work s))) (recorded u i REVIEW_ACTION (review_payload a (Some ro) r) s)
      ''read_only_audit_log_id'' READ_ONLY_ACTION ''INFO'' ro"
    using found_audit [OF ro [unfolded latest_successful_real_read_only_audit_def]] by (simp add: cites_def payload_values)
  then show ?thesis using ok by (auto simp: rests_def ro)
qed

lemma fund_window_rests:
  assumes "fund_window_blocked_reasons role a rs k (latest_successful_real_read_only_audit u i (work s) \<noteq> None)
        (latest_phase4_review_audit u i (work s) \<noteq> None)
        (review_max_notional (latest_phase4_review_audit u i (work s))) over r = []"
    and "over_cap (wq_max_notional r) (review_max_notional (latest_phase4_review_audit u i (work s))) = Inr over"
  shows "rests (t_all (audits (work s))) (recorded u i WINDOW_ACTION
     (fund_window_payload a (latest_phase4_review_audit u i (work s)) (latest_successful_real_read_only_audit u i (work s)) r) s)"
proof -
  note ok = assms(1) [unfolded fund_window_reasons_empty]
  obtain ro where ro: "latest_successful_real_read_only_audit u i (work s) = Some ro" using ok by blast
  obtain v where v: "latest_phase4_review_audit u i (work s) = Some v" using ok by blast
  obtain c where c: "recorded_notional v = Some c" "dec_gt (wq_max_notional r) c = Inr False"
    using over_cap_None [of "wq_max_notional r" "recorded_notional v"] ok assms(2) v by auto
  let ?p = "fund_window_payload a (Some v) (Some ro) r"
  have t: "window_terms ?p (wq_max_notional r)"
    unfolding window_terms_def using ok by (simp add: payload_values decimal_of_str)
  have "covered (t_all (audits (work s))) (recorded u i WINDOW_ACTION ?p s) (wq_max_notional r)
      ''review_audit_log_id'' REVIEW_ACTION v"
    using found_audit [OF v [unfolded latest_phase4_review_audit_def]] c by (simp add: covered_def cites_def payload_values)
  moreover have "cites (t_all (audits (work s))) (recorded u i WINDOW_ACTION ?p s) ''read_only_audit_log_id''
      READ_ONLY_ACTION ''INFO'' ro"
    using found_audit [OF ro [unfolded latest_successful_real_read_only_audit_def]] by (simp add: cites_def payload_values)
  ultimately show ?thesis using ok t by (auto simp: rests_def ro v)
qed

lemma final_rests:
  assumes "final_blocked_reasons role a rs (latest_required_audit u i REVIEW_ACTION (work s) \<noteq> None)
        (latest_required_audit u i WINDOW_ACTION (work s) \<noteq> None)
        (audit_decimal (latest_required_audit u i REVIEW_ACTION (work s)) ''max_notional'')
        (audit_decimal (latest_required_audit u i WINDOW_ACTION (work s)) ''max_notional'') ov ow r = []"
    and "over_cap (cq_max_notional r) (audit_decimal (latest_required_audit u i REVIEW_ACTION (work s)) ''max_notional'') = Inr ov"
    and "over_cap (cq_max_notional r) (audit_decimal (latest_required_audit u i WINDOW_ACTION (work s)) ''max_notional'') = Inr ow"
  shows "rests (t_all (audits (work s))) (recorded u i FINAL_ACTION
     (final_payload a (latest_required_audit u i REVIEW_ACTION (work s)) (latest_required_audit u i WINDOW_ACTION (work s)) r) s)"
proof -
  note ok = assms(1) [unfolded final_reasons_empty]
  obtain v where v: "latest_required_audit u i REVIEW_ACTION (work s) = Some v" using ok by blast
  obtain w where w: "latest_required_audit u i WINDOW_ACTION (work s) = Some w" using ok by blast
  obtain c where c: "recorded_notional v = Some c" "dec_gt (cq_max_notional r) c = Inr False"
    using over_cap_None [of "cq_max_notional r" "recorded_notional v"] ok assms(2) v by auto
  obtain d where d: "recorded_notional w = Some d" "dec_gt (cq_max_notional r) d = Inr False"
    using over_cap_None [of "cq_max_notional r" "recorded_notional w"] ok assms(3) w by auto
  let ?l = "recorded u i FINAL_ACTION (final_payload a (Some v) (Some w) r) s"
  have "covered (t_all (audits (work s))) ?l (cq_max_notional r) ''review_audit_log_id'' REVIEW_ACTION v"
    using found_audit [OF v [unfolded latest_required_audit_def]] c by (simp add: covered_def cites_def payload_values)
  moreover have "covered (t_all (audits (work s))) ?l (cq_max_notional r) ''order_window_audit_log_id'' WINDOW_ACTION w"
    using found_audit [OF w [unfolded latest_required_audit_def]] d by (simp add: covered_def cites_def payload_values)
  ultimately show ?thesis using ok by (auto simp: rests_def v w)
qed

lemma recording_kept:
  assumes "both decisions_kept s" and "rests (t_all (audits (work s))) l" and "recording l z s = (r, s')"
  shows "both decisions_kept s'"
  using assms by (auto simp: recording_def both_def decisions_kept_def Let_def split: if_splits)

lemma services_keep_decisions:
  "preserves decisions_kept (record_phase4_small_fund_review u role i rv)"
  "preserves decisions_kept (record_phase4_small_fund_order_window_approval u role i rw)"
  "preserves decisions_kept (record_phase4_final_release_check u role i rc)"
proof -
  show "preserves decisions_kept (record_phase4_small_fund_review u role i rv)"
    by (rule preservesI) (auto simp: review_apply Let_def split: option.splits if_splits
        elim!: recording_kept [rotated 2] intro!: review_rests)
  show "preserves decisions_kept (record_phase4_small_fund_order_window_approval u role i rw)"
    by (rule preservesI) (auto simp: fund_window_apply Let_def split: option.splits if_splits sum.splits
        elim!: recording_kept [rotated 2] intro!: fund_window_rests)
  show "preserves decisions_kept (record_phase4_final_release_check u role i rc)"
    by (rule preservesI) (auto simp: final_apply Let_def split: option.splits if_splits sum.splits
        elim!: recording_kept [rotated 2] intro!: final_rests)
qed

lemma add_other_keeps_decisions: "action \<notin> decision_actions \<Longrightarrow> preserves decisions_kept (add_audit u i action sev p)"
  unfolding add_audit_def Let_def
  by (intro preserves_rules decisions_kept.preserves_new_uuid preserves_upd) (simp add: decisions_kept_def rests_other)

lemma read_only_check_keeps_decisions: "preserves decisions_kept (run_real_read_only_check c net u i)"
proof -
  have "preserves decisions_kept (write_real_check_audit u i x b ws n f ec)" for u i x b ws n f ec
    unfolding write_real_check_audit_def
    by (intro preserves_rules decisions_kept.preserves_commit add_other_keeps_decisions)
      (simp add: REVIEW_ACTION_def WINDOW_ACTION_def FINAL_ACTION_def)
  note audit = this
  have failed: "on_exchange_failure fail e = Some k \<Longrightarrow> (\<And>f ec. preserves decisions_kept (fail f ec))
      \<Longrightarrow> preserves decisions_kept k" for e k and fail :: "string \<Rightarrow> string option \<Rightarrow> 'x op"
    using on_exchange_failure_cases [of fail e] by auto
  show ?thesis
    unfolding run_real_read_only_check_def get_owned_account_def get_exchange_credentials_def get_api_key_secret_metadata_def Let_def
    by (intro preserves_rules preserves_try_except adapter_calls audit) (erule failed; intro preserves_rules audit)+
qed

section \<open>Requests\<close>

text \<open>
  The requests of the phase 4 routes, between which anything else may happen to the session as long as it only adds
  entries of other actions to the audit log. The dependencies of the routes are left out: any user may ask.
\<close>

datatype phase4_call =
    Readiness
  | ReadOnlyCheck
  | SmallFundReview review_request
  | OrderWindow fund_window_request
  | FinalCheck final_request

fun phase4_serve :: "cipher \<Rightarrow> network \<Rightarrow> string \<Rightarrow> user \<Rightarrow> phase4_call \<Rightarrow> session \<Rightarrow> session" where
  "phase4_serve c net i u Readiness s = snd (read_phase4_readiness i u s)"
| "phase4_serve c net i u ReadOnlyCheck s = snd (check_real_read_only_credentials c net i u s)"
| "phase4_serve c net i u (SmallFundReview r) s = snd (record_small_fund_review i r u s)"
| "phase4_serve c net i u (OrderWindow r) s = snd (record_small_fund_order_window_approval i r u s)"
| "phase4_serve c net i u (FinalCheck r) s = snd (record_final_release_check i r u s)"

inductive phase4_traffic :: "session \<Rightarrow> session \<Rightarrow> bool" for s where
  begun: "phase4_traffic s (close s)"
| request: "phase4_traffic s t \<Longrightarrow> phase4_traffic s (close (phase4_serve c net i u q t))"
| other: "phase4_traffic s t \<Longrightarrow> t_all (audits (saved t')) = t_all (audits (saved t)) @ ls
    \<Longrightarrow> \<forall>l \<in> set ls. al_action l \<notin> decision_actions \<Longrightarrow> phase4_traffic s (close t')"

lemma routes_keep_decisions:
  "preserves decisions_kept (read_phase4_readiness i u)"
  "preserves decisions_kept (check_real_read_only_credentials c net i u)"
  "preserves decisions_kept (record_small_fund_review i rv u)"
  "preserves decisions_kept (record_small_fund_order_window_approval i rw u)"
  "preserves decisions_kept (record_final_release_check i rc u)"
proof -
  have "preserves decisions_kept (build_phase4_readiness_report u i)"
    unfolding build_phase4_readiness_report_def account_or_value_error_def get_owned_account_def
      get_api_key_secret_metadata_def by (intro preserves_rules)
  then show "preserves decisions_kept (read_phase4_readiness i u)"
    unfolding read_phase4_readiness_def by (rule preserves_answer) (auto split: py_exc.splits)
  show "preserves decisions_kept (check_real_read_only_credentials c net i u)"
    unfolding check_real_read_only_credentials_def
    by (rule preserves_answer, rule read_only_check_keeps_decisions, auto split: py_exc.splits)
  show "preserves decisions_kept (record_small_fund_review i rv u)"
    "preserves decisions_kept (record_small_fund_order_window_approval i rw u)"
    "preserves decisions_kept (record_final_release_check i rc u)"
    unfolding record_small_fund_review_def record_small_fund_order_window_approval_def record_final_release_check_def
    by (rule preserves_answer, rule services_keep_decisions, auto split: py_exc.splits)+
qed

lemma serve_keeps_decisions: "both decisions_kept s \<Longrightarrow> both decisions_kept (phase4_serve c net i u q s)"
proof -
  assume "both decisions_kept s"
  then have "preserves decisions_kept m \<Longrightarrow> both decisions_kept (snd (m s))" for m :: "'x op"
    by (metis preservesD prod.collapse)
  note kept = this
  show ?thesis
    by (cases q; simp only: phase4_serve.simps; rule kept; rule routes_keep_decisions)
qed

lemma traffic_keeps_decisions:
  assumes "phase4_traffic s t" and "decisions (t_all (audits (saved s)))"
  shows "both decisions_kept t"
  using assms
proof (induction rule: phase4_traffic.induct)
  case begun
  then show ?case by (simp add: both_def decisions_kept_def close_def)
next
  case (request t c net i u q)
  then show ?case by (simp add: decisions_kept.inv_close serve_keeps_decisions)
next
  case (other t t' ls)
  then show ?case by (simp add: both_def decisions_kept_def close_def decisions_append)
qed

section \<open>Properties\<close>

text \<open>C21: No final release check stands on the record by itself: after any sequence of requests that began with a log
  without decisions, an entry of a final check names an earlier review and an earlier order window of the same user
  and account, its amount is positive, at most 100 and at most the amounts of both, the window's quantity times its
  price is within the window's amount for at most ten minutes, and the review itself was recorded after a successful
  read-only check of the account.\<close>

theorem final_check_rests_on_recorded_decisions:
  assumes "phase4_traffic s t" and "\<forall>l \<in> set (t_all (audits (saved s))). al_action l \<notin> decision_actions"
    and log: "t_all (audits (saved t)) = before @ l # after" and "al_action l = FINAL_ACTION"
  shows "\<exists>m v mv w mw e earlier later. recorded_notional l = Some (Finite m) \<and> small_fund m
     \<and> cites before l ''review_audit_log_id'' REVIEW_ACTION ''CRITICAL'' v
     \<and> cites before l ''order_window_audit_log_id'' WINDOW_ACTION ''CRITICAL'' w
     \<and> recorded_notional v = Some (Finite mv) \<and> recorded_notional w = Some (Finite mw)
     \<and> dval m \<le> dval mv \<and> dval mv \<le> 100 \<and> dval m \<le> dval mw \<and> dval mw \<le> 100 \<and> window_terms (al_payload w) mw
     \<and> before = earlier @ v # later \<and> cites earlier v ''read_only_audit_log_id'' READ_ONLY_ACTION ''INFO'' e"
proof -
  have "decisions ([] @ t_all (audits (saved s)))" using assms(2) by (intro decisions_append decisions.no_entry)
  then have "decisions (t_all (audits (saved t)))"
    using traffic_keeps_decisions [OF assms(1)] by (simp add: both_def decisions_kept_def)
  then have l: "rests before l" and d: "decisions before" using decisions_split log by blast+
  then obtain m v w where m: "recorded_notional l = Some (Finite m)" "small_fund m"
    and v: "covered before l m ''review_audit_log_id'' REVIEW_ACTION v"
    and w: "covered before l m ''order_window_audit_log_id'' WINDOW_ACTION w"
    using assms(4) by (auto simp: rests_def)
  have earlier: "\<exists>xs ys. before = xs @ x # ys \<and> rests xs x" if "x \<in> set before" for x
    using that d by (metis decisions_split split_list)
  obtain xs ys where x: "before = xs @ v # ys" "rests xs v" using earlier [of v] v unfolding covered_def cites_def by blast
  obtain xs' ys' where y: "before = xs' @ w # ys'" "rests xs' w" using earlier [of w] w unfolding covered_def cites_def by blast
  obtain mv e where mv: "recorded_notional v = Some (Finite mv)" "small_fund mv"
    and e: "cites xs v ''read_only_audit_log_id'' READ_ONLY_ACTION ''INFO'' e"
    using x v by (auto simp: rests_def covered_def cites_def)
  obtain mw where mw: "recorded_notional w = Some (Finite mw)" "small_fund mw" "window_terms (al_payload w) mw"
    using y w by (auto simp: rests_def covered_def cites_def)
  show ?thesis
    by (rule exI [of _ m], rule exI [of _ v], rule exI [of _ mv], rule exI [of _ w], rule exI [of _ mw],
        rule exI [of _ e], rule exI [of _ xs], rule exI [of _ ys])
      (use m v w mv mw x(1) e in \<open>auto simp: covered_def small_fund_def dlt_dval not_less\<close>)
qed

text \<open>A session in which a review, a window and a final check are recorded one after the other.\<close>

definition real_account :: exchange_account where
  "real_account = testnet_account\<lparr>ea_exchange_name := OKX, ea_account_mode := REAL, ea_trading_enabled := False\<rparr>"

definition read_only_log :: audit_log where
  "read_only_log = \<lparr>al_id = ''log-1'', al_user_id = ''alice'', al_exchange_account_id = Some ''acct-2'',
     al_action = READ_ONLY_ACTION, al_severity = ''INFO'', al_payload = [],
     al_created_at = \<lparr>dt_wall = 0, dt_offset = Some 0\<rparr>\<rparr>"

definition release_db :: db where
  "release_db = sample_db\<lparr>accounts := \<lparr>rows = [real_account], pend = []\<rparr>,
     risks := \<lparr>rows = [testnet_risk\<lparr>rs_trading_enabled := False\<rparr>], pend = []\<rparr>,
     secrets := \<lparr>rows = [sample_secret\<lparr>ks_encrypted_passphrase := Some ''p''\<rparr>], pend = []\<rparr>\<rparr>"

definition release_session :: "audit_log list \<Rightarrow> nat \<Rightarrow> session" where
  "release_session logs n = sample_session\<lparr>work := release_db\<lparr>audits := \<lparr>rows = logs, pend = []\<rparr>\<rparr>,
     saved := release_db\<lparr>audits := \<lparr>rows = logs, pend = []\<rparr>\<rparr>, uuid_next := n\<rparr>"

lemma release_settled: "settled release_db"
  using settled_flush [OF sample_settled]
  by (simp add: release_db_def settled_def db_flush_update settledD [OF sample_settled] db_unique_update t_all_def)

lemma release_sel [simp]:
  "audits (work (release_session logs n)) = \<lparr>rows = logs, pend = []\<rparr>"
  "audits (saved (release_session logs n)) = \<lparr>rows = logs, pend = []\<rparr>"
  "close (release_session logs n) = release_session logs n" "clock (release_session logs n) = 0"
  by (simp_all add: release_session_def close_def)

lemma recording_release: "recording l z (release_session logs n) = (Inr z, release_session (logs @ [l]) (Suc n))"
  using settledD [OF release_settled]
  by (simp add: recording_def release_session_def Let_def db_flush_update t_flush_def t_add_def db_unique_update)

lemma release_found:
  "find_owned_account ''alice'' ''acct-2'' (work (release_session logs n)) = Some real_account"
  "ea_id real_account = ''acct-2''"
  "find_risk_settings ''alice'' ''acct-2'' (work (release_session logs n)) = Some (testnet_risk\<lparr>rs_trading_enabled := False\<rparr>)"
  "find_secret_metadata ''alice'' ''acct-2'' (work (release_session logs n)) = Some (sample_secret\<lparr>ks_encrypted_passphrase := Some ''p''\<rparr>)"
  by (simp_all add: release_session_def release_db_def find_owned_account_def find_risk_settings_def
      find_secret_metadata_def t_find_def testnet_account_def testnet_risk_def sample_risk_def sample_secret_def real_account_def)

lemma release_candidate: "release_candidate SUPER_ADMIN real_account (Some (testnet_risk\<lparr>rs_trading_enabled := False\<rparr>))"
  by (simp add: release_candidate_def real_account_def testnet_account_def)

lemma sample_operator: "u_id sample_user = ''alice''" "u_role sample_user = SUPER_ADMIN"
  by (simp_all add: sample_user_def)

definition fund_review :: review_request where
  "fund_review = \<lparr>rq_max_notional = Dec False 50 0, rq_acknowledgement = PHASE4_SMALL_FUND_REVIEW_ACK\<rparr>"

definition fund_window_terms :: fund_window_request where
  "fund_window_terms = \<lparr>wq_symbol = ''BTC-USDT'', wq_side = BUY, wq_max_quantity = Dec False 1 0,
     wq_limit_price = Dec False 40 0, wq_max_notional = Dec False 45 0, wq_duration_minutes = 5,
     wq_acknowledgement = PHASE4_SMALL_FUND_ORDER_WINDOW_ACK\<rparr>"

definition final_confirmation :: final_request where
  "final_confirmation = \<lparr>cq_max_notional = Dec False 40 0, cq_dedicated_account_confirmed = True,
     cq_account_empty_confirmed = True, cq_withdrawals_disabled_confirmed = True,
     cq_delete_api_key_after_test_confirmed = True, cq_first_order_stop_review_confirmed = True,
     cq_no_live_order_submission_confirmed = True, cq_acknowledgement = PHASE4_FINAL_RELEASE_CHECK_ACK\<rparr>"

abbreviation review_log :: audit_log where
  "review_log \<equiv> recorded ''alice'' ''acct-2'' REVIEW_ACTION (review_payload real_account (Some read_only_log) fund_review)
     (release_session [read_only_log] 0)"

abbreviation window_log :: audit_log where
  "window_log \<equiv> recorded ''alice'' ''acct-2'' WINDOW_ACTION
     (fund_window_payload real_account (Some review_log) (Some read_only_log) fund_window_terms)
     (release_session [read_only_log, review_log] (Suc 0))"

abbreviation final_log :: audit_log where
  "final_log \<equiv> recorded ''alice'' ''acct-2'' FINAL_ACTION
     (final_payload real_account (Some review_log) (Some window_log) final_confirmation)
     (release_session [read_only_log, review_log, window_log] (Suc (Suc 0)))"

lemma read_only_log_sel [simp]:
  "al_action read_only_log = READ_ONLY_ACTION" "al_user_id read_only_log = ''alice''"
  "al_exchange_account_id read_only_log = Some ''acct-2''" "al_severity read_only_log = ''INFO''"
  by (simp_all add: read_only_log_def)

lemma release_audits:
  "latest_successful_real_read_only_audit ''alice'' ''acct-2'' (work (release_session (read_only_log # ls) n)) =
     latest (read_only_log # filter (\<lambda>l. al_action l = READ_ONLY_ACTION \<and> al_user_id l = ''alice''
       \<and> al_exchange_account_id l = Some ''acct-2'' \<and> al_severity l = ''INFO'') ls)"
  by (simp add: latest_successful_real_read_only_audit_def audits_matching_def t_select_def conj_ac del: latest.simps)

lemma release_amounts:
  "small_fund (rq_max_notional fund_review)" "small_fund (wq_max_notional fund_window_terms)"
  "small_fund (cq_max_notional final_confirmation)"
  "\<not> dlt (rq_max_notional fund_review) (wq_max_notional fund_window_terms)"
  "\<not> dlt (rq_max_notional fund_review) (cq_max_notional final_confirmation)"
  "\<not> dlt (wq_max_notional fund_window_terms) (cq_max_notional final_confirmation)"
  "0 < dval (wq_max_quantity fund_window_terms)" "0 < dval (wq_limit_price fund_window_terms)"
  "dval (dmul (wq_max_quantity fund_window_terms) (wq_limit_price fund_window_terms)) \<le> dval (wq_max_notional fund_window_terms)"
  by (simp_all add: small_fund_def fund_review_def fund_window_terms_def final_confirmation_def dlt_dval dval_Dec_False
      dval_dmul)

lemma release_review:
  "phase4_serve c net ''acct-2'' sample_user (SmallFundReview fund_review) (release_session [read_only_log] 0) =
     release_session [read_only_log, review_log] (Suc 0)"
proof -
  have ok: "review_blocked_reasons SUPER_ADMIN real_account (Some (testnet_risk\<lparr>rs_trading_enabled := False\<rparr>))
      (Some (sample_secret\<lparr>ks_encrypted_passphrase := Some ''p''\<rparr>)) True fund_review = []"
    by (simp add: review_reasons_empty release_candidate release_amounts) (simp add: fund_review_def)
  show ?thesis
    by (simp add: record_small_fund_review_def try_except_def review_apply release_found sample_operator Let_def
        release_audits ok recording_release)
qed

lemma release_window:
  "phase4_serve c net ''acct-2'' sample_user (OrderWindow fund_window_terms) (release_session [read_only_log, review_log] (Suc 0)) =
     release_session [read_only_log, review_log, window_log] (Suc (Suc 0))"
proof -
  have v: "latest_phase4_review_audit ''alice'' ''acct-2'' (work (release_session [read_only_log, review_log] (Suc 0))) = Some review_log"
    by (simp add: latest_phase4_review_audit_def audits_matching_def t_select_def)
  have named: "strip ''BTC-USDT'' \<noteq> []" by code_simp
  have ok: "fund_window_blocked_reasons SUPER_ADMIN real_account (Some (testnet_risk\<lparr>rs_trading_enabled := False\<rparr>))
      (Some (sample_secret\<lparr>ks_encrypted_passphrase := Some ''p''\<rparr>)) True True
      (Some (Finite (rq_max_notional fund_review))) False fund_window_terms = []"
    by (simp add: fund_window_reasons_empty release_candidate release_amounts) (simp add: fund_window_terms_def named)
  show ?thesis
    by (simp add: record_small_fund_order_window_approval_def try_except_def fund_window_apply release_found sample_operator
        Let_def release_audits v over_cap_def release_amounts ok recording_release)
qed

lemma release_final:
  "phase4_serve c net ''acct-2'' sample_user (FinalCheck final_confirmation) (release_session [read_only_log, review_log, window_log] (Suc (Suc 0))) =
     release_session [read_only_log, review_log, window_log, final_log] (Suc (Suc (Suc 0)))"
proof -
  have v: "latest_required_audit ''alice'' ''acct-2'' REVIEW_ACTION
        (work (release_session [read_only_log, review_log, window_log] (Suc (Suc 0)))) = Some review_log"
    "latest_required_audit ''alice'' ''acct-2'' WINDOW_ACTION
        (work (release_session [read_only_log, review_log, window_log] (Suc (Suc 0)))) = Some window_log"
    by (simp_all add: latest_required_audit_def audits_matching_def t_select_def)
  have ok: "final_blocked_reasons SUPER_ADMIN real_account (Some (testnet_risk\<lparr>rs_trading_enabled := False\<rparr>)) True True
      (Some (Finite (rq_max_notional fund_review))) (Some (Finite (wq_max_notional fund_window_terms))) False False
      final_confirmation = []"
    by (simp add: final_reasons_empty release_candidate release_amounts) (simp add: final_confirmation_def confirmed_def)
  show ?thesis
    by (simp add: record_final_release_check_def try_except_def final_apply release_found sample_operator
        Let_def v over_cap_def release_amounts ok recording_release)
qed

lemma release_traffic:
  "phase4_traffic (release_session [read_only_log] 0) (release_session [read_only_log, review_log, window_log, final_log] (Suc (Suc (Suc 0))))"
proof -
  let ?s = "release_session [read_only_log] 0"
  have 0: "phase4_traffic ?s ?s" using phase4_traffic.begun [of ?s] by simp
  have 1: "phase4_traffic ?s (release_session [read_only_log, review_log] (Suc 0))"
    using phase4_traffic.request [OF 0, of demo_cipher "\<lambda>_. NoReply" "''acct-2''" sample_user "SmallFundReview fund_review"]
    by (simp only: release_review release_sel)
  have 2: "phase4_traffic ?s (release_session [read_only_log, review_log, window_log] (Suc (Suc 0)))"
    using phase4_traffic.request [OF 1, of demo_cipher "\<lambda>_. NoReply" "''acct-2''" sample_user "OrderWindow fund_window_terms"]
    by (simp only: release_window release_sel)
  show ?thesis
    using phase4_traffic.request [OF 2, of demo_cipher "\<lambda>_. NoReply" "''acct-2''" sample_user "FinalCheck final_confirmation"]
    by (simp only: release_final release_sel)
qed

theorem final_check_rests_on_recorded_decisions_witness:
  "\<exists>v w. cites [read_only_log, review_log, window_log] final_log ''review_audit_log_id'' REVIEW_ACTION ''CRITICAL'' v
     \<and> cites [read_only_log, review_log, window_log] final_log ''order_window_audit_log_id'' WINDOW_ACTION ''CRITICAL'' w"
  using final_check_rests_on_recorded_decisions [OF release_traffic, of "[read_only_log, review_log, window_log]" final_log "[]"]
  by (auto simp: t_all_def)

text \<open>C22: A final release check is recorded exactly when the operator is a super administrator, the account is his own
  active OKX production account with trading disabled on the account and in its risk settings, the latest review and
  the latest order window on record carry amounts that cover the positive amount of at most 100, and everything is
  confirmed and acknowledged. No clock is read: a window counts however long its minutes have been over.\<close>

theorem final_check_recorded_iff:
  assumes "db_unique (work s)"
  shows "(\<exists>z. fst (record_final_release_check i r u s) = Inr z) \<longleftrightarrow>
     (\<exists>a v w mv mw. find_owned_account (u_id u) i (work s) = Some a
        \<and> release_candidate (u_role u) a (find_risk_settings (u_id u) (ea_id a) (work s))
        \<and> latest_required_audit (u_id u) (ea_id a) REVIEW_ACTION (work s) = Some v \<and> recorded_notional v = Some mv
        \<and> latest_required_audit (u_id u) (ea_id a) WINDOW_ACTION (work s) = Some w \<and> recorded_notional w = Some mw
        \<and> small_fund (cq_max_notional r) \<and> dec_gt (cq_max_notional r) mv = Inr False
        \<and> dec_gt (cq_max_notional r) mw = Inr False \<and> confirmed r)"
    (is "_ \<longleftrightarrow> ?ok")
proof -
  have answered: "(\<exists>z. fst (record_final_release_check i r u s) = Inr z) \<longleftrightarrow>
      (\<exists>z. fst (record_phase4_final_release_check (u_id u) (u_role u) i r s) = Inr z)"
    by (auto simp: record_final_release_check_def try_except_def split: prod.splits sum.splits option.splits py_exc.splits)
  have rec: "fst (recording l z s) = Inr z" for l z using assms by (simp add: recording_def Let_def)
  have cap: "over_cap n (Some c) = dec_gt n c" for n c by (simp add: over_cap_def)
  show ?thesis
    unfolding answered
    by (auto simp: final_apply Let_def rec cap final_reasons_empty split: option.splits sum.splits if_splits)
qed

text \<open>The window of five minutes was approved at time 0; the final check of the next day goes through.\<close>

theorem final_check_recorded_iff_witness:
  "\<exists>z. fst (record_final_release_check ''acct-2'' final_confirmation sample_user
     (release_session [read_only_log, review_log, window_log] (Suc (Suc 0)) \<lparr>clock := 1440 * minute\<rparr>)) = Inr z"
proof -
  let ?t = "release_session [read_only_log, review_log, window_log] (Suc (Suc 0))"
  let ?s = "?t\<lparr>clock := 1440 * minute\<rparr>"
  have u: "db_unique (work ?s)"
    using settledD(2) [OF release_settled] by (simp add: release_session_def db_unique_update)
  have v: "latest_required_audit ''alice'' ''acct-2'' REVIEW_ACTION (work ?t) = Some review_log"
    "latest_required_audit ''alice'' ''acct-2'' WINDOW_ACTION (work ?t) = Some window_log"
    by (simp_all add: latest_required_audit_def audits_matching_def t_select_def)
  have c: "confirmed final_confirmation" by (simp add: final_confirmation_def confirmed_def)
  show ?thesis
    unfolding final_check_recorded_iff [OF u]
    by (rule exI [of _ real_account], rule exI [of _ review_log], rule exI [of _ window_log],
        rule exI [of _ "Finite (rq_max_notional fund_review)"], rule exI [of _ "Finite (wq_max_notional fund_window_terms)"])
      (simp_all add: release_found sample_operator release_candidate v release_amounts c)
qed

text \<open>No phase 4 request sends anything or touches an account, risk settings or an order: the readiness report changes
  nothing, and the three decisions add one entry to the audit log at most.\<close>

theorem decisions_only_add_entries:
  assumes "saved s = work s" and "q \<noteq> ReadOnlyCheck"
  shows "wire (phase4_serve c net i u q s) = wire s \<and> sockets (phase4_serve c net i u q s) = sockets s
     \<and> t_all (accounts (saved (phase4_serve c net i u q s))) = t_all (accounts (saved s))
     \<and> t_all (risks (saved (phase4_serve c net i u q s))) = t_all (risks (saved s))
     \<and> t_all (executions (saved (phase4_serve c net i u q s))) = t_all (executions (saved s))
     \<and> (\<exists>ls. t_all (audits (saved (phase4_serve c net i u q s))) = t_all (audits (saved s)) @ ls \<and> length ls \<le> 1)"
proof -
  have same: "snd (try_except m h s) = snd (m s)" if "\<And>e k. h e = Some k \<Longrightarrow> \<exists>x. k = raise x" for m :: "'x op" and h
    using that by (fastforce simp: try_except_def split: prod.splits sum.splits option.splits)
  have routes: "snd (read_phase4_readiness i u s) = snd (build_phase4_readiness_report u i s)"
    "snd (record_small_fund_review i rv u s) = snd (record_phase4_small_fund_review (u_id u) (u_role u) i rv s)"
    "snd (record_small_fund_order_window_approval i rw u s)
       = snd (record_phase4_small_fund_order_window_approval (u_id u) (u_role u) i rw s)"
    "snd (record_final_release_check i rc u s) = snd (record_phase4_final_release_check (u_id u) (u_role u) i rc s)"
    for rv rw rc
    unfolding read_phase4_readiness_def record_small_fund_review_def record_small_fund_order_window_approval_def
      record_final_release_check_def
    by (rule same, auto split: py_exc.splits)+
  have "snd (build_phase4_readiness_report u i s) = s"
    by (simp add: build_phase4_readiness_report_def account_or_value_error_apply get_api_key_secret_metadata_def Let_def
        split: option.split)
  then have "phase4_serve c net i u q s = s \<or> (\<exists>l. phase4_serve c net i u q s = snd (recording l () s))"
    using assms(2)
    by (cases q) (auto simp: routes review_apply fund_window_apply final_apply Let_def
        recording_result [where 'a = small_fund_review] recording_result [where 'a = fund_window] recording_result [where 'a = final_check]
        split: option.splits sum.splits if_splits)
  then show ?thesis
    using assms(1) by (auto simp: recording_def Let_def split: if_splits)
qed

text \<open>The readiness report demands a second factor of the operator; the three decisions never ask for one.\<close>

theorem decisions_ignore_second_factor:
  assumes "find_owned_account (u_id u) i (work s) = Some a" and "\<not> u_mfa_enabled u"
  shows "(\<exists>z. fst (read_phase4_readiness i u s) = Inr z \<and> pr_overall_status z = BLOCKED
        \<and> ''operator_mfa_enabled'' \<in> set (pr_gate_reasons z))
     \<and> record_small_fund_review i rv u = record_small_fund_review i rv (u\<lparr>u_mfa_enabled := True\<rparr>)
     \<and> record_small_fund_order_window_approval i rw u = record_small_fund_order_window_approval i rw (u\<lparr>u_mfa_enabled := True\<rparr>)
     \<and> record_final_release_check i rc u = record_final_release_check i rc (u\<lparr>u_mfa_enabled := True\<rparr>)"
  using assms
  by (auto simp: read_phase4_readiness_def try_except_def build_phase4_readiness_report_def account_or_value_error_apply
      get_api_key_secret_metadata_def Let_def readiness_checks_def readiness_check_def record_small_fund_review_def
      record_small_fund_order_window_approval_def record_final_release_check_def)

end
