(* ===== verification/Py_Json.thy ===== *)
theory Py_Json
  imports Http_Client
begin

text \<open>
  The parts of the standard library that access tokens are made of: the URL-safe Base64 of
  \<open>base64\<close>, \<open>json.dumps\<close> with compact separators and \<open>json.loads\<close>, \<open>hmac.compare_digest\<close> and
  \<open>str.split\<close> with a limit.

  The decoder of Base64 is \<open>binascii.a2b_base64\<close> in its lenient mode, which skips characters
  outside the alphabet. The parser of JSON is a recursive descent with fuel: every call consumes
  a character or passes to a value, so twice the length of the text is enough (\<open>jvalue_fuel\<close>).
  The model's strings have 256 characters; a JSON escape of another one is refused, the message of
  a \<open>JSONDecodeError\<close> is not modelled, and the value of a binary float is an argument, \<open>fl\<close>, the
  \<open>repr\<close> of the float that a numeral denotes. The main results are the round trips
  \<open>b64_round_trip\<close> and \<open>json_round_trip\<close>.
\<close>

section \<open>Base64\<close>

definition b64_value :: "char \<Rightarrow> nat option" where
  "b64_value c = map_of (zip b64_chars [0..<64]) c"

fun a2b_base64 :: "nat \<Rightarrow> nat \<Rightarrow> nat \<Rightarrow> nat list \<Rightarrow> string \<Rightarrow> nat list result" where
  "a2b_base64 quad left pads out [] =
     (if quad = 0 then Inr out
      else if quad = 1 then Inl (ValueError (''Invalid base64-encoded string: number of data characters (''
        @ show_nat (length out div 3 * 4 + 1) @ '') cannot be 1 more than a multiple of 4''))
      else Inl (ValueError ''Incorrect padding''))"
| "a2b_base64 quad left pads out (c # s) =
     (if c = CHR ''=''
      then (if quad \<ge> 2 \<and> quad + Suc pads \<ge> 4 then Inr out
            else a2b_base64 quad left (if quad \<ge> 2 then Suc pads else pads) out s)
      else case b64_value c of
          None \<Rightarrow> a2b_base64 quad left pads out s
        | Some v \<Rightarrow>
            if quad = 0 then a2b_base64 1 v 0 out s
            else if quad = 1 then a2b_base64 2 (v mod 16) 0 (out @ [left * 4 + v div 16]) s
            else if quad = 2 then a2b_base64 3 (v mod 4) 0 (out @ [left * 16 + v div 4]) s
            else a2b_base64 0 0 0 (out @ [left * 64 + v]) s)"

definition url_char :: "char \<Rightarrow> char" where
  "url_char c = (if c = CHR ''+'' then CHR ''-'' else if c = CHR ''/'' then CHR ''_'' else c)"

definition std_char :: "char \<Rightarrow> char" where
  "std_char c = (if c = CHR ''-'' then CHR ''+'' else if c = CHR ''_'' then CHR ''/'' else c)"

definition urlsafe_b64encode :: "nat list \<Rightarrow> string" where
  "urlsafe_b64encode bs = map url_char (b64encode bs)"

definition is_ascii :: "string \<Rightarrow> bool" where
  "is_ascii s = list_all (\<lambda>c. (of_char c :: nat) < 128) s"

definition urlsafe_b64decode :: "string \<Rightarrow> nat list result" where
  "urlsafe_b64decode s =
     (if is_ascii s then a2b_base64 0 0 0 [] (map std_char s)
      else Inl (ValueError ''string argument should contain only ASCII characters''))"

section \<open>Comparison and splitting\<close>

text \<open>\<open>hmac.compare_digest\<close> of two strings, which must be ASCII.\<close>

definition compare_digest :: "string \<Rightarrow> string \<Rightarrow> bool result" where
  "compare_digest a b = (if is_ascii a \<and> is_ascii b then Inr (a = b) else Inl TypeError)"

text \<open>\<open>s.split(c, n)\<close>\<close>

fun split_max :: "char \<Rightarrow> nat \<Rightarrow> string \<Rightarrow> string list" where
  "split_max c 0 s = [s]"
| "split_max c (Suc n) s =
     (if c \<in> set s
      then takeWhile (\<lambda>x. x \<noteq> c) s # split_max c n (tl (dropWhile (\<lambda>x. x \<noteq> c) s)) else [s])"

section \<open>JSON: printing\<close>

text \<open>\<open>json.dumps(v, separators=(",", ":"))\<close>, the keys in the order of the dictionary.\<close>

function json_compact :: "pyval \<Rightarrow> string" where
  "json_compact (PList xs) = ''['' @ join '','' (map json_compact xs) @ '']''"
| "json_compact (PDict d) = ''{'' @ join '','' (map (\<lambda>kv. json_str (fst kv) @ '':'' @ json_compact (snd kv)) d) @ ''}''"
| "json_compact PNone = json_text PNone"
| "json_compact (PBool b) = json_text (PBool b)"
| "json_compact (PInt i) = json_text (PInt i)"
| "json_compact (PFloat r) = json_text (PFloat r)"
| "json_compact (PDec d) = json_text (PDec d)"
| "json_compact (PStr s) = json_text (PStr s)"
  by pat_completeness auto
termination
proof (relation "measure size", goal_cases)
  case 1
  show ?case by simp
next
  case (2 xs x)
  then show ?case by (induction xs) auto
next
  case (3 d kv)
  then show ?case by (induction d) auto
qed

section \<open>JSON: parsing\<close>

definition skip_ws :: "string \<Rightarrow> string" where
  "skip_ws s = dropWhile (\<lambda>c. c \<in> set [CHR '' '', CHR 0x09, CHR 0x0A, CHR 0x0D]) s"

definition hex_nibble :: "char \<Rightarrow> nat option" where
  "hex_nibble c = map_of (zip ''0123456789abcdefABCDEF''
     [0, 1, 2, 3, 4, 5, 6, 7, 8, 9, 10, 11, 12, 13, 14, 15, 10, 11, 12, 13, 14, 15]) c"

definition hex4 :: "char \<Rightarrow> char \<Rightarrow> char \<Rightarrow> char \<Rightarrow> nat option" where
  "hex4 a b c d = (case (hex_nibble a, hex_nibble b, hex_nibble c, hex_nibble d) of
      (Some w, Some x, Some y, Some z) \<Rightarrow> Some (4096 * w + 256 * x + 16 * y + z) | _ \<Rightarrow> None)"

definition json_escape :: "char \<Rightarrow> char option" where
  "json_escape e = map_of [(CHR 0x22, CHR 0x22), (CHR 0x5C, CHR 0x5C), (CHR ''/'', CHR ''/''),
     (CHR ''b'', CHR 0x08), (CHR ''f'', CHR 0x0C), (CHR ''n'', CHR 0x0A), (CHR ''r'', CHR 0x0D),
     (CHR ''t'', CHR 0x09)] e"

definition cons_char :: "char \<Rightarrow> (string \<times> string) option \<Rightarrow> (string \<times> string) option" where
  "cons_char c r = map_option (\<lambda>(t, rest). (c # t, rest)) r"

text \<open>The rest of a string literal after its opening quote.\<close>

fun jstring :: "string \<Rightarrow> (string \<times> string) option" where
  "jstring [] = None"
| "jstring (c # s) =
     (if c = CHR 0x22 then Some ([], s)
      else if c = CHR 0x5C then (case s of
          [] \<Rightarrow> None
        | e # s1 \<Rightarrow>
            if e = CHR ''u'' then (case s1 of
                h1 # h2 # h3 # h4 # s2 \<Rightarrow> (case hex4 h1 h2 h3 h4 of
                    None \<Rightarrow> None
                  | Some n \<Rightarrow> if n < 256 then cons_char (char_of n) (jstring s2) else None)
              | _ \<Rightarrow> None)
            else (case json_escape e of None \<Rightarrow> None | Some x \<Rightarrow> cons_char x (jstring s1)))
      else if (of_char c :: nat) < 32 then None
      else cons_char c (jstring s))"

definition take_frac :: "string \<Rightarrow> string \<times> string" where
  "take_frac s = (case s of
      c # t \<Rightarrow> if c = CHR ''.'' \<and> takeWhile is_digit t \<noteq> []
              then (CHR ''.'' # takeWhile is_digit t, dropWhile is_digit t) else ([], s)
    | [] \<Rightarrow> ([], s))"

definition take_exp :: "string \<Rightarrow> string \<times> string" where
  "take_exp s = (case s of
      c # t \<Rightarrow>
        let sgn = (case t of d # _ \<Rightarrow> if d = CHR ''+'' \<or> d = CHR ''-'' then [d] else [] | [] \<Rightarrow> []);
            u = drop (length sgn) t
        in if (c = CHR ''e'' \<or> c = CHR ''E'') \<and> takeWhile is_digit u \<noteq> []
           then (c # sgn @ takeWhile is_digit u, dropWhile is_digit u) else ([], s)
    | [] \<Rightarrow> ([], s))"

definition int_part :: "string \<Rightarrow> string" where
  "int_part t = (case t of c # _ \<Rightarrow> if c = CHR ''0'' then [c] else takeWhile is_digit t | [] \<Rightarrow> [])"

definition jnumber :: "(string \<Rightarrow> string) \<Rightarrow> string \<Rightarrow> (pyval \<times> string) option" where
  "jnumber fl s =
     (let sgn = (case s of c # _ \<Rightarrow> if c = CHR ''-'' then [c] else [] | [] \<Rightarrow> []);
          t = drop (length sgn) s;
          ip = int_part t;
          r = drop (length ip) t
      in if ip = [] then None
         else case take_frac r of (fp, r1) \<Rightarrow> case take_exp r1 of (ep, r2) \<Rightarrow>
           if fp = [] \<and> ep = []
           then Some (PInt (if sgn = [] then int (read_nat ip) else - int (read_nat ip)), r2)
           else Some (PFloat (fl (sgn @ ip @ fp @ ep)), r2))"

definition dict_of_pairs :: "(string \<times> pyval) list \<Rightarrow> pydict" where
  "dict_of_pairs ps = foldl (\<lambda>d kv. AList.update (fst kv) (snd kv) d) [] ps"

definition literals :: "(string \<times> pyval) list" where
  "literals = [(''null'', PNone), (''true'', PBool True), (''false'', PBool False),
     (''NaN'', PFloat ''nan''), (''Infinity'', PFloat ''inf''), (''-Infinity'', PFloat ''-inf'')]"

fun jvalue :: "(string \<Rightarrow> string) \<Rightarrow> nat \<Rightarrow> string \<Rightarrow> (pyval \<times> string) option"
and jarray :: "(string \<Rightarrow> string) \<Rightarrow> nat \<Rightarrow> string \<Rightarrow> (pyval list \<times> string) option"
and jobject :: "(string \<Rightarrow> string) \<Rightarrow> nat \<Rightarrow> string \<Rightarrow> (pydict \<times> string) option" where
  "jvalue fl 0 s = None"
| "jvalue fl (Suc n) s = (case s of
      [] \<Rightarrow> None
    | c # r \<Rightarrow>
        if c = CHR 0x22 then map_option (\<lambda>(t, rest). (PStr t, rest)) (jstring r)
        else if c = CHR ''['' then
          (if startswith (skip_ws r) '']'' then Some (PList [], tl (skip_ws r))
           else map_option (\<lambda>(xs, rest). (PList xs, rest)) (jarray fl n (skip_ws r)))
        else if c = CHR ''{'' then
          (if startswith (skip_ws r) ''}'' then Some (PDict [], tl (skip_ws r))
           else map_option (\<lambda>(ps, rest). (PDict (dict_of_pairs ps), rest)) (jobject fl n (skip_ws r)))
        else (case List.find (\<lambda>kv. startswith s (fst kv)) literals of
            Some (w, v) \<Rightarrow> Some (v, drop (length w) s)
          | None \<Rightarrow> jnumber fl s))"
| "jarray fl 0 s = None"
| "jarray fl (Suc n) s = (case jvalue fl n s of
      None \<Rightarrow> None
    | Some (v, rest) \<Rightarrow> (case skip_ws rest of
          [] \<Rightarrow> None
        | d # rest1 \<Rightarrow>
            if d = CHR '']'' then Some ([v], rest1)
            else if d = CHR '','' then map_option (\<lambda>(vs, r). (v # vs, r)) (jarray fl n (skip_ws rest1))
            else None))"
| "jobject fl 0 s = None"
| "jobject fl (Suc n) s = (case s of
      [] \<Rightarrow> None
    | q # s1 \<Rightarrow>
        if q \<noteq> CHR 0x22 then None
        else (case jstring s1 of
            None \<Rightarrow> None
          | Some (k, s2) \<Rightarrow> (case skip_ws s2 of
                [] \<Rightarrow> None
              | e # s3 \<Rightarrow>
                  if e \<noteq> CHR '':'' then None
                  else (case jvalue fl n (skip_ws s3) of
                      None \<Rightarrow> None
                    | Some (v, rest) \<Rightarrow> (case skip_ws rest of
                          [] \<Rightarrow> None
                        | d # rest1 \<Rightarrow>
                            if d = CHR ''}'' then Some ([(k, v)], rest1)
                            else if d = CHR '','' then
                              map_option (\<lambda>(ps, r). ((k, v) # ps, r)) (jobject fl n (skip_ws rest1))
                            else None)))))"

definition json_loads :: "(string \<Rightarrow> string) \<Rightarrow> string \<Rightarrow> pyval result" where
  "json_loads fl s =
     (let t = skip_ws s in
      case jvalue fl (2 * length t + 1) t of
        Some (v, rest) \<Rightarrow> if skip_ws rest = [] then Inr v else Inl (ValueError ''invalid JSON'')
      | None \<Rightarrow> Inl (ValueError ''invalid JSON''))"

section \<open>Round trip of Base64\<close>

lemma b64_chars_all:
  "\<forall>k \<in> set [0..<64]. b64_value (b64_chars ! k) = Some k \<and> b64_chars ! k \<noteq> CHR ''=''
     \<and> std_char (url_char (b64_chars ! k)) = b64_chars ! k \<and> url_char (b64_chars ! k) \<noteq> CHR ''=''
     \<and> (of_char (url_char (b64_chars ! k)) :: nat) < 128 \<and> url_char (b64_chars ! k) \<notin> set ''.$''"
  by code_simp

lemma b64_nth [simp]:
  assumes "k < 64"
  shows "b64_value (b64_chars ! k) = Some k" "b64_chars ! k \<noteq> CHR ''=''"
    "std_char (url_char (b64_chars ! k)) = b64_chars ! k" "url_char (b64_chars ! k) \<noteq> CHR ''=''"
    "(of_char (url_char (b64_chars ! k)) :: nat) < 128"
    "url_char (b64_chars ! k) \<noteq> CHR ''.''" "url_char (b64_chars ! k) \<noteq> CHR ''$''"
  using b64_chars_all assms by simp_all

definition bytes :: "nat list \<Rightarrow> bool" where
  "bytes bs = list_all (\<lambda>b. b < 256) bs"

lemma bytes_simps [simp]:
  "bytes []" "bytes (b # bs) \<longleftrightarrow> b < 256 \<and> bytes bs" "bytes (as @ bs) \<longleftrightarrow> bytes as \<and> bytes bs"
  by (simp_all add: bytes_def)

lemma sextets:
  fixes a b c :: nat
  assumes "a < 256" "b < 256" "c < 256"
  shows "a div 4 < 64" "a mod 4 * 16 + b div 16 < 64" "b mod 16 * 4 + c div 64 < 64" "c mod 64 < 64"
    "a mod 4 * 16 < 64" "b mod 16 * 4 < 64"
proof -
  have d: "a div 4 < 64" "b div 16 < 16" "c div 64 < 4" using assms by (simp_all add: less_mult_imp_div_less)
  have m: "a mod 4 \<le> 3" "b mod 16 \<le> 15" "c mod 64 < 64"
    using mod_less_divisor [of 4 a] mod_less_divisor [of 16 b] by simp_all
  show "a div 4 < 64" "c mod 64 < 64" using d m by simp_all
  show "a mod 4 * 16 + b div 16 < 64" "b mod 16 * 4 + c div 64 < 64" "a mod 4 * 16 < 64" "b mod 16 * 4 < 64"
    using d(2,3) m(1,2) by linarith+
qed

lemma sextet_parts:
  fixes a b c :: nat
  assumes "a < 256" "b < 256" "c < 256"
  shows "a div 4 * 4 + (a mod 4 * 16 + b div 16) div 16 = a"
    "(a mod 4 * 16 + b div 16) mod 16 * 16 + (b mod 16 * 4 + c div 64) div 4 = b"
    "(b mod 16 * 4 + c div 64) mod 4 * 64 + c mod 64 = c"
proof -
  have d: "b div 16 < 16" "c div 64 < 4" using assms by (simp_all add: less_mult_imp_div_less)
  have "(a mod 4 * 16 + b div 16) div 16 = a mod 4" "(a mod 4 * 16 + b div 16) mod 16 = b div 16"
    "(b mod 16 * 4 + c div 64) div 4 = b mod 16" "(b mod 16 * 4 + c div 64) mod 4 = c div 64"
    using d by simp_all
  then show "a div 4 * 4 + (a mod 4 * 16 + b div 16) div 16 = a"
    "(a mod 4 * 16 + b div 16) mod 16 * 16 + (b mod 16 * 4 + c div 64) div 4 = b"
    "(b mod 16 * 4 + c div 64) mod 4 * 64 + c mod 64 = c"
    by (simp_all add: div_mult_mod_eq)
qed

lemma a2b_b64encode: "bytes bs \<Longrightarrow> a2b_base64 0 l 0 out (b64encode bs) = Inr (out @ bs)"
proof (induction bs arbitrary: l out rule: b64encode.induct)
  case (4 a b c r)
  have s: "a < 256" "b < 256" "c < 256" "bytes r" using 4(2) by simp_all
  show ?case
    using 4(1) [OF s(4)] sextets [OF s(1-3)] sextet_parts [OF s(1-3)] by simp
next
  case (2 a)
  then have "a < 256" "(0::nat) < 256" by simp_all
  then show ?case
    using sextets [of a 0 0] sextet_parts [of a 0 0] by simp
next
  case (3 a b)
  then have "a < 256" "b < 256" "(0::nat) < 256" by simp_all
  then show ?case
    using sextets [of a b 0] sextet_parts [of a b 0] by simp
qed simp

text \<open>What \<open>_b64encode\<close> and \<open>_b64decode\<close> of \<open>core/security.py\<close> do to the padding.\<close>

definition pad4 :: "string \<Rightarrow> string" where
  "pad4 s = s @ replicate (nat (- int (length s) mod 4)) (CHR ''='')"

lemma rstrip_char_keep: "c \<noteq> d \<Longrightarrow> rstrip_char c (u @ d # v) = u @ d # rstrip_char c v"
  unfolding rstrip_char_def by (simp add: dropWhile_append)

lemma rstrip_char_Nil [simp]: "rstrip_char c [] = []" "rstrip_char c [c] = []" "rstrip_char c [c, c] = []"
  by (simp_all add: rstrip_char_def)

lemma pad4_keep: "pad4 (w # x # y # z # s) = w # x # y # z # pad4 s"
proof -
  have "- int (length (w # x # y # z # s)) mod 4 = - int (length s) mod 4"
    by (simp, presburger)
  then show ?thesis by (simp add: pad4_def)
qed

lemma url_char_eq [simp]: "url_char (CHR ''='') = CHR ''=''" "std_char (CHR ''='') = CHR ''=''"
  by (simp_all add: url_char_def std_char_def)

lemma rstrip4: "c \<noteq> d \<Longrightarrow> rstrip_char c (x # y # z # d # v) = x # y # z # d # rstrip_char c v"
  "c \<noteq> d \<Longrightarrow> rstrip_char c (x # y # d # v) = x # y # d # rstrip_char c v"
  "c \<noteq> d \<Longrightarrow> rstrip_char c (x # d # v) = x # d # rstrip_char c v"
  using rstrip_char_keep [of c d "[x, y, z]" v] rstrip_char_keep [of c d "[x, y]" v]
    rstrip_char_keep [of c d "[x]" v] by simp_all

lemma replicate2: "replicate 2 c = [c, c]"
  by (simp add: numeral_2_eq_2)

lemma pad4_rstrip: "bytes bs \<Longrightarrow> pad4 (rstrip_char (CHR ''='') (urlsafe_b64encode bs)) = urlsafe_b64encode bs"
proof (induction bs rule: b64encode.induct)
  case 1
  show ?case by (simp add: urlsafe_b64encode_def pad4_def)
next
  case (2 a)
  then show ?case using sextets [of a 0 0] b64_nth(4) [of "a mod 4 * 16", THEN not_sym]
    by (simp add: urlsafe_b64encode_def rstrip4 pad4_def replicate2)
next
  case (3 a b)
  then show ?case using sextets [of a b 0] b64_nth(4) [of "b mod 16 * 4", THEN not_sym]
    by (simp add: urlsafe_b64encode_def rstrip4 pad4_def replicate2)
next
  case (4 a b c r)
  have s: "a < 256" "b < 256" "c < 256" "bytes r" using 4(2) by simp_all
  show ?case
    using 4(1) [OF s(4)] sextets [OF s(1-3)] b64_nth(4) [of "c mod 64", THEN not_sym]
    by (simp add: urlsafe_b64encode_def rstrip4 pad4_keep)
qed

lemma urlsafe_b64encode_chars:
  assumes "bytes bs" and "\<And>k. k < 64 \<Longrightarrow> P (url_char (b64_chars ! k))" and "P (CHR ''='')"
  shows "list_all P (urlsafe_b64encode bs)"
  using assms(1) unfolding urlsafe_b64encode_def
proof (induction bs rule: b64encode.induct)
  case (2 a)
  then show ?case using sextets [of a 0 0] assms(2,3) by simp
next
  case (3 a b)
  then show ?case using sextets [of a b 0] assms(2,3) by simp
next
  case (4 a b c r)
  then show ?case using sextets [of a b c] assms(2) by simp
qed simp

lemma std_url_b64encode: "bytes bs \<Longrightarrow> map std_char (urlsafe_b64encode bs) = b64encode bs"
  unfolding urlsafe_b64encode_def
proof (induction bs rule: b64encode.induct)
  case (2 a)
  then show ?case using sextets [of a 0 0] by simp
next
  case (3 a b)
  then show ?case using sextets [of a b 0] by simp
next
  case (4 a b c r)
  then show ?case using sextets [of a b c] by simp
qed simp

lemma set_rstrip_char: "set (rstrip_char c s) \<subseteq> set s"
  by (auto simp: rstrip_char_def dest: set_dropWhileD)

lemma list_all_rstrip: "list_all P s \<Longrightarrow> list_all P (rstrip_char c s)"
  using set_rstrip_char by (fastforce simp: list_all_iff)

lemma b64_round_trip:
  "bytes bs \<Longrightarrow> urlsafe_b64decode (pad4 (rstrip_char (CHR ''='') (urlsafe_b64encode bs))) = Inr bs"
  by (simp add: pad4_rstrip urlsafe_b64decode_def std_url_b64encode a2b_b64encode is_ascii_def
      urlsafe_b64encode_chars)

section \<open>Splitting\<close>

lemma split_max_free: "c \<notin> set x \<Longrightarrow> split_max c (Suc n) (x @ c # s) = x # split_max c n s"
  by (simp add: takeWhile_tail dropWhile_append)

section \<open>The fuel of the parser is enough\<close>

lemma length_skip_ws: "length (skip_ws s) \<le> length s"
  by (simp add: skip_ws_def length_dropWhile_le)

lemma cons_char_Some: "cons_char c r = Some (t, rest) \<longleftrightarrow> (\<exists>t'. r = Some (t', rest) \<and> t = c # t')"
  by (auto simp: cons_char_def)

lemma jstring_shorter: "jstring s = Some (t, r) \<Longrightarrow> length r < length s"
proof (induction s arbitrary: t r rule: jstring.induct)
  case (2 c s)
  show ?case
    using "2.prems" "2.IH"
    by (auto simp: cons_char_Some split: if_splits list.splits option.splits) fastforce+
qed simp

lemma take_frac_shorter: "take_frac s = (f, r) \<Longrightarrow> length r \<le> length s"
  by (auto simp: take_frac_def split: list.splits if_splits intro: le_SucI length_dropWhile_le)

lemma length_dropWhile_Suc: "length (dropWhile P s) \<le> Suc (length s)" "length (dropWhile P s) \<le> Suc (Suc (length s))"
  using length_dropWhile_le [of P s] by simp_all

lemma take_exp_shorter: "take_exp s = (f, r) \<Longrightarrow> length r \<le> length s"
  by (auto simp: take_exp_def Let_def length_dropWhile_Suc split: list.splits if_splits)

lemma jnumber_shorter: "jnumber fl s = Some (v, r) \<Longrightarrow> length r < length s"
proof -
  assume a: "jnumber fl s = Some (v, r)"
  define sgn where "sgn = (case s of c # _ \<Rightarrow> if c = CHR ''-'' then [c] else [] | [] \<Rightarrow> [])"
  define t where "t = drop (length sgn) s"
  define ip where "ip = int_part t"
  obtain fp r1 where f: "take_frac (drop (length ip) t) = (fp, r1)" by fastforce
  obtain ep r2 where e: "take_exp r1 = (ep, r2)" by fastforce
  have n: "ip \<noteq> []" and r: "r = r2"
    using a f e unfolding jnumber_def Let_def sgn_def [symmetric] t_def [symmetric] ip_def [symmetric]
    by (auto split: if_splits)
  have "length r2 \<le> length (drop (length ip) t)"
    using take_exp_shorter [OF e] take_frac_shorter [OF f] by simp
  moreover have "t \<noteq> []" using n by (auto simp: ip_def int_part_def)
  moreover have "length t \<le> length s" by (simp add: t_def)
  ultimately show "length r < length s" using n r by (cases ip; cases t) auto
qed

lemma tl_skip_ws: "length (tl (skip_ws r)) \<le> length r"
  using length_skip_ws [of r] by simp

lemma literal_shorter:
  "List.find (\<lambda>kv. startswith s (fst kv)) literals = Some (w, v) \<Longrightarrow> s \<noteq> [] \<Longrightarrow> length (drop (length w) s) < length s"
  using find_SomeD [of "\<lambda>kv. startswith s (fst kv)" literals "(w, v)"] by (auto simp: literals_def)

lemma parser_shorter:
  shows "jvalue fl n s = Some (v, r) \<Longrightarrow> length r < length s"
    and "jarray fl n s = Some (vs, r) \<Longrightarrow> length r < length s"
    and "jobject fl n s = Some (ps, r) \<Longrightarrow> length r < length s"
proof (induction fl n s and fl n s and fl n s arbitrary: v r and vs r and ps r rule: jvalue_jarray_jobject.induct)
  case (2 fl n s)
  show ?case
  proof (cases s)
    case (Cons c u)
    note lens = jstring_shorter [of u] tl_skip_ws [of u] length_skip_ws [of u] literal_shorter [of s] jnumber_shorter [of fl s]
    show ?thesis
    proof (cases "c = CHR 0x22 \<or> c = CHR ''['' \<or> c = CHR ''{''")
      case True
      show ?thesis
        using "2.prems" "2.IH" Cons lens True by (auto split: if_splits) fastforce+
    next
      case False
      then show ?thesis
        using "2.prems" Cons lens by (auto split: option.splits)
    qed
  qed (use "2.prems" in simp)
next
  case (4 fl n s)
  obtain v0 r0 where v0: "jvalue fl n s = Some (v0, r0)" using "4.prems" by (auto split: option.splits)
  then have l: "length r0 < length s" by (rule "4.IH"(1))
  obtain d r1 where d: "skip_ws r0 = d # r1" using "4.prems" v0 by (auto split: list.splits)
  have l1: "length r1 < length s" using l length_skip_ws [of r0] d by simp
  show ?case
  proof (cases "d = CHR '']''")
    case True
    then show ?thesis using "4.prems" v0 d l1 by simp
  next
    case False
    then obtain vs' where a: "d = CHR '',''" "jarray fl n (skip_ws r1) = Some (vs', r)"
      using "4.prems" v0 d by (auto split: if_splits)
    have "length r < length (skip_ws r1)"
      using "4.IH"(2) [OF v0 refl d False a(1) a(2)] .
    then show ?thesis using l1 length_skip_ws [of r1] by simp
  qed
next
  case (6 fl n s)
  obtain u where u: "s = CHR 0x22 # u" using "6.prems" by (auto split: list.splits if_splits)
  obtain k s2 where k: "jstring u = Some (k, s2)" using "6.prems" u by (auto split: option.splits)
  obtain s3 where s3: "skip_ws s2 = CHR '':'' # s3"
    using "6.prems" u k by (auto split: list.splits if_splits)
  obtain v0 r0 where v0: "jvalue fl n (skip_ws s3) = Some (v0, r0)"
    using "6.prems" u k s3 by (auto split: option.splits)
  obtain d r1 where d: "skip_ws r0 = d # r1" using "6.prems" u k s3 v0 by (auto split: list.splits)
  have "length r0 < length (skip_ws s3)"
    using "6.IH"(1) [OF u _ k refl s3 _ v0] by simp
  then have l1: "length r1 < length s"
    using jstring_shorter [OF k] length_skip_ws [of s2] length_skip_ws [of s3] length_skip_ws [of r0] u s3 d by simp
  show ?case
  proof (cases "d = CHR ''}''")
    case True
    then show ?thesis using "6.prems" u k s3 v0 d l1 by simp
  next
    case False
    then obtain ps' where a: "d = CHR '',''" "jobject fl n (skip_ws r1) = Some (ps', r)"
      using "6.prems" u k s3 v0 d by (auto split: if_splits)
    have "length r < length (skip_ws r1)"
      using "6.IH"(2) [OF u _ k refl s3 _ v0 refl d False a(1) a(2)] by simp
    then show ?thesis using l1 length_skip_ws [of r1] by simp
  qed
qed simp_all

lemma parser_fuel:
  "(2 * length s < n \<longrightarrow> 2 * length s < m \<longrightarrow> jvalue fl n s = jvalue fl m s)
   \<and> (2 * length s + 1 < n \<longrightarrow> 2 * length s + 1 < m \<longrightarrow>
        jarray fl n s = jarray fl m s \<and> jobject fl n s = jobject fl m s)"
proof (induction n arbitrary: s m)
  case (Suc n)
  show ?case
  proof (cases m)
    case (Suc k)
    have v: "jvalue fl n t = jvalue fl k t" if "length t \<le> length s" "2 * length s + 1 < Suc n" "2 * length s + 1 < m" for t
      using Suc.IH that Suc by simp
    have a: "jarray fl n t = jarray fl k t" "jobject fl n t = jobject fl k t"
      if "length t < length s" "2 * length s < Suc n" "2 * length s < m" for t
      using Suc.IH [of t k] that Suc by simp_all
    have jv: "jvalue fl (Suc n) s = jvalue fl m s" if "2 * length s < Suc n" "2 * length s < m"
    proof (cases s)
      case (Cons c u)
      have "length (skip_ws u) < length s" using length_skip_ws [of u] Cons by simp
      then show ?thesis using a [of "skip_ws u"] that Cons Suc by simp
    qed (simp add: Suc)
    have ja: "jarray fl (Suc n) s = jarray fl m s" if b: "2 * length s + 1 < Suc n" "2 * length s + 1 < m"
    proof -
      have e: "jvalue fl n s = jvalue fl k s" by (rule v) (use b in simp_all)
      have "jarray fl n (skip_ws r1) = jarray fl k (skip_ws r1)"
        if "jvalue fl k s = Some (v0, r0)" "skip_ws r0 = d # r1" for v0 r0 d r1
        using parser_shorter(1) [OF that(1)] length_skip_ws [of r0] length_skip_ws [of r1] that(2) b
        by (intro a(1)) simp_all
      then show ?thesis by (simp add: Suc e split: option.splits list.splits)
    qed
    have jo: "jobject fl (Suc n) s = jobject fl m s" if b: "2 * length s + 1 < Suc n" "2 * length s + 1 < m"
    proof (cases s)
      case (Cons q u)
      have l: "length (skip_ws s3) \<le> length s" if "jstring u = Some (kk, s2)" "skip_ws s2 = e # s3" for kk s2 e s3
        using jstring_shorter [OF that(1)] length_skip_ws [of s2] length_skip_ws [of s3] that(2) Cons by simp
      have e: "jvalue fl n (skip_ws s3) = jvalue fl k (skip_ws s3)"
        if "jstring u = Some (kk, s2)" "skip_ws s2 = e # s3" for kk s2 e s3
        by (rule v [OF l [OF that]]) (use b in simp_all)
      have "jobject fl n (skip_ws r1) = jobject fl k (skip_ws r1)"
        if "jstring u = Some (kk, s2)" "skip_ws s2 = e # s3" "jvalue fl k (skip_ws s3) = Some (v0, r0)"
          "skip_ws r0 = d # r1" for kk s2 e s3 v0 r0 d r1
        using l [OF that(1,2)] parser_shorter(1) [OF that(3)] length_skip_ws [of r0] length_skip_ws [of r1] that(4) b
        by (intro a(2)) simp_all
      with e show ?thesis by (simp add: Suc Cons split: option.splits list.splits)
    qed (simp add: Suc)
    show ?thesis using jv ja jo by simp
  qed simp
qed simp

lemma jvalue_fuel: "2 * length s < n \<Longrightarrow> jvalue fl n s = jvalue fl (2 * length s + 1) s"
  using parser_fuel [of s n "2 * length s + 1" fl] by simp

section \<open>Round trip of JSON\<close>

text \<open>Values without floats and decimals, the keys of every dictionary distinct.\<close>

function json_plain :: "pyval \<Rightarrow> bool" where
  "json_plain (PList xs) = list_all (\<lambda>b. b) (map json_plain xs)"
| "json_plain (PDict d) = (distinct (map fst d) \<and> list_all (\<lambda>b. b) (map (\<lambda>kv. json_plain (snd kv)) d))"
| "json_plain (PFloat r) = False" | "json_plain (PDec d) = False"
| "json_plain PNone = True" | "json_plain (PBool b) = True" | "json_plain (PInt i) = True"
| "json_plain (PStr s) = True"
  by pat_completeness auto
termination
proof (relation "measure size", goal_cases)
  case 1
  show ?case by simp
next
  case (2 xs x)
  then show ?case by (induction xs) auto
next
  case (3 d kv)
  then show ?case by (induction d) auto
qed

lemma hex_digit_all: "\<forall>k \<in> set [0..<16]. hex_nibble (hex_digit k) = Some k"
  by code_simp

lemma hex_nibble_digit: "k < 16 \<Longrightarrow> hex_nibble (hex_digit k) = Some k"
  using hex_digit_all by simp

lemma hex4_char: "hex4 (CHR ''0'') (CHR ''0'') (hex_digit (of_char c div 16)) (hex_digit (of_char c mod 16)) = Some (of_char c)"
proof -
  have "hex_nibble (CHR ''0'') = Some 0" by (simp add: hex_nibble_def)
  then show ?thesis by (simp add: hex4_def hex_nibble_digit of_char_hex)
qed

lemma of_char_eq: "(of_char c :: nat) = n \<Longrightarrow> c = char_of n"
  by auto

lemma jstring_json_char: "jstring (json_char c @ s) = cons_char c (jstring s)"
proof -
  have e: "json_escape (CHR 0x22) = Some (CHR 0x22)" "json_escape (CHR 0x5C) = Some (CHR 0x5C)"
    "json_escape (CHR ''n'') = Some (CHR 0x0A)" "json_escape (CHR ''r'') = Some (CHR 0x0D)"
    "json_escape (CHR ''t'') = Some (CHR 0x09)" "json_escape (CHR ''f'') = Some (CHR 0x0C)"
    "json_escape (CHR ''b'') = Some (CHR 0x08)"
    by (simp_all add: json_escape_def)
  have u: "(of_char c :: nat) < 256" using of_char_mod_256 [of c, where 'a = nat] by (metis mod_less_divisor zero_less_numeral)
  have "char_of (8 :: nat) = CHR 0x08" "char_of (9 :: nat) = CHR 0x09" "char_of (10 :: nat) = CHR 0x0A"
    "char_of (12 :: nat) = CHR 0x0C" "char_of (13 :: nat) = CHR 0x0D"
    by code_simp+
  then show ?thesis
    using u hex4_char [of c]
    by (auto simp: json_char_def Let_def e dest!: of_char_eq)
qed

lemma jstring_json: "jstring (concat (map json_char s) @ CHR 0x22 # rest) = Some (s, rest)"
  by (induction s) (simp_all add: jstring_json_char cons_char_def)

lemma show_nat_head:
  assumes "0 < n"
  shows "hd (show_nat n) \<noteq> CHR ''0''"
  using assms
proof (induction n rule: show_nat.induct)
  case (1 n)
  show ?case
  proof (cases "n < 10")
    case True
    then have "n \<in> {1, 2, 3, 4, 5, 6, 7, 8, 9}" using 1 by auto
    then show ?thesis by (subst show_nat.simps) (auto simp: digit_chars_def)
  next
    case False
    have "show_nat n = show_nat (n div 10) @ [digit_chars ! (n mod 10)]"
      by (subst show_nat.simps) (simp add: False)
    with 1 False show ?thesis by simp
  qed
qed

text \<open>What follows a value in the text of a larger one.\<close>

definition delim :: "string \<Rightarrow> bool" where
  "delim rest \<longleftrightarrow> rest = [] \<or> hd rest \<in> set '',]}''"

lemma delim_simps [simp]:
  "delim []" "delim (c # s) \<longleftrightarrow> c = CHR '','' \<or> c = CHR '']'' \<or> c = CHR ''}''"
  by (auto simp: delim_def)

lemma digits_delim: "delim rest \<Longrightarrow> takeWhile is_digit rest = [] \<and> take_frac rest = ([], rest) \<and> take_exp rest = ([], rest)"
proof (cases rest)
  case (Cons c u)
  assume "delim rest"
  then have "c = CHR '','' \<or> c = CHR '']'' \<or> c = CHR ''}''" using Cons by simp
  then have "\<not> is_digit c" "c \<noteq> CHR ''.''" "c \<noteq> CHR ''e''" "c \<noteq> CHR ''E''"
    by (auto simp: is_digit_def digit_chars_def)
  then show ?thesis by (simp add: Cons take_frac_def take_exp_def Let_def)
qed (simp add: take_frac_def take_exp_def)

lemma int_part_show_nat:
  assumes "delim rest"
  shows "int_part (show_nat n @ rest) = show_nat n"
proof (cases "n = 0")
  case True
  have "show_nat 0 = ''0''" by (subst show_nat.simps) (simp add: digit_chars_def)
  then show ?thesis by (simp add: int_part_def True)
next
  case False
  obtain c t where c: "show_nat n = c # t" using show_nat_ne [of n] by (cases "show_nat n") auto
  have "c \<noteq> CHR ''0''" using show_nat_head [of n] False c by simp
  moreover have "takeWhile is_digit (show_nat n @ rest) = show_nat n"
    using show_nat_digits [of n] digits_delim [OF assms] by (simp add: takeWhile_append2 list_all_iff)
  ultimately show ?thesis by (simp add: int_part_def c)
qed

lemma jnumber_int_part:
  assumes "delim rest" and "int_part (ds @ rest) = ds" and "ds \<noteq> []" and "hd ds \<noteq> CHR ''-''"
  shows "jnumber fl (ds @ rest) = Some (PInt (int (read_nat ds)), rest)"
    and "jnumber fl (CHR ''-'' # ds @ rest) = Some (PInt (- int (read_nat ds)), rest)"
proof -
  have "(case ds @ rest of c # _ \<Rightarrow> if c = CHR ''-'' then [c] else [] | [] \<Rightarrow> []) = ([] :: string)"
    using assms(3,4) by (cases ds) auto
  then show "jnumber fl (ds @ rest) = Some (PInt (int (read_nat ds)), rest)"
    using assms(2,3) digits_delim [OF assms(1)] by (simp add: jnumber_def Let_def)
  show "jnumber fl (CHR ''-'' # ds @ rest) = Some (PInt (- int (read_nat ds)), rest)"
    using assms(2,3) digits_delim [OF assms(1)] by (simp add: jnumber_def Let_def)
qed

lemma jnumber_nat:
  assumes "delim rest"
  shows "jnumber fl (show_nat n @ rest) = Some (PInt (int n), rest)"
    and "jnumber fl (CHR ''-'' # show_nat n @ rest) = Some (PInt (- int n), rest)"
proof -
  have "hd (show_nat n) \<noteq> CHR ''-''"
    using show_nat_digits [of n] show_nat_ne [of n] by (cases "show_nat n") auto
  note j = jnumber_int_part [OF assms int_part_show_nat [OF assms] show_nat_ne this, of fl]
  show "jnumber fl (show_nat n @ rest) = Some (PInt (int n), rest)" using j(1) by simp
  show "jnumber fl (CHR ''-'' # show_nat n @ rest) = Some (PInt (- int n), rest)" using j(2) by simp
qed

lemma show_nat_Cons: "\<exists>c t. show_nat n = c # t \<and> is_digit c"
  using show_nat_ne [of n] show_nat_digits [of n] by (cases "show_nat n") auto

text \<open>No value starts with white space or with the bracket that closes a list.\<close>

lemma json_start: "json_plain v \<Longrightarrow> json_compact v \<noteq> [] \<and> hd (json_compact v) \<notin> set [CHR '' '', CHR 0x09, CHR 0x0A, CHR 0x0D, CHR '']'']"
proof (cases v)
  case (PInt i)
  show ?thesis
    using show_nat_Cons [of "nat i"] PInt
    by (auto simp: show_int_def is_digit_def digit_chars_def)
qed (auto simp: json_str_def)

lemma skip_ws_value: "json_plain v \<Longrightarrow> skip_ws (json_compact v @ s) = json_compact v @ s"
  using json_start [of v] by (cases "json_compact v") (auto simp: skip_ws_def)

lemma skip_ws_delim: "delim rest \<Longrightarrow> skip_ws rest = rest"
  by (cases rest) (auto simp: skip_ws_def)

lemma startswith_Cons: "startswith (c # s) (d # p) \<longleftrightarrow> c = d \<and> startswith s p"
  by (auto simp: startswith_def)

lemma digit_distinct:
  "is_digit c \<Longrightarrow> c \<noteq> CHR 0x22 \<and> c \<noteq> CHR ''['' \<and> c \<noteq> CHR ''{'' \<and> c \<noteq> CHR ''n'' \<and> c \<noteq> CHR ''t'' \<and> c \<noteq> CHR ''f''
     \<and> c \<noteq> CHR ''N'' \<and> c \<noteq> CHR ''I'' \<and> c \<noteq> CHR ''-''"
  by (auto simp: is_digit_def digit_chars_def)

lemma jvalue_digit: "is_digit c \<Longrightarrow> jvalue fl (Suc n) (c # t) = jnumber fl (c # t)"
  "is_digit c \<Longrightarrow> jvalue fl (Suc n) (CHR ''-'' # c # t) = jnumber fl (CHR ''-'' # c # t)"
  using digit_distinct [of c] by (simp_all add: literals_def startswith_Cons)

lemma jvalue_int: "delim rest \<Longrightarrow> jvalue fl (Suc n) (show_int i @ rest) = Some (PInt i, rest)"
proof -
  assume r: "delim rest"
  obtain c t where c: "show_nat (nat i) = c # t" "is_digit c" using show_nat_Cons by blast
  obtain d u where d: "show_nat (nat (- i)) = d # u" "is_digit d" using show_nat_Cons by blast
  show ?thesis
  proof (cases "i < 0")
    case True
    then show ?thesis
      using jnumber_nat(2) [OF r, of fl "nat (- i)"] jvalue_digit(2) [OF d(2), of fl n "u @ rest"]
      by (simp add: show_int_def d(1))
  next
    case False
    then show ?thesis
      using jnumber_nat(1) [OF r, of fl "nat i"] jvalue_digit(1) [OF c(2), of fl n "t @ rest"]
      by (simp add: show_int_def c(1))
  qed
qed

lemma list_all_id_map: "list_all (\<lambda>b. b) (map f xs) \<longleftrightarrow> (\<forall>x \<in> set xs. f x)"
  by (simp add: list_all_iff)

lemma jarray_join:
  assumes "xs \<noteq> []" and "2 * length (join '','' (map json_compact xs)) + 3 \<le> n"
    and "\<And>x. x \<in> set xs \<Longrightarrow> json_plain x"
    and "\<And>x rest n. x \<in> set xs \<Longrightarrow> delim rest \<Longrightarrow> 2 * length (json_compact x) \<le> n \<Longrightarrow>
           jvalue fl n (json_compact x @ rest) = Some (x, rest)"
  shows "jarray fl n (join '','' (map json_compact xs) @ CHR '']'' # rest) = Some (xs, rest)"
  using assms
proof (induction xs arbitrary: n rule: induct_list012)
  case (2 x)
  then obtain m where "n = Suc m" "2 * length (json_compact x) \<le> m" by (cases n) auto
  with 2 show ?case by (simp add: skip_ws_delim)
next
  case (3 x y zs)
  obtain m where m: "n = Suc m" using "3.prems"(2) by (cases n) auto
  define rest' where "rest' = join '','' (map json_compact (y # zs)) @ CHR '']'' # rest"
  have j: "join '','' (map json_compact (x # y # zs)) @ CHR '']'' # rest = json_compact x @ CHR '','' # rest'"
    by (simp add: rest'_def)
  have v: "jvalue fl m (json_compact x @ CHR '','' # rest') = Some (x, CHR '','' # rest')"
    using "3.prems"(2,4) m by simp
  have "jarray fl m rest' = Some (y # zs, rest)"
    unfolding rest'_def by (rule "3.IH"(2)) (use "3.prems" m in \<open>auto\<close>)
  moreover have "skip_ws rest' = rest'"
    using skip_ws_value [of y] "3.prems"(3) by (cases zs) (simp_all add: rest'_def)
  ultimately show ?case unfolding j m by (simp add: v skip_ws_delim)
qed simp

definition member_text :: "string \<times> pyval \<Rightarrow> string" where
  "member_text kv = json_str (fst kv) @ '':'' @ json_compact (snd kv)"

lemma jobject_member:
  assumes "json_plain v" and "jvalue fl m (json_compact v @ s) = Some (v, s)" and "delim s"
  shows "jobject fl (Suc m) (member_text (k, v) @ s) = (case s of
      [] \<Rightarrow> None
    | d # s1 \<Rightarrow> if d = CHR ''}'' then Some ([(k, v)], s1)
        else if d = CHR '','' then map_option (\<lambda>(ps, r). ((k, v) # ps, r)) (jobject fl m (skip_ws s1)) else None)"
proof -
  have "jstring (concat (map json_char k) @ CHR 0x22 # CHR '':'' # json_compact v @ s) = Some (k, CHR '':'' # json_compact v @ s)"
    by (rule jstring_json)
  moreover have "skip_ws (CHR '':'' # json_compact v @ s) = CHR '':'' # json_compact v @ s" by (simp add: skip_ws_def)
  ultimately show ?thesis
    using assms by (simp add: member_text_def json_str_def skip_ws_value skip_ws_delim)
qed

lemma jobject_join:
  assumes "d \<noteq> []" and "2 * length (join '','' (map member_text d)) + 3 \<le> n"
    and "\<And>kv. kv \<in> set d \<Longrightarrow> json_plain (snd kv)"
    and "\<And>kv rest n. kv \<in> set d \<Longrightarrow> delim rest \<Longrightarrow> 2 * length (json_compact (snd kv)) \<le> n \<Longrightarrow>
           jvalue fl n (json_compact (snd kv) @ rest) = Some (snd kv, rest)"
  shows "jobject fl n (join '','' (map member_text d) @ CHR ''}'' # rest) = Some (d, rest)"
  using assms
proof (induction d arbitrary: n rule: induct_list012)
  case (2 kv)
  obtain m where m: "n = Suc m" "2 * length (json_compact (snd kv)) \<le> m"
    using "2.prems"(2) by (cases n) (auto simp: member_text_def)
  have "jobject fl n (member_text (fst kv, snd kv) @ CHR ''}'' # rest) = Some ([kv], rest)"
    unfolding m(1) by (subst jobject_member) (use "2.prems" m in auto)
  then show ?case by simp
next
  case (3 kv y zs)
  obtain m where m: "n = Suc m" using "3.prems"(2) by (cases n) auto
  define rest' where "rest' = join '','' (map member_text (y # zs)) @ CHR ''}'' # rest"
  have j: "join '','' (map member_text (kv # y # zs)) @ CHR ''}'' # rest = member_text (fst kv, snd kv) @ CHR '','' # rest'"
    by (simp add: rest'_def)
  have v: "jvalue fl m (json_compact (snd kv) @ CHR '','' # rest') = Some (snd kv, CHR '','' # rest')"
    using "3.prems"(2,4) m by (simp add: member_text_def)
  have a: "jobject fl m rest' = Some (y # zs, rest)"
    unfolding rest'_def by (rule "3.IH"(2)) (use "3.prems" m in \<open>auto\<close>)
  have s: "skip_ws rest' = rest'"
    by (cases zs) (simp_all add: rest'_def member_text_def json_str_def skip_ws_def)
  show ?case unfolding j m
    by (subst jobject_member) (use "3.prems"(3) v a s in auto)
qed simp

lemma dict_of_pairs_distinct: "distinct (map fst d) \<Longrightarrow> dict_of_pairs d = d"
proof (induction d rule: rev_induct)
  case (snoc kv d)
  have "AList.update k v d = d @ [(k, v)]" if "k \<notin> fst ` set d" for k v
    using that by (induction d) auto
  with snoc show ?case by (cases kv) (simp add: dict_of_pairs_def)
qed (simp add: dict_of_pairs_def)

lemma jvalue_compact:
  "json_plain v \<Longrightarrow> delim rest \<Longrightarrow> 2 * length (json_compact v) \<le> n \<Longrightarrow> jvalue fl n (json_compact v @ rest) = Some (v, rest)"
proof (induction v arbitrary: rest n rule: json_compact.induct)
  case (1 xs)
  obtain m where m: "n = Suc m" using "1.prems"(3) by (cases n) auto
  show ?case
  proof (cases "xs = []")
    case True
    then show ?thesis using m by (simp add: skip_ws_def startswith_Cons startswith_def)
  next
    case False
    have p: "\<And>x. x \<in> set xs \<Longrightarrow> json_plain x" using "1.prems"(1) by (simp add: list_all_id_map)
    define body where "body = join '','' (map json_compact xs) @ CHR '']'' # rest"
    obtain x ys where xs: "xs = x # ys" using False by (cases xs) auto
    have "jarray fl m body = Some (xs, rest)"
      unfolding body_def by (rule jarray_join [OF False _ p]) (use "1.IH" "1.prems"(3) m p in auto)
    moreover have "skip_ws body = body" "\<not> startswith body '']''"
      using json_start [OF p, of x] skip_ws_value [OF p, of x] xs
      by (cases ys; cases "json_compact x"; simp add: body_def startswith_Cons)+
    ultimately show ?thesis by (simp add: m body_def [symmetric])
  qed
next
  case (2 d)
  obtain m where m: "n = Suc m" using "2.prems"(3) by (cases n) auto
  have t: "map (\<lambda>kv. json_str (fst kv) @ '':'' @ json_compact (snd kv)) d = map member_text d"
    by (simp add: member_text_def)
  show ?case
  proof (cases "d = []")
    case True
    then show ?thesis using m by (simp add: skip_ws_def startswith_Cons startswith_def)
  next
    case False
    have p: "\<And>kv. kv \<in> set d \<Longrightarrow> json_plain (snd kv)" using "2.prems"(1) by (simp add: list_all_id_map)
    define body where "body = join '','' (map member_text d) @ CHR ''}'' # rest"
    have l: "2 * length (join '','' (map member_text d)) + 3 \<le> m"
      using "2.prems"(3) unfolding json_compact.simps t m by simp
    obtain x ys where xs: "d = x # ys" using False by (cases d) auto
    have "jobject fl m body = Some (d, rest)"
      unfolding body_def by (rule jobject_join [OF False l p]) (use "2.IH" p in auto)
    moreover have "skip_ws body = body" "\<not> startswith body ''}''"
      using xs by (cases ys; simp add: body_def startswith_Cons member_text_def json_str_def skip_ws_def)+
    moreover have "dict_of_pairs d = d" using "2.prems"(1) by (simp add: dict_of_pairs_distinct)
    moreover have "json_compact (PDict d) @ rest = CHR ''{'' # body"
      unfolding json_compact.simps t body_def by simp
    ultimately show ?thesis unfolding m by simp
  qed
next
  case 3
  then obtain m where "n = Suc m" by (cases n) auto
  then show ?case by (simp add: literals_def startswith_Cons startswith_def)
next
  case (4 b)
  then obtain m where "n = Suc m" by (cases n; cases b) auto
  then show ?case by (cases b) (simp_all add: literals_def startswith_Cons startswith_def)
next
  case (5 i)
  then obtain m where "n = Suc m" using show_nat_Cons [of "nat i"] by (cases n) (auto simp: show_int_def split: if_splits)
  then show ?case using 5 jvalue_int [of rest fl m i] by simp
next
  case (8 s)
  then obtain m where "n = Suc m" by (cases n) (auto simp: json_str_def)
  then show ?case using jstring_json [of s rest] by (simp add: json_str_def)
qed simp_all

theorem json_round_trip: "json_plain v \<Longrightarrow> json_loads fl (json_compact v) = Inr v"
proof -
  assume p: "json_plain v"
  have s: "skip_ws (json_compact v) = json_compact v" using skip_ws_value [OF p, of "[]"] by simp
  have "jvalue fl (2 * length (json_compact v) + 1) (json_compact v @ []) = Some (v, [])"
    by (rule jvalue_compact [OF p]) simp_all
  then have "jvalue fl (2 * length (json_compact v) + 1) (json_compact v) = Some (v, [])" by simp
  then show ?thesis by (simp only: json_loads_def Let_def s option.case prod.case) (simp add: skip_ws_def)
qed

end
