(* ===== verification/Security.thy ===== *)
theory Security
  imports Py_Json
begin

text \<open>
  Password hashes and signed tokens (\<open>core/security.py\<close>).

  \<open>auth_env\<close> is what the process is started with: the three settings the module reads, the
  random bytes of the operating system and the \<open>repr\<close> of a float; and the third-party code of the
  user services: the Fernet cipher, \<open>pyotp\<close> (a random secret, the provisioning URI, the code of a
  secret for an interval and a time) and the normal form \<open>email_validator\<close> gives an address. The
  bytes of one call of \<open>secrets.token_bytes\<close> are a function of a fresh draw from the session's supply. PBKDF2 is built
  on the HMAC of \<open>Py_Hmac\<close>. Times in a token are whole seconds; \<open>int(d.timestamp())\<close> is the exact
  truncation, which the interpreter's float is too until the year 2242.

  \<open>hashed_password_verifies\<close> and \<open>token_decodes\<close> are the round trips, \<open>accepted_token_is_signed\<close>
  says what an accepted token proves, \<open>foreign_characters_crash\<close> is a way to make the server fail.
\<close>

section \<open>Environment\<close>

record auth_env =
  jwt_secret_key :: string
  jwt_expires_minutes :: int
  secret_encryption_key :: string
  os_random :: "nat \<Rightarrow> string \<Rightarrow> nat list"
  float_repr :: "string \<Rightarrow> string"
  fernet :: cipher
  otp_random_base32 :: "string \<Rightarrow> string"
  otp_uri :: "string \<Rightarrow> string \<Rightarrow> string \<Rightarrow> string"
  otp_at :: "string \<Rightarrow> int \<Rightarrow> int \<Rightarrow> string result"
  email_normalized :: "string \<Rightarrow> string option"

definition token_bytes :: "auth_env \<Rightarrow> nat \<Rightarrow> nat list op" where
  "token_bytes env n = bnd new_uuid (\<lambda>i. ret (os_random env n i))"

section \<open>Encodings\<close>

definition b64_encode :: "nat list \<Rightarrow> string" where
  "b64_encode v = rstrip_char (CHR ''='') (urlsafe_b64encode v)"

definition b64_decode :: "string \<Rightarrow> nat list result" where
  "b64_decode v = urlsafe_b64decode (pad4 v)"

definition json_b64 :: "pyval \<Rightarrow> string" where
  "json_b64 v = b64_encode (encode (json_compact v))"

section \<open>Passwords\<close>

definition HASH_ITERATIONS :: int where "HASH_ITERATIONS = 390000"

definition xor_bytes :: "nat list \<Rightarrow> nat list \<Rightarrow> nat list" where
  "xor_bytes a b = map2 (\<lambda>x y. x XOR y) a b"

fun pbkdf2_rounds :: "nat list \<Rightarrow> nat \<Rightarrow> nat list \<Rightarrow> nat list \<Rightarrow> nat list" where
  "pbkdf2_rounds key 0 u acc = acc"
| "pbkdf2_rounds key (Suc n) u acc =
     (let u' = hmac_sha256 key u in pbkdf2_rounds key n u' (xor_bytes acc u'))"

text \<open>\<open>hashlib.pbkdf2_hmac("sha256", password, salt, iterations)\<close>: one block of 32 bytes.\<close>

definition pbkdf2_hmac :: "nat list \<Rightarrow> nat list \<Rightarrow> int \<Rightarrow> nat list result" where
  "pbkdf2_hmac password salt iterations =
     (if iterations < 1 then Inl (ValueError ''iteration value must be greater than 0.'')
      else if iterations > 2147483647 then Inl OverflowError
      else let u1 = hmac_sha256 password (salt @ [0, 0, 0, 1])
           in Inr (pbkdf2_rounds password (nat iterations - 1) u1 u1))"

definition hash_text :: "nat list \<Rightarrow> nat list \<Rightarrow> string" where
  "hash_text salt digest = ''pbkdf2_sha256$'' @ show_int HASH_ITERATIONS @ ''$'' @ b64_encode salt
     @ ''$'' @ b64_encode digest"

definition hash_password :: "auth_env \<Rightarrow> string \<Rightarrow> string op" where
  "hash_password env password =
     bnd (token_bytes env 16) (\<lambda>salt.
     bnd (lift_result (pbkdf2_hmac (encode password) salt HASH_ITERATIONS)) (\<lambda>digest.
       ret (hash_text salt digest)))"

definition int_text :: "string \<Rightarrow> int result" where
  "int_text s = (case py_int s of None \<Rightarrow> Inl (ValueError ''invalid literal for int()'') | Some i \<Rightarrow> Inr i)"

definition verify_password :: "string \<Rightarrow> string \<Rightarrow> bool result" where
  "verify_password password password_hash =
     (case split_max (CHR ''$'') 3 password_hash of
        [algorithm, iterations, salt, expected] \<Rightarrow>
          if algorithm \<noteq> ''pbkdf2_sha256'' then Inr False
          else bndr (b64_decode salt) (\<lambda>s. bndr (int_text iterations) (\<lambda>i.
               bndr (pbkdf2_hmac (encode password) s i) (\<lambda>digest.
                 compare_digest (b64_encode digest) expected)))
      | _ \<Rightarrow> Inr False)"

section \<open>Tokens\<close>

definition REAUTHENTICATION_TOKEN_MINUTES :: int where "REAUTHENTICATION_TOKEN_MINUTES = 5"

text \<open>\<open>int(d.timestamp())\<close> of the instant \<open>us\<close>: the fraction is cut off.\<close>

definition unix_seconds :: "int \<Rightarrow> int" where
  "unix_seconds us = (if epoch \<le> us then (us - epoch) div 1000000 else - ((epoch - us) div 1000000))"

definition sign :: "auth_env \<Rightarrow> string \<Rightarrow> string" where
  "sign env v = b64_encode (hmac_sha256 (encode (jwt_secret_key env)) (encode v))"

definition token_header :: pyval where
  "token_header = PDict [(''alg'', PStr ''HS256''), (''typ'', PStr ''JWT'')]"

definition token_payload :: "string \<Rightarrow> int \<Rightarrow> string \<Rightarrow> int \<Rightarrow> pydict" where
  "token_payload subject auth_version purpose expires_at =
     [(''sub'', PStr subject), (''ver'', PInt auth_version), (''purpose'', PStr purpose),
      (''exp'', PInt (unix_seconds expires_at))]"

definition token_text :: "auth_env \<Rightarrow> pydict \<Rightarrow> string" where
  "token_text env payload =
     (let signing_input = json_b64 token_header @ ''.'' @ json_b64 (PDict payload)
      in signing_input @ ''.'' @ sign env signing_input)"

definition create_token :: "auth_env \<Rightarrow> string \<Rightarrow> int \<Rightarrow> string \<Rightarrow> int \<Rightarrow> string op" where
  "create_token env subject auth_version purpose expires_delta =
     bnd (reads clock) (\<lambda>now.
       let expires_at = now + expires_delta in
       if 0 \<le> expires_at \<and> expires_at < dt_max
       then ret (token_text env (token_payload subject auth_version purpose expires_at))
       else raise OverflowError)"

text \<open>\<open>expires_delta or timedelta(minutes=...)\<close>: a zero interval counts as missing.\<close>

definition create_access_token :: "auth_env \<Rightarrow> string \<Rightarrow> int \<Rightarrow> int option \<Rightarrow> string op" where
  "create_access_token env subject auth_version expires_delta =
     (let token_lifetime = (case expires_delta of
            Some d \<Rightarrow> if d \<noteq> 0 then d else jwt_expires_minutes env * minute
          | None \<Rightarrow> jwt_expires_minutes env * minute)
      in create_token env subject auth_version ''access'' token_lifetime)"

definition create_reauthentication_token :: "auth_env \<Rightarrow> string \<Rightarrow> int \<Rightarrow> string op" where
  "create_reauthentication_token env subject auth_version =
     create_token env subject auth_version ''reauthentication'' (REAUTHENTICATION_TOKEN_MINUTES * minute)"

text \<open>\<open>int(v)\<close> of a value that came out of JSON.\<close>

definition dec_trunc :: "dec \<Rightarrow> int" where
  "dec_trunc d =
     (let m = (if dexp d \<ge> 0 then dcoef d * 10 ^ nat (dexp d) else dcoef d div 10 ^ nat (- dexp d))
      in if dneg d then - int m else int m)"

fun int_of_value :: "pyval \<Rightarrow> int result" where
  "int_of_value (PInt i) = Inr i"
| "int_of_value (PBool b) = Inr (if b then 1 else 0)"
| "int_of_value (PStr s) = int_text s"
| "int_of_value (PFloat r) = (case dec_parse r of
      Some (Finite d) \<Rightarrow> Inr (dec_trunc d)
    | Some (Infinity _) \<Rightarrow> Inl OverflowError
    | _ \<Rightarrow> Inl (ValueError ''cannot convert float NaN to integer''))"
| "int_of_value (PDec d) = Inr (dec_trunc d)"
| "int_of_value PNone = Inl TypeError"
| "int_of_value (PList xs) = Inl TypeError"
| "int_of_value (PDict d) = Inl TypeError"

text \<open>\<open>json.loads\<close> of bytes, on the ASCII texts that the server writes.\<close>

definition loads_bytes :: "auth_env \<Rightarrow> nat list \<Rightarrow> pyval result" where
  "loads_bytes env bs =
     (if list_all (\<lambda>b. b < 128) bs then json_loads (float_repr env) (map char_of bs)
      else Inl (ValueError ''text outside ASCII''))"

definition decode_access_token :: "auth_env \<Rightarrow> string \<Rightarrow> pydict option op" where
  "decode_access_token env token =
     (case split_max (CHR ''.'') 2 token of
        [header_b64, payload_b64, signature] \<Rightarrow>
          bnd (lift_result (compare_digest (sign env (header_b64 @ ''.'' @ payload_b64)) signature)) (\<lambda>ok.
          if \<not> ok then ret None
          else bnd (lift_result (bndr (b64_decode payload_b64) (loads_bytes env))) (\<lambda>payload.
               bnd (lift_result (bndr (val_get_or payload ''exp'' (PInt 0)) int_of_value)) (\<lambda>expires_at.
               bnd (reads clock) (\<lambda>now.
                 if expires_at < unix_seconds now then ret None
                 else ret (Some (mapping_or_empty payload))))))
      | _ \<Rightarrow> ret None)"

section \<open>Bytes of digests\<close>

lemma bytes_word_bytes: "bytes (word_bytes w)"
proof -
  have "unat (x AND 255 :: u32) < 256" for x
  proof -
    have "x AND 255 \<le> (255 :: u32)" by (rule word_and_le1)
    then show ?thesis by (simp add: word_le_nat_alt)
  qed
  then show ?thesis by (simp add: word_bytes_def)
qed

lemma bytes_sha256 [simp]: "bytes (sha256 m)"
  by (cases "sha_blocks sha_init (sha_pad m)") (simp add: sha256_def bytes_word_bytes)

lemma bytes_hmac [simp]: "bytes (hmac_sha256 key m)"
  by (simp add: hmac_sha256_def Let_def)

lemma bytes_xor [simp]: "bytes a \<Longrightarrow> bytes b \<Longrightarrow> bytes (xor_bytes a b)"
proof -
  have "(x XOR y) < 256" if "x < 256" "y < 256" for x y :: nat
    using that take_bit_nat_eq_self_iff [of 8 x] take_bit_nat_eq_self_iff [of 8 y]
      take_bit_nat_eq_self_iff [of 8 "x XOR y"] by (simp add: take_bit_xor)
  then show "bytes a \<Longrightarrow> bytes b \<Longrightarrow> bytes (xor_bytes a b)"
    by (auto simp: bytes_def xor_bytes_def list_all_iff) (blast dest: set_zip_leftD set_zip_rightD)
qed

lemma bytes_pbkdf2_rounds: "bytes acc \<Longrightarrow> bytes (pbkdf2_rounds key n u acc)"
  by (induction n arbitrary: u acc) (simp_all add: Let_def)

lemma bytes_pbkdf2: "pbkdf2_hmac p s i = Inr d \<Longrightarrow> bytes d"
  by (auto simp: pbkdf2_hmac_def Let_def bytes_pbkdf2_rounds split: if_splits)

lemma bytes_encode [simp]: "bytes (encode s)"
  by (simp add: bytes_def encode_def list_all_iff)

section \<open>Characters of the encodings\<close>

lemma b64_encode_chars:
  assumes "bytes bs"
  shows "is_ascii (b64_encode bs)" "CHR ''.'' \<notin> set (b64_encode bs)" "CHR ''$'' \<notin> set (b64_encode bs)"
proof -
  have "list_all (\<lambda>c. (of_char c :: nat) < 128 \<and> c \<noteq> CHR ''.'' \<and> c \<noteq> CHR ''$'') (b64_encode bs)"
    unfolding b64_encode_def by (intro list_all_rstrip urlsafe_b64encode_chars) (use assms in simp_all)
  then show "is_ascii (b64_encode bs)" "CHR ''.'' \<notin> set (b64_encode bs)" "CHR ''$'' \<notin> set (b64_encode bs)"
    by (auto simp: is_ascii_def list_all_iff)
qed

lemma b64_decode_encode: "bytes bs \<Longrightarrow> b64_decode (b64_encode bs) = Inr bs"
  by (simp add: b64_decode_def b64_encode_def b64_round_trip)

lemma sign_chars: "is_ascii (sign env v)" "CHR ''.'' \<notin> set (sign env v)"
  by (simp_all add: sign_def b64_encode_chars)

lemma json_b64_chars: "CHR ''.'' \<notin> set (json_b64 v)"
  by (simp add: json_b64_def b64_encode_chars)

section \<open>Round trips\<close>

lemma show_int_HASH: "show_int HASH_ITERATIONS = ''390000''"
  by (simp add: HASH_ITERATIONS_def show_int_def show_nat.simps digit_chars_def)

lemma py_int_HASH: "int_text ''390000'' = Inr 390000"
  by (simp add: int_text_def py_int_def strip_def lstrip_def is_space_def split_sign_def is_digit_def read_nat_def
      digit_val_def digit_chars_def)

lemma verify_hash_text:
  assumes "bytes salt" and "bytes digest"
  shows "verify_password p (hash_text salt digest) =
     bndr (pbkdf2_hmac (encode p) salt 390000) (\<lambda>d. Inr (b64_encode d = b64_encode digest))"
proof -
  have s: "split_max (CHR ''$'') 3 (hash_text salt digest) = [''pbkdf2_sha256'', ''390000'', b64_encode salt, b64_encode digest]"
    using split_max_free [of "CHR ''$''" "''pbkdf2_sha256''" 2 "''390000$'' @ b64_encode salt @ ''$'' @ b64_encode digest"]
      split_max_free [of "CHR ''$''" "''390000''" 1 "b64_encode salt @ ''$'' @ b64_encode digest"]
      split_max_free [of "CHR ''$''" "b64_encode salt" 0 "b64_encode digest"] b64_encode_chars(3) [OF assms(1)]
    by (simp add: hash_text_def show_int_HASH numeral_3_eq_3 numeral_2_eq_2)
  show ?thesis
    by (cases "pbkdf2_hmac (encode p) salt 390000")
      (simp_all add: verify_password_def s b64_decode_encode assms py_int_HASH compare_digest_def
        b64_encode_chars bytes_pbkdf2)
qed

lemma hash_password_apply:
  assumes "\<And>i. bytes (os_random env 16 i)"
  obtains h where "hash_password env p s = (Inr h, s\<lparr>uuid_next := Suc (uuid_next s)\<rparr>)"
    and "verify_password p h = Inr True"
proof -
  define salt where "salt = os_random env 16 (uuid_src s (uuid_next s))"
  have "\<exists>d. pbkdf2_hmac (encode p) salt HASH_ITERATIONS = Inr d"
    by (simp add: pbkdf2_hmac_def HASH_ITERATIONS_def Let_def)
  then obtain d where d: "pbkdf2_hmac (encode p) salt HASH_ITERATIONS = Inr d" by blast
  have "hash_password env p s = (Inr (hash_text salt d), s\<lparr>uuid_next := Suc (uuid_next s)\<rparr>)"
    by (simp add: hash_password_def token_bytes_def bnd_assoc d flip: salt_def)
  moreover have "bytes salt" "bytes d" using assms bytes_pbkdf2 [OF d] by (simp_all add: salt_def)
  then have "verify_password p (hash_text salt d) = Inr True"
    using d by (simp add: verify_hash_text HASH_ITERATIONS_def)
  ultimately show thesis by (rule that)
qed

lemma json_char_ascii: "is_ascii (json_char c)"
proof -
  have "(of_char (hex_digit k) :: nat) < 128" if "k < 16" for k
  proof -
    have "\<forall>k \<in> set [0..<16]. (of_char (hex_digit k) :: nat) < 128" by code_simp
    with that show ?thesis by simp
  qed
  then show ?thesis using of_char_hex [of c] by (simp add: json_char_def is_ascii_def Let_def)
qed

lemma is_ascii_append [simp]: "is_ascii (a @ b) \<longleftrightarrow> is_ascii a \<and> is_ascii b"
  "is_ascii (c # a) \<longleftrightarrow> (of_char c :: nat) < 128 \<and> is_ascii a" "is_ascii []"
  by (simp_all add: is_ascii_def)

lemma json_str_ascii: "is_ascii (json_str s)"
proof -
  have "is_ascii (concat (map json_char s))" by (induction s) (simp_all add: json_char_ascii)
  then show ?thesis by (simp add: json_str_def)
qed

lemma show_int_ascii: "is_ascii (show_int i)"
proof -
  have "\<forall>c \<in> set digit_chars. (of_char c :: nat) < 128" by (simp add: digit_chars_def)
  then have "is_ascii (show_nat n)" for n
    using show_nat_digits [of n] by (simp add: is_ascii_def list_all_iff is_digit_def)
  then show ?thesis by (simp add: show_int_def)
qed

lemma join_ascii: "\<forall>x \<in> set xs. is_ascii x \<Longrightarrow> is_ascii sep \<Longrightarrow> is_ascii (join sep xs)"
  by (induction sep xs rule: join.induct) simp_all

lemma json_compact_ascii: "json_plain v \<Longrightarrow> is_ascii (json_compact v)"
proof (induction v rule: json_compact.induct)
  case (1 xs)
  then show ?case by (auto simp: list_all_id_map intro!: join_ascii)
next
  case (2 d)
  then show ?case by (auto simp: list_all_id_map json_str_ascii intro!: join_ascii)
qed (simp_all add: json_str_ascii show_int_ascii)

lemma loads_json_b64: "json_plain v \<Longrightarrow> bndr (b64_decode (json_b64 v)) (loads_bytes env) = Inr v"
proof -
  assume p: "json_plain v"
  have "list_all (\<lambda>b. b < 128) (encode (json_compact v))"
    using json_compact_ascii [OF p] by (simp add: encode_def is_ascii_def list_all_iff)
  moreover have "map char_of (encode (json_compact v)) = json_compact v"
    by (simp add: encode_def comp_def)
  ultimately show ?thesis
    by (simp add: json_b64_def b64_decode_encode loads_bytes_def json_round_trip [OF p])
qed

lemma token_parts: "split_max (CHR ''.'') 2 (token_text env p) =
    [json_b64 token_header, json_b64 (PDict p), sign env (json_b64 token_header @ ''.'' @ json_b64 (PDict p))]"
  using split_max_free [OF json_b64_chars, of 1 token_header] split_max_free [OF json_b64_chars, of 0 "PDict p"]
  by (simp add: token_text_def Let_def numeral_2_eq_2)

lemma token_decodes:
  assumes "json_plain (PDict p)" and "dict_get_or p ''exp'' (PInt 0) = PInt x"
  shows "decode_access_token env (token_text env p) s = (Inr (if x < unix_seconds (clock s) then None else Some p), s)"
  using loads_json_b64 [OF assms(1), of env] assms(2)
  by (auto simp: decode_access_token_def token_parts compare_digest_def sign_chars mapping_or_empty_def)

lemma token_payload_plain: "json_plain (PDict (token_payload u v p x))"
  "dict_get_or (token_payload u v p x) ''exp'' (PInt 0) = PInt (unix_seconds x)"
  by (simp_all add: token_payload_def dict_get_or_def)

lemma create_token_apply:
  assumes "0 \<le> clock s + delta" and "clock s + delta < dt_max"
  shows "create_token env u v p delta s = (Inr (token_text env (token_payload u v p (clock s + delta))), s)"
  using assms by (simp add: create_token_def Let_def)

section \<open>What an accepted token proves\<close>

lemma split_first: "c \<in> set t \<Longrightarrow> t = takeWhile (\<lambda>x. x \<noteq> c) t @ c # tl (dropWhile (\<lambda>x. x \<noteq> c) t)"
  by (induction t) auto

lemma split_max_join: "split_max c 2 t = [h, p, g] \<Longrightarrow> t = h @ c # p @ c # g"
  using split_first [of c t] split_first [of c "tl (dropWhile (\<lambda>x. x \<noteq> c) t)"]
  by (simp add: numeral_2_eq_2 split: if_splits)

lemma decode_three:
  assumes "split_max (CHR ''.'') 2 t = [h, b, g]"
  shows "decode_access_token env t s =
    (if \<not> is_ascii g then (Inl TypeError, s) else if g \<noteq> sign env (h @ ''.'' @ b) then (Inr None, s)
     else case bndr (b64_decode b) (loads_bytes env) of
         Inl e \<Rightarrow> (Inl e, s)
       | Inr v \<Rightarrow> (case bndr (val_get_or v ''exp'' (PInt 0)) int_of_value of
             Inl e \<Rightarrow> (Inl e, s)
           | Inr x \<Rightarrow> (Inr (if x < unix_seconds (clock s) then None else Some (mapping_or_empty v)), s)))"
proof (cases "is_ascii g \<and> sign env (h @ ''.'' @ b) = g")
  case True
  then have g: "g = sign env (h @ ''.'' @ b)" by simp
  show ?thesis
    unfolding decode_access_token_def assms g
    by (simp add: compare_digest_def sign_chars del: bndr_eq_Inr split: sum.split)
next
  case False
  then show ?thesis
    unfolding decode_access_token_def assms by (auto simp: compare_digest_def sign_chars)
qed

lemma decode_other:
  "\<nexists>h b g. split_max (CHR ''.'') 2 t = [h, b, g] \<Longrightarrow> decode_access_token env t s = (Inr None, s)"
  unfolding decode_access_token_def
  by (cases "split_max (CHR ''.'') 2 t"; cases "tl (split_max (CHR ''.'') 2 t)"; cases "tl (tl (split_max (CHR ''.'') 2 t))";
      cases "tl (tl (tl (split_max (CHR ''.'') 2 t)))") simp_all

text \<open>The checks of a token whose signature is the right one.\<close>

definition checked_payload :: "auth_env \<Rightarrow> string \<Rightarrow> session \<Rightarrow> pydict option result" where
  "checked_payload env b s =
     bndr (bndr (b64_decode b) (loads_bytes env)) (\<lambda>v. bndr (bndr (val_get_or v ''exp'' (PInt 0)) int_of_value) (\<lambda>x.
       Inr (if x < unix_seconds (clock s) then None else Some (mapping_or_empty v))))"

lemma decode_signed:
  "split_max (CHR ''.'') 2 t = [h, b, g] \<Longrightarrow> decode_access_token env t s =
    (if \<not> is_ascii g then Inl TypeError else if g \<noteq> sign env (h @ ''.'' @ b) then Inr None
     else checked_payload env b s, s)"
  unfolding decode_three checked_payload_def bndr_def by (simp split: sum.split)

lemma checked_payload_Some:
  assumes "checked_payload env b s = Inr (Some p)"
  obtains x where "bndr (b64_decode b) (loads_bytes env) = Inr (PDict p)"
    "int_of_value (dict_get_or p ''exp'' (PInt 0)) = Inr x" "unix_seconds (clock s) \<le> x"
proof (cases "bndr (b64_decode b) (loads_bytes env)")
  case (Inl e)
  with assms show thesis by (simp only: checked_payload_def bndr_simps sum.simps)
next
  case v: (Inr v)
  show thesis
  proof (cases "bndr (val_get_or v ''exp'' (PInt 0)) int_of_value")
    case (Inl e)
    with assms v show thesis by (simp only: checked_payload_def bndr_simps sum.simps)
  next
    case x: (Inr x)
    have "(if x < unix_seconds (clock s) then None else Some (mapping_or_empty v)) = Some p"
      using assms v x by (simp only: checked_payload_def bndr_simps sum.simps)
    then have le: "unix_seconds (clock s) \<le> x" and p: "p = mapping_or_empty v" by (simp_all split: if_splits)
    obtain d where d: "v = PDict d" using x by (cases v) simp_all
    then have "p = d" using p by (simp add: mapping_or_empty_def)
    then show thesis using that [of x] v x le d by (simp only: val_get_or.simps bndr_simps)
  qed
qed

lemma decode_cases:
  assumes "decode_access_token env t s = (Inr (Some p), s')"
  obtains h b x where "t = h @ ''.'' @ b @ ''.'' @ sign env (h @ ''.'' @ b)" "s' = s"
    "bndr (b64_decode b) (loads_bytes env) = Inr (PDict p)"
    "int_of_value (dict_get_or p ''exp'' (PInt 0)) = Inr x" "unix_seconds (clock s) \<le> x"
proof -
  have "\<exists>h b g. split_max (CHR ''.'') 2 t = [h, b, g]"
  proof (rule ccontr)
    assume "\<nexists>h b g. split_max (CHR ''.'') 2 t = [h, b, g]"
    from decode_other [OF this, of env s] assms show False by simp
  qed
  then obtain h b g where t: "split_max (CHR ''.'') 2 t = [h, b, g]" by blast
  note d = decode_signed [OF t, of env s]
  have g: "g = sign env (h @ ''.'' @ b)" using assms d by (simp split: if_splits)
  have "decode_access_token env t s = (checked_payload env b s, s)" using d g sign_chars(1) by simp
  then have c: "checked_payload env b s = Inr (Some p)" "s' = s" using assms by auto
  from c(1) obtain x where x: "bndr (b64_decode b) (loads_bytes env) = Inr (PDict p)"
    "int_of_value (dict_get_or p ''exp'' (PInt 0)) = Inr x" "unix_seconds (clock s) \<le> x"
    by (rule checked_payload_Some)
  have "t = h @ ''.'' @ b @ ''.'' @ sign env (h @ ''.'' @ b)" using split_max_join [OF t] g by simp
  then show thesis using c(2) x by (rule that)
qed

lemma decode_state: "snd (decode_access_token env t s) = s"
proof (cases "\<exists>h b g. split_max (CHR ''.'') 2 t = [h, b, g]")
  case True
  then obtain h b g where "split_max (CHR ''.'') 2 t = [h, b, g]" by blast
  from decode_signed [OF this, of env s] show ?thesis by simp
qed (simp add: decode_other)

text \<open>
  A signature with a character outside ASCII is not refused: the comparison raises \<open>TypeError\<close>,
  which no caller catches.
\<close>

lemma foreign_signature:
  assumes "CHR ''.'' \<notin> set h" and "CHR ''.'' \<notin> set b" and "\<not> is_ascii g"
  shows "decode_access_token env (h @ ''.'' @ b @ ''.'' @ g) s = (Inl TypeError, s)"
proof -
  have "split_max (CHR ''.'') 2 (h @ ''.'' @ b @ ''.'' @ g) = [h, b, g]"
    using split_max_free [OF assms(1), of 1 "b @ ''.'' @ g"] split_max_free [OF assms(2), of 0 g]
    by (simp add: numeral_2_eq_2)
  with assms(3) show ?thesis by (simp add: decode_access_token_def compare_digest_def)
qed

end
