(* ===== verification/Users.thy ===== *)
theory Users
  imports Security Samples
begin

text \<open>
  Users, passwords and the second factor (\<open>services/users.py\<close>, \<open>services/mfa.py\<close>), the bootstrap of
  a super administrator (\<open>services/super_admin_bootstrap.py\<close>), the dependencies that authenticate a
  request (\<open>api/deps.py\<close>) and the routes on them (\<open>api/v1/auth.py\<close>, \<open>api/v1/users.py\<close>).

  An assignment to an attribute of the loaded \<open>User\<close> object is an update of its row; an operation
  that changes the object returns it in its new state. Where the code takes an optional \<open>now\<close>, the
  model takes the instant in microseconds.
\<close>

section \<open>The table of users\<close>

definition put_user :: "user \<Rightarrow> unit op" where
  "put_user u = upd (\<lambda>d. d\<lparr>users := t_put u_id u (users d)\<rparr>)"

definition find_user :: "string \<Rightarrow> db \<Rightarrow> user option" where
  "find_user user_id d = t_find (\<lambda>u. u_id u = user_id) (users d)"

definition get_user_by_id :: "string \<Rightarrow> user option op" where
  "get_user_by_id user_id = query (find_user user_id)"

text \<open>The query has no order: of several matches a database may return any, the model takes the first inserted. Where
  email addresses and user names do not overlap there is one match at most.\<close>

definition find_email_or_username :: "string \<Rightarrow> string \<Rightarrow> db \<Rightarrow> user option" where
  "find_email_or_username email username d =
     t_find (\<lambda>u. u_email u = email \<or> u_username u = username) (users d)"

text \<open>A new row with the column defaults.\<close>

definition new_user :: "string \<Rightarrow> string \<Rightarrow> string \<Rightarrow> user_role \<Rightarrow> string \<Rightarrow> user" where
  "new_user email username password_hash role i =
     \<lparr>u_id = i, u_email = email, u_username = username, u_password_hash = password_hash,
      u_auth_version = 0, u_mfa_enabled = False, u_mfa_secret_encrypted = None,
      u_mfa_pending_secret_encrypted = None, u_mfa_last_used_step = None,
      u_mfa_recovery_code_hashes = [], u_role = role, u_is_active = True\<rparr>"

definition add_user :: "user \<Rightarrow> unit op" where
  "add_user u = upd (\<lambda>d. d\<lparr>users := t_add u (users d)\<rparr>)"

section \<open>Second factor\<close>

definition TOTP_INTERVAL_SECONDS :: int where "TOTP_INTERVAL_SECONDS = 30"
definition TOTP_VALID_WINDOW :: int where "TOTP_VALID_WINDOW = 1"
definition RECOVERY_CODE_COUNT :: nat where "RECOVERY_CODE_COUNT = 8"

definition get_mfa_status :: "user \<Rightarrow> bool \<times> bool" where
  "get_mfa_status user = (u_mfa_enabled user, u_mfa_pending_secret_encrypted user \<noteq> None)"

text \<open>\<open>str.isdigit\<close>: the decimal digits and the superscripts one, two and three of Latin-1.\<close>

definition isdigit :: "string \<Rightarrow> bool" where
  "isdigit s \<longleftrightarrow> s \<noteq> [] \<and> list_all (\<lambda>c. is_digit c \<or> (of_char c :: nat) \<in> {178, 179, 185}) s"

definition normalize_recovery_code :: "string \<Rightarrow> string" where
  "normalize_recovery_code code = upper (replace '' '' [] (replace ''-'' [] code))"

definition hash_recovery_code :: "auth_env \<Rightarrow> string \<Rightarrow> string" where
  "hash_recovery_code env code =
     hexdigest (hmac_sha256 (encode (secret_encryption_key env)) (encode (normalize_recovery_code code)))"

definition generate_recovery_code :: "auth_env \<Rightarrow> string op" where
  "generate_recovery_code env =
     bnd (token_bytes env 8) (\<lambda>b.
       let v = upper (hexdigest b)
       in ret (join ''-'' (map (\<lambda>i. take 4 (drop (4 * i) v)) [0..<(length v + 3) div 4])))"

fun match_steps :: "auth_env \<Rightarrow> string \<Rightarrow> string \<Rightarrow> int option \<Rightarrow> int list \<Rightarrow> int option result" where
  "match_steps env secret code last_used_step [] = Inr None"
| "match_steps env secret code last_used_step (step # steps) =
     (if (case last_used_step of None \<Rightarrow> False | Some l \<Rightarrow> step \<le> l)
      then match_steps env secret code last_used_step steps
      else bndr (otp_at env secret TOTP_INTERVAL_SECONDS (step * TOTP_INTERVAL_SECONDS)) (\<lambda>expected.
           bndr (compare_digest expected code) (\<lambda>eq.
             if eq then Inr (Some step) else match_steps env secret code last_used_step steps)))"

definition match_totp :: "auth_env \<Rightarrow> string \<Rightarrow> string \<Rightarrow> int option \<Rightarrow> int \<Rightarrow> int option result" where
  "match_totp env secret code last_used_step now =
     (if length code \<noteq> 6 \<or> \<not> isdigit code then Inr None
      else let current_step = unix_seconds now div TOTP_INTERVAL_SECONDS
           in match_steps env secret code last_used_step
                (map (\<lambda>k. current_step + k) [- TOTP_VALID_WINDOW..TOTP_VALID_WINDOW]))"

definition instant :: "int option \<Rightarrow> session \<Rightarrow> int" where
  "instant now s = (case now of Some t \<Rightarrow> t | None \<Rightarrow> clock s)"

fun remaining_hashes :: "string \<Rightarrow> string list \<Rightarrow> string list result" where
  "remaining_hashes candidate [] = Inr []"
| "remaining_hashes candidate (h # hs) =
     bndr (compare_digest h candidate) (\<lambda>eq. bndr (remaining_hashes candidate hs) (\<lambda>rest.
       Inr (if eq then rest else h # rest)))"

definition verify_mfa_challenge :: "auth_env \<Rightarrow> user \<Rightarrow> string \<Rightarrow> int option \<Rightarrow> (bool \<times> user) op" where
  "verify_mfa_challenge env user code now =
     (case (u_mfa_enabled user, u_mfa_secret_encrypted user) of
        (True, Some encrypted) \<Rightarrow>
          if \<not> isdigit code then
            (let candidate_hash = hash_recovery_code env (normalize_recovery_code code) in
             bnd (lift_result (remaining_hashes candidate_hash (u_mfa_recovery_code_hashes user))) (\<lambda>remaining.
             if length remaining = length (u_mfa_recovery_code_hashes user) then ret (False, user)
             else let user' = user\<lparr>u_mfa_recovery_code_hashes := remaining\<rparr> in
               bnd (put_user user') (\<lambda>_.
               bnd (add_audit (u_id user) None ''user.mfa.recovery_code.used'' ''WARNING''
                     [(''user_id'', PStr (u_id user)), (''remaining_recovery_codes'', PInt (int (length remaining)))]) (\<lambda>_.
                 ret (True, user')))))
          else
            bnd (lift_result (decrypt_secret (fernet env) encrypted)) (\<lambda>secret.
            bnd (reads (instant now)) (\<lambda>t.
            bnd (lift_result (match_totp env secret code (u_mfa_last_used_step user) t)) (\<lambda>matched.
              case matched of
                None \<Rightarrow> ret (False, user)
              | Some step \<Rightarrow> let user' = user\<lparr>u_mfa_last_used_step := Some step\<rparr> in
                  bnd (put_user user') (\<lambda>_. ret (True, user')))))
      | _ \<Rightarrow> ret (False, user))"

definition start_mfa_enrollment :: "auth_env \<Rightarrow> user \<Rightarrow> string \<Rightarrow> (string \<times> string) op" where
  "start_mfa_enrollment env user issuer_name =
     (if u_mfa_enabled user then raise (MfaEnrollmentError ''mfa is already enabled'')
      else bnd new_uuid (\<lambda>draw. let secret = otp_random_base32 env draw in
           bnd (encrypt (fernet env) secret) (\<lambda>e.
           bnd (put_user (user\<lparr>u_mfa_pending_secret_encrypted := Some e\<rparr>)) (\<lambda>_.
           bnd (add_audit (u_id user) None ''user.mfa.enrollment.started'' ''INFO''
                 [(''user_id'', PStr (u_id user))]) (\<lambda>_.
           bnd commit (\<lambda>_. ret (secret, otp_uri env secret (u_email user) issuer_name)))))))"

definition confirm_mfa_enrollment :: "auth_env \<Rightarrow> user \<Rightarrow> string \<Rightarrow> int option \<Rightarrow> string list op" where
  "confirm_mfa_enrollment env user code now =
     (case (u_mfa_enabled user, u_mfa_pending_secret_encrypted user) of
        (False, Some encrypted) \<Rightarrow>
          bnd (lift_result (decrypt_secret (fernet env) encrypted)) (\<lambda>secret.
          bnd (reads (instant now)) (\<lambda>t.
          bnd (lift_result (match_totp env secret code None t)) (\<lambda>matched.
            case matched of
              None \<Rightarrow> raise (MfaVerificationError ''invalid mfa code'')
            | Some step \<Rightarrow>
                bnd (map_act (\<lambda>_. generate_recovery_code env) [0..<RECOVERY_CODE_COUNT]) (\<lambda>recovery_codes.
                let user' = user\<lparr>u_mfa_secret_encrypted := Some encrypted,
                      u_mfa_pending_secret_encrypted := None, u_mfa_enabled := True,
                      u_mfa_last_used_step := Some step,
                      u_mfa_recovery_code_hashes := map (hash_recovery_code env) recovery_codes,
                      u_auth_version := u_auth_version user + 1\<rparr> in
                bnd (put_user user') (\<lambda>_.
                bnd (add_audit (u_id user) None ''user.mfa.enabled'' ''WARNING''
                      [(''user_id'', PStr (u_id user)),
                       (''recovery_code_count'', PInt (int (length recovery_codes))),
                       (''new_auth_version'', PInt (u_auth_version user'))]) (\<lambda>_.
                bnd commit (\<lambda>_. ret recovery_codes)))))))
      | _ \<Rightarrow> raise (MfaEnrollmentError ''mfa enrollment is not pending''))"

definition disable_mfa :: "auth_env \<Rightarrow> user \<Rightarrow> string \<Rightarrow> int option \<Rightarrow> unit op" where
  "disable_mfa env user code now =
     (if \<not> u_mfa_enabled user then raise (MfaEnrollmentError ''mfa is not enabled'')
      else bnd (verify_mfa_challenge env user code now) (\<lambda>(ok, user1).
        if \<not> ok then raise (MfaVerificationError ''invalid mfa code'')
        else let user' = user1\<lparr>u_mfa_enabled := False, u_mfa_secret_encrypted := None,
                u_mfa_pending_secret_encrypted := None, u_mfa_last_used_step := None,
                u_mfa_recovery_code_hashes := [], u_auth_version := u_auth_version user1 + 1\<rparr> in
          bnd (put_user user') (\<lambda>_.
          bnd (add_audit (u_id user) None ''user.mfa.disabled'' ''CRITICAL''
                [(''user_id'', PStr (u_id user)), (''new_auth_version'', PInt (u_auth_version user'))]) (\<lambda>_.
            commit))))"

section \<open>Registration and passwords\<close>

definition create_user :: "auth_env \<Rightarrow> string \<Rightarrow> string \<Rightarrow> string \<Rightarrow> user op" where
  "create_user env email username password =
     bnd (query (find_email_or_username email username)) (\<lambda>existing.
       case existing of
         Some _ \<Rightarrow> raise (DuplicateUserError ''email or username already exists'')
       | None \<Rightarrow>
           bnd (hash_password env password) (\<lambda>password_hash.
           bnd new_uuid (\<lambda>i. let user = new_user email username password_hash NORMAL_USER i in
           bnd (add_user user) (\<lambda>_. bnd commit (\<lambda>_. ret user)))))"

definition authenticate_user ::
    "auth_env \<Rightarrow> string \<Rightarrow> string \<Rightarrow> string option \<Rightarrow> user option op" where
  "authenticate_user env username_or_email password mfa_code =
     bnd (query (find_email_or_username username_or_email username_or_email)) (\<lambda>found.
       case found of
         None \<Rightarrow> ret None
       | Some user \<Rightarrow>
           if \<not> u_is_active user then ret None
           else bnd (lift_result (verify_password password (u_password_hash user))) (\<lambda>ok.
             if \<not> ok then ret None
             else if u_mfa_enabled user then (case mfa_code of
                 None \<Rightarrow> raise (MfaRequiredError ''mfa code required'')
               | Some code \<Rightarrow>
                   bnd (verify_mfa_challenge env user code None) (\<lambda>(ok, user').
                     if \<not> ok then ret None else bnd commit (\<lambda>_. ret (Some user'))))
             else ret (Some user)))"

definition record_reauthentication :: "user \<Rightarrow> string \<Rightarrow> unit op" where
  "record_reauthentication user password =
     bnd (lift_result (verify_password password (u_password_hash user))) (\<lambda>ok.
       if \<not> ok then
         bnd (add_audit (u_id user) None ''user.reauthentication.failed'' ''WARNING''
               [(''user_id'', PStr (u_id user)), (''reason'', PStr ''invalid_password'')]) (\<lambda>_.
         bnd commit (\<lambda>_. raise (ReauthenticationError ''password reauthentication failed'')))
       else
         bnd (add_audit (u_id user) None ''user.reauthentication.succeeded'' ''INFO''
               [(''user_id'', PStr (u_id user))]) (\<lambda>_. commit))"

definition change_password :: "auth_env \<Rightarrow> user \<Rightarrow> string \<Rightarrow> string \<Rightarrow> unit op" where
  "change_password env user current_password new_password =
     bnd (lift_result (verify_password current_password (u_password_hash user))) (\<lambda>ok.
       if \<not> ok then raise (PasswordChangeError ''current password is invalid'')
       else bnd (lift_result (verify_password new_password (u_password_hash user))) (\<lambda>same.
         if same then raise (PasswordChangeError ''new password must differ from current password'')
         else bnd (hash_password env new_password) (\<lambda>h.
           let user' = user\<lparr>u_password_hash := h, u_auth_version := u_auth_version user + 1\<rparr> in
           bnd (put_user user') (\<lambda>_.
           bnd (add_audit (u_id user) None ''user.password.changed'' ''WARNING''
                 [(''user_id'', PStr (u_id user)), (''revoked_auth_version'', PInt (u_auth_version user' - 1)),
                  (''new_auth_version'', PInt (u_auth_version user'))]) (\<lambda>_.
             commit)))))"

section \<open>Super administrators\<close>

record bootstrap_result =
  br_user_id :: string
  br_email :: string
  br_username :: string

definition validated_email :: "auth_env \<Rightarrow> string \<Rightarrow> string result" where
  "validated_email env email = (case email_normalized env (strip email) of
      Some e \<Rightarrow> Inr e | None \<Rightarrow> Inl (SuperAdminInputError ''invalid email address''))"

definition bootstrap_super_admin ::
    "auth_env \<Rightarrow> string \<Rightarrow> string \<Rightarrow> string \<Rightarrow> bool \<Rightarrow> bootstrap_result op" where
  "bootstrap_super_admin env email username password enabled =
     (if \<not> enabled then raise (SuperAdminBootstrapDisabledError ''super admin bootstrap is disabled'')
      else bnd (lift_result (validated_email env email)) (\<lambda>normalized_email.
        let normalized_username = strip username in
        if \<not> (3 \<le> length normalized_username \<and> length normalized_username \<le> 80)
        then raise (SuperAdminInputError ''username must be between 3 and 80 characters'')
        else if length password < 16
        then raise (SuperAdminInputError ''super admin password must be at least 16 characters'')
        else bnd (query (find_email_or_username normalized_email normalized_username)) (\<lambda>existing.
          case existing of
            Some _ \<Rightarrow> raise (SuperAdminAlreadyExistsError ''email or username already exists'')
          | None \<Rightarrow>
              bnd (hash_password env password) (\<lambda>h.
              bnd new_uuid (\<lambda>i. let user = new_user normalized_email normalized_username h SUPER_ADMIN i in
              bnd (add_user user) (\<lambda>_. bnd flush (\<lambda>_.
              bnd (add_audit (u_id user) None ''super_admin.bootstrap.created'' ''CRITICAL''
                    [(''created_user_id'', PStr (u_id user)), (''username'', PStr (u_username user)),
                     (''source'', PStr ''server_cli'')]) (\<lambda>_.
              bnd commit (\<lambda>_. ret \<lparr>br_user_id = u_id user, br_email = u_email user,
                 br_username = u_username user\<rparr>)))))))))"

section \<open>Dependencies of the routes\<close>

text \<open>\<open>v == i\<close> for a value that came out of JSON and an integer.\<close>

fun eq_int :: "pyval \<Rightarrow> int \<Rightarrow> bool" where
  "eq_int (PInt i) n = (i = n)"
| "eq_int (PBool b) n = ((if b then 1 else 0) = n)"
| "eq_int (PFloat r) n = (case dec_parse r of
      Some (Finite d) \<Rightarrow> deq d (Dec (n < 0) (nat \<bar>n\<bar>) 0) | _ \<Rightarrow> False)"
| "eq_int (PDec d) n = deq d (Dec (n < 0) (nat \<bar>n\<bar>) 0)"
| "eq_int _ n = False"

definition unauthorized :: "string \<Rightarrow> 'a op" where
  "unauthorized detail = raise (HTTPException 401 [detail])"

definition get_current_user :: "auth_env \<Rightarrow> string \<Rightarrow> user op" where
  "get_current_user env token =
     bnd (decode_access_token env token) (\<lambda>decoded.
       case decoded of
         None \<Rightarrow> unauthorized ''invalid authentication token''
       | Some payload \<Rightarrow>
           if \<not> truthy (dict_get payload ''sub'') \<or> dict_get_or payload ''purpose'' (PStr ''access'') \<noteq> PStr ''access''
           then unauthorized ''invalid authentication token''
           else bnd (get_user_by_id (py_str (dict_get payload ''sub''))) (\<lambda>found.
             case found of
               None \<Rightarrow> unauthorized ''inactive or missing user''
             | Some user \<Rightarrow>
                 if \<not> u_is_active user then unauthorized ''inactive or missing user''
                 else if \<not> eq_int (dict_get payload ''ver'') (u_auth_version user)
                 then unauthorized ''authentication token has been revoked''
                 else ret user))"

definition get_current_admin_user :: "user \<Rightarrow> user op" where
  "get_current_admin_user current_user =
     (if u_role current_user \<notin> {SUPER_ADMIN, ADMIN} then raise (HTTPException 403 [''admin privileges required''])
      else ret current_user)"

definition get_current_super_admin_user :: "user \<Rightarrow> user op" where
  "get_current_super_admin_user current_user =
     (if u_role current_user \<noteq> SUPER_ADMIN then raise (HTTPException 403 [''super admin privileges required''])
      else ret current_user)"

definition get_reauthenticated_user :: "auth_env \<Rightarrow> user \<Rightarrow> string option \<Rightarrow> user op" where
  "get_reauthenticated_user env current_user x_reauth_token =
     bnd (decode_access_token env (case x_reauth_token of None \<Rightarrow> [] | Some t \<Rightarrow> t)) (\<lambda>decoded.
       case decoded of
         None \<Rightarrow> unauthorized ''recent password reauthentication required''
       | Some payload \<Rightarrow>
           if dict_get payload ''purpose'' \<noteq> PStr ''reauthentication''
              \<or> dict_get payload ''sub'' \<noteq> PStr (u_id current_user)
              \<or> \<not> eq_int (dict_get payload ''ver'') (u_auth_version current_user)
           then unauthorized ''recent password reauthentication required''
           else ret current_user)"

text \<open>The chain of dependencies in front of a route.\<close>

definition as_user :: "auth_env \<Rightarrow> string \<Rightarrow> (user \<Rightarrow> 'a op) \<Rightarrow> 'a op" where
  "as_user env token route = bnd (get_current_user env token) route"

definition as_reauthenticated :: "auth_env \<Rightarrow> string \<Rightarrow> string option \<Rightarrow> (user \<Rightarrow> 'a op) \<Rightarrow> 'a op" where
  "as_reauthenticated env token x_reauth_token route =
     as_user env token (\<lambda>u. bnd (get_reauthenticated_user env u x_reauth_token) route)"

section \<open>Routes\<close>

record user_response =
  ur_id :: string
  ur_email :: string
  ur_username :: string
  ur_role :: user_role
  ur_is_active :: bool

definition to_user_response :: "user \<Rightarrow> user_response" where
  "to_user_response u = \<lparr>ur_id = u_id u, ur_email = u_email u, ur_username = u_username u,
     ur_role = u_role u, ur_is_active = u_is_active u\<rparr>"

record register_request =
  rr_email :: string
  rr_username :: string
  rr_password :: string

record login_request =
  lr_username_or_email :: string
  lr_password :: string
  lr_mfa_code :: "string option"

record token_response =
  tk_access_token :: string
  tk_token_type :: string

record reauthentication_response =
  re_reauthentication_token :: string
  re_expires_in_seconds :: int

record mfa_enrollment_response =
  me_provisioning_uri :: string
  me_manual_entry_key :: string

text \<open>The \<open>except\<close> clauses: the exception class that is answered with an HTTP error.\<close>

definition on_duplicate :: "py_exc \<Rightarrow> 'a op option" where
  "on_duplicate e = (case e of DuplicateUserError m \<Rightarrow> Some (raise (HTTPException 409 [m])) | _ \<Rightarrow> None)"

definition on_mfa_required :: "py_exc \<Rightarrow> 'a op option" where
  "on_mfa_required e = (case e of MfaRequiredError m \<Rightarrow> Some (unauthorized ''mfa code required'') | _ \<Rightarrow> None)"

definition on_reauthentication :: "py_exc \<Rightarrow> 'a op option" where
  "on_reauthentication e = (case e of
      ReauthenticationError m \<Rightarrow> Some (unauthorized ''password reauthentication failed'') | _ \<Rightarrow> None)"

definition on_password_change :: "py_exc \<Rightarrow> 'a op option" where
  "on_password_change e = (case e of
      PasswordChangeError m \<Rightarrow> Some (raise (HTTPException 400 [''password change rejected''])) | _ \<Rightarrow> None)"

definition on_enrollment :: "py_exc \<Rightarrow> 'a op option" where
  "on_enrollment e = (case e of
      MfaEnrollmentError m \<Rightarrow> Some (raise (HTTPException 409 [''mfa enrollment rejected''])) | _ \<Rightarrow> None)"

definition on_mfa_error :: "string \<Rightarrow> py_exc \<Rightarrow> 'a op option" where
  "on_mfa_error detail e = (case e of
      MfaEnrollmentError m \<Rightarrow> Some (raise (HTTPException 400 [detail]))
    | MfaVerificationError m \<Rightarrow> Some (raise (HTTPException 400 [detail]))
    | _ \<Rightarrow> None)"

definition register :: "auth_env \<Rightarrow> register_request \<Rightarrow> user_response op" where
  "register env payload =
     bnd (try_except (create_user env (rr_email payload) (rr_username payload) (rr_password payload)) on_duplicate)
       (\<lambda>user. ret (to_user_response user))"

definition login :: "auth_env \<Rightarrow> login_request \<Rightarrow> token_response op" where
  "login env payload =
     bnd (try_except (authenticate_user env (lr_username_or_email payload) (lr_password payload)
            (lr_mfa_code payload)) on_mfa_required) (\<lambda>found.
       case found of
         None \<Rightarrow> unauthorized ''invalid username/email, password, or mfa code''
       | Some user \<Rightarrow>
           bnd (create_access_token env (u_id user) (u_auth_version user) None) (\<lambda>t.
             ret \<lparr>tk_access_token = t, tk_token_type = ''bearer''\<rparr>))"

definition reauthenticate :: "auth_env \<Rightarrow> string \<Rightarrow> user \<Rightarrow> reauthentication_response op" where
  "reauthenticate env password current_user =
     bnd (try_except (record_reauthentication current_user password) on_reauthentication) (\<lambda>_.
     bnd (create_reauthentication_token env (u_id current_user) (u_auth_version current_user)) (\<lambda>t.
       ret \<lparr>re_reauthentication_token = t, re_expires_in_seconds = 300\<rparr>))"

definition read_me :: "user \<Rightarrow> user_response op" where
  "read_me current_user = ret (to_user_response current_user)"

definition update_password :: "auth_env \<Rightarrow> string \<Rightarrow> string \<Rightarrow> user \<Rightarrow> bool op" where
  "update_password env current_password new_password current_user =
     bnd (try_except (change_password env current_user current_password new_password) on_password_change)
       (\<lambda>_. ret True)"

definition require_super_admin_user :: "user \<Rightarrow> unit op" where
  "require_super_admin_user user =
     (if u_role user \<noteq> SUPER_ADMIN then raise (HTTPException 403 [''super admin privileges required'']) else ret ())"

definition read_mfa_status :: "user \<Rightarrow> (bool \<times> bool) op" where
  "read_mfa_status current_user = ret (get_mfa_status current_user)"

definition enroll_mfa :: "auth_env \<Rightarrow> user \<Rightarrow> mfa_enrollment_response op" where
  "enroll_mfa env current_user =
     bnd (require_super_admin_user current_user) (\<lambda>_.
     bnd (try_except (start_mfa_enrollment env current_user ''Crypto Trading Platform'') on_enrollment) (\<lambda>(secret, uri).
       ret \<lparr>me_provisioning_uri = uri, me_manual_entry_key = secret\<rparr>))"

definition confirm_mfa :: "auth_env \<Rightarrow> string \<Rightarrow> user \<Rightarrow> (bool \<times> string list) op" where
  "confirm_mfa env code current_user =
     bnd (require_super_admin_user current_user) (\<lambda>_.
     bnd (try_except (confirm_mfa_enrollment env current_user code None) (on_mfa_error ''mfa confirmation rejected''))
       (\<lambda>recovery_codes. ret (True, recovery_codes)))"

definition remove_mfa :: "auth_env \<Rightarrow> string \<Rightarrow> user \<Rightarrow> bool op" where
  "remove_mfa env code current_user =
     bnd (require_super_admin_user current_user) (\<lambda>_.
     bnd (try_except (disable_mfa env current_user code None) (on_mfa_error ''mfa disable rejected''))
       (\<lambda>_. ret True))"

end
