(* ===== verification/User_Access.thy ===== *)
theory User_Access
  imports Users
begin

text \<open>
  What the operations of \<open>Users\<close> guarantee: who a token stands for, when it stops being accepted,
  when a second factor is accepted, and what the operations keep of the table of users.
\<close>

section \<open>Tokens\<close>

lemma eq_int_PInt [simp]: "eq_int (PInt i) n \<longleftrightarrow> i = n"
  by simp

lemma get_current_user_token:
  assumes "find_user u (work s) = Some r" and "u_is_active r" and "u \<noteq> []"
    and "unix_seconds (clock s) \<le> unix_seconds x"
  shows "get_current_user env (token_text env (token_payload u v ''access'' x)) s =
     (if v = u_auth_version r then (Inr r, s) else (Inl (HTTPException 401 [''authentication token has been revoked'']), s))"
proof -
  note d = token_decodes [OF token_payload_plain, of env u v "''access''" x s]
  show ?thesis
    unfolding get_current_user_def bnd_Inr [where m = "decode_access_token env (token_text env (token_payload u v ''access'' x))", OF d]
    using assms by (simp add: token_payload_def dict_get_or_def get_user_by_id_def unauthorized_def)
qed

lemma get_current_user_cases:
  assumes "get_current_user env t s = (Inr u, s')"
  obtains h b p x where "t = h @ ''.'' @ b @ ''.'' @ sign env (h @ ''.'' @ b)" "s' = s"
    "bndr (b64_decode b) (loads_bytes env) = Inr (PDict p)"
    "dict_get_or p ''purpose'' (PStr ''access'') = PStr ''access''"
    "int_of_value (dict_get_or p ''exp'' (PInt 0)) = Inr x" "unix_seconds (clock s) \<le> x"
    "find_user (py_str (dict_get p ''sub'')) (work s) = Some u" "u_is_active u"
    "eq_int (dict_get p ''ver'') (u_auth_version u)" "decode_access_token env t s = (Inr (Some p), s)"
proof -
  obtain r where r: "decode_access_token env t s = (r, s)" using decode_state [of env t s] by (metis prod.collapse)
  have "\<exists>p. r = Inr (Some p)"
    using assms r by (cases r) (auto simp: get_current_user_def unauthorized_def bnd_def split: option.splits)
  then obtain p where p: "r = Inr (Some p)" by blast
  have d: "decode_access_token env t s = (Inr (Some p), s)" using r p by simp
  obtain h b x where c: "t = h @ ''.'' @ b @ ''.'' @ sign env (h @ ''.'' @ b)"
    "bndr (b64_decode b) (loads_bytes env) = Inr (PDict p)"
    "int_of_value (dict_get_or p ''exp'' (PInt 0)) = Inr x" "unix_seconds (clock s) \<le> x"
    using d by (rule decode_cases)
  have "dict_get_or p ''purpose'' (PStr ''access'') = PStr ''access''" "s' = s" "u_is_active u"
    "find_user (py_str (dict_get p ''sub'')) (work s) = Some u" "eq_int (dict_get p ''ver'') (u_auth_version u)"
    using assms unfolding get_current_user_def bnd_Inr [where m = "decode_access_token env t", OF d]
    by (auto simp: unauthorized_def get_user_by_id_def split: if_splits option.splits)
  then show thesis using that c d by blast
qed

section \<open>Requests and reachable states\<close>

text \<open>
  The requests of the two routers. A request runs in the session of the moment, its answer is
  discarded and the session is closed, which drops what was not committed. Between requests the
  clock goes on.
\<close>

datatype user_request =
    Register register_request
  | Login login_request
  | Reauthenticate string string
  | ReadMe string
  | UpdatePassword string string string
  | ReadMfaStatus string
  | EnrollMfa string "string option"
  | ConfirmMfa string "string option" string
  | RemoveMfa string "string option" string

definition answer :: "'a op \<Rightarrow> unit op" where
  "answer m = bnd m (\<lambda>_. ret ())"

fun serve :: "auth_env \<Rightarrow> user_request \<Rightarrow> unit op" where
  "serve env (Register q) = answer (register env q)"
| "serve env (Login q) = answer (login env q)"
| "serve env (Reauthenticate token password) = answer (as_user env token (reauthenticate env password))"
| "serve env (ReadMe token) = answer (as_user env token read_me)"
| "serve env (UpdatePassword token cur new) = answer (as_user env token (update_password env cur new))"
| "serve env (ReadMfaStatus token) = answer (as_user env token read_mfa_status)"
| "serve env (EnrollMfa token reauth) = answer (as_reauthenticated env token reauth (enroll_mfa env))"
| "serve env (ConfirmMfa token reauth code) = answer (as_reauthenticated env token reauth (confirm_mfa env code))"
| "serve env (RemoveMfa token reauth code) = answer (as_reauthenticated env token reauth (remove_mfa env code))"

inductive user_traffic :: "auth_env \<Rightarrow> session \<Rightarrow> session \<Rightarrow> bool" for env s where
  start: "user_traffic env s s"
| request: "user_traffic env s t \<Longrightarrow> user_traffic env s (close (snd (serve env q t)))"
| tick: "user_traffic env s t \<Longrightarrow> clock t \<le> c \<Longrightarrow> user_traffic env s (t\<lparr>clock := c\<rparr>)"

text \<open>
  A sequence of requests in which no user of \<open>L\<close> confirms an enrollment of a second factor; which user a
  request is for is decided by its token when it is served.
\<close>

definition confirms :: "auth_env \<Rightarrow> user_request \<Rightarrow> session \<Rightarrow> string \<Rightarrow> bool" where
  "confirms env q t i \<longleftrightarrow> (\<exists>token reauth code u. q = ConfirmMfa token reauth code
     \<and> fst (get_current_user env token t) = Inr u \<and> u_id u = i)"

inductive traffic_sparing :: "auth_env \<Rightarrow> string set \<Rightarrow> session \<Rightarrow> session \<Rightarrow> bool" for env L s where
  spared_start: "traffic_sparing env L s s"
| spared_request: "traffic_sparing env L s t \<Longrightarrow> \<not> (\<exists>i \<in> L. confirms env q t i) \<Longrightarrow>
    traffic_sparing env L s (close (snd (serve env q t)))"
| spared_tick: "traffic_sparing env L s t \<Longrightarrow> clock t \<le> c \<Longrightarrow> traffic_sparing env L s (t\<lparr>clock := c\<rparr>)"

lemma user_traffic_spared: "user_traffic env s t \<Longrightarrow> traffic_sparing env {} s t"
proof (induction rule: user_traffic.induct)
  case (request t q)
  show ?case by (rule spared_request [OF request.IH]) simp
qed (auto intro: traffic_sparing.intros)

text \<open>Every \<open>except\<close> clause ends in another exception.\<close>

lemma handlers_raise:
  "on_duplicate e = Some k1 \<Longrightarrow> \<exists>x. k1 = raise x"
  "on_mfa_required e = Some k2 \<Longrightarrow> \<exists>x. k2 = raise x"
  "on_reauthentication e = Some k3 \<Longrightarrow> \<exists>x. k3 = raise x"
  "on_password_change e = Some k4 \<Longrightarrow> \<exists>x. k4 = raise x"
  "on_enrollment e = Some k5 \<Longrightarrow> \<exists>x. k5 = raise x"
  "on_mfa_error m e = Some k6 \<Longrightarrow> \<exists>x. k6 = raise x"
  unfolding on_duplicate_def on_mfa_required_def on_reauthentication_def on_password_change_def
    on_enrollment_def on_mfa_error_def unauthorized_def
  by (cases e; simp only: py_exc.case option.distinct option.inject; blast)+

section \<open>Properties of every user\<close>

text \<open>
  A property \<open>Q\<close> of users that holds of every row and of every row a registration could still
  add.
\<close>

definition row_inv :: "(user \<Rightarrow> bool) \<Rightarrow> db_pred" where
  "row_inv Q src n d \<longleftrightarrow> (\<forall>u \<in> set (t_all (users d)). Q u)
     \<and> (\<forall>k \<ge> n. \<forall>e m h. Q (new_user e m h NORMAL_USER (src k)))"

interpretation row_inv: db_invariant "row_inv Q" for Q
  by unfold_locales (auto simp: row_inv_def)

lemma preserves_add_audit_users [preserves_rules]:
  "preserves (row_inv Q) (add_audit u a act sev p)"
  unfolding add_audit_def Let_def
  by (intro preserves_rules row_inv.preserves_new_uuid preserves_upd) (simp add: row_inv_def)

lemma preserves_put_user: "Q u \<Longrightarrow> preserves (row_inv Q) (put_user u)"
  unfolding put_user_def by (rule preserves_upd) (auto simp: row_inv_def t_all_put)

lemma preserves_token_bytes [preserves_rules]: "preserves (row_inv Q) (token_bytes env n)"
  unfolding token_bytes_def by (intro preserves_rules row_inv.preserves_new_uuid)

lemma preserves_hash_password [preserves_rules]: "preserves (row_inv Q) (hash_password env p)"
  unfolding hash_password_def by (intro preserves_rules)

lemma preserves_decode [preserves_rules]: "preserves J (decode_access_token env t)"
  by (rule preservesI) (metis decode_state snd_conv)

lemma preserves_unauthorized [preserves_rules]: "preserves J (unauthorized m)"
  unfolding unauthorized_def by (rule preserves_raise)

lemma preserves_create_token [preserves_rules]: "preserves J (create_token env u v p d)"
  unfolding create_token_def Let_def by (intro preserves_rules)

lemma preserves_bnd_row:
  assumes "preserves (row_inv Q) m" and "\<And>u. Q u \<Longrightarrow> preserves (row_inv Q) (f u)"
    and "\<And>s u s'. m s = (Inr u, s') \<Longrightarrow> u \<in> set (t_all (users (work s')))"
  shows "preserves (row_inv Q) (bnd m f)"
  by (rule preserves_bnd_dep [OF assms(1)]) (auto simp: both_def row_inv_def intro!: assms(2) dest!: assms(3))

lemma find_user_row: "find_user i d = Some u \<Longrightarrow> u \<in> set (t_all (users d)) \<and> u_id u = i"
  using t_find_SomeD [of "\<lambda>u. u_id u = i" "users d" u] by (simp add: find_user_def t_all_def)

lemma get_current_user_row: "get_current_user env t s = (Inr u, s') \<Longrightarrow> u \<in> set (t_all (users (work s')))"
  by (erule get_current_user_cases) (blast dest: find_user_row)

lemma preserves_get_current_user [preserves_rules]: "preserves J (get_current_user env t)"
  unfolding get_current_user_def get_user_by_id_def by (intro preserves_rules)

lemma preserves_as_user: "(\<And>u. Q u \<Longrightarrow> preserves (row_inv Q) (f u)) \<Longrightarrow> preserves (row_inv Q) (as_user env t f)"
  unfolding as_user_def by (rule preserves_bnd_row [OF preserves_get_current_user _ get_current_user_row])

lemma reauthenticated_same:
  "bnd (get_reauthenticated_user env u x) f = bnd (get_reauthenticated_user env u x) (\<lambda>_. f u)"
  by (rule ext) (auto simp: get_reauthenticated_user_def bnd_def unauthorized_def split: sum.splits option.splits prod.splits)

lemma preserves_as_reauthenticated:
  assumes "\<And>u. Q u \<Longrightarrow> preserves (row_inv Q) (f u)"
  shows "preserves (row_inv Q) (as_reauthenticated env t x f)"
proof -
  have "preserves (row_inv Q) (bnd (get_reauthenticated_user env u x) f)" if "Q u" for u
    unfolding reauthenticated_same [of env u x f]
    unfolding get_reauthenticated_user_def
    using assms [OF that] by (auto intro!: preserves_rules)
  then show ?thesis unfolding as_reauthenticated_def by (rule preserves_as_user)
qed

lemma as_reauthenticated_cong:
  assumes "\<And>u. fst (get_current_user env token t) = Inr u \<Longrightarrow> f u = g u"
  shows "as_reauthenticated env token x f t = as_reauthenticated env token x g t"
proof (cases "fst (get_current_user env token t)")
  case (Inr u)
  have "bnd (get_reauthenticated_user env u x) f = bnd (get_reauthenticated_user env u x) g"
    using reauthenticated_same [of env u x f] reauthenticated_same [of env u x g] assms [OF Inr] by simp
  with Inr show ?thesis
    by (cases "get_current_user env token t") (simp add: as_reauthenticated_def as_user_def bnd_def)
next
  case (Inl e)
  then show ?thesis
    by (cases "get_current_user env token t") (simp add: as_reauthenticated_def as_user_def bnd_def)
qed

lemma match_steps_Some:
  "match_steps env secret code lst steps = Inr (Some k) \<Longrightarrow>
     k \<in> set steps \<and> (\<forall>l. lst = Some l \<longrightarrow> l < k) \<and> otp_at env secret 30 (k * 30) = Inr code"
  by (induction steps)
    (auto simp: compare_digest_def TOTP_INTERVAL_SECONDS_def split: if_splits option.splits)

lemma match_totp_Some:
  assumes "match_totp env secret code lst now = Inr (Some k)"
  shows "\<bar>k - unix_seconds now div 30\<bar> \<le> 1 \<and> (\<forall>l. lst = Some l \<longrightarrow> l < k) \<and> otp_at env secret 30 (k * 30) = Inr code"
proof -
  have "match_steps env secret code lst (map (\<lambda>j. unix_seconds now div 30 + j) [-1..1]) = Inr (Some k)"
    using assms by (simp add: match_totp_def TOTP_VALID_WINDOW_def TOTP_INTERVAL_SECONDS_def Let_def split: if_splits)
  note k = match_steps_Some [OF this]
  from k have "k \<in> (\<lambda>j. unix_seconds now div 30 + j) ` {-1..1}" by simp
  then have "\<bar>k - unix_seconds now div 30\<bar> \<le> 1" by auto
  with k show ?thesis by simp
qed

lemma remaining_hashes_Inr:
  "remaining_hashes c hs = Inr r \<Longrightarrow> r = filter (\<lambda>h. h \<noteq> c) hs \<and> (hs \<noteq> [] \<longrightarrow> is_ascii c) \<and> (\<forall>h \<in> set hs. is_ascii h)"
  by (induction hs arbitrary: r) (auto simp: compare_digest_def split: if_splits)

lemma remaining_hashes_ascii:
  "is_ascii c \<Longrightarrow> \<forall>h \<in> set hs. is_ascii h \<Longrightarrow> remaining_hashes c hs = Inr (filter (\<lambda>h. h \<noteq> c) hs)"
  by (induction hs) (auto simp: compare_digest_def)

text \<open>How a challenge is accepted: by a recovery code that is on record and is struck off, or by a code of the
  authenticator for a step later than the last one. A challenge that is not accepted changes nothing.\<close>

lemma accepted_challenge:
  assumes "verify_mfa_challenge env u code now s = (Inr (True, u'), s')"
  obtains (recovery) hs where "\<not> isdigit code" "u_mfa_enabled u"
      "hs = filter (\<lambda>h. h \<noteq> hash_recovery_code env (normalize_recovery_code code)) (u_mfa_recovery_code_hashes u)"
      "u' = u\<lparr>u_mfa_recovery_code_hashes := hs\<rparr>"
      "bnd (put_user u') (\<lambda>_. bnd (add_audit (u_id u) None ''user.mfa.recovery_code.used'' ''WARNING''
        [(''user_id'', PStr (u_id u)), (''remaining_recovery_codes'', PInt (int (length hs)))]) (\<lambda>_. ret ())) s = (Inr (), s')"
  | (otp) e secret k where "isdigit code" "u_mfa_enabled u" "\<forall>l. u_mfa_last_used_step u = Some l \<longrightarrow> l < k"
      "\<bar>k - unix_seconds (instant now s) div 30\<bar> \<le> 1" "otp_at env secret 30 (k * 30) = Inr code"
      "put_user u' s = (Inr (), s')" "u' = u\<lparr>u_mfa_last_used_step := Some k\<rparr>"
      "u_mfa_secret_encrypted u = Some e" "decrypt_secret (fernet env) e = Inr secret"
proof -
  obtain e where e: "u_mfa_enabled u" "u_mfa_secret_encrypted u = Some e"
    using assms by (auto simp: verify_mfa_challenge_def split: bool.splits option.splits)
  show thesis
  proof (cases "isdigit code")
    case True
    obtain secret where d: "decrypt_secret (fernet env) e = Inr secret"
      using assms by (auto simp: verify_mfa_challenge_def e True split: sum.splits)
    obtain k where k: "match_totp env secret code (u_mfa_last_used_step u) (instant now s) = Inr (Some k)"
      using assms by (auto simp: verify_mfa_challenge_def e True d split: sum.splits option.splits)
    have "u' = u\<lparr>u_mfa_last_used_step := Some k\<rparr>" "put_user u' s = (Inr (), s')"
      using assms by (auto simp: verify_mfa_challenge_def e True d k Let_def put_user_def)
    with match_totp_Some [OF k] True e d show thesis by (intro otp [of k secret e]) auto
  next
    case False
    define c where "c = hash_recovery_code env (normalize_recovery_code code)"
    obtain hs where r: "remaining_hashes c (u_mfa_recovery_code_hashes u) = Inr hs"
      using assms by (auto simp: verify_mfa_challenge_def e False c_def Let_def split: sum.splits)
    have hs: "hs = filter (\<lambda>h. h \<noteq> c) (u_mfa_recovery_code_hashes u)"
      using remaining_hashes_Inr [OF r] by blast
    have "length hs \<noteq> length (u_mfa_recovery_code_hashes u)"
      using assms r by (auto simp: verify_mfa_challenge_def e False c_def [symmetric] Let_def)
    then have "u' = u\<lparr>u_mfa_recovery_code_hashes := hs\<rparr>"
      and "bnd (put_user u') (\<lambda>_. bnd (add_audit (u_id u) None ''user.mfa.recovery_code.used'' ''WARNING''
        [(''user_id'', PStr (u_id u)), (''remaining_recovery_codes'', PInt (int (length hs)))]) (\<lambda>_. ret ())) s = (Inr (), s')"
      using assms r
      by (auto simp: verify_mfa_challenge_def e False c_def [symmetric] Let_def put_user_def add_audit_apply)
    with False e hs show thesis by (intro recovery) (simp_all add: c_def)
  qed
qed

lemma refused_recovery:
  assumes "verify_mfa_challenge env u code now s = (Inr (True, u'), s')" and "\<not> isdigit code"
  shows "hash_recovery_code env (normalize_recovery_code code) \<in> set (u_mfa_recovery_code_hashes u)"
proof (rule ccontr)
  let ?c = "hash_recovery_code env (normalize_recovery_code code)"
  assume free: "?c \<notin> set (u_mfa_recovery_code_hashes u)"
  have "hs = u_mfa_recovery_code_hashes u" if "remaining_hashes ?c (u_mfa_recovery_code_hashes u) = Inr hs" for hs
    using remaining_hashes_Inr [OF that] free by (auto simp: filter_id_conv)
  with assms show False
    by (auto simp: verify_mfa_challenge_def Let_def split: bool.splits option.splits sum.splits)
qed

lemma refused_challenge:
  assumes "verify_mfa_challenge env u code now s = (r, s')" and "\<not> (\<exists>u'. r = Inr (True, u'))"
  shows "s' = s"
proof (cases "u_mfa_enabled u")
  case True
  show ?thesis
  proof (cases "u_mfa_secret_encrypted u")
    case (Some e)
    with assms True show ?thesis
      by (auto simp: verify_mfa_challenge_def Let_def bnd_def lift_result_def reads_def put_user_def add_audit_def new_uuid_def
          split: if_splits sum.splits option.splits prod.splits)
  qed (use assms True in \<open>simp add: verify_mfa_challenge_def\<close>)
qed (use assms in \<open>simp add: verify_mfa_challenge_def\<close>)

text \<open>
  What a property must survive to be kept by all requests: the changes the operations make to a
  row. Users in \<open>locked\<close> confirm no enrollment.
\<close>

locale user_row_law =
  fixes Q :: "user \<Rightarrow> bool" and locked :: "string set"
  assumes password_law: "Q u \<Longrightarrow> Q (u\<lparr>u_password_hash := h, u_auth_version := u_auth_version u + 1\<rparr>)"
    and pending_law: "Q u \<Longrightarrow> \<not> u_mfa_enabled u \<Longrightarrow> Q (u\<lparr>u_mfa_pending_secret_encrypted := Some e\<rparr>)"
    and confirm_law: "Q u \<Longrightarrow> u_id u \<notin> locked \<Longrightarrow> Q (u\<lparr>u_mfa_secret_encrypted := Some e, u_mfa_pending_secret_encrypted := None,
      u_mfa_enabled := True, u_mfa_last_used_step := Some k, u_mfa_recovery_code_hashes := hs,
      u_auth_version := u_auth_version u + 1\<rparr>)"
    and disable_law: "Q u \<Longrightarrow> Q (u\<lparr>u_mfa_enabled := False, u_mfa_secret_encrypted := None,
      u_mfa_pending_secret_encrypted := None, u_mfa_last_used_step := None,
      u_mfa_recovery_code_hashes := [], u_auth_version := u_auth_version u + 1\<rparr>)"
    and recovery_law: "Q u \<Longrightarrow> u_mfa_enabled u \<Longrightarrow> set hs \<subseteq> set (u_mfa_recovery_code_hashes u) \<Longrightarrow>
      Q (u\<lparr>u_mfa_recovery_code_hashes := hs\<rparr>)"
    and step_law: "Q u \<Longrightarrow> u_mfa_enabled u \<Longrightarrow> \<forall>l. u_mfa_last_used_step u = Some l \<longrightarrow> l < k \<Longrightarrow>
      Q (u\<lparr>u_mfa_last_used_step := Some k\<rparr>)"
begin

lemmas row_rules = preserves_rules row_inv.preserves_new_uuid row_inv.preserves_flush row_inv.preserves_commit
  preserves_put_user

lemma keeps_create_user: "preserves (row_inv Q) (create_user env e m p)"
proof -
  have "preserves (row_inv Q) (bnd new_uuid (\<lambda>i. bnd (add_user (new_user e m h NORMAL_USER i)) (\<lambda>_.
      bnd commit (\<lambda>_. ret (new_user e m h NORMAL_USER i)))))" for h
  proof (rule preservesI)
    fix s r s'
    assume run: "bnd new_uuid (\<lambda>i. bnd (add_user (new_user e m h NORMAL_USER i)) (\<lambda>_.
      bnd commit (\<lambda>_. ret (new_user e m h NORMAL_USER i)))) s = (r, s')" and b: "both (row_inv Q) s"
    define u where "u = new_user e m h NORMAL_USER (uuid_src s (uuid_next s))"
    have "Q u" using b by (simp add: both_def row_inv_def u_def)
    then have "preserves (row_inv Q) (upd (\<lambda>d. d\<lparr>users := t_add u (users d)\<rparr>))"
      by (intro preserves_upd) (auto simp: row_inv_def)
    then have "preserves (row_inv Q) (bnd (add_user u) (\<lambda>_. bnd commit (\<lambda>_. ret u)))"
      unfolding add_user_def by (intro row_rules)
    moreover have "both (row_inv Q) (s\<lparr>uuid_next := Suc (uuid_next s)\<rparr>)" using b by (simp add: both_def row_inv_def)
    ultimately show "both (row_inv Q) s'" using run unfolding bnd_new_uuid u_def by (blast dest: preservesD)
  qed
  then have "preserves (row_inv Q) (bnd (hash_password env p) (\<lambda>h. bnd new_uuid (\<lambda>i.
      bnd (add_user (new_user e m h NORMAL_USER i)) (\<lambda>_. bnd commit (\<lambda>_. ret (new_user e m h NORMAL_USER i))))))"
    by (rule preserves_bnd [OF preserves_hash_password])
  then show ?thesis
    unfolding create_user_def Let_def
    by (intro preserves_bnd [OF preserves_query] preserves_case_option preserves_raise)
qed

text \<open>An accepted challenge stores the accepted user, who satisfies the law.\<close>

lemma verify_user:
  assumes Q: "Q u" and "verify_mfa_challenge env u code now s = (Inr (True, u'), s')"
  shows "Q u'"
  using assms(2)
proof (cases rule: accepted_challenge)
  case (recovery hs)
  then show ?thesis using recovery_law [OF Q] by auto
next
  case (otp e secret k)
  then show ?thesis using step_law [OF Q] by blast
qed

lemma keeps_verify:
  assumes "Q u"
  shows "preserves (row_inv Q) (verify_mfa_challenge env u code now)"
proof (rule preservesI)
  fix s r s'
  assume run: "verify_mfa_challenge env u code now s = (r, s')" and J: "both (row_inv Q) s"
  show "both (row_inv Q) s'"
  proof (cases "\<exists>u'. r = Inr (True, u')")
    case True
    then obtain u' where u': "verify_mfa_challenge env u code now s = (Inr (True, u'), s')" using run by blast
    have p: "preserves (row_inv Q) (put_user u')" using preserves_put_user [of Q u'] verify_user [OF assms u'] by simp
    from u' show ?thesis
    proof (cases rule: accepted_challenge)
      case (recovery hs)
      from preservesD [OF preserves_bnd [OF p preserves_bnd [OF preserves_add_audit_users preserves_ret]] recovery(5) J] show ?thesis .
    next
      case (otp e secret k)
      from preservesD [OF p otp(6) J] show ?thesis .
    qed
  next
    case False
    with refused_challenge [OF run] J show ?thesis by simp
  qed
qed

lemma find_login_row: "find_email_or_username e n d = Some u \<Longrightarrow> u \<in> set (t_all (users d))"
  by (auto simp: find_email_or_username_def t_all_def dest!: t_find_SomeD)

lemma keeps_authenticate: "preserves (row_inv Q) (authenticate_user env n p c)"
  unfolding authenticate_user_def
proof (rule preserves_bnd_dep [OF preserves_query], goal_cases)
  case (1 s found s')
  show ?case
  proof (cases found)
    case None
    then show ?thesis by (simp add: preserves_ret)
  next
    case (Some u)
    then have "u \<in> set (t_all (users (work s')))" using 1 find_login_row by auto
    then have "Q u" using 1(2) by (auto simp: both_def row_inv_def)
    then have "preserves (row_inv Q) (bnd (verify_mfa_challenge env u code None) (\<lambda>(ok, user').
        if \<not> ok then ret None else bnd commit (\<lambda>_. ret (Some user'))))" for code
      by (intro row_rules keeps_verify)
    then show ?thesis
      unfolding Some option.case
      by (intro preserves_if preserves_ret preserves_bnd [OF preserves_lift_result] preserves_case_option preserves_raise)
  qed
qed

lemma keeps_change_password: "Q u \<Longrightarrow> preserves (row_inv Q) (change_password env u c n)"
  unfolding change_password_def Let_def by (intro row_rules password_law)

lemma keeps_start: "Q u \<Longrightarrow> preserves (row_inv Q) (start_mfa_enrollment env u i)"
  unfolding start_mfa_enrollment_def encrypt_def Let_def by (intro row_rules pending_law)

lemma keeps_confirm: "Q u \<Longrightarrow> u_id u \<notin> locked \<Longrightarrow> preserves (row_inv Q) (confirm_mfa_enrollment env u c now)"
  unfolding confirm_mfa_enrollment_def generate_recovery_code_def Let_def
  by (auto intro!: row_rules confirm_law split: bool.split option.split)

lemma keeps_disable:
  assumes "Q u"
  shows "preserves (row_inv Q) (disable_mfa env u c now)"
proof -
  have "preserves (row_inv Q) (bnd (verify_mfa_challenge env u c now) (\<lambda>(ok, user1).
      if \<not> ok then raise (MfaVerificationError ''invalid mfa code'')
      else bnd (put_user (user1\<lparr>u_mfa_enabled := False, u_mfa_secret_encrypted := None,
                u_mfa_pending_secret_encrypted := None, u_mfa_last_used_step := None,
                u_mfa_recovery_code_hashes := [], u_auth_version := u_auth_version user1 + 1\<rparr>)) (\<lambda>_.
          bnd (add_audit i a act sev (pl user1)) (\<lambda>_. commit))))" for i a act sev pl
  proof (rule preserves_bnd_dep [OF keeps_verify [OF assms]])
    fix s x s'
    assume run: "verify_mfa_challenge env u c now s = (Inr x, s')"
    obtain ok user1 where a: "x = (ok, user1)" by (cases x)
    have "Q user1" if ok using verify_user [OF assms] run that by (simp add: a)
    then show "preserves (row_inv Q) (case x of (ok, user1) \<Rightarrow>
      if \<not> ok then raise (MfaVerificationError ''invalid mfa code'')
      else bnd (put_user (user1\<lparr>u_mfa_enabled := False, u_mfa_secret_encrypted := None,
                u_mfa_pending_secret_encrypted := None, u_mfa_last_used_step := None,
                u_mfa_recovery_code_hashes := [], u_auth_version := u_auth_version user1 + 1\<rparr>)) (\<lambda>_.
          bnd (add_audit i a act sev (pl user1)) (\<lambda>_. commit)))"
      by (auto simp: a intro!: row_rules disable_law)
  qed
  then show ?thesis unfolding disable_mfa_def Let_def by (auto intro!: row_rules)
qed

lemma handled_keep:
  assumes "preserves (row_inv Q) m"
  shows "preserves (row_inv Q) (try_except m on_duplicate)"
    "preserves (row_inv Q) (try_except m on_mfa_required)"
    "preserves (row_inv Q) (try_except m on_reauthentication)"
    "preserves (row_inv Q) (try_except m on_password_change)"
    "preserves (row_inv Q) (try_except m on_enrollment)"
    "preserves (row_inv Q) (try_except m (on_mfa_error d))"
  by (rule preserves_try_except [OF assms], drule handlers_raise, elim exE, simp add: preserves_raise)+

lemma keeps_require: "preserves (row_inv Q) (require_super_admin_user u)"
  unfolding require_super_admin_user_def by (intro row_rules)

lemma keeps_reauthenticate: "preserves (row_inv Q) (reauthenticate env p u)"
  unfolding reauthenticate_def record_reauthentication_def create_reauthentication_token_def
  by (intro row_rules handled_keep)

lemma keeps_register: "preserves (row_inv Q) (register env q)"
  unfolding register_def by (intro row_rules keeps_create_user handled_keep)

lemma keeps_login: "preserves (row_inv Q) (login env q)"
  unfolding login_def create_access_token_def by (intro row_rules keeps_authenticate handled_keep)

lemma keeps_update_password: "Q u \<Longrightarrow> preserves (row_inv Q) (update_password env c n u)"
  unfolding update_password_def by (intro row_rules keeps_change_password handled_keep)

lemma keeps_mfa_routes:
  "Q u \<Longrightarrow> preserves (row_inv Q) (enroll_mfa env u)"
  "Q u \<Longrightarrow> u_id u \<notin> locked \<Longrightarrow> preserves (row_inv Q) (confirm_mfa env c u)"
  "Q u \<Longrightarrow> preserves (row_inv Q) (remove_mfa env c u)"
  unfolding enroll_mfa_def confirm_mfa_def remove_mfa_def
  by (intro row_rules keeps_require keeps_start keeps_confirm keeps_disable handled_keep; assumption)+

lemma keeps_answer: "preserves (row_inv Q) m \<Longrightarrow> preserves (row_inv Q) (answer m)"
  unfolding answer_def by (intro row_rules)

lemma keeps_serve:
  assumes "\<And>token reauth code. q \<noteq> ConfirmMfa token reauth code"
  shows "preserves (row_inv Q) (serve env q)"
  by (cases q) (auto simp: assms read_me_def read_mfa_status_def intro!: keeps_answer preserves_as_user preserves_as_reauthenticated
        keeps_register keeps_login keeps_reauthenticate keeps_update_password keeps_mfa_routes preserves_ret)

text \<open>A confirmation by a user who is not locked.\<close>

lemma keeps_unlocked:
  assumes "\<not> (\<exists>i \<in> locked. confirms env (ConfirmMfa token reauth code) t i)" and "both (row_inv Q) t"
  shows "both (row_inv Q) (snd (serve env (ConfirmMfa token reauth code) t))"
proof -
  let ?route = "\<lambda>u. if u_id u \<in> locked then raise (ValueError []) else confirm_mfa env code u"
  have same: "as_reauthenticated env token reauth (confirm_mfa env code) t = as_reauthenticated env token reauth ?route t"
    by (rule as_reauthenticated_cong) (use assms(1) in \<open>auto simp: confirms_def\<close>)
  have "preserves (row_inv Q) (answer (as_reauthenticated env token reauth ?route))"
    by (intro keeps_answer preserves_as_reauthenticated preserves_if preserves_raise keeps_mfa_routes(2))
  moreover have "serve env (ConfirmMfa token reauth code) t = answer (as_reauthenticated env token reauth ?route) t"
    using same by (simp add: answer_def bnd_def)
  ultimately show ?thesis using preservesD [OF _ prod.collapse [symmetric] assms(2)] by simp
qed

lemma spared_keeps: "traffic_sparing env locked s t \<Longrightarrow> both (row_inv Q) s \<Longrightarrow> both (row_inv Q) t"
proof (induction rule: traffic_sparing.induct)
  case (spared_request t q)
  have "both (row_inv Q) (snd (serve env q t))"
  proof (cases "\<exists>token reauth code. q = ConfirmMfa token reauth code")
    case True
    then show ?thesis using keeps_unlocked spared_request by blast
  next
    case False
    then show ?thesis
      using preservesD [OF keeps_serve _ spared_request.IH [OF spared_request.prems]] by (metis prod.collapse)
  qed
  then show ?case by (rule row_inv.inv_close)
qed (simp_all add: both_def)

lemma spared_row:
  assumes "traffic_sparing env locked s t" and "both (row_inv Q) s" and "find_user i (work t) = Some u"
  shows "Q u"
  using spared_keeps [OF assms(1,2)] find_user_row [OF assms(3)] by (auto simp: both_def row_inv_def)

end

section \<open>The laws\<close>

text \<open>The fields of the second factor agree with each other.\<close>

definition mfa_consistent :: "user \<Rightarrow> bool" where
  "mfa_consistent u \<longleftrightarrow>
     (if u_mfa_enabled u then u_mfa_secret_encrypted u \<noteq> None \<and> u_mfa_pending_secret_encrypted u = None
      else u_mfa_secret_encrypted u = None \<and> u_mfa_last_used_step u = None \<and> u_mfa_recovery_code_hashes u = [])"

interpretation mfa: user_row_law mfa_consistent "{}"
  by unfold_locales (auto simp: mfa_consistent_def split: if_splits)

text \<open>Every super administrator is one of \<open>A\<close>.\<close>

definition admin_of :: "string set \<Rightarrow> user \<Rightarrow> bool" where
  "admin_of A u \<longleftrightarrow> (u_role u \<in> {SUPER_ADMIN, ADMIN, TEAM_ADMIN} \<longrightarrow> u_id u \<in> A)"

interpretation admins: user_row_law "admin_of A" "{}" for A
  by unfold_locales (auto simp: admin_of_def)

text \<open>The version of the user \<open>i\<close> is at least \<open>v\<close>.\<close>

definition version_from :: "string \<Rightarrow> int \<Rightarrow> user \<Rightarrow> bool" where
  "version_from i v u \<longleftrightarrow> (u_id u = i \<longrightarrow> v \<le> u_auth_version u)"

interpretation versions: user_row_law "version_from i v" "{}" for i v
  by unfold_locales (auto simp: version_from_def)

lemma find_sample_user: "find_user ''alice'' (work sample_session) = Some sample_user"
  by (simp add: find_user_def t_find_def sample_db_def sample_user_def)

lemma sample_users: "t_all (users sample_db) = [sample_user]"
  by (simp add: sample_db_def t_all_def)

text \<open>C19: Whatever requests are served, in whatever order, a user whose second factor is enabled has a
  stored secret and no enrollment under way, and one whose second factor is not enabled has no
  secret, no used step and no recovery codes.
\<close>

theorem mfa_state_is_consistent:
  assumes "user_traffic env s t"
    and "\<forall>u \<in> set (t_all (users (work s))) \<union> set (t_all (users (saved s))). mfa_consistent u"
    and "find_user i (work t) = Some u"
  shows "mfa_consistent u"
proof -
  have "both (row_inv mfa_consistent) s"
    using assms(2) by (auto simp: both_def row_inv_def mfa_consistent_def new_user_def)
  then show ?thesis using mfa.spared_row user_traffic_spared [OF assms(1)] assms(3) by blast
qed

text \<open>C18: No request of the two routers makes an administrator: whoever has an administrative role
  after any sequence of requests had an administrative role before it.
\<close>

theorem requests_make_no_administrators:
  assumes "user_traffic env s t" and "find_user i (work t) = Some u" and "u_role u \<noteq> NORMAL_USER"
  shows "\<exists>r \<in> set (t_all (users (work s))) \<union> set (t_all (users (saved s))). u_id r = i \<and> u_role r \<noteq> NORMAL_USER"
proof -
  define A where "A = {u_id r |r. r \<in> set (t_all (users (work s))) \<union> set (t_all (users (saved s))) \<and> u_role r \<noteq> NORMAL_USER}"
  have role: "r \<in> {SUPER_ADMIN, ADMIN, TEAM_ADMIN} \<longleftrightarrow> r \<noteq> NORMAL_USER" for r by (cases r) auto
  have "both (row_inv (admin_of A)) s"
    by (auto simp: both_def row_inv_def admin_of_def role A_def new_user_def)
  then have "admin_of A u" using admins.spared_row user_traffic_spared [OF assms(1)] assms(2) by blast
  moreover have "u_role u \<in> {SUPER_ADMIN, ADMIN, TEAM_ADMIN}" using assms(3) by (simp only: role) simp
  ultimately have "i \<in> A" using find_user_row [OF assms(2)] unfolding admin_of_def by blast
  then show ?thesis by (auto simp: A_def)
qed

section \<open>Revocation\<close>

lemma Inr_cases: "bnd m f s = (Inr b, s') \<Longrightarrow> (\<And>a s1. m s = (Inr a, s1) \<Longrightarrow> f a s1 = (Inr b, s') \<Longrightarrow> P) \<Longrightarrow> P"
  by (auto simp: bnd_eq_Inr)

lemma hash_password_run:
  assumes "hash_password env p s = (Inr h, s')"
  shows "s' = s\<lparr>uuid_next := Suc (uuid_next s)\<rparr>"
  using assms by (auto simp: hash_password_def token_bytes_def bnd_assoc split: sum.splits)

text \<open>
  The operations that change the credentials of a user end in writing the row with the next
  version, an audit record and a commit.
\<close>

definition draws :: "session \<Rightarrow> session \<Rightarrow> bool" where
  "draws s s' \<longleftrightarrow> uuid_src s' = uuid_src s \<and> uuid_next s \<le> uuid_next s'"

lemma draws_rules: "reflp draws" "transp draws"
  by (auto simp: draws_def intro: reflpI transpI)

named_theorems draws_intros \<open>operations that only draw from the supply\<close>

lemmas [draws_intros] = keeps_ret [OF draws_rules(1)] keeps_raise [OF draws_rules(1)] keeps_reads [OF draws_rules(1)]
  keeps_lift_result [OF draws_rules(1)] keeps_bnd [OF draws_rules(2)] keeps_if keeps_case_option

lemma draws_upd [draws_intros]: "keeps draws (upd f)"
  unfolding upd_def by (rule keeps_modify) (simp add: draws_def)

lemma draws_new_uuid [draws_intros]: "keeps draws new_uuid"
  by (simp add: keeps_def new_uuid_def draws_def)

lemma draws_add_audit [draws_intros]: "keeps draws (add_audit u a act sev p)"
  unfolding add_audit_def Let_def by (intro draws_intros)

lemma draws_generate: "keeps draws (generate_recovery_code env)"
  unfolding generate_recovery_code_def token_bytes_def Let_def by (intro draws_intros)

lemma draws_verify: "keeps draws (verify_mfa_challenge env u code now)"
proof (cases "u_mfa_enabled u")
  case True
  show ?thesis
    by (cases "u_mfa_secret_encrypted u")
      (auto simp: verify_mfa_challenge_def Let_def put_user_def True intro!: draws_intros)
qed (simp add: verify_mfa_challenge_def keeps_ret [OF draws_rules(1)])

lemma raise_version_run:
  assumes "bnd (put_user u') (\<lambda>_. bnd (add_audit i a act sev p) (\<lambda>_. bnd commit (\<lambda>_. ret b))) s2 = (Inr c, s1)"
    and "v \<le> u_auth_version u'" and "\<forall>k \<ge> uuid_next s2. uuid_src s2 k \<noteq> u_id u'"
  shows "both (row_inv (version_from (u_id u') v)) s1"
  using assms by (auto simp: put_user_def add_audit_apply Let_def bnd_commit both_def row_inv_def version_from_def
      t_all_put new_user_def split: if_splits)

lemma raise_version_run_unit:
  assumes "bnd (put_user u') (\<lambda>_. bnd (add_audit i a act sev p) (\<lambda>_. commit)) s2 = (Inr (), s1)"
    and "v \<le> u_auth_version u'" and "\<forall>k \<ge> uuid_next s2. uuid_src s2 k \<noteq> u_id u'"
  shows "both (row_inv (version_from (u_id u') v)) s1"
proof -
  have "commit = bnd commit (\<lambda>_. ret ())" by (rule ext) (simp add: bnd_commit commit_apply)
  then show ?thesis using raise_version_run [where b = "()"] assms by metis
qed

lemma password_raises:
  assumes "change_password env u cur new s = (Inr (), s1)" and "\<forall>k \<ge> uuid_next s. uuid_src s k \<noteq> u_id u"
  shows "both (row_inv (version_from (u_id u) (u_auth_version u + 1))) s1"
proof -
  have ok: "verify_password cur (u_password_hash u) = Inr True" "verify_password new (u_password_hash u) = Inr False"
    using assms(1) unfolding change_password_def by (auto split: sum.splits if_splits)
  obtain h s2 where h: "hash_password env new s = (Inr h, s2)" and run:
    "bnd (put_user (u\<lparr>u_password_hash := h, u_auth_version := u_auth_version u + 1\<rparr>)) (\<lambda>_.
       bnd (add_audit (u_id u) None ''user.password.changed'' ''WARNING''
         [(''user_id'', PStr (u_id u)), (''revoked_auth_version'', PInt (u_auth_version u)),
          (''new_auth_version'', PInt (u_auth_version u + 1))]) (\<lambda>_. commit)) s2 = (Inr (), s1)"
    using assms(1) unfolding change_password_def by (simp add: ok Let_def) (erule Inr_cases)
  show ?thesis
    using raise_version_run_unit [OF run, of "u_auth_version u + 1"] assms(2) hash_password_run [OF h] by simp
qed

definition confirmed :: "auth_env \<Rightarrow> user \<Rightarrow> string \<Rightarrow> int \<Rightarrow> string list \<Rightarrow> user" where
  "confirmed env u e k codes = u\<lparr>u_mfa_secret_encrypted := Some e, u_mfa_pending_secret_encrypted := None,
     u_mfa_enabled := True, u_mfa_last_used_step := Some k,
     u_mfa_recovery_code_hashes := map (hash_recovery_code env) codes, u_auth_version := u_auth_version u + 1\<rparr>"

lemma confirm_steps:
  assumes "confirm_mfa_enrollment env u code now s = (Inr c, s1)"
  obtains e k s2 where "map_act (\<lambda>_. generate_recovery_code env) [0..<RECOVERY_CODE_COUNT] s = (Inr c, s2)"
    "bnd (put_user (confirmed env u e k c)) (\<lambda>_.
       bnd (add_audit (u_id u) None ''user.mfa.enabled'' ''WARNING''
         [(''user_id'', PStr (u_id u)), (''recovery_code_count'', PInt (int (length c))),
          (''new_auth_version'', PInt (u_auth_version u + 1))]) (\<lambda>_.
         bnd commit (\<lambda>_. ret c))) s2 = (Inr c, s1)"
proof -
  obtain e where e: "u_mfa_enabled u = False" "u_mfa_pending_secret_encrypted u = Some e"
    using assms(1) by (auto simp: confirm_mfa_enrollment_def split: bool.splits option.splits)
  obtain secret where d: "decrypt_secret (fernet env) e = Inr secret"
    using assms(1) by (auto simp: confirm_mfa_enrollment_def e split: sum.splits)
  obtain k where k: "match_totp env secret code None (instant now s) = Inr (Some k)"
    using assms(1) by (auto simp: confirm_mfa_enrollment_def e d split: sum.splits option.splits)
  obtain codes s2 where g: "map_act (\<lambda>_. generate_recovery_code env) [0..<RECOVERY_CODE_COUNT] s = (Inr codes, s2)" and run:
    "bnd (put_user (confirmed env u e k codes)) (\<lambda>_.
       bnd (add_audit (u_id u) None ''user.mfa.enabled'' ''WARNING''
         [(''user_id'', PStr (u_id u)), (''recovery_code_count'', PInt (int (length codes))),
          (''new_auth_version'', PInt (u_auth_version u + 1))]) (\<lambda>_.
         bnd commit (\<lambda>_. ret codes))) s2 = (Inr c, s1)"
    using assms(1) by (simp add: confirm_mfa_enrollment_def e d k Let_def confirmed_def) (erule Inr_cases)
  have "codes = c" using run by (auto simp: put_user_def add_audit_apply Let_def bnd_commit split: if_splits)
  with g run show thesis by (blast intro: that)
qed

lemma confirm_raises:
  assumes "confirm_mfa_enrollment env u code now s = (Inr c, s1)" and "\<forall>k \<ge> uuid_next s. uuid_src s k \<noteq> u_id u"
  shows "both (row_inv (version_from (u_id u) (u_auth_version u + 1))) s1"
  using assms(1)
proof (rule confirm_steps)
  fix e k s2
  assume g: "map_act (\<lambda>_. generate_recovery_code env) [0..<RECOVERY_CODE_COUNT] s = (Inr c, s2)"
    and run: "bnd (put_user (confirmed env u e k c)) (\<lambda>_.
       bnd (add_audit (u_id u) None ''user.mfa.enabled'' ''WARNING''
         [(''user_id'', PStr (u_id u)), (''recovery_code_count'', PInt (int (length c))),
          (''new_auth_version'', PInt (u_auth_version u + 1))]) (\<lambda>_.
         bnd commit (\<lambda>_. ret c))) s2 = (Inr c, s1)"
  have "draws s s2"
    using keepsD [OF keeps_map_act [OF draws_rules draws_generate] g] .
  then show ?thesis
    using raise_version_run [OF run, of "u_auth_version u + 1"] assms(2) by (simp add: draws_def confirmed_def)
qed

text \<open>What the check of a second factor changes: nothing, the used step or the recovery codes.\<close>

lemma verify_fields:
  assumes "verify_mfa_challenge env u code now s = (Inr (ok, u'), s')"
  shows "u_id u' = u_id u \<and> u_auth_version u' = u_auth_version u"
proof (cases "u_mfa_enabled u")
  case True
  show ?thesis
  proof (cases "u_mfa_secret_encrypted u")
    case (Some e)
    show ?thesis
      using assms unfolding verify_mfa_challenge_def Let_def put_user_def
      by (auto simp: True Some add_audit_apply Let_def split: if_splits option.splits sum.splits)
  qed (use assms True in \<open>simp add: verify_mfa_challenge_def\<close>)
qed (use assms in \<open>simp add: verify_mfa_challenge_def\<close>)

lemma disable_raises:
  assumes "disable_mfa env u code now s = (Inr (), s1)" and "\<forall>k \<ge> uuid_next s. uuid_src s k \<noteq> u_id u"
  shows "both (row_inv (version_from (u_id u) (u_auth_version u + 1))) s1"
proof -
  have e: "u_mfa_enabled u" using assms(1) by (auto simp: disable_mfa_def split: if_splits)
  obtain ok u1 s2 where v: "verify_mfa_challenge env u code now s = (Inr (ok, u1), s2)"
    using assms(1) by (auto simp: disable_mfa_def e elim!: Inr_cases)
  have ok: "ok" using assms(1) by (auto simp: disable_mfa_def e bnd_Inr [where m = "verify_mfa_challenge env u code now", OF v] split: if_splits)
  have run: "bnd (put_user (u1\<lparr>u_mfa_enabled := False, u_mfa_secret_encrypted := None,
         u_mfa_pending_secret_encrypted := None, u_mfa_last_used_step := None,
         u_mfa_recovery_code_hashes := [], u_auth_version := u_auth_version u1 + 1\<rparr>)) (\<lambda>_.
       bnd (add_audit (u_id u) None ''user.mfa.disabled'' ''CRITICAL''
         [(''user_id'', PStr (u_id u)), (''new_auth_version'', PInt (u_auth_version u1 + 1))]) (\<lambda>_. commit)) s2 = (Inr (), s1)"
    using assms(1) by (simp add: disable_mfa_def e ok Let_def bnd_Inr [where m = "verify_mfa_challenge env u code now", OF v])
  have "draws s s2" by (rule keepsD [OF draws_verify v])
  then show ?thesis
    using raise_version_run_unit [OF run, of "u_auth_version u + 1"] assms(2) verify_fields [OF v] by (simp add: draws_def)
qed

text \<open>A change of password, the confirmation of a second factor and its removal.\<close>

inductive credential_change :: "auth_env \<Rightarrow> user \<Rightarrow> unit op \<Rightarrow> bool" for env u where
  password: "credential_change env u (change_password env u cur new)"
| confirm: "credential_change env u (answer (confirm_mfa_enrollment env u code now))"
| disable: "credential_change env u (disable_mfa env u code now)"

lemma credential_change_raises:
  assumes "credential_change env u m" and "m s = (Inr (), s1)" and "\<forall>k \<ge> uuid_next s. uuid_src s k \<noteq> u_id u"
  shows "both (row_inv (version_from (u_id u) (u_auth_version u + 1))) s1"
  using assms(1)
proof cases
  case (password cur new)
  then show ?thesis using assms(2,3) password_raises by blast
next
  case (confirm code now)
  then obtain c where "confirm_mfa_enrollment env u code now s = (Inr c, s1)"
    using assms(2) by (auto simp: answer_def elim!: Inr_cases)
  then show ?thesis using assms(3) confirm_raises by blast
next
  case (disable code now)
  then show ?thesis using assms(2,3) disable_raises by blast
qed

lemma eq_int_unique: "eq_int v a \<Longrightarrow> eq_int v b \<Longrightarrow> a = b"
proof -
  have d: "dval (Dec (n < 0) (nat \<bar>n\<bar>) 0) = of_int n" for n by (simp add: dval_def signed_coef_def)
  have "a = b" if "deq x (Dec (a < 0) (nat \<bar>a\<bar>) 0)" "deq x (Dec (b < 0) (nat \<bar>b\<bar>) 0)" for x
    using that unfolding deq_dval d by simp
  then show "eq_int v a \<Longrightarrow> eq_int v b \<Longrightarrow> a = b"
    by (cases v) (auto split: option.splits decimal.splits)
qed

text \<open>A token carries the same payload whenever it is accepted.\<close>

lemma decode_same_payload:
  assumes "decode_access_token env t s = (Inr (Some p), s)" and "decode_access_token env t s' = (Inr (Some q), s')"
  shows "q = p"
proof -
  have "\<exists>h b g. split_max (CHR ''.'') 2 t = [h, b, g]"
  proof (rule ccontr)
    assume "\<nexists>h b g. split_max (CHR ''.'') 2 t = [h, b, g]"
    from decode_other [OF this, of env s] assms(1) show False by simp
  qed
  then obtain h b g where t: "split_max (CHR ''.'') 2 t = [h, b, g]" by blast
  have "checked_payload env b s = Inr (Some p)" "checked_payload env b s' = Inr (Some q)"
    using assms decode_signed [OF t] by (simp_all split: if_splits)
  then have "Inr (PDict p) = (Inr (PDict q) :: pyval result)"
    by (metis checked_payload_Some)
  then show ?thesis by simp
qed

text \<open>A server whose authenticator shows one code for ever, and a user whose enrollment is pending.\<close>

definition sample_env :: auth_env where
  "sample_env = \<lparr>jwt_secret_key = ''jwt'', jwt_expires_minutes = 60, secret_encryption_key = ''key'',
     os_random = (\<lambda>n i. replicate n (length i mod 256)), float_repr = (\<lambda>r. r),
     fernet = \<lparr>encrypt_secret = (\<lambda>nonce x. x), decrypt_secret = Inr\<rparr>,
     otp_random_base32 = (\<lambda>i. ''JBSWY3DP''), otp_uri = (\<lambda>s n i. ''otpauth://totp/'' @ n),
     otp_at = (\<lambda>s i t. Inr ''123456''), email_normalized = Some\<rparr>"

definition enrolling_user :: user where
  "enrolling_user = sample_user\<lparr>u_mfa_pending_secret_encrypted := Some ''JBSWY3DP''\<rparr>"

definition enrolling_db :: db where
  "enrolling_db = empty_db\<lparr>users := \<lparr>rows = [enrolling_user], pend = []\<rparr>\<rparr>"

definition enrolling_session :: session where
  "enrolling_session = sample_session\<lparr>work := enrolling_db, saved := enrolling_db\<rparr>"

lemma enrolling_sel [simp]:
  "work enrolling_session = enrolling_db" "saved enrolling_session = enrolling_db"
  "uuid_src enrolling_session = sample_uuid" "uuid_next enrolling_session = 0" "clock enrolling_session = 0"
  "u_is_active enrolling_user" "u_auth_version enrolling_user = 0" "u_id enrolling_user = ''alice''"
  by (simp_all add: enrolling_session_def enrolling_user_def sample_user_def)

lemma sample_env_sel [simp]:
  "fernet sample_env = \<lparr>encrypt_secret = (\<lambda>nonce x. x), decrypt_secret = Inr\<rparr>"
  "otp_at sample_env s i t = Inr ''123456''" "os_random sample_env n k = replicate n (length k mod 256)"
  "jwt_expires_minutes sample_env = 60"
  by (simp_all add: sample_env_def)

lemma generate_apply: "generate_recovery_code env s = (Inr (let v = upper (hexdigest (os_random env 8 (uuid_src s (uuid_next s))))
    in join ''-'' (map (\<lambda>i. take 4 (drop (4 * i) v)) [0..<(length v + 3) div 4])), s\<lparr>uuid_next := Suc (uuid_next s)\<rparr>)"
  by (simp add: generate_recovery_code_def token_bytes_def bnd_assoc Let_def)

lemma map_act_generate: "\<exists>cs. map_act (\<lambda>_. generate_recovery_code env) xs s = (Inr cs, s\<lparr>uuid_next := uuid_next s + length xs\<rparr>)
    \<and> length cs = length xs \<and> (\<forall>c \<in> set cs. \<exists>s'. fst (generate_recovery_code env s') = Inr c)"
proof (induction xs arbitrary: s)
  case (Cons x xs)
  obtain cs where cs: "map_act (\<lambda>_. generate_recovery_code env) xs (s\<lparr>uuid_next := Suc (uuid_next s)\<rparr>) =
      (Inr cs, s\<lparr>uuid_next := Suc (uuid_next s) + length xs\<rparr>)" "length cs = length xs"
    "\<forall>c \<in> set cs. \<exists>s'. fst (generate_recovery_code env s') = Inr c"
    using Cons.IH [of "s\<lparr>uuid_next := Suc (uuid_next s)\<rparr>"] by auto
  obtain c where g: "generate_recovery_code env s = (Inr c, s\<lparr>uuid_next := Suc (uuid_next s)\<rparr>)"
    by (metis generate_apply)
  have "map_act (\<lambda>_. generate_recovery_code env) (x # xs) s = (Inr (c # cs), s\<lparr>uuid_next := uuid_next s + length (x # xs)\<rparr>)"
    by (simp add: bnd_Inr [where m = "generate_recovery_code env", OF g]
        bnd_Inr [where m = "map_act (\<lambda>_. generate_recovery_code env) xs", OF cs(1)])
  then show ?case using cs g by (intro exI [of _ "c # cs"]) (auto intro: exI [of _ s])
qed simp

lemma enrolling_confirm: "\<exists>cs s1. confirm_mfa_enrollment sample_env enrolling_user ''123456'' None enrolling_session = (Inr cs, s1) \<and> cs \<noteq> []"
proof -
  obtain cs where l: "length cs = length [0..<RECOVERY_CODE_COUNT]" and g: "map_act (\<lambda>_. generate_recovery_code sample_env) [0..<RECOVERY_CODE_COUNT] enrolling_session =
      (Inr cs, enrolling_session\<lparr>uuid_next := uuid_next enrolling_session + length [0..<RECOVERY_CODE_COUNT]\<rparr>)"
    using map_act_generate by blast
  have m: "match_totp sample_env ''JBSWY3DP'' ''123456'' None (instant None enrolling_session) =
      Inr (Some (unix_seconds (instant None enrolling_session) div 30 + -1))"
    by (simp add: match_totp_def isdigit_def is_digit_def digit_chars_def TOTP_VALID_WINDOW_def TOTP_INTERVAL_SECONDS_def
        compare_digest_def is_ascii_def upto.simps)
  have u: "u_mfa_enabled enrolling_user = False" "u_mfa_pending_secret_encrypted enrolling_user = Some ''JBSWY3DP''"
    by (simp_all add: enrolling_user_def sample_user_def)
  have q: "db_unique (enrolling_db\<lparr>users := t_put u_id x (users enrolling_db)\<rparr>)" for x
    by (simp add: db_unique_def enrolling_db_def empty_db_def t_put_def t_map_def t_all_def t_empty_def)
  have "cs \<noteq> []" using l by (auto simp: RECOVERY_CODE_COUNT_def)
  then show ?thesis
    by (simp add: confirm_mfa_enrollment_def u m bnd_Inr [where m = "map_act (\<lambda>_. generate_recovery_code sample_env) [0..<RECOVERY_CODE_COUNT]", OF g]
        Let_def put_user_def add_audit_apply bnd_commit q)
qed

text \<open>C15: A change of password, like the confirmation and the removal of a second factor, logs the user out
  everywhere: every token that was accepted for the user before the change, the one the change was
  requested with included, is refused in every session that any sequence of later requests leads
  to.
\<close>

theorem credential_change_revokes_tokens:
  assumes "credential_change env u m" and "m s = (Inr (), s1)"
    and "get_current_user env token s = (Inr u, s)"
    and "\<forall>k \<ge> uuid_next s. uuid_src s k \<noteq> u_id u"
    and "user_traffic env (close s1) t"
  shows "get_current_user env token t \<noteq> (Inr r, t')"
proof
  assume acc: "get_current_user env token t = (Inr r, t')"
  have "both (row_inv (version_from (u_id u) (u_auth_version u + 1))) (close s1)"
    by (rule row_inv.inv_close [OF credential_change_raises [OF assms(1,2,4)]])
  from versions.spared_row [OF user_traffic_spared [OF assms(5)] this]
  have later: "find_user (u_id u) (work t) = Some x \<Longrightarrow> u_auth_version u + 1 \<le> u_auth_version x" for x
    using find_user_row by (fastforce simp: version_from_def)
  obtain p where p: "decode_access_token env token s = (Inr (Some p), s)" "find_user (py_str (dict_get p ''sub'')) (work s) = Some u"
    "eq_int (dict_get p ''ver'') (u_auth_version u)"
    using get_current_user_cases [OF assms(3)] by blast
  obtain q where q: "decode_access_token env token t = (Inr (Some q), t)" "find_user (py_str (dict_get q ''sub'')) (work t) = Some r"
    "eq_int (dict_get q ''ver'') (u_auth_version r)"
    using get_current_user_cases [OF acc] by blast
  have "q = p" using decode_same_payload [OF p(1) q(1)] .
  moreover have "py_str (dict_get p ''sub'') = u_id u" using find_user_row [OF p(2)] by simp
  ultimately have "u_auth_version u + 1 \<le> u_auth_version r" "u_auth_version r = u_auth_version u"
    using later q eq_int_unique [OF p(3)] by auto
  then show False by simp
qed

theorem credential_change_revokes_tokens_witness:
  "\<exists>s1. get_current_user sample_env (token_text sample_env (token_payload ''alice'' 0 ''access'' 0)) (close s1)
     \<noteq> (Inr enrolling_user, close s1)"
proof -
  obtain cs s1 where c: "confirm_mfa_enrollment sample_env enrolling_user ''123456'' None enrolling_session = (Inr cs, s1)"
    using enrolling_confirm by blast
  have "answer (confirm_mfa_enrollment sample_env enrolling_user ''123456'' None) enrolling_session = (Inr (), s1)"
    by (simp add: answer_def bnd_Inr [where m = "confirm_mfa_enrollment sample_env enrolling_user ''123456'' None", OF c])
  moreover have "find_user ''alice'' (work enrolling_session) = Some enrolling_user"
    by (simp add: enrolling_session_def enrolling_db_def find_user_def t_find_def enrolling_user_def sample_user_def)
  then have "get_current_user sample_env (token_text sample_env (token_payload ''alice'' 0 ''access'' 0)) enrolling_session
      = (Inr enrolling_user, enrolling_session)"
    using get_current_user_token [of "''alice''" enrolling_session enrolling_user 0 sample_env 0] by simp
  moreover have "\<forall>k \<ge> uuid_next enrolling_session. uuid_src enrolling_session k \<noteq> u_id enrolling_user"
    by (simp add: sample_uuid_def)
  ultimately show ?thesis
    using credential_change_revokes_tokens [OF credential_change.confirm _ _ _ user_traffic.start] by blast
qed

section \<open>Second factor\<close>

lemma verify_recovery:
  assumes "u_mfa_enabled u" and "u_mfa_secret_encrypted u = Some e" and "\<not> isdigit code"
    and "remaining_hashes (hash_recovery_code env (normalize_recovery_code code)) (u_mfa_recovery_code_hashes u) = Inr r"
  shows "length r = length (u_mfa_recovery_code_hashes u) \<Longrightarrow> verify_mfa_challenge env u code now s = (Inr (False, u), s)"
    and "length r \<noteq> length (u_mfa_recovery_code_hashes u) \<Longrightarrow>
      \<exists>s'. verify_mfa_challenge env u code now s = (Inr (True, u\<lparr>u_mfa_recovery_code_hashes := r\<rparr>), s')"
  using assms by (simp_all add: verify_mfa_challenge_def Let_def put_user_def add_audit_apply)

text \<open>A code that is off the record stays off, and the last used step of an enabled factor only grows, unless
  the user confirms a new enrollment.\<close>

definition struck_off :: "string \<Rightarrow> string \<Rightarrow> user \<Rightarrow> bool" where
  "struck_off i h u \<longleftrightarrow> (u_id u = i \<longrightarrow> h \<notin> set (u_mfa_recovery_code_hashes u))"

definition stepped_to :: "string \<Rightarrow> int \<Rightarrow> user \<Rightarrow> bool" where
  "stepped_to i k u \<longleftrightarrow> (u_id u = i \<longrightarrow> u_mfa_enabled u \<longrightarrow> (\<exists>l. u_mfa_last_used_step u = Some l \<and> k \<le> l))"

interpretation struck: user_row_law "struck_off i h" "{i}" for i h
  by unfold_locales (auto simp: struck_off_def)

interpretation stepped: user_row_law "stepped_to i k" "{i}" for i k
  by unfold_locales (auto simp: stepped_to_def)

lemma create_token_state: "create_token env u v p d s = (r, s') \<Longrightarrow> s' = s"
  by (auto simp: create_token_def Let_def bnd_def reads_def lift_result_def split: sum.splits if_splits)

text \<open>A login with a code is an accepted challenge that is committed: the accepted row is on record.\<close>

lemma login_challenge:
  assumes "login env q s = (Inr tk, s1)"
    and "find_email_or_username (lr_username_or_email q) (lr_username_or_email q) (work s) = Some u"
    and "u_mfa_enabled u" and "lr_mfa_code q = Some code"
  obtains u' sv where "verify_mfa_challenge env u code None s = (Inr (True, u'), sv)" "commit sv = (Inr (), s1)"
proof -
  obtain w s0 where a: "try_except (authenticate_user env (lr_username_or_email q) (lr_password q) (lr_mfa_code q)) on_mfa_required s
      = (Inr (Some w), s0)" and tk: "create_access_token env (u_id w) (u_auth_version w) None s0 = (Inr (tk_access_token tk), s1)"
    using assms(1) by (auto simp: login_def unauthorized_def elim!: Inr_cases split: option.splits)
  have s0: "s0 = s1" using create_token_state tk by (fastforce simp: create_access_token_def Let_def)
  have "authenticate_user env (lr_username_or_email q) (lr_password q) (lr_mfa_code q) s = (Inr (Some w), s0)"
    using a handlers_raise(2) by (fastforce simp: try_except_def split: prod.splits sum.splits option.splits)
  then obtain ok u' sv where "verify_mfa_challenge env u code None s = (Inr (ok, u'), sv)"
    "(if \<not> ok then ret None else bnd commit (\<lambda>_. ret (Some u'))) sv = (Inr (Some w), s0)"
    using assms(2-4) by (auto simp: authenticate_user_def split: sum.splits if_splits elim!: Inr_cases)
  with s0 that show thesis by (auto split: if_splits elim!: Inr_cases)
qed

lemma challenge_users:
  assumes "verify_mfa_challenge env u code now s = (Inr (True, u'), sv)"
  shows "users (work sv) = t_put u_id u' (users (work s)) \<and> u_id u' = u_id u"
  using assms
proof (cases rule: accepted_challenge)
  case (recovery hs)
  then show ?thesis by (auto simp: put_user_def add_audit_apply Let_def)
next
  case (otp e secret k)
  then show ?thesis by (auto simp: put_user_def)
qed

lemma stored_after_login:
  assumes v: "verify_mfa_challenge env u code None s = (Inr (True, u'), sv)" and c: "commit sv = (Inr (), s1)"
    and Q: "Q u'" and other: "\<And>x. u_id x \<noteq> u_id u \<Longrightarrow> Q x" and new: "\<And>e m h i. Q (new_user e m h NORMAL_USER i)"
  shows "both (row_inv Q) (close s1)"
proof -
  note users = challenge_users [OF v]
  have "work s1 = db_flush (work sv)" "saved s1 = db_flush (work sv)"
    using c by (auto simp: commit_apply split: if_splits)
  then have "t_all (users (work s1)) = t_all (t_put u_id u' (users (work s)))" "saved s1 = work s1"
    using users by simp_all
  moreover have "\<forall>x \<in> set (t_all (t_put u_id u' (users (work s)))). Q x"
    using Q other users by (auto simp: t_all_put)
  ultimately show ?thesis using new by (simp add: both_def row_inv_def close_def)
qed

text \<open>C16: A second factor works once. Take a login that was accepted with a code for a user with a second factor, and
  any later requests, of this user and of others, among which this user confirms no new enrollment. If the code was a
  recovery code, no challenge of the stored user accepts it again. If it was a code of the
  authenticator, it was the code of a step at most one away from the clock and later than the last one used, and a challenge
  of the stored user accepts codes of the authenticator for still later steps only.
\<close>

theorem second_factor_works_once:
  assumes "login env q s = (Inr tk, s1)"
    and "find_email_or_username (lr_username_or_email q) (lr_username_or_email q) (work s) = Some u"
    and "u_mfa_enabled u" and "lr_mfa_code q = Some code"
    and "traffic_sparing env {u_id u} (close s1) t" and "find_user (u_id u) (work t) = Some v"
  shows "if \<not> isdigit code then \<forall>now v' t'. verify_mfa_challenge env v code now t \<noteq> (Inr (True, v'), t')
    else \<exists>step e secret. u_mfa_secret_encrypted u = Some e \<and> decrypt_secret (fernet env) e = Inr secret
      \<and> otp_at env secret 30 (step * 30) = Inr code \<and> \<bar>step - unix_seconds (clock s) div 30\<bar> \<le> 1
      \<and> (\<forall>l. u_mfa_last_used_step u = Some l \<longrightarrow> l < step)
      \<and> (\<forall>code' now v' t'. isdigit code' \<longrightarrow> verify_mfa_challenge env v code' now t = (Inr (True, v'), t') \<longrightarrow>
          (\<exists>step' e' secret'. u_mfa_secret_encrypted v = Some e' \<and> decrypt_secret (fernet env) e' = Inr secret'
             \<and> otp_at env secret' 30 (step' * 30) = Inr code' \<and> step < step'))"
proof -
  obtain u' sv where ver: "verify_mfa_challenge env u code None s = (Inr (True, u'), sv)" and c: "commit sv = (Inr (), s1)"
    using login_challenge [OF assms(1-4)] .
  note stored = stored_after_login [OF ver c]
  from ver show ?thesis
  proof (cases rule: accepted_challenge)
    case (recovery hs)
    define h where "h = hash_recovery_code env (normalize_recovery_code code)"
    have "both (row_inv (struck_off (u_id u) h)) (close s1)"
      by (rule stored) (use recovery in \<open>auto simp: struck_off_def h_def new_user_def\<close>)
    then have "struck_off (u_id u) h v" by (rule struck.spared_row [OF assms(5) _ assms(6)])
    then have free: "h \<notin> set (u_mfa_recovery_code_hashes v)" using find_user_row [OF assms(6)] by (simp add: struck_off_def)
    have "verify_mfa_challenge env v code now t \<noteq> (Inr (True, v'), t')" for now v' t'
    proof
      assume "verify_mfa_challenge env v code now t = (Inr (True, v'), t')"
      from refused_recovery [OF this recovery(1)] free show False by (simp add: h_def)
    qed
    then show ?thesis using recovery(1) by simp
  next
    case (otp e secret step)
    have "both (row_inv (stepped_to (u_id u) step)) (close s1)"
      by (rule stored) (use otp in \<open>auto simp: stepped_to_def new_user_def\<close>)
    then have "stepped_to (u_id u) step v" by (rule stepped.spared_row [OF assms(5) _ assms(6)])
    then have last: "u_mfa_enabled v \<Longrightarrow> \<exists>l. u_mfa_last_used_step v = Some l \<and> step \<le> l"
      using find_user_row [OF assms(6)] by (simp add: stepped_to_def)
    have later: "\<exists>step' e' secret'. u_mfa_secret_encrypted v = Some e' \<and> decrypt_secret (fernet env) e' = Inr secret'
        \<and> otp_at env secret' 30 (step' * 30) = Inr code' \<and> step < step'"
      if "isdigit code'" and "verify_mfa_challenge env v code' now t = (Inr (True, v'), t')" for code' now v' t'
      using that(2)
    proof (cases rule: accepted_challenge)
      case (otp e' secret' k)
      with last show ?thesis by (intro exI [of _ k] exI [of _ e'] exI [of _ secret']) fastforce
    qed (use that(1) in simp)
    show ?thesis using otp later by (auto simp: instant_def)
  qed
qed

lemma replace_single: "replace [c] [] s = filter (\<lambda>x. x \<noteq> c) s"
  by (induction s) (simp_all add: replace.simps [of "[c]"] startswith_Cons startswith_def)

lemma upper_char_fixed: "upper_char x = CHR ''-'' \<longleftrightarrow> x = CHR ''-''" "upper_char x = CHR '' '' \<longleftrightarrow> x = CHR '' ''"
proof -
  have "upper_char x = x \<or> upper_char x \<in> set upper_letters"
    by (auto simp: upper_char_def split: option.split dest!: map_of_SomeD set_zip_rightD)
  moreover have "upper_char (CHR ''-'') = CHR ''-''" "upper_char (CHR '' '') = CHR '' ''"
    by (simp_all add: upper_char_def lower_letters_def upper_letters_def)
  ultimately show "upper_char x = CHR ''-'' \<longleftrightarrow> x = CHR ''-''" "upper_char x = CHR '' '' \<longleftrightarrow> x = CHR '' ''"
    by (auto simp: upper_letters_def)
qed

lemma normalize_idem: "normalize_recovery_code (normalize_recovery_code c) = normalize_recovery_code c"
proof -
  have "filter (\<lambda>x. x \<noteq> CHR ''-'') (upper s) = upper (filter (\<lambda>x. x \<noteq> CHR ''-'') s)"
    "filter (\<lambda>x. x \<noteq> CHR '' '') (upper s) = upper (filter (\<lambda>x. x \<noteq> CHR '' '') s)" for s
    by (simp_all add: upper_def filter_map comp_def upper_char_fixed)
  then show ?thesis
    unfolding normalize_recovery_code_def replace_single
    by (simp add: upper_idem) (rule arg_cong [where f = upper], rule filter_cong, auto)
qed

lemma hash_normalized: "hash_recovery_code env (normalize_recovery_code c) = hash_recovery_code env c"
  by (simp add: hash_recovery_code_def normalize_idem)

lemma hash_ascii: "is_ascii (hash_recovery_code env c)"
proof -
  have h: "(of_char (hex_digit k) :: nat) < 128" if "k < 16" for k
  proof -
    have "\<forall>k \<in> set [0..<16]. (of_char (hex_digit k) :: nat) < 128" by code_simp
    with that show ?thesis by simp
  qed
  have "is_ascii (hexdigest bs)" if "bytes bs" for bs
    using that by (induction bs) (auto simp: hexdigest_def hex_byte_def h less_mult_imp_div_less)
  then show ?thesis by (simp add: hash_recovery_code_def)
qed

lemma length_hexdigest_8: "length bs = 8 \<Longrightarrow> length (upper (hexdigest bs)) = 16"
  by simp

text \<open>A recovery code has dashes, so it is never taken for a code of the authenticator.\<close>

lemma generated_not_digits:
  assumes "\<And>i. length (os_random env 8 i) = 8" and "fst (generate_recovery_code env s) = Inr c"
  shows "\<not> isdigit c"
proof -
  define v where "v = upper (hexdigest (os_random env 8 (uuid_src s (uuid_next s))))"
  have l: "length v = 16" using assms(1) by (simp add: v_def)
  have "c = join ''-'' (map (\<lambda>i. take 4 (drop (4 * i) v)) [0..<4])"
    using assms(2) by (simp add: generate_apply v_def [symmetric] Let_def l)
  then have "CHR ''-'' \<in> set c" by (simp add: upt_rec numeral_eq_Suc)
  moreover have "\<not> is_digit (CHR ''-'')" "(of_char (CHR ''-'') :: nat) \<notin> {178, 179, 185}" by simp_all
  ultimately show ?thesis by (auto simp: isdigit_def list_all_iff dest!: bspec [of _ _ "CHR ''-''"])
qed

lemma put_user_found:
  assumes "find_user i d = Some x" and "u_id u' = i"
  shows "t_find (\<lambda>u. u_id u = i) (t_flush (t_put u_id u' (users d))) = Some u'"
proof -
  have "t_find (\<lambda>u. u_id u = i) (t_put u_id u' (users d)) = Some u'"
    using assms by (subst t_find_put) (auto simp: find_user_def dest: t_find_SomeD)
  then show ?thesis by (rule t_find_flush_present)
qed

text \<open>C20: Confirming a second factor hands out eight recovery codes, and each of them is accepted as a
  second factor of the user that was stored.
\<close>

theorem recovery_codes_work:
  assumes "confirm_mfa_enrollment env u code now s = (Inr cs, s1)"
    and "\<forall>i. length (os_random env 8 i) = 8"
    and "find_user (u_id u) (work s) = Some u" and "c \<in> set cs"
  shows "length cs = 8 \<and> (\<exists>u'. find_user (u_id u) (work s1) = Some u'
     \<and> (\<exists>u'' t'. verify_mfa_challenge env u' c now' t = (Inr (True, u''), t')))"
proof (rule confirm_steps [OF assms(1)])
  fix e k s2
  assume g: "map_act (\<lambda>_. generate_recovery_code env) [0..<RECOVERY_CODE_COUNT] s = (Inr cs, s2)"
    and run: "bnd (put_user (confirmed env u e k cs)) (\<lambda>_.
       bnd (add_audit (u_id u) None ''user.mfa.enabled'' ''WARNING''
         [(''user_id'', PStr (u_id u)), (''recovery_code_count'', PInt (int (length cs))),
          (''new_auth_version'', PInt (u_auth_version u + 1))]) (\<lambda>_.
         bnd commit (\<lambda>_. ret cs))) s2 = (Inr cs, s1)"
  let ?u = "confirmed env u e k cs"
  have s2: "s2 = s\<lparr>uuid_next := uuid_next s + 8\<rparr>" and l: "length cs = 8"
    and gen: "\<exists>s'. fst (generate_recovery_code env s') = Inr c"
    using map_act_generate [of env "[0..<RECOVERY_CODE_COUNT]" s] g assms(4) by (auto simp: RECOVERY_CODE_COUNT_def)
  have "users (work s1) = t_flush (t_put u_id ?u (users (work s)))"
    using run by (auto simp: put_user_def add_audit_apply Let_def bnd_commit s2 split: if_splits)
  then have f: "find_user (u_id u) (work s1) = Some ?u"
    using put_user_found [OF assms(3), of ?u] by (simp add: find_user_def confirmed_def)
  have nd: "\<not> isdigit c" using gen generated_not_digits assms(2) by blast
  define h where "h = hash_recovery_code env c"
  have "remaining_hashes h (map (hash_recovery_code env) cs) = Inr (filter (\<lambda>x. x \<noteq> h) (map (hash_recovery_code env) cs))"
    unfolding h_def by (rule remaining_hashes_ascii) (auto simp: hash_ascii)
  then have r: "remaining_hashes (hash_recovery_code env (normalize_recovery_code c)) (u_mfa_recovery_code_hashes ?u) =
      Inr (filter (\<lambda>x. x \<noteq> h) (map (hash_recovery_code env) cs))"
    by (simp add: hash_normalized h_def confirmed_def)
  have "h \<in> set (map (hash_recovery_code env) cs)" using assms(4) by (simp add: h_def)
  then have "length (filter (\<lambda>x. x \<noteq> h) (map (hash_recovery_code env) cs)) < length (map (hash_recovery_code env) cs)"
    by (intro length_filter_less) auto
  then have n: "length (filter (\<lambda>x. x \<noteq> h) (map (hash_recovery_code env) cs)) \<noteq> length (u_mfa_recovery_code_hashes ?u)"
    by (simp add: confirmed_def)
  show ?thesis
    using f l verify_recovery(2) [of ?u e c env _ now' t, OF _ _ nd r n] by (auto simp: confirmed_def)
qed

theorem recovery_codes_work_witness:
  "\<exists>(u' :: user) c u'' t'. verify_mfa_challenge sample_env u' c None sample_session = (Inr (True, u''), t')"
proof -
  obtain cs s1 where c: "confirm_mfa_enrollment sample_env enrolling_user ''123456'' None enrolling_session = (Inr cs, s1)" "cs \<noteq> []"
    using enrolling_confirm by blast
  have f: "find_user (u_id enrolling_user) (work enrolling_session) = Some enrolling_user"
    by (simp add: enrolling_db_def find_user_def t_find_def)
  have "hd cs \<in> set cs" using c(2) by simp
  from recovery_codes_work [OF c(1) _ f this] show ?thesis by (simp del: enrolling_sel) blast
qed

section \<open>Registration and login\<close>

lemma create_user_apply:
  assumes "settled (work s)" and "\<And>i. bytes (os_random env 16 i)"
    and "find_email_or_username e m (work s) = None"
  obtains h d where "verify_password p h = Inr True"
    "d = (work s)\<lparr>users := t_flush (t_add (new_user e m h NORMAL_USER (uuid_src s (Suc (uuid_next s)))) (users (work s)))\<rparr>"
    "settled d"
    "create_user env e m p s = (Inr (new_user e m h NORMAL_USER (uuid_src s (Suc (uuid_next s)))),
       s\<lparr>uuid_next := Suc (Suc (uuid_next s)), work := d, saved := d\<rparr>)"
proof -
  obtain h where h: "hash_password env p s = (Inr h, s\<lparr>uuid_next := Suc (uuid_next s)\<rparr>)" "verify_password p h = Inr True"
    using hash_password_apply [OF assms(2)] by blast
  define u where "u = new_user e m h NORMAL_USER (uuid_src s (Suc (uuid_next s)))"
  define d where "d = (work s)\<lparr>users := t_flush (t_add u (users (work s)))\<rparr>"
  note pend = settled_pend(1) [OF assms(1)]
  have none: "\<forall>x \<in> set (rows (users (work s))). u_email x \<noteq> e \<and> u_username x \<noteq> m"
    using assms(3) by (auto simp: find_email_or_username_def t_find_def find_None_iff)
  have all: "t_all (users (work s)) = rows (users (work s))" using pend by (rule t_all_settled)
  have q: "db_unique ((work s)\<lparr>users := t_add u (users (work s))\<rparr>)"
    using settledD(2) [OF assms(1)] none by (auto simp: db_unique_def all u_def new_user_def)
  have d: "d = db_flush ((work s)\<lparr>users := t_add u (users (work s))\<rparr>)"
    using settledD(1) [OF assms(1)] by (simp add: d_def db_flush_update)
  have "settled d" unfolding d by (rule settled_db_flush [OF q])
  moreover have "create_user env e m p s = (Inr u, s\<lparr>uuid_next := Suc (Suc (uuid_next s)), work := d, saved := d\<rparr>)"
    by (simp add: create_user_def assms(3) bnd_Inr [where m = "hash_password env p", OF h(1)] Let_def add_user_def
        bnd_commit u_def [symmetric] q d)
  ultimately show thesis using that h(2) unfolding u_def d_def by blast
qed

lemma try_except_ok: "m s = (Inr a, s') \<Longrightarrow> try_except m h s = (Inr a, s')"
  by (simp add: try_except_def)

definition access_token_at :: "auth_env \<Rightarrow> user \<Rightarrow> session \<Rightarrow> string" where
  "access_token_at env u s =
     token_text env (token_payload (u_id u) (u_auth_version u) ''access'' (clock s + jwt_expires_minutes env * minute))"

lemma login_apply:
  assumes "find_email_or_username x x (work s) = Some u" and "u_is_active u" and "\<not> u_mfa_enabled u"
    and "0 \<le> clock s + jwt_expires_minutes env * minute" and "clock s + jwt_expires_minutes env * minute < dt_max"
  shows "verify_password p (u_password_hash u) = Inr True \<Longrightarrow>
      login env \<lparr>lr_username_or_email = x, lr_password = p, lr_mfa_code = c\<rparr> s =
        (Inr \<lparr>tk_access_token = access_token_at env u s, tk_token_type = ''bearer''\<rparr>, s)"
    and "verify_password p (u_password_hash u) = Inr False \<Longrightarrow>
      login env \<lparr>lr_username_or_email = x, lr_password = p, lr_mfa_code = c\<rparr> s =
        (Inl (HTTPException 401 [''invalid username/email, password, or mfa code'']), s)"
proof -
  note t = create_token_apply [OF assms(4,5), of env "u_id u" "u_auth_version u" "''access''"]
  assume v: "verify_password p (u_password_hash u) = Inr True"
  have "authenticate_user env x p c s = (Inr (Some u), s)"
    using assms v by (simp add: authenticate_user_def)
  from try_except_ok [where m = "authenticate_user env x p c" and h = on_mfa_required, OF this]
  show "login env \<lparr>lr_username_or_email = x, lr_password = p, lr_mfa_code = c\<rparr> s =
        (Inr \<lparr>tk_access_token = access_token_at env u s, tk_token_type = ''bearer''\<rparr>, s)"
    by (simp add: login_def bnd_def create_access_token_def t access_token_at_def)
next
  assume v: "verify_password p (u_password_hash u) = Inr False"
  have "authenticate_user env x p c s = (Inr None, s)"
    using assms v by (simp add: authenticate_user_def)
  from try_except_ok [where m = "authenticate_user env x p c" and h = on_mfa_required, OF this]
  show "login env \<lparr>lr_username_or_email = x, lr_password = p, lr_mfa_code = c\<rparr> s =
        (Inl (HTTPException 401 [''invalid username/email, password, or mfa code'']), s)"
    by (simp add: login_def bnd_def unauthorized_def)
qed

lemma unix_seconds_mono:
  assumes "a \<le> b"
  shows "unix_seconds a \<le> unix_seconds b"
proof -
  have "0 \<le> (epoch - a) div 1000000" if "a < epoch" using that by (simp add: pos_imp_zdiv_nonneg_iff)
  moreover have "0 \<le> (b - epoch) div 1000000" if "epoch \<le> b" using that by (simp add: pos_imp_zdiv_nonneg_iff)
  moreover have "(a - epoch) div 1000000 \<le> (b - epoch) div 1000000" using assms by (simp add: zdiv_mono1)
  moreover have "(epoch - b) div 1000000 \<le> (epoch - a) div 1000000" using assms by (simp add: zdiv_mono1)
  ultimately show ?thesis using assms unfolding unix_seconds_def by (smt (verit))
qed

lemma access_token_accepted:
  assumes "find_user (u_id u) (work s) = Some u" and "u_is_active u" and "u_id u \<noteq> []" and "0 \<le> jwt_expires_minutes env"
  shows "get_current_user env (access_token_at env u s) s = (Inr u, s)"
proof -
  have "unix_seconds (clock s) \<le> unix_seconds (clock s + jwt_expires_minutes env * minute)"
    using assms(4) by (intro unix_seconds_mono) (simp add: minute_def)
  from get_current_user_token [OF assms(1,2,3) this] show ?thesis by (simp add: access_token_at_def)
qed

lemma register_apply:
  "create_user env e n p s = (Inr u, s') \<Longrightarrow> register env \<lparr>rr_email = e, rr_username = n, rr_password = p\<rparr> s = (Inr (to_user_response u), s')"
  using try_except_ok [of "create_user env e n p" s u s' on_duplicate] by (simp add: register_def bnd_def)

lemma new_user_sel [simp]:
  "u_id (new_user e m h r i) = i" "u_email (new_user e m h r i) = e" "u_username (new_user e m h r i) = m"
  "u_password_hash (new_user e m h r i) = h" "u_role (new_user e m h r i) = r" "u_is_active (new_user e m h r i)"
  "\<not> u_mfa_enabled (new_user e m h r i)" "u_auth_version (new_user e m h r i) = 0"
  by (simp_all add: new_user_def)

text \<open>C17: Whoever registers can log in, with the email or with the user name, and the token the login
  returns is accepted for the registered user, who has no administrative role.
\<close>

theorem registered_user_can_log_in:
  assumes "settled (work s)" and "\<forall>i. bytes (os_random env 16 i)"
    and "\<forall>u \<in> set (rows (users (work s))). u_email u \<notin> {e, n} \<and> u_username u \<notin> {e, n}"
    and "\<forall>u \<in> set (rows (users (work s))). u_id u \<noteq> uuid_src s (Suc (uuid_next s))"
    and "uuid_src s (Suc (uuid_next s)) \<noteq> []" and "x = e \<or> x = n"
    and "0 \<le> jwt_expires_minutes env" and "0 \<le> clock s" and "clock s + jwt_expires_minutes env * minute < dt_max"
  shows "\<exists>s1 token u. register env \<lparr>rr_email = e, rr_username = n, rr_password = p\<rparr> s = (Inr (to_user_response u), s1)
     \<and> login env \<lparr>lr_username_or_email = x, lr_password = p, lr_mfa_code = None\<rparr> s1 =
         (Inr \<lparr>tk_access_token = token, tk_token_type = ''bearer''\<rparr>, s1)
     \<and> get_current_user env token s1 = (Inr u, s1)
     \<and> u_email u = e \<and> u_username u = n \<and> u_role u = NORMAL_USER"
proof -
  have none: "find_email_or_username e n (work s) = None"
    using assms(3) by (auto simp: find_email_or_username_def t_find_def find_None_iff)
  obtain h d where h: "verify_password p h = Inr True"
    "d = (work s)\<lparr>users := t_flush (t_add (new_user e n h NORMAL_USER (uuid_src s (Suc (uuid_next s)))) (users (work s)))\<rparr>"
    "create_user env e n p s = (Inr (new_user e n h NORMAL_USER (uuid_src s (Suc (uuid_next s)))),
       s\<lparr>uuid_next := Suc (Suc (uuid_next s)), work := d, saved := d\<rparr>)"
    using create_user_apply [OF assms(1) _ none, of env p] assms(2) by blast
  define u where "u = new_user e n h NORMAL_USER (uuid_src s (Suc (uuid_next s)))"
  define s1 where "s1 = s\<lparr>uuid_next := Suc (Suc (uuid_next s)), work := d, saved := d\<rparr>"
  note pend = settled_pend(1) [OF assms(1)]
  have f: "find_email_or_username x x (work s1) = Some u"
    unfolding s1_def h(2) find_email_or_username_def u_def [symmetric]
    using pend assms(3,6) by (simp, intro t_find_added) (auto simp: t_find_def find_None_iff u_def)
  have i: "find_user (u_id u) (work s1) = Some u"
    unfolding s1_def h(2) find_user_def u_def [symmetric]
    using pend assms(4) by (simp, intro t_find_added) (auto simp: t_find_def find_None_iff u_def)
  have c: "clock s1 = clock s" by (simp add: s1_def)
  have m: "0 \<le> clock s + jwt_expires_minutes env * minute" using assms(7,8) by (simp add: minute_def)
  have "login env \<lparr>lr_username_or_email = x, lr_password = p, lr_mfa_code = None\<rparr> s1 =
         (Inr \<lparr>tk_access_token = access_token_at env u s1, tk_token_type = ''bearer''\<rparr>, s1)"
    by (rule login_apply(1) [OF f]) (use c m h(1) assms(9) in \<open>simp_all add: u_def\<close>)
  moreover have "get_current_user env (access_token_at env u s1) s1 = (Inr u, s1)"
    by (rule access_token_accepted [OF i]) (use assms in \<open>simp_all add: u_def\<close>)
  moreover have "register env \<lparr>rr_email = e, rr_username = n, rr_password = p\<rparr> s = (Inr (to_user_response u), s1)"
    by (rule register_apply) (simp add: h(3) u_def s1_def)
  ultimately show ?thesis by (intro exI [of _ s1] exI [of _ "access_token_at env u s1"] exI [of _ u]) (simp add: u_def)
qed

theorem registered_user_can_log_in_witness:
  "\<exists>s1 token u. register sample_env \<lparr>rr_email = ''b@x.io'', rr_username = ''bob'', rr_password = ''a long password''\<rparr> sample_session
       = (Inr (to_user_response u), s1)
     \<and> login sample_env \<lparr>lr_username_or_email = ''bob'', lr_password = ''a long password'', lr_mfa_code = None\<rparr> s1 =
         (Inr \<lparr>tk_access_token = token, tk_token_type = ''bearer''\<rparr>, s1)
     \<and> get_current_user sample_env token s1 = (Inr u, s1)
     \<and> u_email u = ''b@x.io'' \<and> u_username u = ''bob'' \<and> u_role u = NORMAL_USER"
proof (rule registered_user_can_log_in)
  show "settled (work sample_session)" by (simp add: sample_settled)
  show "\<forall>i. bytes (os_random sample_env 16 i)" by (simp add: bytes_def list_all_iff)
qed (simp_all add: sample_db_def sample_user_def sample_uuid_def minute_def dt_max_def)

definition protected_user :: "string \<Rightarrow> user" where
  "protected_user h = sample_user\<lparr>u_mfa_enabled := True, u_mfa_secret_encrypted := Some ''JBSWY3DP'', u_password_hash := h\<rparr>"

definition protected_session :: "string \<Rightarrow> session" where
  "protected_session h = (let d = sample_db\<lparr>users := \<lparr>rows = [protected_user h], pend = []\<rparr>\<rparr> in
     sample_session\<lparr>work := d, saved := d\<rparr>)"

lemma protected_login:
  assumes "verify_password p h = Inr True"
  shows "\<exists>tk s1 v. login sample_env \<lparr>lr_username_or_email = ''alice'', lr_password = p, lr_mfa_code = Some ''123456''\<rparr>
      (protected_session h) = (Inr tk, s1) \<and> find_user ''alice'' (work (close s1)) = Some v"
proof -
  let ?s = "protected_session h"
  let ?k = "unix_seconds 0 div 30 + -1"
  let ?u = "protected_user h\<lparr>u_mfa_last_used_step := Some ?k\<rparr>"
  let ?d = "sample_db\<lparr>users := \<lparr>rows = [?u], pend = []\<rparr>\<rparr>"
  have i: "isdigit ''123456''" by (simp add: isdigit_def is_digit_def digit_chars_def)
  have m: "match_totp sample_env ''JBSWY3DP'' ''123456'' None 0 = Inr (Some ?k)"
    by (simp add: match_totp_def i TOTP_VALID_WINDOW_def TOTP_INTERVAL_SECONDS_def
        compare_digest_def is_ascii_def upto.simps)
  have "verify_mfa_challenge sample_env (protected_user h) ''123456'' None ?s =
      (Inr (True, ?u), ?s\<lparr>work := ?d\<rparr>)"
    by (simp add: verify_mfa_challenge_def protected_user_def sample_user_def i instant_def protected_session_def Let_def m
        put_user_def t_put_def t_map_def)
  moreover have "settled ?d"
    using sample_settled
    by (simp add: settled_def db_flush_update t_flush_def t_all_def) (simp add: db_unique_def t_all_def)
  ultimately have a: "authenticate_user sample_env ''alice'' p (Some ''123456'') ?s = (Inr (Some ?u), ?s\<lparr>work := ?d, saved := ?d\<rparr>)"
    using assms settledD [of ?d]
    by (simp add: authenticate_user_def protected_session_def Let_def find_email_or_username_def t_find_def bnd_def [of "verify_mfa_challenge _ _ _ _"]
        bnd_commit) (simp add: protected_user_def sample_user_def bnd_def commit_apply)
  have c: "0 \<le> clock (?s\<lparr>work := ?d, saved := ?d\<rparr>) + 60 * minute" "clock (?s\<lparr>work := ?d, saved := ?d\<rparr>) + 60 * minute < dt_max"
    by (simp_all add: protected_session_def Let_def minute_def dt_max_def)
  have "\<exists>tk. login sample_env \<lparr>lr_username_or_email = ''alice'', lr_password = p, lr_mfa_code = Some ''123456''\<rparr> ?s =
      (Inr tk, ?s\<lparr>work := ?d, saved := ?d\<rparr>)"
    using try_except_ok [where m = "authenticate_user sample_env ''alice'' p (Some ''123456'')" and h = on_mfa_required, OF a]
      create_token_apply [OF c, of sample_env "u_id ?u" "u_auth_version ?u" "''access''"]
    by (simp add: login_def bnd_def create_access_token_def)
  moreover have "find_user ''alice'' (work (close (?s\<lparr>work := ?d, saved := ?d\<rparr>))) = Some ?u"
    by (simp add: close_def find_user_def t_find_def protected_user_def sample_user_def)
  ultimately show ?thesis by blast
qed

lemma protected_found:
  "find_email_or_username ''alice'' ''alice'' (work (protected_session h)) = Some (protected_user h)"
  "u_mfa_enabled (protected_user h)" "u_id (protected_user h) = ''alice''" "clock (protected_session h) = 0"
  by (simp_all add: protected_session_def Let_def find_email_or_username_def t_find_def protected_user_def sample_user_def)

theorem second_factor_works_once_witness:
  "\<exists>h tk s1 v step. login sample_env \<lparr>lr_username_or_email = ''alice'', lr_password = ''pw'', lr_mfa_code = Some ''123456''\<rparr>
      (protected_session h) = (Inr tk, s1) \<and> find_user ''alice'' (work (close s1)) = Some v
    \<and> \<bar>step - unix_seconds 0 div 30\<bar> \<le> 1
    \<and> (\<forall>code now v' t'. isdigit code \<longrightarrow> verify_mfa_challenge sample_env v code now (close s1) = (Inr (True, v'), t') \<longrightarrow>
         (\<exists>step' secret. otp_at sample_env secret 30 (step' * 30) = Inr code \<and> step < step'))"
proof -
  have bytes: "bytes (os_random sample_env 16 i)" for i by (simp add: bytes_def list_all_iff)
  obtain h where "verify_password ''pw'' h = Inr True" using hash_password_apply [OF bytes, of "''pw''" sample_session] by blast
  from protected_login [OF this] obtain tk s1 v where l: "login sample_env \<lparr>lr_username_or_email = ''alice'', lr_password = ''pw'',
      lr_mfa_code = Some ''123456''\<rparr> (protected_session h) = (Inr tk, s1)" and f: "find_user ''alice'' (work (close s1)) = Some v"
    by blast
  have i: "isdigit ''123456''" by (simp add: isdigit_def is_digit_def digit_chars_def)
  have "\<exists>step. \<bar>step - unix_seconds 0 div 30\<bar> \<le> 1
    \<and> (\<forall>code now v' t'. isdigit code \<longrightarrow> verify_mfa_challenge sample_env v code now (close s1) = (Inr (True, v'), t') \<longrightarrow>
         (\<exists>step' secret. otp_at sample_env secret 30 (step' * 30) = Inr code \<and> step < step'))"
    using second_factor_works_once [OF l, of "protected_user h" "''123456''", OF _ _ _ spared_start, of v] i f protected_found [of h]
    by (simp del: sample_env_sel) blast
  with l f show ?thesis by blast
qed

text \<open>After a registration on the sample session there are two users, who both satisfy what the requests keep.\<close>

lemma sample_registered:
  "\<exists>t u. user_traffic sample_env sample_session t \<and> u_email u = ''b@x.io'' \<and> find_user (u_id u) (work t) = Some u
     \<and> find_user ''alice'' (work t) = Some sample_user"
proof -
  have s: "settled (work sample_session)" using sample_settled by simp
  have bytes: "bytes (os_random sample_env 16 i)" for i by (simp add: bytes_def list_all_iff)
  have none: "find_email_or_username ''b@x.io'' ''bob'' (work sample_session) = None"
    by (simp add: find_email_or_username_def t_find_def sample_db_def sample_user_def)
  obtain h d where d: "d = (work sample_session)\<lparr>users := t_flush (t_add (new_user ''b@x.io'' ''bob'' h NORMAL_USER
        (uuid_src sample_session (Suc (uuid_next sample_session)))) (users (work sample_session)))\<rparr>"
    and c: "create_user sample_env ''b@x.io'' ''bob'' ''a long password'' sample_session =
      (Inr (new_user ''b@x.io'' ''bob'' h NORMAL_USER (uuid_src sample_session (Suc (uuid_next sample_session)))),
       sample_session\<lparr>uuid_next := Suc (Suc (uuid_next sample_session)), work := d, saved := d\<rparr>)"
    using create_user_apply [OF s bytes none, of "''a long password''"] by blast
  let ?u = "new_user ''b@x.io'' ''bob'' h NORMAL_USER (sample_uuid 1)"
  let ?q = "Register \<lparr>rr_email = ''b@x.io'', rr_username = ''bob'', rr_password = ''a long password''\<rparr>"
  have "work (close (snd (serve sample_env ?q sample_session))) = d"
    using register_apply [OF c] by (simp add: answer_def bnd_def close_def)
  moreover have "user_traffic sample_env sample_session (close (snd (serve sample_env ?q sample_session)))"
    by (rule user_traffic.request [OF user_traffic.start])
  moreover have "find_user (u_id ?u) d = Some ?u" "find_user ''alice'' d = Some sample_user"
    by (simp_all add: d find_user_def t_find_def sample_db_def t_flush_def t_add_def t_all_def sample_user_def sample_uuid_def)
  ultimately show ?thesis by (intro exI [of _ "close (snd (serve sample_env ?q sample_session))"] exI [of _ ?u]) simp
qed

theorem mfa_state_is_consistent_witness:
  "\<exists>t u. user_traffic sample_env sample_session t \<and> u_email u = ''b@x.io'' \<and> find_user (u_id u) (work t) = Some u
     \<and> mfa_consistent u"
proof -
  obtain t u where t: "user_traffic sample_env sample_session t" and u: "u_email u = ''b@x.io''" "find_user (u_id u) (work t) = Some u"
    using sample_registered by blast
  have "\<forall>u \<in> set (t_all (users (work sample_session))) \<union> set (t_all (users (saved sample_session))). mfa_consistent u"
    by (simp add: sample_users mfa_consistent_def sample_user_def)
  from mfa_state_is_consistent [OF t this u(2)] t u show ?thesis by blast
qed

theorem requests_make_no_administrators_witness:
  "\<exists>t u. user_traffic sample_env sample_session t \<and> u_email u = ''b@x.io'' \<and> find_user (u_id u) (work t) = Some u
     \<and> find_user ''alice'' (work t) = Some sample_user
     \<and> (\<exists>r \<in> set (t_all (users (work sample_session))) \<union> set (t_all (users (saved sample_session))).
          u_id r = ''alice'' \<and> u_role r \<noteq> NORMAL_USER)"
proof -
  obtain t u where t: "user_traffic sample_env sample_session t" and u: "u_email u = ''b@x.io''" "find_user (u_id u) (work t) = Some u"
    and a: "find_user ''alice'' (work t) = Some sample_user"
    using sample_registered by blast
  have "u_role sample_user \<noteq> NORMAL_USER" by (simp add: sample_user_def)
  from requests_make_no_administrators [OF t a this] t u a show ?thesis by blast
qed

text \<open>A token for one purpose is refused for the other.\<close>

theorem tokens_are_not_interchangeable:
  "fst (get_current_user env (token_text env (token_payload u v ''reauthentication'' x)) s) \<noteq> Inr r"
  "fst (get_reauthenticated_user env w (Some (token_text env (token_payload u v ''access'' x))) s) \<noteq> Inr r"
proof -
  note d = token_decodes [OF token_payload_plain, of env u v _ x s]
  show "fst (get_current_user env (token_text env (token_payload u v ''reauthentication'' x)) s) \<noteq> Inr r"
    using d [of "''reauthentication''"] by (simp add: get_current_user_def bnd_def unauthorized_def token_payload_def dict_get_or_def)
  show "fst (get_reauthenticated_user env w (Some (token_text env (token_payload u v ''access'' x))) s) \<noteq> Inr r"
    using d [of "''access''"] by (simp add: get_reauthenticated_user_def bnd_def unauthorized_def token_payload_def)
qed

text \<open>
  A bearer token whose last part has a character outside ASCII is not answered with 401: comparing
  the signatures raises \<open>TypeError\<close>, which nothing catches.
\<close>

theorem foreign_token_is_an_error:
  assumes "CHR ''.'' \<notin> set h" and "CHR ''.'' \<notin> set b" and "\<not> is_ascii g"
  shows "as_user env (h @ ''.'' @ b @ ''.'' @ g) route s = (Inl TypeError, s)"
  using foreign_signature [OF assms, of env s]
  by (simp add: as_user_def get_current_user_def bnd_def)

end
