(* ===== verification/Spec2Isabelle.thy ===== *)
theory Spec2Isabelle
  imports Order_Trails Position_Reconciliation Phase4_Reviews User_Access
begin

text \<open>
  Verification of the crypto copy-trading platform (\<open>src/backend/app\<close>, Python).

  \<^bold>\<open>The program.\<close> Users register exchange accounts and store encrypted API keys for them. A trading signal is
  executed on an account by a simulated order engine behind a risk check. On the test networks of Binance, Bybit and
  OKX, real orders are sent after a gate, a recorded approval and a rate limiter let them pass; their fate is learnt
  from the exchange by reconciliation and by a private stream. An emergency stop forbids all new orders. Everything
  works on one database through a SQLAlchemy session; routes translate exceptions into HTTP answers.

  \<^bold>\<open>How Python is read.\<close> \<open>Prelude\<close> has the exceptions as the datatype \<open>py_exc\<close> and a function with effects as an
  action \<open>state \<Rightarrow> (exception + value) \<times> state\<close>, so that every raise is a branch and a failed call keeps the effects
  it had. \<open>Py_Decimal\<close> is \<open>decimal.Decimal\<close> in the default context (sign, coefficient, exponent; 28 digits, half to
  even), \<open>Py_Value\<close> the JSON values, \<open>Py_Json\<close> their printer and parser and the URL-safe base64, each with its round
  trip, \<open>Py_Hmac\<close> SHA-256 on 32-bit words, HMAC and base64. \<open>Db\<close> has the tables
  (\<open>db/models\<close>) as records and the session: queries see flushed rows only (\<open>autoflush=False\<close>), \<open>flush\<close> checks the
  unique constraints, \<open>commit\<close> saves, \<open>close\<close> drops what was not saved. The session also records what leaves the
  program: HTTP requests (\<open>wire\<close>), use of web sockets (\<open>sockets\<close>), calls of the alert runtime (\<open>outbox\<close>).

  \<^bold>\<open>Components.\<close> Each theory names the files it translates.
  \<^item> \<open>Order_State_Machine\<close>: the table of status changes and the trail (\<open>services/order_state_machine.py\<close>). Invariant of
    all trails by rule induction; terminal orders are final; in every run of changes an order makes progress.
  \<^item> \<open>Emergency_Stop\<close>: the stop and its routes. Activation switches every flag off, deactivation none on.
  \<^item> \<open>Exchange_Accounts\<close>: accounts, keys, permissions and their routes. Keys read back; accounts are private.
  \<^item> \<open>Risk_Engine\<close>, \<open>Position_Engine\<close>, \<open>Mock_Exchange\<close>, \<open>Order_Engine\<close>: settings and the check of an order, positions,
    the in-memory exchange, the execution of a signal with its route. The check passes exactly under its conditions;
    an execution fills or fails as the check says, is idempotent, and brings a position to its target.
  \<^item> \<open>Testnet_Gate\<close>, \<open>Rate_Limit\<close>, \<open>Http_Client\<close>, \<open>Testnet_Submission\<close>: gate, window and approval, the limiter, the signed
    client, and the route that submits an order. Orders leave only when admitted, signatures verify, windows admit
    the first calls up to their limit, every outcome is recorded, a resubmission is a replay, stored answers hold no entry
    under the listed credential names.
  \<^item> \<open>Testnet_Lifecycle\<close>: order events and reconciliation. An event moves at most one order along an allowed step;
    reconciliation looks every pending order up and only reads. The locale \<open>order_effects\<close> says through which three
    doors both write.
  \<^item> \<open>Account_Sync\<close>: balances and positions from the stream. An event refines the update of a map of holdings, and
    every stored row stays sane over any sequence of events.
  \<^item> \<open>User_Stream\<close>: the private stream from plan to route. It is bounded and only listens, and does to the
    database what its handler does (\<open>stream_effects\<close>).
  \<^item> \<open>Order_Trails\<close>: all requests that write orders, in any sequence. Every order found in a status of the exchange has
    passed the risk check before it was submitted.
  \<^item> \<open>Notifications\<close>: in-app notifications and preferences. Stored payloads are clean; the routes lose their changes.
  \<^item> \<open>Position_Reconciliation\<close>: comparison of positions, hooks, worker and repair proposals. The report equals the
    specification over rational sums; proposals close the gap.
  \<^item> \<open>Exchange_Adapters\<close>, \<open>Read_Only_Checks\<close>: the read-only adapters with their factory, the checks of credentials and the
    reading of production accounts. They send GET requests only, return balances as the answer lists them, and every
    check is audited.
  \<^item> \<open>Security\<close>, \<open>Users\<close>, \<open>User_Access\<close>: password hashes and signed tokens (\<open>core/security.py\<close>), users, second factors,
    the dependencies of the routes, the routes and the bootstrap, and what holds of any sequence of their requests:
    whoever registers can log in, a changed credential revokes all tokens, a second factor works once, nobody
    becomes an administrator, the fields of the second factor agree.
  \<^item> \<open>Phase4_Reviews\<close>: the readiness report, the small-fund review, the order window and the final release check of a
    production account. The audit log is a trail in which every decision rests on earlier ones; a final check is
    recorded exactly under its conditions; the requests add entries and nothing else.
  \<^item> \<open>Samples\<close>: the rows on which the witnesses run the operations.

  \<^bold>\<open>Interfaces.\<close> Locales state what one part relies on in another, and are interpreted on the model: \<open>db_invariant\<close>
  (an invariant that every operation preserves), \<open>get_or_create\<close>, \<open>owned_rows\<close>, \<open>exchange_adapter\<close>, \<open>reason_gate\<close>,
  \<open>window_store\<close>, \<open>keyed_upsert\<close>, \<open>owned_table\<close>, \<open>user_row_law\<close> (with users who confirm no enrollment), and
  \<open>order_effects\<close> with its extension \<open>stream_effects\<close>, each interpreted for the trails, the flags and the stored balances. The rule collections \<open>preserves_rules\<close>, \<open>silent_rules\<close> and
  \<open>emits_rules\<close> carry, by the structure of a program, what it preserves and what it sends.

  \<^bold>\<open>Loops.\<close> Loops over rows, messages and characters recurse on lists, the reconnects of the stream on the number that is
  left, the remaining ones on a measure; all functions are total. Only the JSON parser has fuel, twice the length of
  the text and one, which \<open>jvalue_fuel\<close> shows to be enough.

  \<^bold>\<open>Parameters.\<close> The network (\<open>network\<close>), the websocket peer (\<open>dialer\<close>), the Redis commands, the Fernet cipher and the
  supply of uuids are arguments, and for the users the authenticator, the check of email addresses, the source of
  random bytes and the printing of floats (\<open>auth_env\<close>); what is assumed of them is a named hypothesis (\<open>cipher_ok\<close>, \<open>answers_objects\<close>) or part
  of an invariant (uuids not yet used). Settings are arguments of the routes.

  \<^bold>\<open>Idealisations.\<close> A numeric column holds the assigned value exactly; foreign keys and string lengths are not checked;
  rows with the same sort key keep the order of the table, of which the newest is the last inserted (\<open>latest\<close>); a query
  without an order that is read for one row gives the first inserted match (\<open>find_email_or_username\<close>), where a database may
  give any; strings are bytes below 256, and letters are those of ASCII for \<open>upper\<close>, \<open>lower\<close> and \<open>isalnum\<close>
  (\<open>identifier_char\<close>); limits of the decimal exponent and payloads of NaN are left out; one request runs at a time.

  \<^bold>\<open>Not modelled.\<close> The application shell, settings, health and metrics endpoints, delivery of alerts, public market data,
  backup and integration scripts: input, output and glue.
\<close>

end
